(* ===== verification/Prelude.thy ===== *)
theory Prelude
  imports Complex_Main "HOL-Library.AList" "HOL-Library.Char_ord" "HOL-Library.List_Lexorder"
    "HOL-Library.Multiset"
begin

text \<open>
  Shared vocabulary of the development: the Go string functions the services call
  (package \<open>strings\<close>), association lists for Go maps whose keys are enumerated, JSON values,
  and the two interfaces (locales) several components share: a list that is only extended
  through a key (\<open>keyed_add\<close>) and a status machine with terminal states (\<open>status_machine\<close>).

  A Go string is a list of bytes and is modelled by \<open>string\<close>, a list of 8-bit \<open>char\<close>s.
  \<open>strings.ToLower\<close>, \<open>strings.EqualFold\<close> and \<open>strings.TrimSpace\<close> are modelled on ASCII: a byte
  of 128 or more has no case and is no white space here, so the case and space tables of
  Unicode are outside the model. The order of strings is the lexicographic order of bytes, as
  in \<open>sort.Strings\<close>.
\<close>

section \<open>Collections of facts\<close>

named_theorems go_string "equations of the Go string functions"
named_theorems frame "what an operation leaves unchanged"

section \<open>Package strings\<close>

definition lower_char :: "char \<Rightarrow> char" where
  "lower_char c =
     (if 65 \<le> (of_char c :: nat) \<and> (of_char c :: nat) \<le> 90
      then char_of ((of_char c :: nat) + 32) else c)"

definition to_lower :: "string \<Rightarrow> string" where
  "to_lower s = map lower_char s"

definition upper_char :: "char \<Rightarrow> char" where
  "upper_char c =
     (if 97 \<le> (of_char c :: nat) \<and> (of_char c :: nat) \<le> 122
      then char_of ((of_char c :: nat) - 32) else c)"

definition to_upper :: "string \<Rightarrow> string" where
  "to_upper s = map upper_char s"

definition equal_fold :: "string \<Rightarrow> string \<Rightarrow> bool" where
  "equal_fold a b \<longleftrightarrow> to_lower a = to_lower b"

text \<open>Tab, newline, vertical tab, form feed, carriage return and space.\<close>

definition is_space_char :: "char \<Rightarrow> bool" where
  "is_space_char c \<longleftrightarrow>
     (of_char c :: nat) = 32 \<or> (9 \<le> (of_char c :: nat) \<and> (of_char c :: nat) \<le> 13)"

definition trim_left :: "(char \<Rightarrow> bool) \<Rightarrow> string \<Rightarrow> string" where
  "trim_left p s = dropWhile p s"

definition trim_right :: "(char \<Rightarrow> bool) \<Rightarrow> string \<Rightarrow> string" where
  "trim_right p s = rev (dropWhile p (rev s))"

definition trim_space :: "string \<Rightarrow> string" where
  "trim_space s = trim_right is_space_char (trim_left is_space_char s)"

definition has_prefix :: "string \<Rightarrow> string \<Rightarrow> bool" where
  "has_prefix s p \<longleftrightarrow> take (length p) s = p"

definition has_suffix :: "string \<Rightarrow> string \<Rightarrow> bool" where
  "has_suffix s p \<longleftrightarrow> length p \<le> length s \<and> drop (length s - length p) s = p"

text \<open>\<open>strings.Index\<close>: the first position of a substring.\<close>

fun index_of :: "string \<Rightarrow> string \<Rightarrow> nat option" where
  "index_of [] sub = (if sub = [] then Some 0 else None)"
| "index_of (c # s) sub =
     (if has_prefix (c # s) sub then Some 0 else map_option Suc (index_of s sub))"

definition contains_str :: "string \<Rightarrow> string \<Rightarrow> bool" where
  "contains_str s sub \<longleftrightarrow> index_of s sub \<noteq> None"

text \<open>\<open>strings.Split\<close> with a separator of one byte.\<close>

fun split_on :: "char \<Rightarrow> string \<Rightarrow> string list" where
  "split_on d [] = [[]]"
| "split_on d (c # s) =
     (if c = d then [] # split_on d s
      else case split_on d s of [] \<Rightarrow> [[c]] | w # ws \<Rightarrow> (c # w) # ws)"

text \<open>\<open>strings.SplitN(s, d, 2)\<close>: the text before and after the first separator, if any.\<close>

fun split_first :: "char \<Rightarrow> string \<Rightarrow> (string \<times> string) option" where
  "split_first d [] = None"
| "split_first d (c # s) =
     (if c = d then Some ([], s)
      else map_option (\<lambda>(a, b). (c # a, b)) (split_first d s))"

text \<open>\<open>strings.Join\<close>.\<close>

fun join_str :: "string \<Rightarrow> string list \<Rightarrow> string" where
  "join_str sep [] = []"
| "join_str sep [x] = x"
| "join_str sep (x # y # ys) = x @ sep @ join_str sep (y # ys)"

text \<open>
  \<open>strings.ReplaceAll\<close> for a non-empty pattern: occurrences are found from the left and do
  not overlap. (With an empty pattern Go inserts between runes; the code never does that.)
\<close>

function replace_all :: "string \<Rightarrow> string \<Rightarrow> string \<Rightarrow> string" where
  "replace_all s old new =
     (if s = [] \<or> old = [] then s
      else if has_prefix s old then new @ replace_all (drop (length old) s) old new
      else hd s # replace_all (tl s) old new)"
  by pat_completeness auto
termination
  by (relation "measure (\<lambda>(s, old, new). length s)") auto

declare replace_all.simps [simp del]

text \<open>\<open>strings.ReplaceAll\<close> with a pattern of one byte.\<close>

definition replace_char :: "char \<Rightarrow> string \<Rightarrow> string \<Rightarrow> string" where
  "replace_char c new s = concat (map (\<lambda>x. if x = c then new else [x]) s)"

text \<open>A string literal of the source that is not ASCII, by its UTF-8 bytes.\<close>

definition utf8 :: "nat list \<Rightarrow> string" where
  "utf8 bs = map char_of bs"

text \<open>Decimal rendering (\<open>%d\<close>, \<open>strconv.Itoa\<close>).\<close>

fun show_nat :: "nat \<Rightarrow> string" where
  "show_nat n = (if n < 10 then [char_of (48 + n)]
     else show_nat (n div 10) @ [char_of (48 + n mod 10)])"

declare show_nat.simps [simp del]

definition show_int :: "int \<Rightarrow> string" where
  "show_int i = (if i < 0 then CHR ''-'' # show_nat (nat (- i)) else show_nat (nat i))"

text \<open>The character functions on the bits of a byte, for evaluation.\<close>

lemma lower_char_bits [simp, code]:
  "lower_char (Char b0 b1 b2 b3 b4 b5 b6 b7) =
     (if \<not> b7 \<and> b6 \<and> \<not> b5 \<and> (b0 \<or> b1 \<or> b2 \<or> b3 \<or> b4) \<and> \<not> (b4 \<and> b3 \<and> (b2 \<or> b1 \<and> b0))
      then Char b0 b1 b2 b3 b4 True b6 b7 else Char b0 b1 b2 b3 b4 b5 b6 b7)"
  by (cases b0; cases b1; cases b2; cases b3; cases b4; cases b5; cases b6; cases b7;
      simp add: lower_char_def char_of_def bit_0)

lemma upper_char_bits [simp, code]:
  "upper_char (Char b0 b1 b2 b3 b4 b5 b6 b7) =
     (if \<not> b7 \<and> b6 \<and> b5 \<and> (b0 \<or> b1 \<or> b2 \<or> b3 \<or> b4) \<and> \<not> (b4 \<and> b3 \<and> (b2 \<or> b1 \<and> b0))
      then Char b0 b1 b2 b3 b4 False b6 b7 else Char b0 b1 b2 b3 b4 b5 b6 b7)"
  by (cases b0; cases b1; cases b2; cases b3; cases b4; cases b5; cases b6; cases b7;
      simp add: upper_char_def char_of_def bit_0)

lemma is_space_char_bits [simp, code]:
  "is_space_char (Char b0 b1 b2 b3 b4 b5 b6 b7) =
     (\<not> b7 \<and> \<not> b6 \<and> \<not> b4
      \<and> (b5 \<and> \<not> b3 \<and> \<not> b2 \<and> \<not> b1 \<and> \<not> b0
         \<or> \<not> b5 \<and> b3 \<and> (b0 \<or> b1 \<or> b2) \<and> \<not> (b2 \<and> b1)))"
  by (cases b0; cases b1; cases b2; cases b3; cases b4; cases b5; cases b6; cases b7;
      simp add: is_space_char_def)

lemma to_lower_Nil [simp, go_string]: "to_lower [] = []"
  by (simp add: to_lower_def)

lemma length_to_lower [simp, go_string]: "length (to_lower s) = length s"
  by (simp add: to_lower_def)

lemma to_lower_append [simp, go_string]: "to_lower (s @ t) = to_lower s @ to_lower t"
  by (simp add: to_lower_def)

lemma to_lower_eq_Nil [simp]: "to_lower s = [] \<longleftrightarrow> s = []"
  by (simp add: to_lower_def)

lemma lower_char_idem [simp]: "lower_char (lower_char c) = lower_char c"
  by (auto simp: lower_char_def)

lemma to_lower_idem [simp, go_string]: "to_lower (to_lower s) = to_lower s"
  by (simp add: to_lower_def)

lemma is_space_lower_char [simp]: "is_space_char (lower_char c) = is_space_char c"
  by (auto simp: is_space_char_def lower_char_def)

lemma trim_space_Nil [simp]: "trim_space [] = []"
  by (simp add: trim_space_def trim_left_def trim_right_def)

lemma equal_fold_refl [simp]: "equal_fold s s"
  by (simp add: equal_fold_def)

lemma equal_fold_sym: "equal_fold s t \<longleftrightarrow> equal_fold t s"
  by (auto simp: equal_fold_def)

lemma equal_fold_trans: "equal_fold r s \<Longrightarrow> equal_fold s t \<Longrightarrow> equal_fold r t"
  by (simp add: equal_fold_def)

lemma has_prefix_append [simp]: "has_prefix (p @ s) p"
  by (simp add: has_prefix_def)

lemma has_prefix_iff: "has_prefix s p \<longleftrightarrow> (\<exists>t. s = p @ t)"
  by (metis append_take_drop_id has_prefix_append has_prefix_def)

lemma has_suffix_iff: "has_suffix s p \<longleftrightarrow> (\<exists>t. s = t @ p)"
  by (auto simp: has_suffix_def) (metis append_take_drop_id)

lemma dropWhile_map_lower:
  "dropWhile is_space_char (map lower_char s) = map lower_char (dropWhile is_space_char s)"
  by (induction s) auto

lemma trim_space_to_lower: "trim_space (to_lower s) = to_lower (trim_space s)"
  by (simp add: trim_space_def trim_left_def trim_right_def to_lower_def dropWhile_map_lower
      rev_map)

lemma dropWhile_idem: "dropWhile p (dropWhile p s) = dropWhile p s"
  by (induction s) auto

lemma trim_right_append_not:
  "\<not> p c \<Longrightarrow> trim_right p (c # s) = c # trim_right p s"
  by (simp add: trim_right_def dropWhile_append)

lemma trim_right_left_commute:
  "trim_left p (trim_right p s) = trim_right p (trim_left p s)"
proof (induction s)
  case Nil
  show ?case by (simp add: trim_left_def trim_right_def)
next
  case (Cons c s)
  show ?case
  proof (cases "p c")
    case False
    then show ?thesis by (simp add: trim_left_def trim_right_append_not)
  next
    case True
    show ?thesis
    proof (cases "\<forall>x \<in> set s. p x")
      case True
      with \<open>p c\<close> show ?thesis
        by (auto simp: trim_left_def trim_right_def dropWhile_append dropWhile_eq_Nil_conv
            dest: set_dropWhileD)
    next
      case False
      then have "trim_right p (c # s) = c # trim_right p s"
        by (auto simp: trim_right_def dropWhile_append)
      with Cons \<open>p c\<close> show ?thesis by (simp add: trim_left_def)
    qed
  qed
qed

lemma trim_space_idem [simp]: "trim_space (trim_space s) = trim_space s"
  by (simp add: trim_space_def trim_right_left_commute)
    (simp add: trim_left_def trim_right_def dropWhile_idem)

lemma replace_char_Nil [simp]: "replace_char c new [] = []"
  by (simp add: replace_char_def)

lemma replace_char_Cons [simp]:
  "replace_char c new (x # s) = (if x = c then new else [x]) @ replace_char c new s"
  by (simp add: replace_char_def)

lemma replace_char_append [simp]:
  "replace_char c new (s @ t) = replace_char c new s @ replace_char c new t"
  by (simp add: replace_char_def)

section \<open>Lists\<close>

text \<open>The first value a loop with an early return finds.\<close>

fun first_some :: "'a option list \<Rightarrow> 'a option" where
  "first_some [] = None"
| "first_some (Some x # xs) = Some x"
| "first_some (None # xs) = first_some xs"

lemma first_some_None: "first_some xs = None \<longleftrightarrow> (\<forall>x \<in> set xs. x = None)"
  by (induction xs rule: first_some.induct) auto

lemma first_some_Some: "first_some xs = Some y \<Longrightarrow> Some y \<in> set xs"
  by (induction xs rule: first_some.induct) auto

text \<open>The position of the first element a scan over a slice stops at.\<close>

fun find_index :: "('a \<Rightarrow> bool) \<Rightarrow> 'a list \<Rightarrow> nat option" where
  "find_index p [] = None"
| "find_index p (x # xs) = (if p x then Some 0 else map_option Suc (find_index p xs))"

lemma find_index_None: "find_index p xs = None \<longleftrightarrow> (\<forall>x \<in> set xs. \<not> p x)"
  by (induction xs) auto

lemma find_index_Some:
  "find_index p xs = Some i \<Longrightarrow> i < length xs \<and> p (xs ! i) \<and> (\<forall>j < i. \<not> p (xs ! j))"
proof (induction xs arbitrary: i)
  case Nil
  then show ?case by simp
next
  case (Cons x xs)
  show ?case
  proof (cases "p x")
    case True
    with Cons.prems show ?thesis by simp
  next
    case False
    with Cons.prems obtain k where "find_index p xs = Some k" "i = Suc k" by auto
    with Cons.IH [of k] False show ?thesis by (auto simp: nth_Cons split: nat.splits)
  qed
qed

lemma find_index_distinct:
  assumes "distinct (map f xs)" "i < length xs"
  shows "find_index (\<lambda>x. f x = f (xs ! i)) xs = Some i"
proof (cases "find_index (\<lambda>x. f x = f (xs ! i)) xs")
  case None
  with assms(2) show ?thesis by (auto simp: find_index_None)
next
  case (Some j)
  then have "j < length xs" "f (xs ! j) = f (xs ! i)" by (auto dest: find_index_Some)
  with assms have "j = i" by (simp add: distinct_conv_nth) (metis nth_map)
  with Some show ?thesis by simp
qed

lemma sum_list_update_less:
  fixes f :: "'a \<Rightarrow> nat"
  assumes "i < length xs" "f y < f (xs ! i)"
  shows "sum_list (map f (xs[i := y])) < sum_list (map f xs)"
  using assms by (induction xs arbitrary: i) (auto split: nat.splits)

section \<open>JSON values\<close>

text \<open>
  A decoded JSON document (\<open>any\<close> after \<open>json.Unmarshal\<close>). A Go map has no order: an object is
  an association list whose order no operation may depend on. Numbers are kept exactly.
\<close>

datatype json =
    JNull
  | JBool bool
  | JNum rat
  | JStr string
  | JArr "json list"
  | JObj "(string \<times> json) list"

section \<open>Interface: a list extended through a key\<close>

text \<open>
  Many components keep a slice in which no two elements have the same key and append to it
  with "skip if already there". \<open>norm\<close> is what the operation does to an element before it is
  stored, \<open>ok\<close> its validity check, \<open>key\<close> the identity of a stored element.
\<close>

locale keyed_add =
  fixes key :: "'a \<Rightarrow> 'k"
    and norm :: "'a \<Rightarrow> 'a"
    and ok :: "'a \<Rightarrow> bool"
    and add :: "'a list \<Rightarrow> 'a \<Rightarrow> 'a list"
  assumes add_skip: "\<not> ok x \<Longrightarrow> add xs x = xs"
    and add_dup: "ok x \<Longrightarrow> key (norm x) \<in> key ` set xs \<Longrightarrow> add xs x = xs"
    and add_new: "ok x \<Longrightarrow> key (norm x) \<notin> key ` set xs \<Longrightarrow> add xs x = xs @ [norm x]"
begin

lemma add_cases:
  "add xs x = xs \<and> (\<not> ok x \<or> key (norm x) \<in> key ` set xs)
   \<or> add xs x = xs @ [norm x] \<and> ok x \<and> key (norm x) \<notin> key ` set xs"
  using add_skip add_dup add_new by blast

lemma keys_add:
  "key ` set (add xs x) = (if ok x then insert (key (norm x)) (key ` set xs) else key ` set xs)"
  using add_cases [of xs x] add_skip add_dup add_new by auto

lemma distinct_add: "distinct (map key xs) \<Longrightarrow> distinct (map key (add xs x))"
  using add_cases [of xs x] by auto

lemma add_idem: "add (add xs x) x = add xs x"
proof (cases "ok x")
  case True
  then have "key (norm x) \<in> key ` set (add xs x)" by (simp add: keys_add)
  with True show ?thesis by (rule add_dup)
next
  case False
  then show ?thesis by (simp add: add_skip)
qed

lemma add_prefix: "\<exists>ys. add xs x = xs @ ys"
  using add_cases [of xs x] by auto

lemma keys_add_commute: "key ` set (add (add xs x) y) = key ` set (add (add xs y) x)"
  by (auto simp: keys_add)

lemma keys_fold:
  "key ` set (foldl add xs ys) = key ` set xs \<union> (\<lambda>y. key (norm y)) ` {y \<in> set ys. ok y}"
  by (induction ys arbitrary: xs) (auto simp: keys_add)

lemma distinct_fold: "distinct (map key xs) \<Longrightarrow> distinct (map key (foldl add xs ys))"
  by (induction ys arbitrary: xs) (auto simp: distinct_add)

lemma fold_absorb:
  assumes "\<And>y. y \<in> set ys \<Longrightarrow> ok y \<Longrightarrow> key (norm y) \<in> key ` set xs"
  shows "foldl add xs ys = xs"
  using assms
proof (induction ys)
  case (Cons y ys)
  have "add xs y = xs"
    by (cases "ok y") (use Cons.prems in \<open>auto intro: add_skip add_dup\<close>)
  with Cons show ?case by simp
qed simp

lemma fold_idem: "foldl add (foldl add xs ys) ys = foldl add xs ys"
  by (rule fold_absorb) (auto simp: keys_fold)

lemma set_fold: "set (foldl add xs ys) \<subseteq> set xs \<union> norm ` set ys"
proof (induction ys arbitrary: xs)
  case (Cons y ys)
  have "set (add xs y) \<subseteq> set xs \<union> {norm y}"
    using add_cases [of xs y] by auto
  with Cons [of "add xs y"] show ?case by auto
qed simp

lemma fold_prefix: "\<exists>zs. foldl add xs ys = xs @ zs"
proof (induction ys arbitrary: xs)
  case (Cons y ys)
  obtain us where "add xs y = xs @ us" using add_prefix by blast
  moreover obtain vs where "foldl add (add xs y) ys = add xs y @ vs" using Cons.IH by blast
  ultimately show ?case by auto
qed simp

end

section \<open>Interface: a status machine with terminal states\<close>

locale status_machine =
  fixes can :: "'s \<Rightarrow> 's \<Rightarrow> bool"
    and terminal :: "'s \<Rightarrow> bool"
  assumes terminal_stuck: "terminal s \<Longrightarrow> \<not> can s t"
begin

lemma terminal_forever: "can\<^sup>*\<^sup>* s t \<Longrightarrow> terminal s \<Longrightarrow> t = s"
  by (induction rule: converse_rtranclp_induct) (auto dest: terminal_stuck)

lemma terminal_no_step: "terminal s \<Longrightarrow> can s t \<Longrightarrow> P"
  using terminal_stuck by blast

end

end
