(* ===== verification/Mission_State.thy ===== *)
theory Mission_State
  imports Prelude
begin

text \<open>
  Package \<open>pkg/mission\<close>: the per-turn agent state (\<open>mission.go\<close>), the task status machine
  (\<open>statemachine.go\<close>), the mutator through which every change goes (\<open>mutator.go\<close>) and the
  scheduler (\<open>pick.go\<close>). The Go code updates the mission in place through a pointer and
  returns an error; the model returns the mission after the call together with the optional
  error, so what a rejected call leaves behind is part of the model and not of its type.
\<close>

section \<open>Data (mission.go)\<close>

text \<open>
  The status types are strings in Go. A value outside the constants can only come from a
  decoded document; it is kept as \<open>TaskOther\<close>, which the transition table does not know.
\<close>

datatype TaskStatus =
  TaskPending | TaskActive | TaskPassing | TaskBlocked | TaskPendingRetry | TaskOther string

datatype MissionStatus = MissionActive | MissionComplete | MissionPartial | MissionUnanswerable

datatype GapKind = GapNoParam | GapShapeUnsupported | GapNoData

record CandidateCheck =
  cc_IntentName :: string
  cc_ParamsSummary :: string
  cc_WhyInsufficient :: string

record BlockedReason =
  br_Kind :: GapKind
  br_MissingDimension :: string
  br_CandidatesChecked :: "CandidateCheck list"
  br_SuggestedFix :: string

record Evidence =
  ev_Tool :: string
  ev_ResultSummary :: string
  ev_Reasoning :: string

record Dispatch =
  d_Tool :: string
  d_Args :: "(string \<times> json) list"

record Task =
  t_ID :: string
  t_Type :: string
  t_Behavior :: string
  t_Covers :: "string list"
  t_DependsOn :: "string list"
  t_Dispatch :: Dispatch
  t_Verification :: string
  t_Status :: TaskStatus
  t_RetryBudget :: int
  t_ResultRef :: string
  t_Evidence :: "Evidence option"
  t_BlockedReason :: "BlockedReason option"

record StepResult =
  sr_Rows :: "(string \<times> json) list list"
  sr_FromTask :: string
  sr_Schema :: "string list"

record Synthesis =
  sy_Template :: string
  sy_Caveats :: "string list"
  sy_Output :: string
  sy_ClosestReachable :: string

record DecompItem =
  di_ID :: string
  di_Kind :: string
  di_Name :: string
  di_Shape :: string
  di_WhyRequired :: string

record Recall =
  re_Intents :: "json list"
  re_OKCards :: "json list"
  re_Keywords :: "string list"

record RequirementCoverage =
  rq_Dimension :: string
  rq_Kind :: string
  rq_Shape :: string
  rq_Why :: string
  rq_Covered :: bool
  rq_CoveredBy :: "string list"
  rq_MissingNote :: string

record ReachabilityVerdict =
  rv_Feasible :: bool
  rv_Requirements :: "RequirementCoverage list"
  rv_Reason :: string
  rv_Kind :: string

record Mission =
  m_MissionID :: string
  m_ThreadID :: string
  m_ParentMissionID :: string
  m_ProjectID :: string
  m_Question :: string
  m_Recall :: Recall
  m_Decomposition :: "DecompItem list"
  m_Tasks :: "Task list"
  m_Cursor :: string
  m_StepResults :: "(string \<times> StepResult) list"
  m_Synthesis :: Synthesis
  m_Status :: MissionStatus
  m_Reachability :: "ReachabilityVerdict option"
  m_BlockedRoot :: "BlockedReason option"
  m_CreatedAt :: string
  m_UpdatedAt :: string

section \<open>The status machine (statemachine.go)\<close>

fun validTransitions :: "TaskStatus \<Rightarrow> TaskStatus list" where
  "validTransitions TaskPending = [TaskActive]"
| "validTransitions TaskActive = [TaskPassing, TaskPendingRetry, TaskBlocked]"
| "validTransitions TaskPendingRetry = [TaskActive]"
| "validTransitions TaskPassing = []"
| "validTransitions TaskBlocked = []"
| "validTransitions (TaskOther s) = []"

definition CanTransition :: "TaskStatus \<Rightarrow> TaskStatus \<Rightarrow> bool" where
  "CanTransition from to \<longleftrightarrow> to \<in> set (validTransitions from)"

definition IsTerminal :: "TaskStatus \<Rightarrow> bool" where
  "IsTerminal s \<longleftrightarrow> s = TaskPassing \<or> s = TaskBlocked"

datatype mission_error =
    ErrInvalidTransition TaskStatus TaskStatus
  | ErrWipViolated string
  | ErrTaskNotFound string
  | ErrNoRetryBudget string
  | ErrBlockedReasonMissing
  | ErrUnknownMutation string

definition Transition :: "Task \<Rightarrow> TaskStatus \<Rightarrow> Task \<times> mission_error option" where
  "Transition t to =
     (if \<not> CanTransition (t_Status t) to
      then (t, Some (ErrInvalidTransition (t_Status t) to))
      else (t\<lparr>t_Status := to\<rparr>, None))"

definition DeriveStatus :: "Task list \<Rightarrow> BlockedReason option \<Rightarrow> MissionStatus" where
  "DeriveStatus tasks blockedRoot =
     (if blockedRoot \<noteq> None then MissionUnanswerable
      else if tasks = [] then MissionActive
      else let allTerminal = list_all (\<lambda>t. IsTerminal (t_Status t)) tasks;
               anyBlocked = list_ex (\<lambda>t. t_Status t = TaskBlocked) tasks
           in if \<not> allTerminal then MissionActive
              else if anyBlocked then MissionPartial
              else MissionComplete)"

interpretation task_machine: status_machine CanTransition IsTerminal
  by unfold_locales (auto simp: CanTransition_def IsTerminal_def)

section \<open>The mutator (mutator.go)\<close>

datatype MutationKind =
    MutateStartTask | MutateCompleteTask | MutateBlockTask | MutateRetryTask
  | MutateSynthesize | MutateOther string

record Mutation =
  mut_Kind :: MutationKind
  mut_TaskID :: string
  mut_StepID :: string
  mut_StepResult :: "StepResult option"
  mut_Evidence :: "Evidence option"
  mut_Blocked :: "BlockedReason option"
  mut_Output :: string

text \<open>\<open>findTask\<close> returns a pointer into the slice: the model returns the position.\<close>

definition findTask :: "Mission \<Rightarrow> string \<Rightarrow> nat option" where
  "findTask m tid = find_index (\<lambda>t. t_ID t = tid) (m_Tasks m)"

definition set_task :: "Mission \<Rightarrow> nat \<Rightarrow> Task \<Rightarrow> Mission" where
  "set_task m i t = m\<lparr>m_Tasks := (m_Tasks m)[i := t]\<rparr>"

definition recomputeStatus :: "Mission \<Rightarrow> Mission" where
  "recomputeStatus m = m\<lparr>m_Status := DeriveStatus (m_Tasks m) (m_BlockedRoot m)\<rparr>"

definition clear_cursor :: "Mission \<Rightarrow> string \<Rightarrow> Mission" where
  "clear_cursor m tid = (if m_Cursor m = tid then m\<lparr>m_Cursor := []\<rparr> else m)"

definition applyStart :: "Mission \<Rightarrow> string \<Rightarrow> Mission \<times> mission_error option" where
  "applyStart m taskID =
     (case find (\<lambda>t. t_Status t = TaskActive \<and> t_ID t \<noteq> taskID) (m_Tasks m) of
        Some t \<Rightarrow> (m, Some (ErrWipViolated (t_ID t)))
      | None \<Rightarrow>
        (case findTask m taskID of
           None \<Rightarrow> (m, Some (ErrTaskNotFound taskID))
         | Some i \<Rightarrow>
           (case Transition (m_Tasks m ! i) TaskActive of
              (t, Some e) \<Rightarrow> (set_task m i t, Some e)
            | (t, None) \<Rightarrow>
                (recomputeStatus ((set_task m i t)\<lparr>m_Cursor := taskID\<rparr>), None))))"

text \<open>
  Registering the step result: only with both a result and a step id; the stored copy
  records the task it came from.
\<close>

definition register_step :: "Mutation \<Rightarrow> Mission \<times> Task \<Rightarrow> Mission \<times> Task" where
  "register_step mut mt =
     (case mt of (m, t) \<Rightarrow>
        (case mut_StepResult mut of
           None \<Rightarrow> (m, t)
         | Some sr \<Rightarrow>
             if mut_StepID mut = [] then (m, t)
             else (m\<lparr>m_StepResults :=
                       AList.update (mut_StepID mut) (sr\<lparr>sr_FromTask := t_ID t\<rparr>) (m_StepResults m)\<rparr>,
                   t\<lparr>t_ResultRef := mut_StepID mut\<rparr>)))"

definition applyComplete :: "Mission \<Rightarrow> Mutation \<Rightarrow> Mission \<times> mission_error option" where
  "applyComplete m mut =
     (case findTask m (mut_TaskID mut) of
        None \<Rightarrow> (m, Some (ErrTaskNotFound (mut_TaskID mut)))
      | Some i \<Rightarrow>
        (case Transition (m_Tasks m ! i) TaskPassing of
           (t, Some e) \<Rightarrow> (set_task m i t, Some e)
         | (t, None) \<Rightarrow>
           (let (m1, t1) = register_step mut (m, t);
                t2 = (case mut_Evidence mut of
                        None \<Rightarrow> t1 | Some e \<Rightarrow> t1\<lparr>t_Evidence := Some e\<rparr>)
            in (recomputeStatus (clear_cursor (set_task m1 i t2) (t_ID t2)), None))))"

definition applyBlock :: "Mission \<Rightarrow> Mutation \<Rightarrow> Mission \<times> mission_error option" where
  "applyBlock m mut =
     (case mut_Blocked mut of
        None \<Rightarrow> (m, Some ErrBlockedReasonMissing)
      | Some b \<Rightarrow>
        (case findTask m (mut_TaskID mut) of
           None \<Rightarrow> (m, Some (ErrTaskNotFound (mut_TaskID mut)))
         | Some i \<Rightarrow>
           (case Transition (m_Tasks m ! i) TaskBlocked of
              (t, Some e) \<Rightarrow> (set_task m i t, Some e)
            | (t, None) \<Rightarrow>
                (recomputeStatus
                   (clear_cursor (set_task m i (t\<lparr>t_BlockedReason := Some b\<rparr>)) (t_ID t)), None))))"

definition applyRetry :: "Mission \<Rightarrow> string \<Rightarrow> Mission \<times> mission_error option" where
  "applyRetry m taskID =
     (case findTask m taskID of
        None \<Rightarrow> (m, Some (ErrTaskNotFound taskID))
      | Some i \<Rightarrow>
        (if t_RetryBudget (m_Tasks m ! i) \<le> 0 then (m, Some (ErrNoRetryBudget taskID))
         else
           (case Transition (m_Tasks m ! i) TaskPendingRetry of
              (t, Some e) \<Rightarrow> (set_task m i t, Some e)
            | (t, None) \<Rightarrow>
                (recomputeStatus
                   (clear_cursor (set_task m i (t\<lparr>t_RetryBudget := t_RetryBudget t - 1\<rparr>)) (t_ID t)),
                 None))))"

definition Mutate :: "Mission \<Rightarrow> Mutation \<Rightarrow> Mission \<times> mission_error option" where
  "Mutate m mut =
     (case mut_Kind mut of
        MutateStartTask \<Rightarrow> applyStart m (mut_TaskID mut)
      | MutateCompleteTask \<Rightarrow> applyComplete m mut
      | MutateBlockTask \<Rightarrow> applyBlock m mut
      | MutateRetryTask \<Rightarrow> applyRetry m (mut_TaskID mut)
      | MutateSynthesize \<Rightarrow>
          (recomputeStatus (m\<lparr>m_Synthesis := (m_Synthesis m)\<lparr>sy_Output := mut_Output mut\<rparr>\<rparr>), None)
      | MutateOther k \<Rightarrow> (m, Some (ErrUnknownMutation k)))"

text \<open>A turn: a list of requested mutations, applied one after another.\<close>

fun Mutate_all :: "Mission \<Rightarrow> Mutation list \<Rightarrow> Mission" where
  "Mutate_all m [] = m"
| "Mutate_all m (mu # ms) = Mutate_all (fst (Mutate m mu)) ms"

section \<open>The scheduler (pick.go)\<close>

definition dependenciesMet :: "Mission \<Rightarrow> Task \<Rightarrow> bool" where
  "dependenciesMet m t \<longleftrightarrow>
     list_all (\<lambda>d. case findTask m d of
                     None \<Rightarrow> False
                   | Some i \<Rightarrow> t_Status (m_Tasks m ! i) = TaskPassing) (t_DependsOn t)"

definition waiting :: "Task \<Rightarrow> bool" where
  "waiting t \<longleftrightarrow> t_Status t = TaskPending \<or> t_Status t = TaskPendingRetry"

text \<open>The \<open>nil\<close> mission is the case \<open>None\<close>; the result points into the task slice.\<close>

definition PickActive :: "Mission option \<Rightarrow> nat option" where
  "PickActive mo =
     (case mo of
        None \<Rightarrow> None
      | Some m \<Rightarrow>
          if list_ex (\<lambda>t. t_Status t = TaskActive) (m_Tasks m) then None
          else find_index (\<lambda>t. waiting t \<and> dependenciesMet m t) (m_Tasks m))"

definition dependencyPermanentlyBlocked :: "Mission \<Rightarrow> Task \<Rightarrow> bool" where
  "dependencyPermanentlyBlocked m t \<longleftrightarrow>
     list_ex (\<lambda>d. case findTask m d of
                    None \<Rightarrow> True
                  | Some i \<Rightarrow> t_Status (m_Tasks m ! i) = TaskBlocked) (t_DependsOn t)"

definition Runnable :: "Mission option \<Rightarrow> bool" where
  "Runnable mo =
     (case mo of
        None \<Rightarrow> False
      | Some m \<Rightarrow>
          list_ex (\<lambda>t. t_Status t = TaskActive
                      \<or> waiting t \<and> \<not> dependencyPermanentlyBlocked m t) (m_Tasks m))"

end
