(* ===== verification/Mission_Inv.thy ===== *)
theory Mission_Inv
  imports Mission_State
begin

text \<open>
  What the mutator and the scheduler guarantee: an accepted mutation is one step of the life
  cycle of one task (the abstract specification \<open>life\<close>), a rejected one changes nothing, at
  most one task is active, the cursor names it, the mission status is always the derived one,
  and the number of accepted task mutations is bounded by the retry budgets.
\<close>

section \<open>The life cycle of a task\<close>

text \<open>Abstract state of a task: its status and what is left of its retry budget.\<close>

definition life_of :: "Task \<Rightarrow> TaskStatus \<times> int" where
  "life_of t = (t_Status t, t_RetryBudget t)"

inductive life :: "TaskStatus \<times> int \<Rightarrow> TaskStatus \<times> int \<Rightarrow> bool" where
  life_start: "life (TaskPending, b) (TaskActive, b)"
| life_restart: "life (TaskPendingRetry, b) (TaskActive, b)"
| life_pass: "life (TaskActive, b) (TaskPassing, b)"
| life_block: "life (TaskActive, b) (TaskBlocked, b)"
| life_retry: "b > 0 \<Longrightarrow> life (TaskActive, b) (TaskPendingRetry, b - 1)"

inductive_cases life_from: "life (s, b) x"

lemma life_CanTransition: "life x y \<Longrightarrow> CanTransition (fst x) (fst y)"
  by (cases rule: life.cases) (auto simp: CanTransition_def)

lemma life_not_terminal: "life x y \<Longrightarrow> \<not> IsTerminal (fst x)"
  by (cases rule: life.cases) (auto simp: IsTerminal_def)

text \<open>The part of a task no mutation writes.\<close>

definition task_frame :: "Task \<Rightarrow> Task \<Rightarrow> bool" where
  "task_frame t t' \<longleftrightarrow> t_ID t' = t_ID t \<and> t_Type t' = t_Type t \<and> t_Behavior t' = t_Behavior t
     \<and> t_Covers t' = t_Covers t \<and> t_DependsOn t' = t_DependsOn t \<and> t_Dispatch t' = t_Dispatch t
     \<and> t_Verification t' = t_Verification t"

text \<open>One task moved, the others stayed, and the mission's status was recomputed.\<close>

definition one_task_moved :: "Mission \<Rightarrow> nat \<Rightarrow> Mission \<Rightarrow> bool" where
  "one_task_moved m i m' \<longleftrightarrow>
     i < length (m_Tasks m) \<and> length (m_Tasks m') = length (m_Tasks m)
     \<and> (\<forall>j < length (m_Tasks m). j \<noteq> i \<longrightarrow> m_Tasks m' ! j = m_Tasks m ! j)
     \<and> task_frame (m_Tasks m ! i) (m_Tasks m' ! i)
     \<and> life (life_of (m_Tasks m ! i)) (life_of (m_Tasks m' ! i))"

lemma one_task_movedI:
  assumes "i < length (m_Tasks m)" "m_Tasks m' = (m_Tasks m)[i := t']"
    "task_frame (m_Tasks m ! i) t'" "life (life_of (m_Tasks m ! i)) (life_of t')"
  shows "one_task_moved m i m'"
  using assms by (simp add: one_task_moved_def)

lemma findTask_Some:
  "findTask m tid = Some i \<Longrightarrow> i < length (m_Tasks m) \<and> t_ID (m_Tasks m ! i) = tid"
  unfolding findTask_def by (auto dest: find_index_Some)

lemma Transition_None:
  "Transition t s = (t', None) \<Longrightarrow> CanTransition (t_Status t) s \<and> t' = t\<lparr>t_Status := s\<rparr>"
  by (auto simp: Transition_def split: if_splits)

lemma Transition_Some: "Transition t s = (t', Some e) \<Longrightarrow> t' = t"
  by (auto simp: Transition_def split: if_splits)

lemma CanTransition_simps:
  "CanTransition s TaskActive \<longleftrightarrow> s = TaskPending \<or> s = TaskPendingRetry"
  "CanTransition s TaskPassing \<longleftrightarrow> s = TaskActive"
  "CanTransition s TaskBlocked \<longleftrightarrow> s = TaskActive"
  "CanTransition s TaskPendingRetry \<longleftrightarrow> s = TaskActive"
  by (cases s; simp add: CanTransition_def)+

lemma recompute_fields [simp, frame]:
  "m_Tasks (recomputeStatus m) = m_Tasks m" "m_Cursor (recomputeStatus m) = m_Cursor m"
  "m_BlockedRoot (recomputeStatus m) = m_BlockedRoot m"
  "m_Status (recomputeStatus m) = DeriveStatus (m_Tasks m) (m_BlockedRoot m)"
  by (simp_all add: recomputeStatus_def)

lemma clear_cursor_fields [simp, frame]:
  "m_Tasks (clear_cursor m c) = m_Tasks m" "m_BlockedRoot (clear_cursor m c) = m_BlockedRoot m"
  "m_Cursor (clear_cursor m c) = (if m_Cursor m = c then [] else m_Cursor m)"
  by (simp_all add: clear_cursor_def)

lemma set_task_fields [simp, frame]:
  "m_Tasks (set_task m i t) = (m_Tasks m)[i := t]" "m_Cursor (set_task m i t) = m_Cursor m"
  "m_BlockedRoot (set_task m i t) = m_BlockedRoot m"
  by (simp_all add: set_task_def)

lemma set_task_same [simp]: "set_task m i (m_Tasks m ! i) = m"
  by (simp add: set_task_def)

lemma register_step_fields:
  "register_step mu (m, t) = (m', t') \<Longrightarrow>
     m_Tasks m' = m_Tasks m \<and> m_Cursor m' = m_Cursor m \<and> m_BlockedRoot m' = m_BlockedRoot m
     \<and> task_frame t t' \<and> life_of t' = life_of t"
  by (auto simp: register_step_def task_frame_def life_of_def split: option.splits if_splits)

section \<open>Rejected mutations\<close>

lemma applyStart_reject: "applyStart m tid = (m', Some e) \<Longrightarrow> m' = m"
  by (auto simp: applyStart_def split: option.splits prod.splits dest: Transition_Some)

lemma applyComplete_reject: "applyComplete m mu = (m', Some e) \<Longrightarrow> m' = m"
  by (auto simp: applyComplete_def Let_def split: option.splits prod.splits dest: Transition_Some)

lemma applyBlock_reject: "applyBlock m mu = (m', Some e) \<Longrightarrow> m' = m"
  by (auto simp: applyBlock_def split: option.splits prod.splits dest: Transition_Some)

lemma applyRetry_reject: "applyRetry m tid = (m', Some e) \<Longrightarrow> m' = m"
  by (auto simp: applyRetry_def split: option.splits prod.splits if_splits dest: Transition_Some)

lemma Mutate_reject: "Mutate m mu = (m', Some e) \<Longrightarrow> m' = m"
  by (cases "mut_Kind mu")
    (auto simp: Mutate_def dest: applyStart_reject applyComplete_reject applyBlock_reject applyRetry_reject)

section \<open>Accepted mutations\<close>

lemma applyStart_accept:
  assumes "applyStart m tid = (m', None)"
  obtains i where "findTask m tid = Some i" "one_task_moved m i m'"
    "\<forall>t \<in> set (m_Tasks m). t_Status t = TaskActive \<longrightarrow> t_ID t = tid"
    "t_Status (m_Tasks m' ! i) = TaskActive" "m_Cursor m' = tid"
    "m_Status m' = DeriveStatus (m_Tasks m') (m_BlockedRoot m')" "m_BlockedRoot m' = m_BlockedRoot m"
proof -
  from assms obtain i t where i: "findTask m tid = Some i"
    and none: "find (\<lambda>t. t_Status t = TaskActive \<and> t_ID t \<noteq> tid) (m_Tasks m) = None"
    and t: "Transition (m_Tasks m ! i) TaskActive = (t, None)"
    and m0: "m' = recomputeStatus ((set_task m i t)\<lparr>m_Cursor := tid\<rparr>)"
    by (auto simp: applyStart_def split: option.splits prod.splits)
  note tr = Transition_None [OF t]
  then have can: "CanTransition (t_Status (m_Tasks m ! i)) TaskActive" by simp
  have m': "m' = recomputeStatus
       ((set_task m i ((m_Tasks m ! i)\<lparr>t_Status := TaskActive\<rparr>))\<lparr>m_Cursor := tid\<rparr>)"
    using tr by (simp add: m0)
  from can have "life (life_of (m_Tasks m ! i)) (TaskActive, t_RetryBudget (m_Tasks m ! i))"
    by (auto simp: CanTransition_simps life_of_def intro: life.intros)
  then have "one_task_moved m i m'" using i
    by (intro one_task_movedI [where t' = "(m_Tasks m ! i)\<lparr>t_Status := TaskActive\<rparr>"])
      (auto simp: m' task_frame_def life_of_def dest: findTask_Some)
  moreover have "\<forall>t \<in> set (m_Tasks m). t_Status t = TaskActive \<longrightarrow> t_ID t = tid"
    using none by (auto simp: find_None_iff)
  ultimately show ?thesis
    using that i by (auto simp: m' dest: findTask_Some)
qed

text \<open>What the three operations that take a task out of \<open>active\<close> have in common.\<close>

definition left_active :: "Mission \<Rightarrow> string \<Rightarrow> nat \<Rightarrow> Mission \<Rightarrow> bool" where
  "left_active m tid i m' \<longleftrightarrow> findTask m tid = Some i \<and> one_task_moved m i m'
     \<and> t_Status (m_Tasks m ! i) = TaskActive \<and> t_Status (m_Tasks m' ! i) \<noteq> TaskActive
     \<and> m_Cursor m' = (if m_Cursor m = tid then [] else m_Cursor m)
     \<and> m_Status m' = DeriveStatus (m_Tasks m') (m_BlockedRoot m')
     \<and> m_BlockedRoot m' = m_BlockedRoot m"

lemma applyComplete_accept:
  assumes "applyComplete m mu = (m', None)"
  shows "\<exists>i. left_active m (mut_TaskID mu) i m'"
proof -
  from assms obtain i t m1 t1 where i: "findTask m (mut_TaskID mu) = Some i"
    and t: "Transition (m_Tasks m ! i) TaskPassing = (t, None)"
    and reg: "register_step mu (m, t) = (m1, t1)"
    by (auto simp: applyComplete_def Let_def split: option.splits prod.splits)
  define t2 where "t2 = (case mut_Evidence mu of None \<Rightarrow> t1 | Some e \<Rightarrow> t1\<lparr>t_Evidence := Some e\<rparr>)"
  have m': "m' = recomputeStatus (clear_cursor (set_task m1 i t2) (t_ID t2))"
    using assms i t reg by (simp add: applyComplete_def t2_def Let_def)
  from t have can: "t_Status (m_Tasks m ! i) = TaskActive"
    and t': "t = (m_Tasks m ! i)\<lparr>t_Status := TaskPassing\<rparr>"
    by (auto simp: CanTransition_simps dest: Transition_None)
  note r = register_step_fields [OF reg]
  have t2: "task_frame (m_Tasks m ! i) t2" "life_of t2 = (TaskPassing, t_RetryBudget (m_Tasks m ! i))"
    using r t' by (auto simp: t2_def task_frame_def life_of_def split: option.splits)
  have "life (life_of (m_Tasks m ! i)) (life_of t2)"
    using can t2(2) by (auto simp: life_of_def intro: life.intros)
  then have moved: "one_task_moved m i m'"
    using findTask_Some [OF i] r t2(1) by (intro one_task_movedI [where t' = t2]) (simp_all add: m')
  have "left_active m (mut_TaskID mu) i m'"
    unfolding left_active_def using i findTask_Some [OF i] moved r t2 can
    by (simp add: m' life_of_def task_frame_def)
  then show ?thesis by blast
qed

lemma applyBlock_accept:
  assumes "applyBlock m mu = (m', None)"
  shows "\<exists>i. left_active m (mut_TaskID mu) i m'"
proof -
  from assms obtain b i t where i: "findTask m (mut_TaskID mu) = Some i"
    and t: "Transition (m_Tasks m ! i) TaskBlocked = (t, None)"
    and m0: "m' = recomputeStatus (clear_cursor (set_task m i (t\<lparr>t_BlockedReason := Some b\<rparr>)) (t_ID t))"
    by (auto simp: applyBlock_def split: option.splits prod.splits)
  note tr = Transition_None [OF t]
  then have can: "CanTransition (t_Status (m_Tasks m ! i)) TaskBlocked" by simp
  have m': "m' = recomputeStatus (clear_cursor
       (set_task m i ((m_Tasks m ! i)\<lparr>t_Status := TaskBlocked, t_BlockedReason := Some b\<rparr>))
       (t_ID (m_Tasks m ! i)))"
    using tr by (simp add: m0)
  let ?t = "(m_Tasks m ! i)\<lparr>t_Status := TaskBlocked, t_BlockedReason := Some b\<rparr>"
  have "life (life_of (m_Tasks m ! i)) (life_of ?t)"
    using can by (auto simp: life_of_def CanTransition_simps intro: life.intros)
  then have moved: "one_task_moved m i m'"
    using findTask_Some [OF i]
    by (intro one_task_movedI [where t' = ?t]) (simp_all add: m' task_frame_def)
  have "left_active m (mut_TaskID mu) i m'"
    unfolding left_active_def using i findTask_Some [OF i] moved can
    by (simp add: m' CanTransition_simps)
  then show ?thesis by blast
qed

lemma applyRetry_accept:
  assumes "applyRetry m tid = (m', None)"
  shows "\<exists>i. left_active m tid i m'"
proof -
  from assms obtain i t where i: "findTask m tid = Some i"
    and b: "t_RetryBudget (m_Tasks m ! i) > 0"
    and t: "Transition (m_Tasks m ! i) TaskPendingRetry = (t, None)"
    and m0: "m' = recomputeStatus
       (clear_cursor (set_task m i (t\<lparr>t_RetryBudget := t_RetryBudget t - 1\<rparr>)) (t_ID t))"
    by (auto simp: applyRetry_def not_le split: option.splits prod.splits if_splits)
  note tr = Transition_None [OF t]
  then have can: "CanTransition (t_Status (m_Tasks m ! i)) TaskPendingRetry" by simp
  have m': "m' = recomputeStatus (clear_cursor
       (set_task m i ((m_Tasks m ! i)\<lparr>t_Status := TaskPendingRetry,
          t_RetryBudget := t_RetryBudget (m_Tasks m ! i) - 1\<rparr>)) (t_ID (m_Tasks m ! i)))"
    using tr by (simp add: m0)
  let ?t = "(m_Tasks m ! i)\<lparr>t_Status := TaskPendingRetry,
              t_RetryBudget := t_RetryBudget (m_Tasks m ! i) - 1\<rparr>"
  have "life (life_of (m_Tasks m ! i)) (life_of ?t)"
    using can b by (auto simp: life_of_def CanTransition_simps intro: life.intros)
  then have moved: "one_task_moved m i m'"
    using findTask_Some [OF i]
    by (intro one_task_movedI [where t' = ?t]) (simp_all add: m' task_frame_def)
  have "left_active m tid i m'"
    unfolding left_active_def using i findTask_Some [OF i] moved can
    by (simp add: m' CanTransition_simps)
  then show ?thesis by blast
qed

lemma Mutate_accept_cases:
  assumes "Mutate m mu = (m', None)"
  obtains (synth) "mut_Kind mu = MutateSynthesize"
      "m' = recomputeStatus (m\<lparr>m_Synthesis := (m_Synthesis m)\<lparr>sy_Output := mut_Output mu\<rparr>\<rparr>)"
  | (start) "mut_Kind mu = MutateStartTask" "applyStart m (mut_TaskID mu) = (m', None)"
  | (leave) i where "left_active m (mut_TaskID mu) i m'"
      "mut_Kind mu \<in> {MutateCompleteTask, MutateBlockTask, MutateRetryTask}"
  using assms applyComplete_accept [of m mu m'] applyBlock_accept [of m mu m']
    applyRetry_accept [of m "mut_TaskID mu" m']
  by (cases "mut_Kind mu") (auto simp: Mutate_def)

section \<open>The invariant of a mission\<close>

definition mission_inv :: "Mission \<Rightarrow> bool" where
  "mission_inv m \<longleftrightarrow> distinct (map t_ID (m_Tasks m))
     \<and> (\<forall>t \<in> set (m_Tasks m). t_Status t = TaskActive \<longrightarrow> t_ID t = m_Cursor m)
     \<and> (m_Cursor m \<noteq> [] \<longrightarrow>
          (\<exists>t \<in> set (m_Tasks m). t_Status t = TaskActive \<and> t_ID t = m_Cursor m))
     \<and> m_Status m = DeriveStatus (m_Tasks m) (m_BlockedRoot m)"

lemma one_task_moved_ids: "one_task_moved m i m' \<Longrightarrow> map t_ID (m_Tasks m') = map t_ID (m_Tasks m)"
  unfolding one_task_moved_def task_frame_def
  by (rule nth_equalityI) (simp, metis length_map nth_map)

lemma one_task_moved_in:
  assumes "one_task_moved m i m'" "t \<in> set (m_Tasks m')"
  shows "t = m_Tasks m' ! i \<or> (\<exists>j < length (m_Tasks m). j \<noteq> i \<and> t = m_Tasks m ! j)"
  using assms unfolding one_task_moved_def by (metis in_set_conv_nth)

lemma left_active_inv:
  assumes inv: "mission_inv m" and la: "left_active m tid i m'"
  shows "mission_inv m'"
proof -
  from la have mv: "one_task_moved m i m'" and tid: "t_ID (m_Tasks m ! i) = tid"
    and act: "t_Status (m_Tasks m ! i) = TaskActive" and off: "t_Status (m_Tasks m' ! i) \<noteq> TaskActive"
    by (auto simp: left_active_def dest: findTask_Some)
  have i: "i < length (m_Tasks m)" using mv by (simp add: one_task_moved_def)
  with inv act tid have cur: "m_Cursor m = tid" by (auto simp: mission_inv_def)
  have "t_Status t \<noteq> TaskActive" if t: "t \<in> set (m_Tasks m')" for t
  proof
    assume a: "t_Status t = TaskActive"
    with one_task_moved_in [OF mv t] off obtain j
      where j: "j < length (m_Tasks m)" "j \<noteq> i" "t = m_Tasks m ! j" by auto
    with inv a cur have "t_ID (m_Tasks m ! j) = tid" by (auto simp: mission_inv_def)
    with tid i j inv show False by (auto simp: mission_inv_def distinct_conv_nth)
  qed
  then show ?thesis
    using inv la cur one_task_moved_ids [OF mv] by (auto simp: mission_inv_def left_active_def)
qed

lemma applyStart_inv:
  assumes inv: "mission_inv m" and st: "applyStart m tid = (m', None)"
  shows "mission_inv m'"
  using st
proof (rule applyStart_accept)
  fix i
  assume f: "findTask m tid = Some i" and mv: "one_task_moved m i m'"
    and all: "\<forall>t \<in> set (m_Tasks m). t_Status t = TaskActive \<longrightarrow> t_ID t = tid"
    and act: "t_Status (m_Tasks m' ! i) = TaskActive" and cur: "m_Cursor m' = tid"
    and st: "m_Status m' = DeriveStatus (m_Tasks m') (m_BlockedRoot m')"
  from mv f have i: "i < length (m_Tasks m')" "t_ID (m_Tasks m' ! i) = tid"
    by (auto simp: one_task_moved_def task_frame_def dest: findTask_Some)
  have "t_ID t = tid" if "t \<in> set (m_Tasks m')" "t_Status t = TaskActive" for t
    using one_task_moved_in [OF mv that(1)] all i that(2) by auto
  moreover have "\<exists>t \<in> set (m_Tasks m'). t_Status t = TaskActive \<and> t_ID t = tid"
    using i act by (auto intro: bexI [of _ "m_Tasks m' ! i"])
  ultimately show ?thesis
    using inv cur st one_task_moved_ids [OF mv] by (auto simp: mission_inv_def)
qed

lemma Mutate_inv: "mission_inv m \<Longrightarrow> mission_inv (fst (Mutate m mu))"
proof (cases "snd (Mutate m mu)")
  case (Some e)
  then have "fst (Mutate m mu) = m" by (metis Mutate_reject prod.collapse)
  moreover assume "mission_inv m"
  ultimately show ?thesis by simp
next
  case None
  then have "Mutate m mu = (fst (Mutate m mu), None)" by (metis prod.collapse)
  moreover assume inv: "mission_inv m"
  ultimately show ?thesis
  proof (cases rule: Mutate_accept_cases)
    case synth
    with inv show ?thesis by (simp add: mission_inv_def recomputeStatus_def)
  next
    case start
    then show ?thesis by (intro applyStart_inv [OF inv])
  next
    case (leave i)
    then show ?thesis by (intro left_active_inv [OF inv])
  qed
qed

lemma Mutate_all_inv: "mission_inv m \<Longrightarrow> mission_inv (Mutate_all m mus)"
  by (induction mus arbitrary: m) (auto simp: Mutate_inv)

lemma mission_inv_wip:
  assumes "mission_inv m"
  shows "length (filter (\<lambda>t. t_Status t = TaskActive) (m_Tasks m)) \<le> 1"
proof -
  let ?as = "filter (\<lambda>t. t_Status t = TaskActive) (m_Tasks m)"
  from assms have "distinct (map t_ID ?as)" by (auto simp: mission_inv_def distinct_map_filter)
  moreover from assms have "set (map t_ID ?as) \<subseteq> {m_Cursor m}" by (auto simp: mission_inv_def)
  ultimately have "length (map t_ID ?as) \<le> card {m_Cursor m}"
    by (metis card_mono distinct_card finite.emptyI finite_insert)
  then show ?thesis by simp
qed

section \<open>Bound on the number of accepted mutations\<close>

fun pot :: "TaskStatus \<times> int \<Rightarrow> nat" where
  "pot (s, b) = (case s of
     TaskPending \<Rightarrow> 2 * nat b + 2 | TaskPendingRetry \<Rightarrow> 2 * nat b + 2
   | TaskActive \<Rightarrow> 2 * nat b + 1 | _ \<Rightarrow> 0)"

lemma life_pot: "life x y \<Longrightarrow> pot y < pot x"
  by (cases rule: life.cases) auto

definition mission_pot :: "Mission \<Rightarrow> nat" where
  "mission_pot m = sum_list (map (\<lambda>t. pot (life_of t)) (m_Tasks m))"

lemma one_task_moved_update:
  "one_task_moved m i m' \<Longrightarrow> m_Tasks m' = (m_Tasks m)[i := m_Tasks m' ! i]"
  unfolding one_task_moved_def by (intro nth_equalityI) (auto simp: nth_list_update)

lemma one_task_moved_pot:
  assumes "one_task_moved m i m'"
  shows "mission_pot m' < mission_pot m"
proof -
  have "mission_pot m' = sum_list (map (\<lambda>t. pot (life_of t)) ((m_Tasks m)[i := m_Tasks m' ! i]))"
    using one_task_moved_update [OF assms] by (simp add: mission_pot_def)
  also have "\<dots> < mission_pot m"
    unfolding mission_pot_def using assms
    by (intro sum_list_update_less) (auto simp: one_task_moved_def life_pot)
  finally show ?thesis .
qed

definition accepted_task_mutation :: "Mission \<Rightarrow> Mutation \<Rightarrow> bool" where
  "accepted_task_mutation m mu \<longleftrightarrow> snd (Mutate m mu) = None \<and> mut_Kind mu \<noteq> MutateSynthesize"

fun count_accepted :: "Mission \<Rightarrow> Mutation list \<Rightarrow> nat" where
  "count_accepted m [] = 0"
| "count_accepted m (mu # mus) =
     (if accepted_task_mutation m mu then 1 else 0) + count_accepted (fst (Mutate m mu)) mus"

lemma Mutate_moves:
  assumes "accepted_task_mutation m mu"
  shows "\<exists>i. findTask m (mut_TaskID mu) = Some i \<and> one_task_moved m i (fst (Mutate m mu))"
proof -
  from assms have "Mutate m mu = (fst (Mutate m mu), None)" "mut_Kind mu \<noteq> MutateSynthesize"
    by (metis accepted_task_mutation_def prod.collapse)+
  then show ?thesis
    by (cases rule: Mutate_accept_cases)
      (auto simp: left_active_def elim!: applyStart_accept)
qed

lemma Mutate_not_moved:
  assumes "\<not> accepted_task_mutation m mu"
  shows "m_Tasks (fst (Mutate m mu)) = m_Tasks m"
proof (cases "snd (Mutate m mu)")
  case None
  then have "mut_Kind mu = MutateSynthesize" using assms by (simp add: accepted_task_mutation_def)
  then show ?thesis by (simp add: Mutate_def)
next
  case (Some e)
  then have "fst (Mutate m mu) = m" by (metis Mutate_reject prod.collapse)
  then show ?thesis by simp
qed

lemma count_accepted_bound: "count_accepted m mus + mission_pot (Mutate_all m mus) \<le> mission_pot m"
proof (induction mus arbitrary: m)
  case Nil
  show ?case by simp
next
  case (Cons mu mus)
  let ?m = "fst (Mutate m mu)"
  have IH: "count_accepted ?m mus + mission_pot (Mutate_all ?m mus) \<le> mission_pot ?m" by (rule Cons)
  show ?case
  proof (cases "accepted_task_mutation m mu")
    case True
    with Mutate_moves one_task_moved_pot have "mission_pot ?m < mission_pot m" by blast
    with IH True show ?thesis by simp
  next
    case False
    then have "mission_pot ?m = mission_pot m" by (simp add: mission_pot_def Mutate_not_moved)
    with IH False show ?thesis by simp
  qed
qed

lemma Mutate_status_step:
  assumes "i < length (m_Tasks m)"
  shows "CanTransition\<^sup>*\<^sup>* (t_Status (m_Tasks m ! i)) (t_Status (m_Tasks (fst (Mutate m mu)) ! i))
    \<and> length (m_Tasks (fst (Mutate m mu))) = length (m_Tasks m)"
proof (cases "accepted_task_mutation m mu")
  case True
  then obtain j where mv: "one_task_moved m j (fst (Mutate m mu))" using Mutate_moves by blast
  then have "CanTransition (t_Status (m_Tasks m ! j)) (t_Status (m_Tasks (fst (Mutate m mu)) ! j))"
    by (auto simp: one_task_moved_def life_of_def dest: life_CanTransition)
  with mv assms show ?thesis by (cases "i = j") (auto simp: one_task_moved_def)
next
  case False
  then show ?thesis by (simp add: Mutate_not_moved)
qed

lemma Mutate_all_status:
  "i < length (m_Tasks m) \<Longrightarrow>
     CanTransition\<^sup>*\<^sup>* (t_Status (m_Tasks m ! i)) (t_Status (m_Tasks (Mutate_all m mus) ! i))
     \<and> length (m_Tasks (Mutate_all m mus)) = length (m_Tasks m)"
proof (induction mus arbitrary: m)
  case Nil
  then show ?case by simp
next
  case (Cons mu mus)
  with Mutate_status_step [of i m mu] Cons.IH [of "fst (Mutate m mu)"] show ?case
    by (auto intro: rtranclp_trans)
qed

section \<open>The scheduler\<close>

lemma PickActive_Some:
  assumes "PickActive (Some m) = Some i"
  shows "i < length (m_Tasks m)" "waiting (m_Tasks m ! i)" "dependenciesMet m (m_Tasks m ! i)"
    "\<forall>t \<in> set (m_Tasks m). t_Status t \<noteq> TaskActive"
  using assms by (auto simp: PickActive_def list_ex_iff split: if_splits dest: find_index_Some)

lemma findTask_nth:
  "distinct (map t_ID (m_Tasks m)) \<Longrightarrow> i < length (m_Tasks m)
     \<Longrightarrow> findTask m (t_ID (m_Tasks m ! i)) = Some i"
  unfolding findTask_def by (rule find_index_distinct)

lemma PickActive_startable:
  assumes "distinct (map t_ID (m_Tasks m))" "PickActive (Some m) = Some i"
  shows "snd (applyStart m (t_ID (m_Tasks m ! i))) = None"
proof -
  have "find (\<lambda>t. t_Status t = TaskActive \<and> t_ID t \<noteq> t_ID (m_Tasks m ! i)) (m_Tasks m) = None"
    using PickActive_Some(4) [OF assms(2)] by (auto simp: find_None_iff)
  moreover have "CanTransition (t_Status (m_Tasks m ! i)) TaskActive"
    using PickActive_Some(2) [OF assms(2)] by (auto simp: waiting_def CanTransition_simps)
  ultimately show ?thesis
    using findTask_nth [OF assms(1)] PickActive_Some(1) [OF assms(2)]
    by (simp add: applyStart_def Transition_def)
qed

end
