(* ===== verification/Mission_Template.thy ===== *)
theory Mission_Template
  imports Mission_State
begin

text \<open>
  \<open>pkg/mission/template.go\<close> and \<open>trivial.go\<close>: templates, their validation (the three-colour
  depth-first search \<open>firstCycle\<close>) and the missions they instantiate. \<open>visit\<close> is a closure
  over the maps \<open>color\<close> and \<open>deps\<close> in Go; the model passes the colour map through the calls.
  The search returns the empty string for "no cycle", so a cycle through a task whose id is
  empty would be missed; \<open>Validate\<close> rejects empty ids first.
\<close>

record TemplateTask =
  tt_ID :: string
  tt_Type :: string
  tt_Behavior :: string
  tt_Verification :: string
  tt_Covers :: "string list"
  tt_DependsOn :: "string list"
  tt_RetryBudget :: int

record TemplateSynthesis =
  ts_Template :: string
  ts_Caveats :: "string list"

record MissionTemplate =
  mt_ID :: string
  mt_Name :: string
  mt_Tasks :: "TemplateTask list"
  mt_Synthesis :: TemplateSynthesis

record TemplateConfig =
  tc_MissionID :: string
  tc_ThreadID :: string
  tc_ProjectID :: string
  tc_Question :: string

section \<open>The cycle search\<close>

datatype colour = White | Grey | Black

definition deps_of :: "(string \<times> string list) list \<Rightarrow> string \<Rightarrow> string list" where
  "deps_of g u = (case map_of g u of None \<Rightarrow> [] | Some ds \<Rightarrow> ds)"

text \<open>
  The loop of \<open>visit\<close> over the dependencies of a task. The result is the colour map and
  \<open>Some r\<close> when the loop returned \<open>r\<close> early, \<open>None\<close> when it ran to its end.
\<close>

function visit_deps ::
  "(string \<times> string list) list \<Rightarrow> (string \<Rightarrow> colour) \<Rightarrow> string list
     \<Rightarrow> (string \<Rightarrow> colour) \<times> string option" where
  "visit_deps g c [] = (c, None)"
| "visit_deps g c (d # ds) =
     (case c d of
        Grey \<Rightarrow> (c, Some d)
      | Black \<Rightarrow> visit_deps g c ds
      | White \<Rightarrow>
          (case visit_deps g (c(d := Grey)) (deps_of g d) of
             (c', Some r) \<Rightarrow> if r \<noteq> [] then (c', Some r) else visit_deps g c' ds
           | (c', None) \<Rightarrow> visit_deps g (c'(d := Black)) ds))"
  by pat_completeness auto

lemma visit_deps_white:
  "visit_deps_dom (g, c, ds) \<Longrightarrow> fst (visit_deps g c ds) x = White \<Longrightarrow> c x = White"
proof (induction g c ds rule: visit_deps.pinduct)
  case (1 g c)
  then show ?case by (simp add: visit_deps.psimps)
next
  case (2 g c d ds)
  show ?case
  proof (cases "c d")
    case White
    obtain c' r where cr: "visit_deps g (c(d := Grey)) (deps_of g d) = (c', r)" by fastforce
    have IH: "c' x = White \<Longrightarrow> c x = White"
      using "2.IH"(1) [OF White] unfolding cr by (auto split: if_splits)
    show ?thesis
    proof (cases r)
      case None
      with "2.prems" "2.hyps" White cr
      have "fst (visit_deps g (c'(d := Black)) ds) x = White" by (simp add: visit_deps.psimps)
      then have "(c'(d := Black)) x = White" by (rule "2.IH"(2) [OF White cr [symmetric] None])
      then have "c' x = White" by (simp split: if_splits)
      then show ?thesis by (rule IH)
    next
      case (Some s)
      show ?thesis
      proof (cases "s = []")
        case True
        with "2.prems" "2.hyps" White cr Some
        have "fst (visit_deps g c' ds) x = White" by (simp add: visit_deps.psimps)
        with "2.IH"(3) [OF White cr [symmetric] Some] True have "c' x = White" by simp
        then show ?thesis by (rule IH)
      next
        case False
        with "2.prems" "2.hyps" White cr Some have "c' x = White" by (simp add: visit_deps.psimps)
        then show ?thesis by (rule IH)
      qed
    qed
  next
    case Grey
    with "2.prems" "2.hyps" show ?thesis by (simp add: visit_deps.psimps)
  next
    case Black
    with "2.prems" "2.hyps" "2.IH"(4) show ?thesis by (simp add: visit_deps.psimps)
  qed
qed

definition whites :: "(string \<times> string list) list \<Rightarrow> (string \<Rightarrow> colour) \<Rightarrow> string set" where
  "whites g c = {x \<in> set (map fst g). c x = White}"

lemma deps_of_unknown: "d \<notin> set (map fst g) \<Longrightarrow> deps_of g d = []"
  by (simp add: deps_of_def map_of_eq_None_iff [THEN iffD2] del: map_of_eq_None_iff)

termination visit_deps
proof (relation "inv_image (finite_psubset <*lex*> less_than)
                   (\<lambda>(g, c, ds). (whites g c, length ds))")
  show "wf (inv_image (finite_psubset <*lex*> less_than) (\<lambda>(g, c, ds). (whites g c, length ds)))"
    by (rule wf_inv_image) (rule wf_lex_prod [OF wf_finite_psubset wf_less_than])
next
  fix g :: "(string \<times> string list) list" and c :: "string \<Rightarrow> colour" and d and ds :: "string list"
  assume "c d = White"
  then show "((g, c(d := Grey), deps_of g d), g, c, d # ds)
      \<in> inv_image (finite_psubset <*lex*> less_than) (\<lambda>(g, c, ds). (whites g c, length ds))"
    by (cases "d \<in> set (map fst g)") (auto simp: whites_def finite_psubset_def deps_of_unknown)
next
  fix g :: "(string \<times> string list) list" and c :: "string \<Rightarrow> colour" and d and ds :: "string list"
    and c' r
  assume dom: "visit_deps_dom (g, c(d := Grey), deps_of g d)"
    and w: "c d = White" and p: "(c', r) = visit_deps g (c(d := Grey)) (deps_of g d)"
  have "c' x = White \<Longrightarrow> c x = White" for x
    using visit_deps_white [OF dom, of x] unfolding p [symmetric] by (auto split: if_splits)
  then have "whites g c' \<subseteq> whites g c" by (auto simp: whites_def)
  moreover have "finite (whites g c)" by (simp add: whites_def)
  ultimately show "((g, c', ds), g, c, d # ds)
      \<in> inv_image (finite_psubset <*lex*> less_than) (\<lambda>(g, c, ds). (whites g c, length ds))"
    by (auto simp: finite_psubset_def)
next
  fix g :: "(string \<times> string list) list" and c :: "string \<Rightarrow> colour" and d and ds :: "string list"
    and c' r
  assume dom: "visit_deps_dom (g, c(d := Grey), deps_of g d)"
    and w: "c d = White" and p: "(c', r) = visit_deps g (c(d := Grey)) (deps_of g d)"
  have "(c'(d := Black)) x = White \<Longrightarrow> c x = White" for x
    using visit_deps_white [OF dom, of x] unfolding p [symmetric] by (auto split: if_splits)
  then have "whites g (c'(d := Black)) \<subseteq> whites g c" by (auto simp: whites_def)
  moreover have "finite (whites g c)" by (simp add: whites_def)
  ultimately show "((g, c'(d := Black), ds), g, c, d # ds)
      \<in> inv_image (finite_psubset <*lex*> less_than) (\<lambda>(g, c, ds). (whites g c, length ds))"
    by (auto simp: finite_psubset_def)
qed auto

declare visit_deps.simps [simp del]

definition visit ::
  "(string \<times> string list) list \<Rightarrow> (string \<Rightarrow> colour) \<Rightarrow> string \<Rightarrow> (string \<Rightarrow> colour) \<times> string"
where
  "visit g c u =
     (case visit_deps g (c(u := Grey)) (deps_of g u) of
        (c', Some r) \<Rightarrow> (c', r)
      | (c', None) \<Rightarrow> (c'(u := Black), []))"

fun cycle_loop :: "(string \<times> string list) list \<Rightarrow> (string \<Rightarrow> colour) \<Rightarrow> string list \<Rightarrow> string" where
  "cycle_loop g c [] = []"
| "cycle_loop g c (u # us) =
     (if c u = White
      then (case visit g c u of (c', r) \<Rightarrow> if r \<noteq> [] then r else cycle_loop g c' us)
      else cycle_loop g c us)"

text \<open>The last task with an id decides its entry of the map \<open>deps\<close>.\<close>

definition deps_map :: "TemplateTask list \<Rightarrow> (string \<times> string list) list" where
  "deps_map tasks = rev (map (\<lambda>t. (tt_ID t, tt_DependsOn t)) tasks)"

definition firstCycle :: "TemplateTask list \<Rightarrow> string" where
  "firstCycle tasks = cycle_loop (deps_map tasks) (\<lambda>_. White) (map tt_ID tasks)"

section \<open>Validation and instantiation\<close>

datatype template_error =
    EmptyTaskID
  | DuplicateTaskID string
  | UnknownDependency string string
  | DependencyCycle string

fun check_ids :: "string list \<Rightarrow> TemplateTask list \<Rightarrow> template_error option" where
  "check_ids seen [] = None"
| "check_ids seen (t # ts) =
     (if tt_ID t = [] then Some EmptyTaskID
      else if tt_ID t \<in> set seen then Some (DuplicateTaskID (tt_ID t))
      else check_ids (tt_ID t # seen) ts)"

definition check_deps :: "string list \<Rightarrow> TemplateTask list \<Rightarrow> template_error option" where
  "check_deps ids tasks =
     first_some (map (\<lambda>t. first_some
       (map (\<lambda>d. if d \<in> set ids then None else Some (UnknownDependency (tt_ID t) d))
            (tt_DependsOn t))) tasks)"

definition Validate :: "MissionTemplate \<Rightarrow> template_error option" where
  "Validate mt =
     (case check_ids [] (mt_Tasks mt) of
        Some e \<Rightarrow> Some e
      | None \<Rightarrow>
        (case check_deps (map tt_ID (mt_Tasks mt)) (mt_Tasks mt) of
           Some e \<Rightarrow> Some e
         | None \<Rightarrow>
             let cyc = firstCycle (mt_Tasks mt)
             in if cyc \<noteq> [] then Some (DependencyCycle cyc) else None))"

definition instantiate_task :: "TemplateTask \<Rightarrow> Task" where
  "instantiate_task tt =
     \<lparr>t_ID = tt_ID tt, t_Type = tt_Type tt, t_Behavior = tt_Behavior tt,
      t_Covers = tt_Covers tt, t_DependsOn = tt_DependsOn tt,
      t_Dispatch = \<lparr>d_Tool = [], d_Args = []\<rparr>, t_Verification = tt_Verification tt,
      t_Status = TaskPending,
      t_RetryBudget = (if tt_RetryBudget tt = 0 then 2 else tt_RetryBudget tt),
      t_ResultRef = [], t_Evidence = None, t_BlockedReason = None\<rparr>"

definition blank_mission :: Mission where
  "blank_mission =
     \<lparr>m_MissionID = [], m_ThreadID = [], m_ParentMissionID = [], m_ProjectID = [],
      m_Question = [], m_Recall = \<lparr>re_Intents = [], re_OKCards = [], re_Keywords = []\<rparr>,
      m_Decomposition = [], m_Tasks = [], m_Cursor = [], m_StepResults = [],
      m_Synthesis = \<lparr>sy_Template = [], sy_Caveats = [], sy_Output = [], sy_ClosestReachable = []\<rparr>,
      m_Status = MissionActive, m_Reachability = None, m_BlockedRoot = None,
      m_CreatedAt = [], m_UpdatedAt = []\<rparr>"

definition Instantiate :: "MissionTemplate \<Rightarrow> TemplateConfig \<Rightarrow> Mission" where
  "Instantiate mt c =
     recomputeStatus (blank_mission
       \<lparr>m_MissionID := tc_MissionID c, m_ThreadID := tc_ThreadID c,
        m_ProjectID := tc_ProjectID c, m_Question := tc_Question c,
        m_Tasks := map instantiate_task (mt_Tasks mt),
        m_Synthesis := \<lparr>sy_Template = ts_Template (mt_Synthesis mt),
          sy_Caveats = ts_Caveats (mt_Synthesis mt), sy_Output = [], sy_ClosestReachable = []\<rparr>\<rparr>)"

text \<open>\<open>trivial.go\<close>: the one-task mission around a single smartquery call.\<close>

definition TrivialTasks :: "string \<Rightarrow> (string \<times> json) list \<Rightarrow> Task list" where
  "TrivialTasks taskID args =
     [\<lparr>t_ID = taskID, t_Type = ''smartquery'', t_Behavior = [], t_Covers = [], t_DependsOn = [],
       t_Dispatch = \<lparr>d_Tool = ''smartquery'', d_Args = args\<rparr>, t_Verification = [],
       t_Status = TaskPending, t_RetryBudget = 2, t_ResultRef = [], t_Evidence = None,
       t_BlockedReason = None\<rparr>]"

record TrivialConfig =
  tr_MissionID :: string
  tr_ThreadID :: string
  tr_ProjectID :: string
  tr_Question :: string
  tr_TaskID :: string
  tr_Args :: "(string \<times> json) list"

definition NewTrivialMission :: "TrivialConfig \<Rightarrow> Mission" where
  "NewTrivialMission c =
     recomputeStatus (blank_mission
       \<lparr>m_MissionID := tr_MissionID c, m_ThreadID := tr_ThreadID c,
        m_ProjectID := tr_ProjectID c, m_Question := tr_Question c,
        m_Tasks := TrivialTasks (tr_TaskID c) (tr_Args c)\<rparr>)"

section \<open>The search finds exactly the cycles\<close>

definition dep_edges :: "(string \<times> string list) list \<Rightarrow> (string \<times> string) set" where
  "dep_edges g = {(u, v). v \<in> set (deps_of g u)}"

definition no_empty_dep :: "(string \<times> string list) list \<Rightarrow> bool" where
  "no_empty_dep g \<longleftrightarrow> (\<forall>(u, ds) \<in> set g. [] \<notin> set ds)"

lemma no_empty_dep_deps_of: "no_empty_dep g \<Longrightarrow> [] \<notin> set (deps_of g u)"
  by (cases "map_of g u") (auto simp: no_empty_dep_def deps_of_def dest!: map_of_SomeD)

lemma dep_edges_iff: "(u, v) \<in> dep_edges g \<longleftrightarrow> v \<in> set (deps_of g u)"
  by (simp add: dep_edges_def)

text \<open>One step of the loop, without the case of an empty early result.\<close>

lemma visit_deps_Cons:
  "visit_deps g c (d # ds) = (c', r) \<longleftrightarrow>
     c d = Grey \<and> c' = c \<and> r = Some d
     \<or> c d = Black \<and> visit_deps g c ds = (c', r)
     \<or> c d = White \<and>
       (\<exists>c1 r1. visit_deps g (c(d := Grey)) (deps_of g d) = (c1, r1) \<and>
          (case r1 of
             None \<Rightarrow> visit_deps g (c1(d := Black)) ds = (c', r)
           | Some s \<Rightarrow> if s \<noteq> [] then c' = c1 \<and> r = Some s else visit_deps g c1 ds = (c', r)))"
  by (cases "c d") (auto simp: visit_deps.simps split: prod.splits option.splits)

lemma visit_deps_Nil: "visit_deps g c [] = (c', r) \<longleftrightarrow> c' = c \<and> r = None"
  by (auto simp: visit_deps.simps)

lemma visit_deps_frame:
  assumes ne: "no_empty_dep g"
  shows "visit_deps g c ds = (c', r) \<Longrightarrow> [] \<notin> set ds \<Longrightarrow>
    (case r of Some s \<Rightarrow> s \<noteq> [] | None \<Rightarrow> \<forall>x. c' x = Grey \<longleftrightarrow> c x = Grey)"
  using ne
proof (induction g c ds arbitrary: c' r rule: visit_deps.induct)
  case (1 g c)
  then show ?case by (auto simp: visit_deps_Nil)
next
  case (2 g c d ds)
  from "2.prems"(1) consider (grey) "c' = c" "r = Some d"
    | (black) "c d = Black" "visit_deps g c ds = (c', r)"
    | (white) c1 r1 where "c d = White" "visit_deps g (c(d := Grey)) (deps_of g d) = (c1, r1)"
        "case r1 of
             None \<Rightarrow> visit_deps g (c1(d := Black)) ds = (c', r)
           | Some s \<Rightarrow> if s \<noteq> [] then c' = c1 \<and> r = Some s else visit_deps g c1 ds = (c', r)"
    unfolding visit_deps_Cons by blast
  then show ?case
  proof cases
    case grey
    with "2.prems" show ?thesis by auto
  next
    case black
    with "2.prems" "2.IH"(4) show ?thesis by auto
  next
    case white
    have inner: "case r1 of Some s \<Rightarrow> s \<noteq> [] | None \<Rightarrow> \<forall>x. c1 x = Grey \<longleftrightarrow> (c(d := Grey)) x = Grey"
      by (rule "2.IH"(1) [OF white(1,2) no_empty_dep_deps_of [OF "2.prems"(3)] "2.prems"(3)])
    show ?thesis
    proof (cases r1)
      case (Some s)
      with inner white(3) show ?thesis by simp
    next
      case None
      with white(3) have "visit_deps g (c1(d := Black)) ds = (c', r)" by simp
      from "2.IH"(2) [OF white(1) white(2) [symmetric] None this] "2.prems" inner None white(1)
      show ?thesis by (auto split: option.splits if_splits)
    qed
  qed
qed

text \<open>With no empty dependency an early result is never empty, so the loop has three outcomes.\<close>

lemma visit_deps_cases:
  assumes ne: "no_empty_dep g" and eq: "visit_deps g c (d # ds) = (c', r)"
  obtains (grey) "c d = Grey" "c' = c" "r = Some d"
  | (black) "c d = Black" "visit_deps g c ds = (c', r)"
  | (early) s where "c d = White" "visit_deps g (c(d := Grey)) (deps_of g d) = (c', Some s)"
      "r = Some s"
  | (finished) c1 where "c d = White" "visit_deps g (c(d := Grey)) (deps_of g d) = (c1, None)"
      "visit_deps g (c1(d := Black)) ds = (c', r)" "\<And>x. c1 x = Grey \<longleftrightarrow> x = d \<or> c x = Grey"
proof -
  from eq consider "c d = Grey" "c' = c" "r = Some d"
    | "c d = Black" "visit_deps g c ds = (c', r)"
    | (white) c1 r1 where "c d = White" "visit_deps g (c(d := Grey)) (deps_of g d) = (c1, r1)"
        "case r1 of
             None \<Rightarrow> visit_deps g (c1(d := Black)) ds = (c', r)
           | Some s \<Rightarrow> if s \<noteq> [] then c' = c1 \<and> r = Some s else visit_deps g c1 ds = (c', r)"
    unfolding visit_deps_Cons by blast
  then show thesis
  proof cases
    case white
    note frame = visit_deps_frame [OF ne white(2) no_empty_dep_deps_of [OF ne]]
    show thesis
    proof (cases r1)
      case None
      with frame white show thesis by (intro finished [of c1]) auto
    next
      case (Some s)
      with frame white show thesis by (intro early [of s]) auto
    qed
  qed (auto intro: that)
qed

lemma visit_deps_sound:
  assumes ne: "no_empty_dep g"
  shows "visit_deps g c ds = (c', Some s) \<Longrightarrow> set ds \<subseteq> set (deps_of g u) \<Longrightarrow>
    (\<And>x. c x = Grey \<Longrightarrow> (x, u) \<in> (dep_edges g)\<^sup>*) \<Longrightarrow> (s, s) \<in> (dep_edges g)\<^sup>+"
  using ne
proof (induction g c ds arbitrary: c' u rule: visit_deps.induct)
  case (1 g c)
  then show ?case by (simp add: visit_deps_Nil)
next
  case (2 g c d ds)
  have ud: "(u, d) \<in> dep_edges g" using "2.prems"(2) by (simp add: dep_edges_iff)
  from "2.prems"(4,1) show ?case
  proof (cases rule: visit_deps_cases)
    case grey
    with "2.prems"(3) [of d] ud show ?thesis by (auto intro: rtrancl_into_trancl1)
  next
    case black
    with "2.prems" show ?thesis by (intro "2.IH"(4)) auto
  next
    case (early s')
    have "(x, d) \<in> (dep_edges g)\<^sup>*" if "(c(d := Grey)) x = Grey" for x
      using that "2.prems"(3) [of x] ud by (auto split: if_splits intro: rtrancl_into_rtrancl)
    with early "2.prems"(4) show ?thesis
      by (intro "2.IH"(1) [of c' d]) (auto simp del: fun_upd_apply)
  next
    case (finished c1)
    have "(x, u) \<in> (dep_edges g)\<^sup>*" if "(c1(d := Black)) x = Grey" for x
      using that finished(4) "2.prems"(3) [of x] by (auto split: if_splits)
    with finished "2.prems" show ?thesis by (intro "2.IH"(2) [of c1 None c' u]) (auto simp del: fun_upd_apply)
  qed
qed

text \<open>Completeness: fully explored tasks are closed under dependencies and lie on no cycle.\<close>

definition explored :: "(string \<times> string list) list \<Rightarrow> (string \<Rightarrow> colour) \<Rightarrow> bool" where
  "explored g c \<longleftrightarrow> (\<forall>x. c x = Black \<longrightarrow>
     (\<forall>y \<in> set (deps_of g x). c y = Black) \<and> (x, x) \<notin> (dep_edges g)\<^sup>+)"

lemma explored_closed:
  "(x, y) \<in> (dep_edges g)\<^sup>* \<Longrightarrow> explored g c \<Longrightarrow> c x = Black \<Longrightarrow> c y = Black"
  by (induction rule: rtrancl_induct) (auto simp: explored_def dep_edges_iff)

lemma explored_blacken:
  assumes "explored g c" and "\<forall>y \<in> set (deps_of g d). c y = Black" and "c d \<noteq> Black"
  shows "explored g (c(d := Black))"
proof -
  have "(d, d) \<notin> (dep_edges g)\<^sup>+"
  proof
    assume "(d, d) \<in> (dep_edges g)\<^sup>+"
    then obtain y where "(d, y) \<in> dep_edges g" "(y, d) \<in> (dep_edges g)\<^sup>*"
      by (blast dest: tranclD)
    with assms explored_closed show False by (auto simp: dep_edges_iff)
  qed
  with assms show ?thesis by (auto simp: explored_def)
qed

lemma visit_deps_complete:
  assumes ne: "no_empty_dep g"
  shows "visit_deps g c ds = (c', None) \<Longrightarrow> explored g c \<Longrightarrow>
    explored g c' \<and> (\<forall>x. c x = Black \<longrightarrow> c' x = Black) \<and> (\<forall>d \<in> set ds. c' d = Black)"
  using ne
proof (induction g c ds arbitrary: c' rule: visit_deps.induct)
  case (1 g c)
  then show ?case by (simp add: visit_deps_Nil)
next
  case (2 g c d ds)
  from "2.prems"(3,1) show ?case
  proof (cases rule: visit_deps_cases)
    case black
    with "2.IH"(4) [OF black(1,2) "2.prems"(2,3)] show ?thesis by auto
  next
    case (finished c1)
    have e: "explored g (c(d := Grey))"
      using "2.prems"(2) finished(1) by (auto simp: explored_def)
    note inner = "2.IH"(1) [OF finished(1,2) e "2.prems"(3)]
    have "explored g (c1(d := Black))"
      using inner finished(4) [of d] by (intro explored_blacken) auto
    from "2.IH"(2) [OF finished(1) finished(2) [symmetric] refl finished(3) this "2.prems"(3)] inner finished(1)
    show ?thesis by (auto split: if_splits)
  qed auto
qed

lemma cycle_loop_correct:
  assumes ne: "no_empty_dep g" and "\<forall>x. c x \<noteq> Grey" and "explored g c"
    and "[] \<notin> set us"
  shows "if cycle_loop g c us = [] then \<forall>u \<in> set us. (u, u) \<notin> (dep_edges g)\<^sup>+
         else (cycle_loop g c us, cycle_loop g c us) \<in> (dep_edges g)\<^sup>+"
  using assms(2-)
proof (induction us arbitrary: c)
  case (Cons u us)
  show ?case
  proof (cases "c u = White")
    case False
    with Cons.prems(1) have "c u = Black" by (metis colour.exhaust)
    with Cons.prems(2) have "(u, u) \<notin> (dep_edges g)\<^sup>+" by (auto simp: explored_def)
    with False Cons.IH [OF Cons.prems(1,2)] Cons.prems(3) show ?thesis by auto
  next
    case True
    obtain c1 r where v: "visit_deps g (c(u := Grey)) (deps_of g u) = (c1, r)" by fastforce
    note frame = visit_deps_frame [OF ne v no_empty_dep_deps_of [OF ne]]
    show ?thesis
    proof (cases r)
      case (Some s)
      have "(s, s) \<in> (dep_edges g)\<^sup>+"
        by (rule visit_deps_sound [OF ne v [unfolded Some], of u])
          (use Cons.prems(1) in \<open>auto split: if_splits\<close>)
      with Some True v frame show ?thesis by (simp add: visit_def)
    next
      case None
      have e: "explored g (c(u := Grey))"
        using Cons.prems(2) True by (auto simp: explored_def)
      note fin = visit_deps_complete [OF ne v [unfolded None] e]
      have g1: "c1 x = Grey \<longleftrightarrow> x = u" for x using frame None Cons.prems(1) by auto
      have e1: "explored g (c1(u := Black))"
        using fin g1 [of u] by (intro explored_blacken) auto
      then have "(u, u) \<notin> (dep_edges g)\<^sup>+" by (auto simp: explored_def)
      moreover have "\<forall>x. (c1(u := Black)) x \<noteq> Grey" using g1 by auto
      note Cons.IH [OF this e1]
      ultimately show ?thesis
        using True v None Cons.prems(3) by (auto simp: visit_def simp del: fun_upd_apply)
    qed
  qed
qed simp

text \<open>The dependency relation of a task list, and what the search decides about it.\<close>

definition dep_rel :: "TemplateTask list \<Rightarrow> (string \<times> string) set" where
  "dep_rel tasks = {(tt_ID t, d) |t d. t \<in> set tasks \<and> d \<in> set (tt_DependsOn t)}"

lemma dep_edges_deps_map:
  assumes "distinct (map tt_ID tasks)"
  shows "dep_edges (deps_map tasks) = dep_rel tasks"
proof -
  have dst: "distinct (map fst (deps_map tasks))"
    using assms by (simp add: deps_map_def rev_map comp_def flip: rev_map)
  have keys: "map_of (deps_map tasks) u = Some ds \<longleftrightarrow>
      (\<exists>t \<in> set tasks. u = tt_ID t \<and> ds = tt_DependsOn t)" for u ds
    using map_of_eq_Some_iff [OF dst, of u ds] by (auto simp: deps_map_def)
  show ?thesis
  proof (rule set_eqI, clarify)
    fix u v
    show "(u, v) \<in> dep_edges (deps_map tasks) \<longleftrightarrow> (u, v) \<in> dep_rel tasks"
      by (cases "map_of (deps_map tasks) u")
        (use keys [of u] in \<open>force simp: dep_edges_iff deps_of_def dep_rel_def\<close>)+
  qed
qed

lemma firstCycle_correct:
  assumes "\<forall>t \<in> set tasks. tt_ID t \<noteq> [] \<and> [] \<notin> set (tt_DependsOn t)"
    and "distinct (map tt_ID tasks)"
  shows "if firstCycle tasks = [] then acyclic (dep_rel tasks)
         else (firstCycle tasks, firstCycle tasks) \<in> (dep_rel tasks)\<^sup>+"
proof -
  have ne: "no_empty_dep (deps_map tasks)"
    using assms(1) by (auto simp: no_empty_dep_def deps_map_def)
  have "if firstCycle tasks = []
      then \<forall>u \<in> set (map tt_ID tasks). (u, u) \<notin> (dep_edges (deps_map tasks))\<^sup>+
      else (firstCycle tasks, firstCycle tasks) \<in> (dep_edges (deps_map tasks))\<^sup>+"
    unfolding firstCycle_def
    by (rule cycle_loop_correct [OF ne]) (use assms(1) in \<open>auto simp: explored_def\<close>)
  moreover have "u \<in> set (map tt_ID tasks)" if "(u, u) \<in> (dep_rel tasks)\<^sup>+" for u
    using tranclD [OF that] by (auto simp: dep_rel_def)
  ultimately show ?thesis
    unfolding dep_edges_deps_map [OF assms(2)] acyclic_def by (auto split: if_splits)
qed

section \<open>What \<open>Validate\<close> accepts\<close>

lemma check_ids_None:
  "check_ids seen ts = None \<longleftrightarrow>
     distinct (map tt_ID ts) \<and> set (map tt_ID ts) \<inter> set seen = {} \<and> [] \<notin> set (map tt_ID ts)"
  by (induction seen ts rule: check_ids.induct) auto

lemma check_deps_None:
  "check_deps ids ts = None \<longleftrightarrow> (\<forall>t \<in> set ts. set (tt_DependsOn t) \<subseteq> set ids)"
  by (auto simp: check_deps_def first_some_None split: if_splits)

definition well_formed_template :: "MissionTemplate \<Rightarrow> bool" where
  "well_formed_template mt \<longleftrightarrow>
     distinct (map tt_ID (mt_Tasks mt)) \<and> [] \<notin> set (map tt_ID (mt_Tasks mt))
     \<and> (\<forall>t \<in> set (mt_Tasks mt). set (tt_DependsOn t) \<subseteq> set (map tt_ID (mt_Tasks mt)))
     \<and> acyclic (dep_rel (mt_Tasks mt))"

lemma Validate_None_iff: "Validate mt = None \<longleftrightarrow> well_formed_template mt"
proof -
  define ts where "ts = mt_Tasks mt"
  show ?thesis
  proof (cases "check_ids [] ts = None \<and> check_deps (map tt_ID ts) ts = None")
    case False
    then show ?thesis
      by (auto simp: Validate_def well_formed_template_def check_ids_None check_deps_None
          simp flip: ts_def split: option.splits)
  next
    case True
    then have wf: "distinct (map tt_ID ts)" "[] \<notin> set (map tt_ID ts)"
        "\<forall>t \<in> set ts. set (tt_DependsOn t) \<subseteq> set (map tt_ID ts)"
      by (auto simp: check_ids_None check_deps_None)
    then have "\<forall>t \<in> set ts. tt_ID t \<noteq> [] \<and> [] \<notin> set (tt_DependsOn t)" by force
    from firstCycle_correct [OF this wf(1)] True wf show ?thesis
      by (auto simp: Validate_def well_formed_template_def Let_def acyclic_def
          simp flip: ts_def split: if_splits)
  qed
qed

end
