(* ===== verification/Mission_Live.thy ===== *)
theory Mission_Live
  imports Mission_Inv Mission_Template
begin

text \<open>
  Missions instantiated from templates: what the mutator leaves of the instantiated task list,
  and that the scheduler (\<open>PickActive\<close> of \<open>pkg/mission/pick.go\<close>) never deadlocks on a mission
  whose template passed \<open>Validate\<close>, which is what the comment of \<open>Validate\<close> promises.
\<close>

section \<open>The frame of a mutation sequence\<close>

definition task_shape :: "Task \<Rightarrow> string \<times> string list" where
  "task_shape t = (t_ID t, t_DependsOn t)"

lemma Mutate_shape: "map task_shape (m_Tasks (fst (Mutate m mu))) = map task_shape (m_Tasks m)"
proof (cases "accepted_task_mutation m mu")
  case True
  then obtain i where "one_task_moved m i (fst (Mutate m mu))" using Mutate_moves by blast
  then show ?thesis
    unfolding one_task_moved_def task_frame_def task_shape_def
    by (intro nth_equalityI) (simp, metis (no_types, lifting) length_map nth_map)
qed (simp add: Mutate_not_moved)

lemma Mutate_all_shape: "map task_shape (m_Tasks (Mutate_all m mus)) = map task_shape (m_Tasks m)"
  by (induction mus arbitrary: m) (simp_all add: Mutate_shape)

lemma CanTransition_no_other: "CanTransition\<^sup>*\<^sup>* s s' \<Longrightarrow> s' = TaskOther x \<Longrightarrow> s = TaskOther x"
proof (induction rule: rtranclp_induct)
  case (step y z)
  have "\<not> CanTransition y (TaskOther x)" by (cases y) (simp_all add: CanTransition_def)
  with step show ?case by simp
qed simp

section \<open>Task lists with an order to run them in\<close>

text \<open>
  The facts about a mission the scheduler needs: ids identify tasks, dependencies are tasks of
  the mission, the dependency relation has no cycle, and every status is one of the five.
\<close>

definition task_rel :: "Task list \<Rightarrow> (string \<times> string) set" where
  "task_rel ts = {(t_ID t, d) |t d. t \<in> set ts \<and> d \<in> set (t_DependsOn t)}"

definition schedulable :: "Mission \<Rightarrow> bool" where
  "schedulable m \<longleftrightarrow> distinct (map t_ID (m_Tasks m))
     \<and> (\<forall>t \<in> set (m_Tasks m). set (t_DependsOn t) \<subseteq> t_ID ` set (m_Tasks m))
     \<and> acyclic (task_rel (m_Tasks m))
     \<and> (\<forall>t \<in> set (m_Tasks m). \<forall>s. t_Status t \<noteq> TaskOther s)"

lemma task_rel_shape:
  "task_rel ts = {(u, d). \<exists>ds. (u, ds) \<in> set (map task_shape ts) \<and> d \<in> set ds}"
  by (force simp: task_rel_def task_shape_def)

lemma task_rel_finite: "finite (task_rel ts)"
proof -
  have "task_rel ts = (\<Union>t \<in> set ts. (\<lambda>d. (t_ID t, d)) ` set (t_DependsOn t))"
    by (auto simp: task_rel_def)
  then show ?thesis by simp
qed

lemma schedulable_shape:
  assumes "schedulable m" "map task_shape (m_Tasks m') = map task_shape (m_Tasks m)"
    "\<forall>t \<in> set (m_Tasks m'). \<forall>s. t_Status t \<noteq> TaskOther s"
  shows "schedulable m'"
proof -
  have ids: "map t_ID (m_Tasks m') = map t_ID (m_Tasks m)"
    using arg_cong [OF assms(2), of "map fst"] by (simp add: task_shape_def comp_def)
  have rel: "task_rel (m_Tasks m') = task_rel (m_Tasks m)"
    unfolding task_rel_shape assms(2) ..
  have "task_shape ` set (m_Tasks m') = task_shape ` set (m_Tasks m)"
    using arg_cong [OF assms(2), of set] by simp
  then have "\<exists>t0 \<in> set (m_Tasks m). t_DependsOn t = t_DependsOn t0" if "t \<in> set (m_Tasks m')" for t
    using that by (force simp: task_shape_def)
  then have "\<forall>t \<in> set (m_Tasks m'). set (t_DependsOn t) \<subseteq> set (map t_ID (m_Tasks m))"
    using assms(1) unfolding schedulable_def by fastforce
  with assms ids rel show ?thesis
    unfolding schedulable_def by (metis set_map)
qed

text \<open>A waiting task all of whose dependencies passed exists as long as something is left.\<close>

lemma schedulable_ready:
  assumes ok: "schedulable m"
    and noactive: "\<forall>t \<in> set (m_Tasks m). t_Status t \<noteq> TaskActive \<and> t_Status t \<noteq> TaskBlocked"
    and left: "t0 \<in> set (m_Tasks m)" "t_Status t0 \<noteq> TaskPassing"
  obtains t where "t \<in> set (m_Tasks m)" "waiting t" "dependenciesMet m t"
proof -
  let ?open = "{t_ID t |t. t \<in> set (m_Tasks m) \<and> t_Status t \<noteq> TaskPassing}"
  have wf: "wf ((task_rel (m_Tasks m))\<inverse>)"
    using ok task_rel_finite by (simp add: schedulable_def finite_acyclic_wf_converse)
  have t0: "t_ID t0 \<in> ?open" using left by auto
  obtain u where u: "u \<in> ?open" and min: "\<And>d. (d, u) \<in> (task_rel (m_Tasks m))\<inverse> \<Longrightarrow> d \<notin> ?open"
    using wfE_min [OF wf t0] by blast
  then obtain t where t: "t \<in> set (m_Tasks m)" "t_Status t \<noteq> TaskPassing" "u = t_ID t" by auto
  have "waiting t"
    using t noactive ok unfolding waiting_def schedulable_def by (cases "t_Status t") auto
  moreover have "case findTask m d of None \<Rightarrow> False | Some i \<Rightarrow> t_Status (m_Tasks m ! i) = TaskPassing"
    if d: "d \<in> set (t_DependsOn t)" for d
  proof -
    from ok t(1) d have "d \<in> t_ID ` set (m_Tasks m)" by (auto simp: schedulable_def)
    then obtain j where j: "j < length (m_Tasks m)" "t_ID (m_Tasks m ! j) = d"
      by (auto simp: in_set_conv_nth)
    with ok findTask_nth [of m j] have "findTask m d = Some j" by (simp add: schedulable_def)
    moreover have "d \<notin> ?open" using min [of d] t d by (auto simp: task_rel_def)
    then have "t_Status (m_Tasks m ! j) = TaskPassing" using j nth_mem by blast
    ultimately show ?thesis by simp
  qed
  then have "dependenciesMet m t" by (simp add: dependenciesMet_def list_all_iff)
  ultimately show thesis using that t(1) by blast
qed

lemma schedulable_pick:
  assumes "schedulable m"
    and "\<forall>t \<in> set (m_Tasks m). t_Status t \<noteq> TaskActive \<and> t_Status t \<noteq> TaskBlocked"
    and "t0 \<in> set (m_Tasks m)" "t_Status t0 \<noteq> TaskPassing"
  shows "\<exists>i. PickActive (Some m) = Some i"
proof -
  obtain t where t: "t \<in> set (m_Tasks m)" "waiting t" "dependenciesMet m t"
    using schedulable_ready [OF assms] .
  then have "find_index (\<lambda>t. waiting t \<and> dependenciesMet m t) (m_Tasks m) \<noteq> None"
    by (auto simp: find_index_None)
  moreover have "\<not> list_ex (\<lambda>t. t_Status t = TaskActive) (m_Tasks m)"
    using assms(2) by (auto simp: list_ex_iff)
  ultimately show ?thesis by (auto simp: PickActive_def)
qed

section \<open>Instantiated missions\<close>

lemma Instantiate_tasks: "m_Tasks (Instantiate mt c) = map instantiate_task (mt_Tasks mt)"
  by (simp add: Instantiate_def)

lemma instantiate_task_simps [simp]:
  "t_ID (instantiate_task tt) = tt_ID tt" "t_DependsOn (instantiate_task tt) = tt_DependsOn tt"
  "t_Status (instantiate_task tt) = TaskPending"
  by (simp_all add: instantiate_task_def)

lemma Instantiate_schedulable:
  assumes "Validate mt = None"
  shows "schedulable (Instantiate mt c)"
proof -
  have "task_rel (m_Tasks (Instantiate mt c)) = dep_rel (mt_Tasks mt)"
    by (force simp: task_rel_def dep_rel_def Instantiate_tasks)
  moreover from assms have "well_formed_template mt" by (simp add: Validate_None_iff)
  ultimately show ?thesis
    unfolding schedulable_def well_formed_template_def
    by (auto simp: Instantiate_tasks comp_def image_image)
qed

lemma Instantiate_inv:
  assumes "Validate mt = None"
  shows "mission_inv (Instantiate mt c)"
proof -
  have "distinct (map tt_ID (mt_Tasks mt))"
    using assms by (simp add: Validate_None_iff well_formed_template_def)
  then show ?thesis
    by (auto simp: mission_inv_def Instantiate_tasks comp_def)
      (simp_all add: Instantiate_def blank_mission_def)
qed

lemma reached_schedulable:
  assumes "Validate mt = None"
  shows "schedulable (Mutate_all (Instantiate mt c) mus)"
proof (rule schedulable_shape [OF Instantiate_schedulable [OF assms] Mutate_all_shape])
  let ?m = "Instantiate mt c"
  show "\<forall>t \<in> set (m_Tasks (Mutate_all ?m mus)). \<forall>s. t_Status t \<noteq> TaskOther s"
  proof (intro ballI allI notI)
    fix t s
    assume "t \<in> set (m_Tasks (Mutate_all ?m mus))" and st: "t_Status t = TaskOther s"
    then obtain i where i: "i < length (m_Tasks (Mutate_all ?m mus))"
      and t: "m_Tasks (Mutate_all ?m mus) ! i = t" by (auto simp: in_set_conv_nth)
    have len: "length (m_Tasks (Mutate_all ?m mus)) = length (m_Tasks ?m)"
      using arg_cong [OF Mutate_all_shape [of ?m mus], of length] by simp
    with i Mutate_all_status [of i ?m mus]
    have "CanTransition\<^sup>*\<^sup>* (t_Status (m_Tasks ?m ! i)) (t_Status t)" by (simp add: t)
    from CanTransition_no_other [OF this st] i len show False by (simp add: Instantiate_tasks)
  qed
qed

section \<open>Driving a mission to its end\<close>

text \<open>
  The loop an agent turn runs when every task succeeds: pick, start, complete. The scheduler
  decides the order; \<open>n\<close> bounds the number of rounds.
\<close>

definition start_of :: "string \<Rightarrow> Mutation" where
  "start_of tid = \<lparr>mut_Kind = MutateStartTask, mut_TaskID = tid, mut_StepID = [],
     mut_StepResult = None, mut_Evidence = None, mut_Blocked = None, mut_Output = []\<rparr>"

definition complete_of :: "string \<Rightarrow> Mutation" where
  "complete_of tid = (start_of tid)\<lparr>mut_Kind := MutateCompleteTask\<rparr>"

fun drive :: "nat \<Rightarrow> Mission \<Rightarrow> Mission" where
  "drive 0 m = m"
| "drive (Suc n) m =
     (case PickActive (Some m) of
        None \<Rightarrow> m
      | Some i \<Rightarrow>
          let tid = t_ID (m_Tasks m ! i)
          in drive n (Mutate_all m [start_of tid, complete_of tid]))"

definition todo :: "Mission \<Rightarrow> nat" where
  "todo m = length (filter (\<lambda>t. t_Status t \<noteq> TaskPassing) (m_Tasks m))"

definition drivable :: "Mission \<Rightarrow> bool" where
  "drivable m \<longleftrightarrow> schedulable m \<and> m_BlockedRoot m = None
     \<and> (\<forall>t \<in> set (m_Tasks m). t_Status t \<noteq> TaskActive \<and> t_Status t \<noteq> TaskBlocked)"

lemma drive_round:
  assumes ok: "drivable m" and pick: "PickActive (Some m) = Some i"
  defines "tid \<equiv> t_ID (m_Tasks m ! i)"
  defines "m' \<equiv> Mutate_all m [start_of tid, complete_of tid]"
  shows "m_Tasks m' = (m_Tasks m)[i := (m_Tasks m ! i)\<lparr>t_Status := TaskPassing\<rparr>]"
    and "m_BlockedRoot m' = None"
    and "m_Status m' = DeriveStatus (m_Tasks m') None"
proof -
  note pk = PickActive_Some [OF pick]
  let ?ts = "m_Tasks m"
  have dst: "distinct (map t_ID ?ts)" using ok by (simp add: drivable_def schedulable_def)
  have f: "findTask m tid = Some i" unfolding tid_def by (rule findTask_nth [OF dst pk(1)])
  define m1 where "m1 = fst (Mutate m (start_of tid))"
  have no: "find (\<lambda>t. t_Status t = TaskActive \<and> t_ID t \<noteq> tid) ?ts = None"
    using pk(4) by (auto simp: find_None_iff)
  have can: "CanTransition (t_Status (?ts ! i)) TaskActive"
    using pk(2) by (auto simp: waiting_def CanTransition_simps)
  have m1: "m1 = recomputeStatus
      ((set_task m i ((?ts ! i)\<lparr>t_Status := TaskActive\<rparr>))\<lparr>m_Cursor := tid\<rparr>)"
    using f no can by (simp add: m1_def Mutate_def start_of_def applyStart_def Transition_def)
  then have ts1: "m_Tasks m1 = ?ts[i := (?ts ! i)\<lparr>t_Status := TaskActive\<rparr>]"
    and b1: "m_BlockedRoot m1 = None"
    using ok by (simp_all add: drivable_def)
  have ids: "map t_ID (m_Tasks m1) = map t_ID ?ts"
    unfolding ts1 by (simp add: map_update list_update_same_conv pk(1))
  have f1: "findTask m1 tid = Some i"
    using findTask_nth [of m1 i] dst ids pk(1) ts1 by (simp add: tid_def)
  have m': "m' = fst (Mutate m1 (complete_of tid))" by (simp add: m'_def m1_def)
  have m'2: "m' = recomputeStatus (clear_cursor
      (set_task m1 i ((?ts ! i)\<lparr>t_Status := TaskPassing\<rparr>)) tid)"
    unfolding m' using f1 pk(1) ts1
    by (simp add: Mutate_def complete_of_def start_of_def applyComplete_def Transition_def
        CanTransition_def register_step_def tid_def)
  then show "m_Tasks m' = ?ts[i := (?ts ! i)\<lparr>t_Status := TaskPassing\<rparr>]" "m_BlockedRoot m' = None"
    by (simp_all add: ts1 b1)
  then show "m_Status m' = DeriveStatus (m_Tasks m') None" by (simp add: m'2 b1)
qed

lemma drive_round_drivable:
  assumes ok: "drivable m" and pick: "PickActive (Some m) = Some i"
  defines "m' \<equiv> Mutate_all m
    [start_of (t_ID (m_Tasks m ! i)), complete_of (t_ID (m_Tasks m ! i))]"
  shows "drivable m'" "todo m = Suc (todo m')"
proof -
  note r = drive_round [OF ok pick, folded m'_def]
  note pk = PickActive_Some [OF pick]
  let ?t = "(m_Tasks m ! i)\<lparr>t_Status := TaskPassing\<rparr>"
  have in': "t \<in> set (m_Tasks m') \<Longrightarrow> t = ?t \<or> t \<in> set (m_Tasks m)" for t
    unfolding r(1) by (meson set_update_subset_insert insert_iff subsetD)
  have "\<forall>t \<in> set (m_Tasks m'). (\<forall>s. t_Status t \<noteq> TaskOther s)
      \<and> t_Status t \<noteq> TaskActive \<and> t_Status t \<noteq> TaskBlocked"
    using in' ok unfolding drivable_def schedulable_def by fastforce
  moreover have "map task_shape (m_Tasks m') = map task_shape (m_Tasks m)"
    unfolding m'_def by (rule Mutate_all_shape)
  ultimately show "drivable m'"
    using schedulable_shape [of m m'] ok r(2) by (simp add: drivable_def)
  have "todo m = length (filter (\<lambda>t. t_Status t \<noteq> TaskPassing)
      (take i (m_Tasks m) @ m_Tasks m ! i # drop (Suc i) (m_Tasks m)))"
    unfolding todo_def
    by (rule arg_cong [OF id_take_nth_drop [OF pk(1)],
          of "\<lambda>ts. length (filter (\<lambda>t. t_Status t \<noteq> TaskPassing) ts)"])
  also have "\<dots> = Suc (todo m')"
    using pk(2) unfolding todo_def r(1) upd_conv_take_nth_drop [OF pk(1)]
    by (auto simp: waiting_def)
  finally show "todo m = Suc (todo m')" .
qed

lemma drive_completes:
  "drivable m \<Longrightarrow> todo m \<le> n \<Longrightarrow> m_Status m = DeriveStatus (m_Tasks m) None \<Longrightarrow>
     m_Tasks m \<noteq> [] \<Longrightarrow> m_Status (drive n m) = MissionComplete"
proof (induction n arbitrary: m)
  case 0
  then have "\<forall>t \<in> set (m_Tasks m). t_Status t = TaskPassing"
    by (simp add: todo_def filter_empty_conv)
  with 0 show ?case
    by (auto simp: DeriveStatus_def Let_def list_all_iff list_ex_iff IsTerminal_def)
next
  case (Suc n)
  show ?case
  proof (cases "PickActive (Some m)")
    case None
    have "schedulable m"
      and "\<forall>t \<in> set (m_Tasks m). t_Status t \<noteq> TaskActive \<and> t_Status t \<noteq> TaskBlocked"
      using Suc.prems(1) by (simp_all add: drivable_def)
    note schedulable_pick [OF this]
    with None have "\<forall>t \<in> set (m_Tasks m). t_Status t = TaskPassing" by (metis option.distinct(1))
    with Suc.prems None show ?thesis
      by (auto simp: DeriveStatus_def Let_def list_all_iff list_ex_iff IsTerminal_def)
  next
    case (Some i)
    let ?m = "Mutate_all m [start_of (t_ID (m_Tasks m ! i)), complete_of (t_ID (m_Tasks m ! i))]"
    note r = drive_round [OF Suc.prems(1) Some] and d = drive_round_drivable [OF Suc.prems(1) Some]
    have "m_Status (drive n ?m) = MissionComplete"
      by (rule Suc.IH [OF d(1)]) (use r d(2) Suc.prems in simp_all)
    with Some show ?thesis by (simp add: Let_def)
  qed
qed

end
