(* ===== verification/Mission_Props.thy ===== *)
theory Mission_Props
  imports Mission_Live
begin

text \<open>
  The properties of the mission engine (\<open>pkg/mission\<close>: state machine, mutator, scheduler and
  templates), each with a witness on the three-task mission below.
\<close>

definition demo_task :: "string \<Rightarrow> string list \<Rightarrow> TemplateTask" where
  "demo_task tid ds =
     \<lparr>tt_ID = tid, tt_Type = ''smartquery'', tt_Behavior = [], tt_Verification = [],
      tt_Covers = [], tt_DependsOn = ds, tt_RetryBudget = 0\<rparr>"

definition demo_template :: MissionTemplate where
  "demo_template =
     \<lparr>mt_ID = ''chain'', mt_Name = ''chain'',
      mt_Tasks = [demo_task ''a'' [], demo_task ''b'' [''a''], demo_task ''c'' [''b'']],
      mt_Synthesis = \<lparr>ts_Template = [], ts_Caveats = []\<rparr>\<rparr>"

definition demo_config :: TemplateConfig where
  "demo_config = \<lparr>tc_MissionID = ''m1'', tc_ThreadID = ''th'', tc_ProjectID = ''p'',
     tc_Question = ''q''\<rparr>"

definition block_of :: "string \<Rightarrow> Mutation" where
  "block_of tid = (start_of tid)\<lparr>mut_Kind := MutateBlockTask,
     mut_Blocked := Some \<lparr>br_Kind = GapNoData, br_MissingDimension = [],
       br_CandidatesChecked = [], br_SuggestedFix = []\<rparr>\<rparr>"

lemma demo_valid: "Validate demo_template = None"
  by (simp add: Validate_def demo_template_def demo_task_def check_deps_def firstCycle_def
      deps_map_def visit_def visit_deps.simps deps_of_def)

text \<open>a rejected mutation leaves the mission as it was, whatever its kind and whatever it
  had already looked up: the mutator of \<open>mutator.go\<close> has no half-applied changes.\<close>

theorem rejected_mutation_changes_nothing:
  "snd (Mutate m mu) = Some e \<Longrightarrow> fst (Mutate m mu) = m"
  by (metis Mutate_reject prod.collapse)

theorem rejected_mutation_changes_nothing_witness:
  "fst (Mutate (Instantiate demo_template demo_config) (complete_of ''a''))
     = Instantiate demo_template demo_config"
  by (rule rejected_mutation_changes_nothing [of _ _ "ErrInvalidTransition TaskPending TaskPassing"])
    code_simp

text \<open>C23: an accepted task mutation refines the abstract life cycle: exactly the task it names
  moves, by one edge of the life cycle (a retry costs one unit of budget), its identity,
  dispatch, dependencies and verification stay, and every other task is untouched.\<close>

theorem accepted_mutation_refines_life:
  assumes "snd (Mutate m mu) = None" "mut_Kind mu \<noteq> MutateSynthesize"
  shows "\<exists>i. findTask m (mut_TaskID mu) = Some i \<and> one_task_moved m i (fst (Mutate m mu))"
  by (rule Mutate_moves) (simp add: assms accepted_task_mutation_def)

theorem accepted_mutation_refines_life_witness:
  "\<exists>i. findTask (Instantiate demo_template demo_config) ''a'' = Some i
     \<and> one_task_moved (Instantiate demo_template demo_config) i
         (fst (Mutate (Instantiate demo_template demo_config) (start_of ''a'')))"
proof -
  have "snd (Mutate (Instantiate demo_template demo_config) (start_of ''a'')) = None"
    "mut_Kind (start_of ''a'') \<noteq> MutateSynthesize" "mut_TaskID (start_of ''a'') = ''a''" by code_simp+
  with accepted_mutation_refines_life [of "Instantiate demo_template demo_config" "start_of ''a''"]
  show ?thesis by simp
qed

text \<open>C22: a mission instantiated from a validated template keeps its invariant under every
  sequence of requested mutations, accepted or not: ids stay unique, the cursor names the
  active task and is empty when none is active, the mission status is the one derived from the
  tasks, and so at most one task is ever active (the work-in-progress limit).\<close>

theorem mission_invariant_holds:
  assumes "Validate mt = None"
  shows "mission_inv (Mutate_all (Instantiate mt c) mus)
    \<and> length (filter (\<lambda>t. t_Status t = TaskActive) (m_Tasks (Mutate_all (Instantiate mt c) mus))) \<le> 1"
  using Mutate_all_inv [OF Instantiate_inv [OF assms]] mission_inv_wip by blast

theorem mission_invariant_holds_witness:
  "mission_inv (Mutate_all (Instantiate demo_template demo_config)
     [start_of ''a'', start_of ''b'', complete_of ''a''])"
  using mission_invariant_holds [OF demo_valid] by blast

text \<open>C25: a mission cannot be worked on forever: whatever mutations are requested, at most
  \<open>2 * budget + 2\<close> per task are accepted (synthesis aside), because every accepted one moves a
  task along its life cycle and a retry spends budget.\<close>

theorem accepted_mutations_bounded:
  "count_accepted m mus \<le> sum_list (map (\<lambda>t. 2 * nat (t_RetryBudget t) + 2) (m_Tasks m))"
proof -
  have "pot (life_of t) \<le> 2 * nat (t_RetryBudget t) + 2" for t
    by (cases "t_Status t") (simp_all add: life_of_def)
  then have "mission_pot m \<le> sum_list (map (\<lambda>t. 2 * nat (t_RetryBudget t) + 2) (m_Tasks m))"
    unfolding mission_pot_def by (intro sum_list_mono)
  with count_accepted_bound [of m mus] show ?thesis by simp
qed

text \<open>\<open>passing\<close> and \<open>blocked\<close> are final: no sequence of mutations moves a task out of them.\<close>

theorem terminal_status_is_final:
  assumes "i < length (m_Tasks m)" "IsTerminal (t_Status (m_Tasks m ! i))"
  shows "t_Status (m_Tasks (Mutate_all m mus) ! i) = t_Status (m_Tasks m ! i)"
  using Mutate_all_status [OF assms(1), of mus] task_machine.terminal_forever assms(2) by metis

theorem terminal_status_is_final_witness:
  "t_Status (m_Tasks (Mutate_all (Mutate_all (Instantiate demo_template demo_config)
       [start_of ''a'', block_of ''a'']) [start_of ''a'', complete_of ''a'']) ! 0) = TaskBlocked"
proof -
  let ?m = "Mutate_all (Instantiate demo_template demo_config) [start_of ''a'', block_of ''a'']"
  have "0 < length (m_Tasks ?m)" and t: "IsTerminal (t_Status (m_Tasks ?m ! 0))"
    and s: "t_Status (m_Tasks ?m ! 0) = TaskBlocked" by code_simp+
  from terminal_status_is_final [OF this(1) t, of "[start_of ''a'', complete_of ''a'']"] s
  show ?thesis by (rule trans)
qed

text \<open>C24: \<open>Validate\<close> accepts a template exactly when its task ids are non-empty and unique, its
  dependencies are tasks of the template, and its dependency relation is acyclic.\<close>

theorem validate_accepts_exactly_the_well_formed:
  "Validate mt = None \<longleftrightarrow>
     distinct (map tt_ID (mt_Tasks mt)) \<and> [] \<notin> set (map tt_ID (mt_Tasks mt))
     \<and> (\<forall>t \<in> set (mt_Tasks mt). set (tt_DependsOn t) \<subseteq> set (map tt_ID (mt_Tasks mt)))
     \<and> acyclic {(tt_ID t, d) |t d. t \<in> set (mt_Tasks mt) \<and> d \<in> set (tt_DependsOn t)}"
  unfolding Validate_None_iff well_formed_template_def dep_rel_def ..

theorem validate_accepts_exactly_the_well_formed_witness:
  "acyclic {(tt_ID t, d) |t d. t \<in> set (mt_Tasks demo_template) \<and> d \<in> set (tt_DependsOn t)}"
  using validate_accepts_exactly_the_well_formed [of demo_template] demo_valid by blast

text \<open>the three-colour search is right in both directions on tasks with non-empty unique ids:
  it reports no task exactly when the dependencies are acyclic, and a task it reports lies on
  a cycle.\<close>

theorem first_cycle_correct:
  assumes "\<forall>t \<in> set tasks. tt_ID t \<noteq> [] \<and> [] \<notin> set (tt_DependsOn t)"
    and "distinct (map tt_ID tasks)"
  shows "(firstCycle tasks = [] \<longleftrightarrow> acyclic (dep_rel tasks))
    \<and> (firstCycle tasks \<noteq> [] \<longrightarrow> (firstCycle tasks, firstCycle tasks) \<in> (dep_rel tasks)\<^sup>+)"
  using firstCycle_correct [OF assms] by (auto simp: acyclic_def split: if_splits)

theorem first_cycle_correct_witness:
  "\<not> acyclic (dep_rel [demo_task ''a'' [''b''], demo_task ''b'' [''a'']])
   \<and> (''a'', ''a'') \<in> (dep_rel [demo_task ''a'' [''b''], demo_task ''b'' [''a'']])\<^sup>+"
proof -
  have "firstCycle [demo_task ''a'' [''b''], demo_task ''b'' [''a'']] = ''a''"
    by (simp add: demo_task_def firstCycle_def deps_map_def visit_def visit_deps.simps deps_of_def)
  with first_cycle_correct [of "[demo_task ''a'' [''b''], demo_task ''b'' [''a'']]"]
  show ?thesis by (simp add: demo_task_def)
qed

text \<open>C21: a mission built from a validated template does not deadlock: after any mutations, if no
  task is active or blocked and some task has not passed, the scheduler has a task to offer.\<close>

theorem validated_missions_never_deadlock:
  assumes "Validate mt = None"
    and "m = Mutate_all (Instantiate mt c) mus"
    and "\<forall>t \<in> set (m_Tasks m). t_Status t \<noteq> TaskActive \<and> t_Status t \<noteq> TaskBlocked"
    and "\<exists>t \<in> set (m_Tasks m). t_Status t \<noteq> TaskPassing"
  shows "\<exists>i. PickActive (Some m) = Some i"
  using schedulable_pick [of m] reached_schedulable [OF assms(1), of c mus] assms(2-4) by blast

theorem validated_missions_never_deadlock_witness:
  "\<exists>i. PickActive (Some (Mutate_all (Instantiate demo_template demo_config)
     [start_of ''a'', complete_of ''a''])) = Some i"
  by (rule validated_missions_never_deadlock [OF demo_valid refl]) code_simp+

text \<open>when every task succeeds, picking, starting and completing at most one round per task
  brings a mission of a validated non-empty template to \<open>complete\<close>.\<close>

theorem validated_missions_complete:
  assumes "Validate mt = None" "mt_Tasks mt \<noteq> []" "length (mt_Tasks mt) \<le> n"
  shows "m_Status (drive n (Instantiate mt c)) = MissionComplete"
proof (rule drive_completes)
  let ?m = "Instantiate mt c"
  show "drivable ?m"
    using Instantiate_schedulable [OF assms(1), of c]
    by (auto simp: drivable_def Instantiate_tasks) (simp add: Instantiate_def blank_mission_def)
  show "todo ?m \<le> n"
    using assms(3) length_filter_le [of "\<lambda>t. t_Status t \<noteq> TaskPassing" "m_Tasks ?m"]
    by (simp add: todo_def Instantiate_tasks)
  show "m_Status ?m = DeriveStatus (m_Tasks ?m) None" "m_Tasks ?m \<noteq> []"
    using assms(2) by (simp_all add: Instantiate_def blank_mission_def)
qed

theorem validated_missions_complete_witness:
  "m_Status (drive 3 (Instantiate demo_template demo_config)) = MissionComplete"
  by (rule validated_missions_complete [OF demo_valid]) (simp_all add: demo_template_def)

text \<open>what the scheduler offers is runnable: it is a waiting task whose dependencies all
  passed, no task is active, \<open>Runnable\<close> agrees, and starting it is accepted.\<close>

theorem picked_task_can_start:
  assumes "distinct (map t_ID (m_Tasks m))" "PickActive (Some m) = Some i"
  shows "i < length (m_Tasks m) \<and> waiting (m_Tasks m ! i) \<and> dependenciesMet m (m_Tasks m ! i)
    \<and> Runnable (Some m) \<and> snd (Mutate m (start_of (t_ID (m_Tasks m ! i)))) = None"
proof -
  note pk = PickActive_Some [OF assms(2)]
  have "\<not> dependencyPermanentlyBlocked m (m_Tasks m ! i)"
    using pk(3) by (auto simp: dependencyPermanentlyBlocked_def dependenciesMet_def list_all_iff
        list_ex_iff split: option.splits)
  with pk have "Runnable (Some m)"
    unfolding Runnable_def list_ex_iff using nth_mem by fastforce
  with pk PickActive_startable [OF assms] show ?thesis by (simp add: Mutate_def start_of_def)
qed

theorem picked_task_can_start_witness:
  "PickActive (Some (Instantiate demo_template demo_config)) = Some 0
   \<and> snd (Mutate (Instantiate demo_template demo_config) (start_of ''a'')) = None"
proof -
  let ?m = "Instantiate demo_template demo_config"
  have p: "PickActive (Some ?m) = Some 0" "distinct (map t_ID (m_Tasks ?m))"
    "t_ID (m_Tasks ?m ! 0) = ''a''" by code_simp+
  from picked_task_can_start [OF p(2,1)] p show ?thesis by simp
qed

text \<open>\<open>Runnable\<close> looks one dependency deep. In the mission where \<open>b\<close> waits for \<open>a\<close> and \<open>c\<close>
  for \<open>b\<close>, once \<open>a\<close> is blocked nothing can be picked, yet \<open>Runnable\<close> still holds (for \<open>c\<close>)
  and the mission status stays active instead of becoming partial.\<close>

theorem runnable_ignores_transitive_blocks:
  "let m = Mutate_all (Instantiate demo_template demo_config) [start_of ''a'', block_of ''a'']
   in PickActive (Some m) = None \<and> Runnable (Some m) \<and> m_Status m = MissionActive
      \<and> dependencyPermanentlyBlocked m (m_Tasks m ! 1)
      \<and> \<not> dependencyPermanentlyBlocked m (m_Tasks m ! 2)"
  by code_simp

end
