(* ===== verification/Mission_Coverage.thy ===== *)
theory Mission_Coverage
  imports Mission_State
begin

text \<open>
  \<open>pkg/mission/coverage.go\<close> and \<open>reachability.go\<close>: which decomposed requirements the authorised
  intents can filter on, the whole-question verdict of the reachability judge, and the gate
  that re-checks a claimed capability gap. The Chinese literals of the verdicts are the UTF-8
  bytes of the source.
\<close>

record IntentParam =
  ip_Name :: string
  ip_Type :: string
  ip_Property :: string
  ip_Op :: string
  ip_Description :: string

record IntentSpec =
  is_Name :: string
  is_Params :: "IntentParam list"

definition Covers :: "IntentParam \<Rightarrow> DecompItem \<Rightarrow> bool" where
  "Covers p dm =
     (let n = trim_space (di_Name dm)
      in if n = [] then False
         else equal_fold (trim_space (ip_Name p)) n \<or> equal_fold (trim_space (ip_Property p)) n)"

definition CoveringIntents :: "DecompItem \<Rightarrow> IntentSpec list \<Rightarrow> string list" where
  "CoveringIntents dm intents =
     map is_Name (filter (\<lambda>i. list_ex (\<lambda>p. Covers p dm) (is_Params i)) intents)"

definition gating :: "string \<Rightarrow> bool" where
  "gating kind \<longleftrightarrow> kind = ''dimension'' \<or> kind = ''filter''"

definition UncoveredDimensions :: "DecompItem list \<Rightarrow> IntentSpec list \<Rightarrow> DecompItem list" where
  "UncoveredDimensions decomposition intents =
     filter (\<lambda>d. gating (di_Kind d) \<and> CoveringIntents d intents = []) decomposition"

text \<open>The gate: the intent and parameter that contradict the claim.\<close>

datatype gap_error = EmptyMissingDimension | GapContradicted string string string

definition VerifyNoParamGap :: "string \<Rightarrow> IntentSpec list \<Rightarrow> gap_error option" where
  "VerifyNoParamGap missingDim candidates =
     (if trim_space missingDim = [] then Some EmptyMissingDimension
      else
        let dm = \<lparr>di_ID = [], di_Kind = ''filter'', di_Name = missingDim, di_Shape = [],
                   di_WhyRequired = []\<rparr>
        in first_some (map (\<lambda>i. first_some (map (\<lambda>p.
             if Covers p dm then Some (GapContradicted (is_Name i) (ip_Name p) missingDim)
             else None) (is_Params i))) candidates))"

section \<open>The judge\<close>

text \<open>"No authorised metric provides the dimension ..."\<close>

definition missing_note :: "string \<Rightarrow> string" where
  "missing_note name =
   utf8 [230, 178, 161, 230, 156, 137, 228, 187, 187, 228, 189, 149, 229, 183, 178, 230, 142, 136,
     230, 157, 131, 229, 143, 163, 229, 190, 132, 230, 143, 144, 228, 190, 155, 227, 128, 140]
   @ name
   @ utf8 [227, 128, 141, 232, 191, 153, 228, 184, 170, 231, 187, 180, 229, 186, 166]"

definition judge_item :: "IntentSpec list \<Rightarrow> DecompItem \<Rightarrow> RequirementCoverage" where
  "judge_item intents d =
     (let rc = \<lparr>rq_Dimension = di_Name d, rq_Kind = di_Kind d, rq_Shape = di_Shape d,
                rq_Why = di_WhyRequired d, rq_Covered = False, rq_CoveredBy = [],
                rq_MissingNote = []\<rparr>
      in if \<not> gating (di_Kind d) then rc\<lparr>rq_Covered := True\<rparr>
         else
           let covering = CoveringIntents d intents
           in if covering \<noteq> [] then rc\<lparr>rq_Covered := True, rq_CoveredBy := covering\<rparr>
              else rc\<lparr>rq_MissingNote := missing_note (di_Name d)\<rparr>)"

text \<open>
  The separator is the ideographic comma; the three texts say that no dimension needs an
  authorisation, that the dimensions listed are all covered, and that the ones listed are not.
\<close>

definition ideographic_comma :: string where
  "ideographic_comma =
   utf8 [227, 128, 129]"

definition reason_no_dimension :: string where
  "reason_no_dimension =
   utf8 [229, 143, 175, 232, 161, 140]
   @ '':''
   @ utf8 [233, 151, 174, 233, 162, 152, 228, 184, 141, 230, 182, 137, 229, 143, 138, 233, 156, 128,
     232, 166, 129, 230, 142, 136, 230, 157, 131, 231, 154, 132, 231, 173, 155, 233, 128, 137,
     231, 187, 180, 229, 186, 166, 227, 128, 130]"

definition reason_covered :: "string \<Rightarrow> string" where
  "reason_covered dims =
   utf8 [229, 143, 175, 232, 161, 140]
   @ '':''
   @ utf8 [233, 151, 174, 233, 162, 152, 230, 137, 128, 233, 156, 128, 231, 154, 132, 231, 187, 180,
     229, 186, 166]
   @ ''(''
   @ dims
   @ '')''
   @ utf8 [229, 157, 135, 232, 162, 171, 229, 183, 178, 230, 142, 136, 230, 157, 131, 229, 143, 163,
     229, 190, 132, 232, 166, 134, 231, 155, 150, 227, 128, 130]"

definition reason_uncovered :: "string \<Rightarrow> string" where
  "reason_uncovered dims =
   utf8 [228, 184, 141, 229, 143, 175, 232, 161, 140]
   @ '':''
   @ utf8 [233, 151, 174, 233, 162, 152, 233, 156, 128, 232, 166, 129, 230, 140, 137, 227, 128, 140]
   @ dims
   @ utf8 [227, 128, 141, 231, 173, 155, 233, 128, 137]
   @ '',''
   @ utf8 [228, 189, 134, 230, 178, 161, 230, 156, 137, 228, 187, 187, 228, 189, 149, 229, 183, 178,
     230, 142, 136, 230, 157, 131, 229, 143, 163, 229, 190, 132, 230, 143, 144, 228, 190, 155,
     232, 191, 153, 228, 184, 170]
   @ ''(''
   @ utf8 [228, 186, 155]
   @ '')''
   @ utf8 [231, 187, 180, 229, 186, 166, 226, 128, 148, 226, 128, 148]
   @ utf8 [229, 155, 160, 230, 173, 164, 232, 191, 153, 228, 184, 170, 233, 151, 174, 233, 162, 152,
     231, 154, 132, 230, 149, 180, 228, 189, 147, 229, 155, 158, 231, 173, 148, 231, 142, 176,
     229, 156, 168, 229, 129, 154, 228, 184, 141, 229, 136, 176, 227, 128, 130]"

definition renderReason :: "ReachabilityVerdict \<Rightarrow> string" where
  "renderReason v =
     (let uncovered = map rq_Dimension
            (filter (\<lambda>r. gating (rq_Kind r) \<and> \<not> rq_Covered r) (rv_Requirements v))
      in if rv_Feasible v
         then let dims = map rq_Dimension (filter (\<lambda>r. gating (rq_Kind r)) (rv_Requirements v))
              in if dims = [] then reason_no_dimension
                 else reason_covered (join_str ideographic_comma dims)
         else reason_uncovered (join_str ideographic_comma uncovered))"

definition judge_step ::
  "IntentSpec list \<Rightarrow> ReachabilityVerdict \<Rightarrow> DecompItem \<Rightarrow> ReachabilityVerdict" where
  "judge_step intents v d =
     (let rc = judge_item intents d
      in v\<lparr>rv_Feasible := rv_Feasible v \<and> rq_Covered rc,
           rv_Requirements := rv_Requirements v @ [rc]\<rparr>)"

definition Judge :: "DecompItem list \<Rightarrow> IntentSpec list \<Rightarrow> ReachabilityVerdict" where
  "Judge decomposition intents =
     (let v = foldl (judge_step intents)
            \<lparr>rv_Feasible = True, rv_Requirements = [], rv_Reason = [], rv_Kind = []\<rparr>
            decomposition
      in v\<lparr>rv_Reason := renderReason v\<rparr>)"

definition AnswerableSubset :: "ReachabilityVerdict \<Rightarrow> string list" where
  "AnswerableSubset v =
     map rq_Dimension (filter (\<lambda>r. gating (rq_Kind r) \<and> rq_Covered r) (rv_Requirements v))"

section \<open>Lemmas\<close>

lemma CoveringIntents_empty:
  "CoveringIntents d intents = [] \<longleftrightarrow> (\<forall>i \<in> set intents. \<forall>p \<in> set (is_Params i). \<not> Covers p d)"
  by (auto simp: CoveringIntents_def filter_empty_conv list_ex_iff)

lemma judge_item_Covered:
  "rq_Covered (judge_item intents d) \<longleftrightarrow> \<not> (gating (di_Kind d) \<and> CoveringIntents d intents = [])"
  by (simp add: judge_item_def Let_def)

lemma judge_item_fields [simp]:
  "rq_Dimension (judge_item intents d) = di_Name d" "rq_Kind (judge_item intents d) = di_Kind d"
  by (simp_all add: judge_item_def Let_def)

lemma judge_fold:
  "rv_Requirements (foldl (judge_step intents) v ds) = rv_Requirements v @ map (judge_item intents) ds
   \<and> rv_Feasible (foldl (judge_step intents) v ds)
     = (rv_Feasible v \<and> (\<forall>d \<in> set ds. rq_Covered (judge_item intents d)))
   \<and> rv_Kind (foldl (judge_step intents) v ds) = rv_Kind v"
  by (induction ds arbitrary: v) (auto simp: judge_step_def Let_def)

lemma Judge_fields:
  "rv_Requirements (Judge ds intents) = map (judge_item intents) ds"
  "rv_Feasible (Judge ds intents) \<longleftrightarrow> (\<forall>d \<in> set ds. rq_Covered (judge_item intents d))"
  "rv_Kind (Judge ds intents) = []"
  by (simp_all add: Judge_def Let_def judge_fold)

text \<open>The cover test depends on the dimension only up to case and surrounding space.\<close>

lemma Covers_fold:
  assumes "equal_fold (trim_space (di_Name d)) (trim_space (di_Name d'))"
  shows "Covers p d = Covers p d'"
proof -
  have "trim_space (di_Name d) = [] \<longleftrightarrow> trim_space (di_Name d') = []"
    using assms by (metis equal_fold_def to_lower_eq_Nil)
  with assms show ?thesis by (simp add: Covers_def Let_def equal_fold_def)
qed

lemma first_some_exists: "first_some xs \<noteq> None \<longleftrightarrow> (\<exists>x \<in> set xs. x \<noteq> None)"
  by (simp add: first_some_None)

lemma VerifyNoParamGap_None:
  "VerifyNoParamGap dm cands = None \<longleftrightarrow>
     trim_space dm \<noteq> []
     \<and> CoveringIntents \<lparr>di_ID = [], di_Kind = ''filter'', di_Name = dm, di_Shape = [],
          di_WhyRequired = []\<rparr> cands = []"
  by (auto simp: VerifyNoParamGap_def Let_def first_some_None CoveringIntents_empty split: if_splits)

section \<open>Properties\<close>

definition demo_dims :: "DecompItem list" where
  "demo_dims =
     [\<lparr>di_ID = ''1'', di_Kind = ''metric'', di_Name = ''sales'', di_Shape = [], di_WhyRequired = []\<rparr>,
      \<lparr>di_ID = ''2'', di_Kind = ''filter'', di_Name = '' City'', di_Shape = [], di_WhyRequired = []\<rparr>]"

definition demo_intents :: "IntentSpec list" where
  "demo_intents =
     [\<lparr>is_Name = ''by_city'', is_Params = [\<lparr>ip_Name = ''p1'', ip_Type = ''string'',
        ip_Property = ''city'', ip_Op = ''eq'', ip_Description = []\<rparr>]\<rparr>]"

text \<open>the verdict is the coverage check of the whole question: it is feasible exactly when
  \<open>UncoveredDimensions\<close> finds nothing, that is when every dimension or filter of the
  decomposition (a metric never gates) is matched by a parameter of some authorised intent.\<close>

theorem judge_feasible_iff_covered:
  "rv_Feasible (Judge ds intents) \<longleftrightarrow>
     UncoveredDimensions ds intents = []"
  by (auto simp: Judge_fields judge_item_Covered UncoveredDimensions_def filter_empty_conv)

text \<open>the requirements list every item in order; those that gate are partitioned into the
  answerable subset and the uncovered dimensions, and the reason text names exactly the
  uncovered ones when the verdict is infeasible.\<close>

theorem judge_explains_every_requirement:
  "map rq_Dimension (rv_Requirements (Judge ds intents)) = map di_Name ds
   \<and> AnswerableSubset (Judge ds intents)
       = map di_Name (filter (\<lambda>d. gating (di_Kind d) \<and> CoveringIntents d intents \<noteq> []) ds)
   \<and> (\<not> rv_Feasible (Judge ds intents) \<longrightarrow>
        rv_Reason (Judge ds intents) = reason_uncovered
          (join_str ideographic_comma (map di_Name (UncoveredDimensions ds intents))))"
proof -
  let ?v = "foldl (judge_step intents)
     \<lparr>rv_Feasible = True, rv_Requirements = [], rv_Reason = [], rv_Kind = []\<rparr> ds"
  have "filter (\<lambda>r. gating (rq_Kind r) \<and> \<not> rq_Covered r) (map (judge_item intents) ds)
      = map (judge_item intents) (UncoveredDimensions ds intents)"
    by (auto simp: filter_map comp_def judge_item_Covered UncoveredDimensions_def
        intro!: arg_cong [of _ _ "map (judge_item intents)"] filter_cong)
  then have "\<not> rv_Feasible ?v \<longrightarrow> renderReason ?v = reason_uncovered
      (join_str ideographic_comma (map di_Name (UncoveredDimensions ds intents)))"
    by (simp add: renderReason_def judge_fold comp_def)
  moreover have "AnswerableSubset (Judge ds intents)
      = map di_Name (filter (\<lambda>d. gating (di_Kind d) \<and> CoveringIntents d intents \<noteq> []) ds)"
    by (simp add: AnswerableSubset_def Judge_fields filter_map comp_def judge_item_Covered)
      (auto intro!: arg_cong [of _ _ "map di_Name"] filter_cong)
  moreover have "map rq_Dimension (rv_Requirements (Judge ds intents)) = map di_Name ds"
    by (simp add: Judge_fields comp_def)
  moreover have "rv_Feasible (Judge ds intents) = rv_Feasible ?v"
    "rv_Reason (Judge ds intents) = renderReason ?v" by (simp_all add: Judge_def Let_def)
  ultimately show ?thesis by simp
qed

theorem judge_explains_every_requirement_witness:
  "rv_Feasible (Judge demo_dims demo_intents) \<and> \<not> rv_Feasible (Judge demo_dims [])
   \<and> rv_Reason (Judge demo_dims []) = reason_uncovered '' City''"
proof -
  have "rv_Feasible (Judge demo_dims demo_intents)" "\<not> rv_Feasible (Judge demo_dims [])"
    "join_str ideographic_comma (map di_Name (UncoveredDimensions demo_dims [])) = '' City''"
    unfolding Judge_fields judge_item_Covered by code_simp+
  with judge_explains_every_requirement [of demo_dims "[]"] show ?thesis by simp
qed

text \<open>the gap gate and the judge agree: a claimed missing dimension passes the gate exactly
  when it is not blank and the judge finds a question that filters on it infeasible. So the
  agent can never declare a gap for a dimension the judge would have called covered.\<close>

theorem gap_gate_agrees_with_judge:
  "VerifyNoParamGap dm cands = None \<longleftrightarrow>
     trim_space dm \<noteq> []
     \<and> \<not> rv_Feasible (Judge [\<lparr>di_ID = i, di_Kind = ''filter'', di_Name = dm, di_Shape = sh,
           di_WhyRequired = w\<rparr>] cands)"
proof -
  have "Covers p \<lparr>di_ID = i, di_Kind = ''filter'', di_Name = dm, di_Shape = sh, di_WhyRequired = w\<rparr>
      = Covers p \<lparr>di_ID = [], di_Kind = ''filter'', di_Name = dm, di_Shape = [], di_WhyRequired = []\<rparr>"
    for p by (rule Covers_fold) simp
  then show ?thesis
    by (simp add: VerifyNoParamGap_None Judge_fields judge_item_Covered gating_def
        CoveringIntents_empty)
qed

end
