(* ===== verification/Regex.thy ===== *)
theory Regex
  imports Prelude
begin

text \<open>
  Package \<open>regexp\<close> of the Go standard library, as far as the services use it: a backtracking
  matcher whose alternatives are tried in the order Go prefers them (leftmost-first), so that
  the first result is the match Go reports. A position in the text is a zipper: the bytes
  before it, reversed, and the bytes after it. \<open>RStar\<close> is greedy, \<open>RLazy\<close> is the \<open>*?\<close> of Go;
  an iteration that consumes nothing is not continued. \<open>FindAll\<close> and \<open>ReplaceAll\<close> are modelled
  for patterns that match no empty text, which is how the services use them.
\<close>

section \<open>Patterns and the matcher\<close>

datatype regex =
    REps
  | RCls "char \<Rightarrow> bool"
  | RSeq regex regex
  | RAlt regex regex
  | RStar regex
  | RLazy regex
  | RGrp nat regex
  | RBegin
  | REnd
  | RWordB

type_synonym groups = "nat \<Rightarrow> string option"
type_synonym rstate = "string \<times> string \<times> groups"

abbreviation before :: "rstate \<Rightarrow> string" where "before \<sigma> \<equiv> fst \<sigma>"
abbreviation after :: "rstate \<Rightarrow> string" where "after \<sigma> \<equiv> fst (snd \<sigma>)"

definition is_word_char :: "char \<Rightarrow> bool" where
  "is_word_char c \<longleftrightarrow>
     (let n = (of_char c :: nat)
      in 48 \<le> n \<and> n \<le> 57 \<or> 65 \<le> n \<and> n \<le> 90 \<or> n = 95 \<or> 97 \<le> n \<and> n \<le> 122)"

definition head_is :: "(char \<Rightarrow> bool) \<Rightarrow> string \<Rightarrow> bool" where
  "head_is p s = (case s of [] \<Rightarrow> False | c # _ \<Rightarrow> p c)"

definition word_boundary :: "string \<Rightarrow> string \<Rightarrow> bool" where
  "word_boundary b a \<longleftrightarrow> head_is is_word_char b \<noteq> head_is is_word_char a"

fun star_greedy :: "nat \<Rightarrow> (rstate \<Rightarrow> rstate list) \<Rightarrow> rstate \<Rightarrow> rstate list" where
  "star_greedy 0 f \<sigma> = [\<sigma>]"
| "star_greedy (Suc n) f \<sigma> =
     concat (map (\<lambda>\<tau>. if length (after \<tau>) < length (after \<sigma>) then star_greedy n f \<tau> else [])
       (f \<sigma>)) @ [\<sigma>]"

fun star_lazy :: "nat \<Rightarrow> (rstate \<Rightarrow> rstate list) \<Rightarrow> rstate \<Rightarrow> rstate list" where
  "star_lazy 0 f \<sigma> = [\<sigma>]"
| "star_lazy (Suc n) f \<sigma> =
     \<sigma> # concat (map (\<lambda>\<tau>. if length (after \<tau>) < length (after \<sigma>) then star_lazy n f \<tau> else [])
       (f \<sigma>))"

primrec runs :: "regex \<Rightarrow> rstate \<Rightarrow> rstate list" where
  "runs REps \<sigma> = [\<sigma>]"
| "runs (RCls p) \<sigma> =
     (case \<sigma> of (b, a, g) \<Rightarrow>
        (case a of [] \<Rightarrow> [] | c # a' \<Rightarrow> if p c then [(c # b, a', g)] else []))"
| "runs (RSeq r s) \<sigma> = concat (map (runs s) (runs r \<sigma>))"
| "runs (RAlt r s) \<sigma> = runs r \<sigma> @ runs s \<sigma>"
| "runs (RStar r) \<sigma> = star_greedy (length (after \<sigma>)) (runs r) \<sigma>"
| "runs (RLazy r) \<sigma> = star_lazy (length (after \<sigma>)) (runs r) \<sigma>"
| "runs (RGrp n r) \<sigma> =
     map (\<lambda>\<tau>. case \<tau> of (b, a, g) \<Rightarrow>
        (b, a, g(n \<mapsto> take (length (after \<sigma>) - length a) (after \<sigma>)))) (runs r \<sigma>)"
| "runs RBegin \<sigma> = (if before \<sigma> = [] then [\<sigma>] else [])"
| "runs REnd \<sigma> = (if after \<sigma> = [] then [\<sigma>] else [])"
| "runs RWordB \<sigma> = (if word_boundary (before \<sigma>) (after \<sigma>) then [\<sigma>] else [])"

section \<open>Abbreviations of the pattern syntax\<close>

fun RLit :: "string \<Rightarrow> regex" where
  "RLit [] = REps"
| "RLit (c # s) = RSeq (RCls (\<lambda>x. x = c)) (RLit s)"

text \<open>A literal under the flag \<open>(?i)\<close>.\<close>

fun RLitI :: "string \<Rightarrow> regex" where
  "RLitI [] = REps"
| "RLitI (c # s) = RSeq (RCls (\<lambda>x. lower_char x = lower_char c)) (RLitI s)"

definition ROpt :: "regex \<Rightarrow> regex" where "ROpt r = RAlt r REps"
definition RPlus :: "regex \<Rightarrow> regex" where "RPlus r = RSeq r (RStar r)"
definition RPlusLazy :: "regex \<Rightarrow> regex" where "RPlusLazy r = RSeq r (RLazy r)"

fun RSeqs :: "regex list \<Rightarrow> regex" where
  "RSeqs [] = REps"
| "RSeqs (r # rs) = RSeq r (RSeqs rs)"

fun RAlts :: "regex list \<Rightarrow> regex" where
  "RAlts [] = RCls (\<lambda>_. False)"
| "RAlts [r] = r"
| "RAlts (r # s # rs) = RAlt r (RAlts (s # rs))"

definition RAny :: regex where "RAny = RCls (\<lambda>_. True)"

text \<open>The class \<open>\s\<close> has no vertical tab in Go.\<close>

definition is_rx_space :: "char \<Rightarrow> bool" where
  "is_rx_space c \<longleftrightarrow> c = CHR '' '' \<or> c = CHR 0x09 \<or> c = CHR 0x0A \<or> c = CHR 0x0C \<or> c = CHR 0x0D"

definition RSpace :: regex where "RSpace = RCls is_rx_space"

definition is_digit :: "char \<Rightarrow> bool" where
  "is_digit c \<longleftrightarrow> 48 \<le> (of_char c :: nat) \<and> (of_char c :: nat) \<le> 57"

definition is_alpha_us :: "char \<Rightarrow> bool" where
  "is_alpha_us c \<longleftrightarrow> is_word_char c \<and> \<not> is_digit c"

text \<open>\<open>[A-Za-z_][A-Za-z0-9_]*\<close>\<close>

definition RIdent :: regex where
  "RIdent = RSeq (RCls is_alpha_us) (RStar (RCls is_word_char))"

section \<open>Searching\<close>

text \<open>The leftmost match: the text before it (reversed), the match, the rest, the groups.\<close>

fun find_match :: "regex \<Rightarrow> string \<Rightarrow> string \<Rightarrow> (string \<times> string \<times> string \<times> groups) option" where
  "find_match r b [] =
     (case runs r (b, [], Map.empty) of
        (b', a', g) # _ \<Rightarrow> Some (b, [], a', g)
      | [] \<Rightarrow> None)"
| "find_match r b (c # a) =
     (case runs r (b, c # a, Map.empty) of
        (b', a', g) # _ \<Rightarrow> Some (b, take (length (c # a) - length a') (c # a), a', g)
      | [] \<Rightarrow> find_match r (c # b) a)"

definition MatchString :: "regex \<Rightarrow> string \<Rightarrow> bool" where
  "MatchString r s \<longleftrightarrow> find_match r [] s \<noteq> None"

text \<open>All matches, each with the text since the previous one, and the text after the last.\<close>

function chunks :: "regex \<Rightarrow> string \<Rightarrow> string \<Rightarrow> (string \<times> string \<times> groups) list \<times> string" where
  "chunks r b a =
     (case find_match r b a of
        None \<Rightarrow> ([], a)
      | Some (b', m, rest, g) \<Rightarrow>
          if length rest < length a
          then (case chunks r (rev m @ b') rest of
                  (cs, t) \<Rightarrow> ((take (length a - length m - length rest) a, m, g) # cs, t))
          else ([], a))"
  by pat_completeness auto
termination by (relation "measure (\<lambda>(r, b, a). length a)") auto

declare chunks.simps [simp del]

definition FindAllSubmatch :: "regex \<Rightarrow> string \<Rightarrow> (string \<times> groups) list" where
  "FindAllSubmatch r s = map snd (fst (chunks r [] s))"

definition ReplaceAllFunc :: "regex \<Rightarrow> (string \<Rightarrow> groups \<Rightarrow> string) \<Rightarrow> string \<Rightarrow> string" where
  "ReplaceAllFunc r f s =
     (case chunks r [] s of (cs, t) \<Rightarrow> concat (map (\<lambda>(pre, m, g). pre @ f m g) cs) @ t)"

definition ReplaceAllString :: "regex \<Rightarrow> string \<Rightarrow> string \<Rightarrow> string" where
  "ReplaceAllString r new = ReplaceAllFunc r (\<lambda>m g. new)"

text \<open>The text of a group that took part in the match, the empty string otherwise.\<close>

definition group :: "groups \<Rightarrow> nat \<Rightarrow> string" where
  "group g n = (case g n of None \<Rightarrow> [] | Some s \<Rightarrow> s)"

section \<open>The matching relation\<close>

text \<open>What a pattern matches, without the order of preference.\<close>

inductive rmatch :: "regex \<Rightarrow> rstate \<Rightarrow> rstate \<Rightarrow> bool" where
  m_eps: "rmatch REps \<sigma> \<sigma>"
| m_cls: "p c \<Longrightarrow> rmatch (RCls p) (b, c # a, g) (c # b, a, g)"
| m_seq: "rmatch r \<sigma> \<tau> \<Longrightarrow> rmatch s \<tau> \<upsilon> \<Longrightarrow> rmatch (RSeq r s) \<sigma> \<upsilon>"
| m_alt1: "rmatch r \<sigma> \<tau> \<Longrightarrow> rmatch (RAlt r s) \<sigma> \<tau>"
| m_alt2: "rmatch s \<sigma> \<tau> \<Longrightarrow> rmatch (RAlt r s) \<sigma> \<tau>"
| m_star0: "rmatch (RStar r) \<sigma> \<sigma>"
| m_star1: "rmatch r \<sigma> \<tau> \<Longrightarrow> length (after \<tau>) < length (after \<sigma>) \<Longrightarrow> rmatch (RStar r) \<tau> \<upsilon>
    \<Longrightarrow> rmatch (RStar r) \<sigma> \<upsilon>"
| m_lazy0: "rmatch (RLazy r) \<sigma> \<sigma>"
| m_lazy1: "rmatch r \<sigma> \<tau> \<Longrightarrow> length (after \<tau>) < length (after \<sigma>) \<Longrightarrow> rmatch (RLazy r) \<tau> \<upsilon>
    \<Longrightarrow> rmatch (RLazy r) \<sigma> \<upsilon>"
| m_grp: "rmatch r \<sigma> (b, a, g) \<Longrightarrow>
    rmatch (RGrp n r) \<sigma> (b, a, g(n \<mapsto> take (length (after \<sigma>) - length a) (after \<sigma>)))"
| m_begin: "before \<sigma> = [] \<Longrightarrow> rmatch RBegin \<sigma> \<sigma>"
| m_end: "after \<sigma> = [] \<Longrightarrow> rmatch REnd \<sigma> \<sigma>"
| m_wordb: "word_boundary (before \<sigma>) (after \<sigma>) \<Longrightarrow> rmatch RWordB \<sigma> \<sigma>"

inductive_simps rmatch_simps:
  "rmatch REps \<sigma> \<tau>" "rmatch (RCls p) \<sigma> \<tau>" "rmatch (RSeq r s) \<sigma> \<tau>" "rmatch (RAlt r s) \<sigma> \<tau>"
  "rmatch RBegin \<sigma> \<tau>" "rmatch REnd \<sigma> \<tau>" "rmatch RWordB \<sigma> \<tau>" "rmatch (RGrp n r) \<sigma> \<tau>"

inductive_cases rmatch_starE: "rmatch (RStar r) \<sigma> \<tau>"
inductive_cases rmatch_lazyE: "rmatch (RLazy r) \<sigma> \<tau>"

lemma star_greedy_cases:
  "\<tau> \<in> set (star_greedy (Suc n) f \<sigma>) \<longleftrightarrow>
     \<tau> = \<sigma> \<or> (\<exists>\<rho> \<in> set (f \<sigma>). length (after \<rho>) < length (after \<sigma>) \<and> \<tau> \<in> set (star_greedy n f \<rho>))"
  by (simp add: if_distrib [of set] cong: if_cong) blast

lemma star_greedy_sound:
  assumes "\<And>\<sigma> \<tau>. \<tau> \<in> set (runs r \<sigma>) \<Longrightarrow> rmatch r \<sigma> \<tau>"
  shows "\<tau> \<in> set (star_greedy n (runs r) \<sigma>) \<Longrightarrow> rmatch (RStar r) \<sigma> \<tau>"
proof (induction n arbitrary: \<sigma>)
  case 0
  then show ?case by (simp add: m_star0)
next
  case (Suc n)
  then show ?case unfolding star_greedy_cases by (blast intro: m_star0 m_star1 assms)
qed

lemma star_lazy_cases:
  "\<tau> \<in> set (star_lazy (Suc n) f \<sigma>) \<longleftrightarrow>
     \<tau> = \<sigma> \<or> (\<exists>\<rho> \<in> set (f \<sigma>). length (after \<rho>) < length (after \<sigma>) \<and> \<tau> \<in> set (star_lazy n f \<rho>))"
  by (simp add: if_distrib [of set] cong: if_cong) blast

lemma star_lazy_sound:
  assumes "\<And>\<sigma> \<tau>. \<tau> \<in> set (runs r \<sigma>) \<Longrightarrow> rmatch r \<sigma> \<tau>"
  shows "\<tau> \<in> set (star_lazy n (runs r) \<sigma>) \<Longrightarrow> rmatch (RLazy r) \<sigma> \<tau>"
proof (induction n arbitrary: \<sigma>)
  case 0
  then show ?case by (simp add: m_lazy0)
next
  case (Suc n)
  then show ?case unfolding star_lazy_cases by (blast intro: m_lazy0 m_lazy1 assms)
qed

lemma runs_sound: "\<tau> \<in> set (runs r \<sigma>) \<Longrightarrow> rmatch r \<sigma> \<tau>"
proof (induction r arbitrary: \<sigma> \<tau>)
  case (RCls p)
  then show ?case by (auto split: list.splits if_splits intro: m_cls)
next
  case (RStar r)
  then show ?case using star_greedy_sound by simp
next
  case (RLazy r)
  then show ?case using star_lazy_sound by simp
next
  case (RSeq r s)
  then show ?case by (simp del: split_paired_Ex) (blast intro: m_seq)
qed (auto split: if_splits intro: rmatch.intros)

text \<open>The fuel of the two loops is enough: every iteration shortens the text.\<close>

lemma star_greedy_complete:
  "rmatch R \<sigma> \<tau> \<Longrightarrow> R = RStar r \<Longrightarrow> (\<And>\<sigma> \<tau>. rmatch r \<sigma> \<tau> \<Longrightarrow> \<tau> \<in> set (runs r \<sigma>)) \<Longrightarrow>
     length (after \<sigma>) \<le> n \<Longrightarrow> \<tau> \<in> set (star_greedy n (runs r) \<sigma>)"
proof (induction R \<sigma> \<tau> arbitrary: n rule: rmatch.induct)
  case (m_star0 r' \<sigma>)
  then show ?case by (cases n) auto
next
  case (m_star1 r' \<sigma> \<tau> \<upsilon>)
  obtain k where n: "n = Suc k" using m_star1.hyps(2) m_star1.prems(3) by (cases n) auto
  have "\<upsilon> \<in> set (star_greedy k (runs r) \<tau>)"
    using m_star1.IH(2) [of k] m_star1.hyps(2) m_star1.prems n by simp
  moreover have "\<tau> \<in> set (runs r \<sigma>)" using m_star1.hyps(1) m_star1.prems(1,2) by simp
  ultimately show ?case using n m_star1.hyps(2) by auto
qed auto

lemma star_lazy_complete:
  "rmatch R \<sigma> \<tau> \<Longrightarrow> R = RLazy r \<Longrightarrow> (\<And>\<sigma> \<tau>. rmatch r \<sigma> \<tau> \<Longrightarrow> \<tau> \<in> set (runs r \<sigma>)) \<Longrightarrow>
     length (after \<sigma>) \<le> n \<Longrightarrow> \<tau> \<in> set (star_lazy n (runs r) \<sigma>)"
proof (induction R \<sigma> \<tau> arbitrary: n rule: rmatch.induct)
  case (m_lazy0 r' \<sigma>)
  then show ?case by (cases n) auto
next
  case (m_lazy1 r' \<sigma> \<tau> \<upsilon>)
  obtain k where n: "n = Suc k" using m_lazy1.hyps(2) m_lazy1.prems(3) by (cases n) auto
  have "\<upsilon> \<in> set (star_lazy k (runs r) \<tau>)"
    using m_lazy1.IH(2) [of k] m_lazy1.hyps(2) m_lazy1.prems n by simp
  moreover have "\<tau> \<in> set (runs r \<sigma>)" using m_lazy1.hyps(1) m_lazy1.prems(1,2) by simp
  ultimately show ?case using n m_lazy1.hyps(2) by auto
qed auto

lemma runs_complete: "rmatch r \<sigma> \<tau> \<Longrightarrow> \<tau> \<in> set (runs r \<sigma>)"
proof (induction r arbitrary: \<sigma> \<tau>)
  case (RStar r)
  then show ?case using star_greedy_complete by simp
next
  case (RLazy r)
  then show ?case using star_lazy_complete by simp
qed (force simp: rmatch_simps)+

lemma runs_iff: "\<tau> \<in> set (runs r \<sigma>) \<longleftrightarrow> rmatch r \<sigma> \<tau>"
  using runs_sound runs_complete by blast

lemma runs_empty: "runs r \<sigma> = [] \<longleftrightarrow> (\<forall>\<tau>. \<not> rmatch r \<sigma> \<tau>)"
  using runs_iff [of _ r \<sigma>] by (metis empty_iff list.set(1) list.set_intros(1) neq_Nil_conv)

text \<open>A match moves forward over the text and never changes it.\<close>

lemma rmatch_forward:
  "rmatch r \<sigma> \<tau> \<Longrightarrow> \<exists>m. after \<sigma> = m @ after \<tau> \<and> before \<tau> = rev m @ before \<sigma>"
  by (induction rule: rmatch.induct) auto

section \<open>What a search finds\<close>

lemma find_match_Some:
  "find_match r b a = Some (b', m, rest, g) \<Longrightarrow>
     (\<exists>t. b' = rev t @ b \<and> a = t @ m @ rest) \<and> rmatch r (b', m @ rest, Map.empty) (rev m @ b', rest, g)"
proof (induction r b a rule: find_match.induct)
  case (1 r b)
  then obtain b1 xs where "runs r (b, [], Map.empty) = (b1, rest, g) # xs" and eq: "b' = b" "m = []"
    by (auto split: list.splits)
  then have "rmatch r (b, [], Map.empty) (b1, rest, g)" by (metis list.set_intros(1) runs_sound)
  with rmatch_forward [OF this] eq show ?case by auto
next
  case (2 r b c a)
  show ?case
  proof (cases "runs r (b, c # a, Map.empty)")
    case Nil
    with 2 have "(\<exists>t. b' = rev t @ c # b \<and> a = t @ m @ rest)
        \<and> rmatch r (b', m @ rest, Map.empty) (rev m @ b', rest, g)" by simp
    then obtain t where "b' = rev (c # t) @ b" "c # a = (c # t) @ m @ rest"
        "rmatch r (b', m @ rest, Map.empty) (rev m @ b', rest, g)" by auto
    then show ?thesis by blast
  next
    case (Cons x xs)
    obtain b1 a1 g1 where x: "x = (b1, a1, g1)" by (cases x) auto
    with Cons have rm: "rmatch r (b, c # a, Map.empty) (b1, a1, g1)"
      by (metis list.set_intros(1) runs_sound)
    from rmatch_forward [OF rm] obtain m1 where m1: "c # a = m1 @ a1" "b1 = rev m1 @ b" by auto
    have "take (length (c # a) - length a1) (c # a) = m1" using m1(1) by simp
    then have "find_match r b (c # a) = Some (b, m1, a1, g1)" using Cons x by simp
    with "2.prems" have "b' = b" "m = m1" "rest = a1" "g = g1" by simp_all
    with rm m1 show ?thesis by (auto intro: exI [of _ "[]"])
  qed
qed

lemma find_match_None:
  "find_match r b a = None \<longleftrightarrow>
     (\<forall>t u \<tau>. a = t @ u \<longrightarrow> \<not> rmatch r (rev t @ b, u, Map.empty) \<tau>)"
proof (induction r b a rule: find_match.induct)
  case (1 r b)
  then show ?case by (auto simp: runs_empty split: list.splits) (metis list.set_intros(1) runs_sound)
next
  case (2 r b c a)
  have split: "(\<forall>t u \<tau>. c # a = t @ u \<longrightarrow> \<not> rmatch r (rev t @ b, u, Map.empty) \<tau>) \<longleftrightarrow>
      (\<forall>\<tau>. \<not> rmatch r (b, c # a, Map.empty) \<tau>)
      \<and> (\<forall>t u \<tau>. a = t @ u \<longrightarrow> \<not> rmatch r (rev t @ c # b, u, Map.empty) \<tau>)"
    (is "?L \<longleftrightarrow> ?A \<and> ?B")
  proof (intro iffI conjI allI impI)
    fix \<tau> assume ?L
    from this [rule_format, of "[]" "c # a"] show "\<not> rmatch r (b, c # a, Map.empty) \<tau>" by simp
  next
    fix t u \<tau> assume ?L "a = t @ u"
    from this(1) [rule_format, of "c # t" u] this(2)
    show "\<not> rmatch r (rev t @ c # b, u, Map.empty) \<tau>" by simp
  next
    fix t u \<tau> assume "?A \<and> ?B" "c # a = t @ u"
    then show "\<not> rmatch r (rev t @ b, u, Map.empty) \<tau>"
      by (cases t) (auto simp del: split_paired_All)
  qed
  show ?case
  proof (cases "runs r (b, c # a, Map.empty)")
    case Nil
    then have "find_match r b (c # a) = find_match r (c # b) a" by simp
    moreover have "\<forall>\<tau>. \<not> rmatch r (b, c # a, Map.empty) \<tau>" using Nil unfolding runs_empty .
    ultimately show ?thesis unfolding split "2.IH" [OF Nil, symmetric] by simp
  next
    case (Cons x xs)
    then have "\<not> (\<forall>\<tau>. \<not> rmatch r (b, c # a, Map.empty) \<tau>)" by (metis list.distinct(1) runs_empty)
    with Cons show ?thesis unfolding split by (cases x) auto
  qed
qed

text \<open>A pattern that only matches text of at least one byte.\<close>

definition consuming :: "regex \<Rightarrow> bool" where
  "consuming r \<longleftrightarrow> (\<forall>\<sigma> \<tau>. rmatch r \<sigma> \<tau> \<longrightarrow> length (after \<tau>) < length (after \<sigma>))"

lemma find_match_consuming:
  assumes "consuming r" "find_match r b a = Some (b', m, rest, g)"
  shows "m \<noteq> [] \<and> length rest < length a"
  using find_match_Some [OF assms(2)] assms(1) unfolding consuming_def by fastforce

lemma MatchString_iff:
  "MatchString r s \<longleftrightarrow> (\<exists>t u \<tau>. s = t @ u \<and> rmatch r (rev t, u, Map.empty) \<tau>)"
  by (auto simp: MatchString_def find_match_None [of r "[]"])

text \<open>The pieces of a text put together again give the text.\<close>

lemma chunks_concat:
  "concat (map (\<lambda>(pre, m, g). pre @ m) (fst (chunks r b a))) @ snd (chunks r b a) = a"
proof (induction r b a rule: chunks.induct)
  case (1 r b a)
  show ?case
  proof (cases "find_match r b a")
    case None
    then show ?thesis by (subst (1 2) chunks.simps) simp
  next
    case (Some q)
    then obtain b' m rest g where q: "find_match r b a = Some (b', m, rest, g)" by (cases q) auto
    from find_match_Some [OF q] obtain t where t: "a = t @ m @ rest" by blast
    obtain cs u where cs: "chunks r (rev m @ b') rest = (cs, u)" by fastforce
    show ?thesis
    proof (cases "length rest < length a")
      case True
      note IH = 1 [OF q refl refl refl True]
      have "chunks r b a = ((take (length a - length m - length rest) a, m, g) # cs, u)"
        using q True cs by (subst chunks.simps) simp
      with IH cs t show ?thesis by simp
    qed (use q in \<open>simp add: chunks.simps [of r b a]\<close>)
  qed
qed

lemma ReplaceAllFunc_id: "ReplaceAllFunc r (\<lambda>m g. m) s = s"
  using chunks_concat [of r "[]" s]
  by (cases "chunks r [] s") (simp add: ReplaceAllFunc_def)

lemma ReplaceAllFunc_no_match:
  "\<not> MatchString r s \<Longrightarrow> ReplaceAllFunc r f s = s"
  by (cases "find_match r [] s") (simp_all add: ReplaceAllFunc_def MatchString_def chunks.simps [of r "[]" s])

text \<open>Literals and whole words.\<close>

lemma rmatch_RLit: "rmatch (RLit w) (b, a, g) \<tau> \<longleftrightarrow> (\<exists>u. a = w @ u \<and> \<tau> = (rev w @ b, u, g))"
  by (induction w arbitrary: b a) (auto simp: rmatch_simps)

definition RWord :: "string \<Rightarrow> regex" where
  "RWord w = RSeqs [RWordB, RLit w, RWordB]"

text \<open>A word occurs in a text: not preceded or followed by another word byte.\<close>

definition has_word :: "string \<Rightarrow> string \<Rightarrow> bool" where
  "has_word w s \<longleftrightarrow>
     (\<exists>t u. s = t @ w @ u \<and> (t = [] \<or> \<not> is_word_char (last t)) \<and> \<not> head_is is_word_char u)"

lemma head_is_rev: "head_is p (rev t) \<longleftrightarrow> t \<noteq> [] \<and> p (last t)"
  by (cases t rule: rev_cases) (auto simp: head_is_def)

lemma head_is_append: "head_is p (w @ u) \<longleftrightarrow> (if w = [] then head_is p u else p (hd w))"
  by (cases w) (auto simp: head_is_def)

lemma MatchString_RWord:
  assumes "w \<noteq> []" "is_word_char (hd w)" "is_word_char (last w)"
  shows "MatchString (RWord w) s \<longleftrightarrow> has_word w s"
proof -
  have one: "rmatch (RWord w) (rev t, v, Map.empty) \<tau> \<longleftrightarrow>
      (\<exists>u. v = w @ u \<and> (t = [] \<or> \<not> is_word_char (last t)) \<and> \<not> head_is is_word_char u
        \<and> \<tau> = (rev w @ rev t, u, Map.empty))" for t v \<tau>
    using assms
    by (auto simp: RWord_def rmatch_simps rmatch_RLit word_boundary_def head_is_rev head_is_append
        hd_rev simp flip: rev_append)
  show ?thesis unfolding MatchString_iff has_word_def one by (auto simp del: split_paired_Ex)
qed

section \<open>Repeated character classes\<close>

lemma rmatch_RStar_RCls:
  "rmatch (RStar (RCls p)) (b, a, g) \<tau> \<longleftrightarrow>
     (\<exists>w u. a = w @ u \<and> (\<forall>c \<in> set w. p c) \<and> \<tau> = (rev w @ b, u, g))"
proof
  show "rmatch (RStar (RCls p)) (b, a, g) \<tau> \<Longrightarrow>
    \<exists>w u. a = w @ u \<and> (\<forall>c \<in> set w. p c) \<and> \<tau> = (rev w @ b, u, g)"
  proof (induction a arbitrary: b)
    case Nil
    then show ?case by (auto elim: rmatch_starE)
  next
    case (Cons c a)
    from Cons.prems show ?case
    proof (cases rule: rmatch.cases)
      case m_star0
      then show ?thesis by - (rule exI [of _ "[]"], rule exI [of _ "c # a"], simp)
    next
      case (m_star1 \<rho>)
      then have "p c" "rmatch (RStar (RCls p)) (c # b, a, g) \<tau>" by (auto simp: rmatch_simps)
      from Cons.IH [OF this(2)] obtain w u where
        "a = w @ u" "\<forall>x \<in> set w. p x" "\<tau> = (rev w @ c # b, u, g)" by blast
      with \<open>p c\<close> show ?thesis by - (rule exI [of _ "c # w"], rule exI [of _ u], simp)
    qed
  qed
next
  have "rmatch (RStar (RCls p)) (b, w @ u, g) (rev w @ b, u, g)" if "\<forall>c \<in> set w. p c" for w u b
    using that
  proof (induction w arbitrary: b)
    case Nil
    show ?case by (simp add: m_star0)
  next
    case (Cons c w)
    have "rmatch (RStar (RCls p)) (c # b, w @ u, g) (rev w @ c # b, u, g)"
      using Cons by simp
    moreover have "rmatch (RCls p) (b, c # w @ u, g) (c # b, w @ u, g)"
      using Cons.prems by (auto intro: m_cls)
    ultimately show ?case by (auto intro: m_star1)
  qed
  then show "\<exists>w u. a = w @ u \<and> (\<forall>c \<in> set w. p c) \<and> \<tau> = (rev w @ b, u, g) \<Longrightarrow>
    rmatch (RStar (RCls p)) (b, a, g) \<tau>" by blast
qed

lemma rmatch_RPlus_RCls:
  "rmatch (RPlus (RCls p)) (b, a, g) \<tau> \<longleftrightarrow>
     (\<exists>w u. a = w @ u \<and> w \<noteq> [] \<and> (\<forall>c \<in> set w. p c) \<and> \<tau> = (rev w @ b, u, g))"
  (is "?L \<longleftrightarrow> ?R")
proof
  assume ?L
  then obtain c a' where a: "a = c # a'" "p c" "rmatch (RStar (RCls p)) (c # b, a', g) \<tau>"
    by (auto simp: RPlus_def rmatch_simps)
  then obtain w u where "a' = w @ u" "\<forall>x \<in> set w. p x" "\<tau> = (rev w @ c # b, u, g)"
    unfolding rmatch_RStar_RCls by blast
  with a show ?R by - (rule exI [of _ "c # w"], rule exI [of _ u], simp)
next
  assume ?R
  then obtain c w u where "a = c # w @ u" "p c" "\<forall>x \<in> set w. p x" "\<tau> = (rev w @ c # b, u, g)"
    by (auto simp: neq_Nil_conv)
  moreover have "rmatch (RStar (RCls p)) (c # b, w @ u, g) (rev w @ c # b, u, g)"
    using calculation(3) unfolding rmatch_RStar_RCls by blast
  ultimately show ?L by (auto simp: RPlus_def rmatch_simps)
qed

lemma rmatch_ROpt: "rmatch (ROpt r) \<sigma> \<tau> \<longleftrightarrow> rmatch r \<sigma> \<tau> \<or> \<tau> = \<sigma>"
  by (auto simp: ROpt_def rmatch_simps)

section \<open>The language of a pattern\<close>

text \<open>
  \<open>lang\<close> forgets the groups and the anchors: what a pattern matches is always in its language,
  and for a pattern without groups and anchors the language is exactly what it matches.
\<close>

primrec plain :: "regex \<Rightarrow> bool" where
  "plain REps \<longleftrightarrow> True"
| "plain (RCls p) \<longleftrightarrow> True"
| "plain (RSeq r s) \<longleftrightarrow> plain r \<and> plain s"
| "plain (RAlt r s) \<longleftrightarrow> plain r \<and> plain s"
| "plain (RStar r) \<longleftrightarrow> plain r"
| "plain (RLazy r) \<longleftrightarrow> plain r"
| "plain (RGrp n r) \<longleftrightarrow> False"
| "plain RBegin \<longleftrightarrow> False"
| "plain REnd \<longleftrightarrow> False"
| "plain RWordB \<longleftrightarrow> False"

primrec lang :: "regex \<Rightarrow> string set" where
  "lang REps = {[]}"
| "lang (RCls p) = {[c] |c. p c}"
| "lang (RSeq r s) = {u @ v |u v. u \<in> lang r \<and> v \<in> lang s}"
| "lang (RAlt r s) = lang r \<union> lang s"
| "lang (RStar r) = {concat ws |ws. set ws \<subseteq> lang r}"
| "lang (RLazy r) = {concat ws |ws. set ws \<subseteq> lang r}"
| "lang (RGrp n r) = lang r"
| "lang RBegin = {[]}"
| "lang REnd = {[]}"
| "lang RWordB = {[]}"

lemma lang_star_Cons: "u \<in> lang r \<Longrightarrow> v \<in> lang (RStar r) \<Longrightarrow> u @ v \<in> lang (RStar r)"
proof -
  assume "u \<in> lang r" "v \<in> lang (RStar r)"
  then obtain ws where "v = concat ws" "set ws \<subseteq> lang r" by auto
  with \<open>u \<in> lang r\<close> have "u @ v = concat (u # ws)" "set (u # ws) \<subseteq> lang r" by auto
  then show ?thesis unfolding lang.simps by blast
qed

text \<open>A match consumes a text of the language, whatever happens to the groups.\<close>

definition consumes :: "string set \<Rightarrow> rstate \<Rightarrow> rstate \<Rightarrow> bool" where
  "consumes L \<sigma> \<tau> \<longleftrightarrow> (\<exists>w \<in> L. after \<sigma> = w @ after \<tau> \<and> before \<tau> = rev w @ before \<sigma>)"

lemma consumes_refl: "[] \<in> L \<Longrightarrow> consumes L \<sigma> \<sigma>"
  by (auto simp: consumes_def intro!: bexI [of _ "[]"])

lemma consumes_append:
  "consumes L \<sigma> \<tau> \<Longrightarrow> consumes M \<tau> \<upsilon> \<Longrightarrow> (\<And>u v. u \<in> L \<Longrightarrow> v \<in> M \<Longrightarrow> u @ v \<in> N)
     \<Longrightarrow> consumes N \<sigma> \<upsilon>"
  unfolding consumes_def by (metis append.assoc rev_append)

lemma lang_star_Nil: "[] \<in> lang (RStar r)" "[] \<in> lang (RLazy r)"
  by (auto intro: exI [of _ "[]"])

lemma rmatch_lang: "rmatch r \<sigma> \<tau> \<Longrightarrow> consumes (lang r) \<sigma> \<tau>"
proof (induction rule: rmatch.induct)
  case (m_seq r \<sigma> \<tau> s \<upsilon>)
  from m_seq.IH show ?case by (rule consumes_append) auto
next
  case (m_star1 r \<sigma> \<tau> \<upsilon>)
  from m_star1.IH show ?case by (rule consumes_append) (rule lang_star_Cons)
next
  case (m_lazy1 r \<sigma> \<tau> \<upsilon>)
  have "u @ v \<in> lang (RLazy r)" if "u \<in> lang r" "v \<in> lang (RLazy r)" for u v
    using lang_star_Cons [of u r v] that by simp
  with m_lazy1.IH show ?case by (rule consumes_append)
next
  case (m_star0 r \<sigma>)
  show ?case by (rule consumes_refl [OF lang_star_Nil(1)])
next
  case (m_lazy0 r \<sigma>)
  show ?case by (rule consumes_refl [OF lang_star_Nil(2)])
qed (auto simp: consumes_def)

lemma rmatch_groups:
  "rmatch r \<sigma> \<tau> \<Longrightarrow> plain r \<Longrightarrow> snd (snd \<tau>) = snd (snd \<sigma>)"
  by (induction rule: rmatch.induct) auto

lemma rmatch_lang_text: "rmatch r (c, m @ rest, g0) (rev m @ c, rest, g) \<Longrightarrow> m \<in> lang r"
  using rmatch_lang [of r "(c, m @ rest, g0)" "(rev m @ c, rest, g)"] by (auto simp: consumes_def)

lemma find_match_lang: "find_match r b a = Some (b', m, rest, g) \<Longrightarrow> m \<in> lang r"
  using find_match_Some [of r b a b' m rest g] rmatch_lang [of r] unfolding consumes_def by fastforce

lemma lang_star_rmatch:
  assumes "\<And>b u g w. w \<in> lang r \<Longrightarrow> rmatch r (b, w @ u, g) (rev w @ b, u, g)"
  shows "set ws \<subseteq> lang r \<Longrightarrow>
    rmatch (RStar r) (b, concat ws @ u, g) (rev (concat ws) @ b, u, g)
    \<and> rmatch (RLazy r) (b, concat ws @ u, g) (rev (concat ws) @ b, u, g)"
proof (induction ws arbitrary: b)
  case Nil
  show ?case by (simp add: m_star0 m_lazy0)
next
  case (Cons w ws)
  show ?case
  proof (cases "w = []")
    case True
    with Cons show ?thesis by simp
  next
    case False
    have "rmatch r (b, w @ (concat ws @ u), g) (rev w @ b, concat ws @ u, g)"
      using Cons.prems by (intro assms) simp
    with Cons.IH [of "rev w @ b"] Cons.prems False show ?thesis
      by (auto intro: m_star1 m_lazy1)
  qed
qed

lemma rmatch_plain:
  "plain r \<Longrightarrow> rmatch r (b, a, g) \<tau> \<longleftrightarrow>
     (\<exists>w u. a = w @ u \<and> w \<in> lang r \<and> \<tau> = (rev w @ b, u, g))"
proof (induction r arbitrary: b a g \<tau>)
  case (RSeq r s)
  note IH1 = RSeq.IH(1) and IH2 = RSeq.IH(2)
  have pl: "plain r" "plain s" using RSeq.prems by simp_all
  show ?case
  proof
    assume "rmatch (RSeq r s) (b, a, g) \<tau>"
    then obtain \<rho> where \<rho>: "rmatch r (b, a, g) \<rho>" "rmatch s \<rho> \<tau>"
      by (auto simp: rmatch_simps simp del: split_paired_Ex)
    from \<rho>(1) obtain w u where w: "a = w @ u" "w \<in> lang r" "\<rho> = (rev w @ b, u, g)"
      unfolding IH1 [OF pl(1)] by blast
    from \<rho>(2) obtain w' u' where "u = w' @ u'" "w' \<in> lang s" "\<tau> = (rev w' @ rev w @ b, u', g)"
      unfolding w(3) IH2 [OF pl(2)] by blast
    with w show "\<exists>w u. a = w @ u \<and> w \<in> lang (RSeq r s) \<and> \<tau> = (rev w @ b, u, g)"
      by - (rule exI [of _ "w @ w'"], rule exI [of _ u'], auto)
  next
    assume "\<exists>w u. a = w @ u \<and> w \<in> lang (RSeq r s) \<and> \<tau> = (rev w @ b, u, g)"
    then obtain w w' u where w: "a = w @ w' @ u" "w \<in> lang r" "w' \<in> lang s"
      "\<tau> = (rev w' @ rev w @ b, u, g)" by auto
    have "rmatch r (b, w @ w' @ u, g) (rev w @ b, w' @ u, g)"
      unfolding IH1 [OF pl(1)] using w(2) by blast
    moreover have "rmatch s (rev w @ b, w' @ u, g) (rev w' @ rev w @ b, u, g)"
      unfolding IH2 [OF pl(2)] using w(3) by blast
    ultimately show "rmatch (RSeq r s) (b, a, g) \<tau>" unfolding w(1,4) by (rule m_seq)
  qed
next
  case (RStar r)
  have "rmatch (RStar r) (b, w @ u, g) (rev w @ b, u, g)" if "w \<in> lang (RStar r)" for w u
    using lang_star_rmatch [of r] RStar that by auto
  moreover have "rmatch (RStar r) (b, a, g) \<tau> \<Longrightarrow>
      \<exists>w u. a = w @ u \<and> w \<in> lang (RStar r) \<and> \<tau> = (rev w @ b, u, g)"
    using rmatch_lang [of "RStar r" "(b, a, g)" \<tau>] rmatch_groups [of "RStar r" "(b, a, g)" \<tau>] RStar.prems
    unfolding consumes_def by (cases \<tau>) auto
  ultimately show ?case by blast
next
  case (RLazy r)
  have "rmatch (RLazy r) (b, w @ u, g) (rev w @ b, u, g)" if "w \<in> lang (RLazy r)" for w u
    using lang_star_rmatch [of r] RLazy that by auto
  moreover have "rmatch (RLazy r) (b, a, g) \<tau> \<Longrightarrow>
      \<exists>w u. a = w @ u \<and> w \<in> lang (RLazy r) \<and> \<tau> = (rev w @ b, u, g)"
    using rmatch_lang [of "RLazy r" "(b, a, g)" \<tau>] rmatch_groups [of "RLazy r" "(b, a, g)" \<tau>] RLazy.prems
    unfolding consumes_def by (cases \<tau>) auto
  ultimately show ?case by blast
qed (auto simp: rmatch_simps)

text \<open>A pattern between \<open>^\<close> and \<open>$\<close> matches exactly the texts of its language.\<close>

lemma MatchString_anchored:
  assumes "plain r"
  shows "MatchString (RSeqs [RBegin, r, REnd]) s \<longleftrightarrow> s \<in> lang r"
proof -
  have "rmatch (RSeqs [RBegin, r, REnd]) (rev t, v, Map.empty) \<tau> \<longleftrightarrow>
      t = [] \<and> v \<in> lang r \<and> \<tau> = (rev v, [], Map.empty)" for t v \<tau>
    by (auto simp: rmatch_simps rmatch_plain [OF assms])
  then show ?thesis unfolding MatchString_iff by (simp del: split_paired_Ex)
qed

lemma lang_RLit [simp]: "lang (RLit w) = {w}" "plain (RLit w)"
  by (induction w) auto

lemma lang_ROpt [simp]: "lang (ROpt r) = lang r \<union> {[]}" "plain (ROpt r) = plain r"
  by (simp_all add: ROpt_def)

lemma lang_RStar_RCls: "lang (RStar (RCls p)) = {w. \<forall>c \<in> set w. p c}"
proof (intro set_eqI iffI)
  fix w assume "w \<in> {w. \<forall>c \<in> set w. p c}"
  then have "w = concat (map (\<lambda>c. [c]) w)" "set (map (\<lambda>c. [c]) w) \<subseteq> lang (RCls p)" by auto
  then show "w \<in> lang (RStar (RCls p))" unfolding lang.simps(5) by blast
next
  fix w assume "w \<in> lang (RStar (RCls p))"
  then show "w \<in> {w. \<forall>c \<in> set w. p c}" by fastforce
qed

lemma lang_RPlus_RCls [simp]:
  "lang (RPlus (RCls p)) = {w. w \<noteq> [] \<and> (\<forall>c \<in> set w. p c)}" "plain (RPlus (RCls p))"
proof -
  have "lang (RPlus (RCls p)) = {[c] @ v |c v. p c \<and> (\<forall>c \<in> set v. p c)}"
    unfolding RPlus_def lang.simps(2,3) lang_RStar_RCls by blast
  also have "\<dots> = {w. w \<noteq> [] \<and> (\<forall>c \<in> set w. p c)}"
    by (auto simp: neq_Nil_conv)
  finally show "lang (RPlus (RCls p)) = {w. w \<noteq> [] \<and> (\<forall>c \<in> set w. p c)}" .
qed (simp add: RPlus_def)

lemma lang_RSeqs_Cons:
  "w \<in> lang (RSeqs (r # rs)) \<longleftrightarrow> (\<exists>u v. w = u @ v \<and> u \<in> lang r \<and> v \<in> lang (RSeqs rs))"
  by simp

lemma lang_RSeqs_Nil: "w \<in> lang (RSeqs []) \<longleftrightarrow> w = []"
  by simp

lemma lang_RSeqs_4:
  "w \<in> lang (RSeqs [r1, r2, r3, r4]) \<longleftrightarrow>
     (\<exists>a b c d. w = a @ b @ c @ d \<and> a \<in> lang r1 \<and> b \<in> lang r2 \<and> c \<in> lang r3 \<and> d \<in> lang r4)"
  unfolding lang_RSeqs_Cons lang_RSeqs_Nil by (metis append_Nil2)

lemma lang_RSeqs_3:
  "w \<in> lang (RSeqs [r1, r2, r3]) \<longleftrightarrow>
     (\<exists>a b c. w = a @ b @ c \<and> a \<in> lang r1 \<and> b \<in> lang r2 \<and> c \<in> lang r3)"
  unfolding lang_RSeqs_Cons lang_RSeqs_Nil by (metis append_Nil2)

section \<open>Patterns without anchors match wherever their language occurs\<close>

primrec anchor_free :: "regex \<Rightarrow> bool" where
  "anchor_free REps \<longleftrightarrow> True"
| "anchor_free (RCls p) \<longleftrightarrow> True"
| "anchor_free (RSeq r s) \<longleftrightarrow> anchor_free r \<and> anchor_free s"
| "anchor_free (RAlt r s) \<longleftrightarrow> anchor_free r \<and> anchor_free s"
| "anchor_free (RStar r) \<longleftrightarrow> anchor_free r"
| "anchor_free (RLazy r) \<longleftrightarrow> anchor_free r"
| "anchor_free (RGrp n r) \<longleftrightarrow> anchor_free r"
| "anchor_free RBegin \<longleftrightarrow> False"
| "anchor_free REnd \<longleftrightarrow> False"
| "anchor_free RWordB \<longleftrightarrow> False"

lemma anchor_free_star:
  assumes "\<And>b u g w. w \<in> lang r \<Longrightarrow> \<exists>g'. rmatch r (b, w @ u, g) (rev w @ b, u, g')"
  shows "set ws \<subseteq> lang r \<Longrightarrow>
    (\<exists>g'. rmatch (RStar r) (b, concat ws @ u, g) (rev (concat ws) @ b, u, g'))
    \<and> (\<exists>g'. rmatch (RLazy r) (b, concat ws @ u, g) (rev (concat ws) @ b, u, g'))"
proof (induction ws arbitrary: b g)
  case Nil
  show ?case by (auto intro: m_star0 m_lazy0)
next
  case (Cons w ws)
  show ?case
  proof (cases "w = []")
    case True
    with Cons show ?thesis by simp
  next
    case False
    obtain g' where g': "rmatch r (b, w @ (concat ws @ u), g) (rev w @ b, concat ws @ u, g')"
      using assms [of w b "concat ws @ u" g] Cons.prems by auto
    from Cons.IH [of "rev w @ b" g'] Cons.prems obtain g1 g2 where
      "rmatch (RStar r) (rev w @ b, concat ws @ u, g') (rev (concat ws) @ rev w @ b, u, g1)"
      "rmatch (RLazy r) (rev w @ b, concat ws @ u, g') (rev (concat ws) @ rev w @ b, u, g2)" by auto
    from m_star1 [OF g' _ this(1)] m_lazy1 [OF g' _ this(2)] False show ?thesis by auto
  qed
qed

lemma anchor_free_rmatch:
  "anchor_free r \<Longrightarrow> w \<in> lang r \<Longrightarrow> \<exists>g'. rmatch r (b, w @ u, g) (rev w @ b, u, g')"
proof (induction r arbitrary: b w u g)
  case (RSeq r s)
  then obtain v x where w: "w = v @ x" "v \<in> lang r" "x \<in> lang s" by auto
  from RSeq.IH(1) [OF _ w(2)] RSeq.prems obtain g1
    where g1: "rmatch r (b, v @ (x @ u), g) (rev v @ b, x @ u, g1)" by fastforce
  from RSeq.IH(2) [OF _ w(3)] RSeq.prems obtain g2
    where "rmatch s (rev v @ b, x @ u, g1) (rev x @ rev v @ b, u, g2)" by fastforce
  with g1 w(1) show ?case by (auto intro: m_seq)
next
  case (RAlt r s)
  then show ?case by (auto intro: m_alt1 m_alt2) (metis m_alt1 m_alt2)+
next
  case (RStar r)
  then show ?case using anchor_free_star [of r] by auto
next
  case (RLazy r)
  then show ?case using anchor_free_star [of r] by auto
next
  case (RGrp n r)
  then obtain g' where "rmatch r (b, w @ u, g) (rev w @ b, u, g')" by fastforce
  from m_grp [OF this] show ?case by blast
next
  case (RCls p)
  then obtain c where "w = [c]" "p c" by auto
  with m_cls [of p c b u g] show ?case by auto
qed (auto intro: m_eps)

definition infix_of :: "string set \<Rightarrow> string \<Rightarrow> bool" where
  "infix_of L s \<longleftrightarrow> (\<exists>x w y. s = x @ w @ y \<and> w \<in> L)"

lemma MatchString_anchor_free:
  assumes "anchor_free r"
  shows "MatchString r s \<longleftrightarrow> infix_of (lang r) s"
proof
  assume "MatchString r s"
  then obtain b m rest g where f: "find_match r [] s = Some (b, m, rest, g)"
    by (auto simp: MatchString_def)
  from find_match_Some [OF f] find_match_lang [OF f] show "infix_of (lang r) s"
    unfolding infix_of_def by blast
next
  assume "infix_of (lang r) s"
  then obtain x w y where s: "s = x @ w @ y" "w \<in> lang r" unfolding infix_of_def by blast
  from anchor_free_rmatch [OF assms s(2)] obtain g'
    where "rmatch r (rev x, w @ y, Map.empty) (rev w @ rev x, y, g')" by blast
  with s(1) show "MatchString r s" unfolding MatchString_iff by blast
qed

lemma find_match_leftmost:
  "find_match r b a = Some (b', m, rest, g) \<Longrightarrow>
     \<exists>t. b' = rev t @ b \<and> a = t @ m @ rest
       \<and> (\<forall>x u \<tau>. a = x @ u \<longrightarrow> length x < length t \<longrightarrow> \<not> rmatch r (rev x @ b, u, Map.empty) \<tau>)"
proof (induction r b a rule: find_match.induct)
  case (1 r b)
  from find_match_Some [OF 1] show ?case by auto
next
  case (2 r b c a)
  show ?case
  proof (cases "runs r (b, c # a, Map.empty)")
    case Nil
    with 2 obtain t where t: "b' = rev t @ c # b" "a = t @ m @ rest"
      "\<forall>x u \<tau>. a = x @ u \<longrightarrow> length x < length t \<longrightarrow> \<not> rmatch r (rev x @ c # b, u, Map.empty) \<tau>"
      by (simp del: split_paired_All) blast
    have "\<not> rmatch r (rev x @ b, u, Map.empty) \<tau>"
      if xu: "c # a = x @ u" "length x < length (c # t)" for x u \<tau>
    proof (cases x)
      case Nil
      with xu \<open>runs r (b, c # a, Map.empty) = []\<close> show ?thesis
        by (simp add: runs_empty del: split_paired_All)
    next
      case (Cons d y)
      with xu t(3) show ?thesis by (auto simp del: split_paired_All)
    qed
    with t(1,2) show ?thesis by (intro exI [of _ "c # t"]) (simp del: split_paired_All)
  next
    case (Cons x xs)
    then obtain b1 a1 g1 where "x = (b1, a1, g1)" by (cases x)
    with 2 Cons have "b' = b" by simp
    with find_match_Some [OF "2.prems"] show ?thesis by (auto intro: exI [of _ "[]"])
  qed
qed

text \<open>The text between two matches holds no match of its own.\<close>

lemma chunks_gaps:
  assumes "anchor_free r" "[] \<notin> lang r"
  shows "(\<forall>(pre, m, g) \<in> set (fst (chunks r b a)). \<not> infix_of (lang r) pre \<and> m \<in> lang r)
    \<and> \<not> infix_of (lang r) (snd (chunks r b a))"
  using assms
proof (induction r b a rule: chunks.induct)
  case (1 r b a)
  have hit: "\<exists>\<tau>. rmatch r (c, w @ u, Map.empty) \<tau>" if "w \<in> lang r" for c w u
    using anchor_free_rmatch [OF "1.prems"(1) that] by blast
  show ?case
  proof (cases "find_match r b a")
    case None
    have "\<not> infix_of (lang r) a"
    proof
      assume "infix_of (lang r) a"
      then obtain x w y where "a = x @ (w @ y)" "w \<in> lang r" unfolding infix_of_def by blast
      with None hit [of w "rev x @ b" y] show False unfolding find_match_None by blast
    qed
    with None show ?thesis by (simp add: chunks.simps [of r b a])
  next
    case (Some q)
    then obtain b' m rest g where q: "find_match r b a = Some (b', m, rest, g)" by (cases q) auto
    obtain t where t: "b' = rev t @ b" "a = t @ m @ rest"
      "\<forall>x u \<tau>. a = x @ u \<longrightarrow> length x < length t \<longrightarrow> \<not> rmatch r (rev x @ b, u, Map.empty) \<tau>"
      using find_match_leftmost [OF q] by blast
    have m: "m \<in> lang r" by (rule find_match_lang [OF q])
    then have "m \<noteq> []" using "1.prems"(2) by auto
    then have less: "length rest < length a" using t(2) by (cases m) auto
    have "\<not> infix_of (lang r) t"
    proof
      assume "infix_of (lang r) t"
      then obtain x w y where xy: "t = x @ w @ y" "w \<in> lang r" unfolding infix_of_def by blast
      then have "w \<noteq> []" using "1.prems"(2) by auto
      with xy have "length x < length t" "a = x @ (w @ y @ m @ rest)" using t(2) by (cases w, auto)
      with t(3) hit [OF xy(2), of "rev x @ b" "y @ m @ rest"] show False by blast
    qed
    moreover obtain cs u where cs: "chunks r (rev m @ b') rest = (cs, u)" by fastforce
    moreover have "chunks r b a = ((t, m, g) # cs, u)"
      using q less cs t(2) by (subst chunks.simps) simp
    ultimately show ?thesis using "1.IH" [OF q refl refl refl less "1.prems"] m by simp
  qed
qed

section \<open>Pieces of a replacement\<close>

lemma chunks_rmatch:
  "(pre, m, g) \<in> set (fst (chunks r b a)) \<Longrightarrow>
     \<exists>c rest. rmatch r (c, m @ rest, Map.empty) (rev m @ c, rest, g) \<and> set rest \<subseteq> set a"
proof (induction r b a rule: chunks.induct)
  case (1 r b a)
  show ?case
  proof (cases "find_match r b a")
    case None
    with "1.prems" show ?thesis by (simp add: chunks.simps [of r b a])
  next
    case (Some q)
    then obtain b' m' rest g' where q: "find_match r b a = Some (b', m', rest, g')" by (cases q) auto
    from find_match_Some [OF q] have sub: "set rest \<subseteq> set a" and rm:
      "rmatch r (b', m' @ rest, Map.empty) (rev m' @ b', rest, g')" by auto
    obtain cs u where cs: "chunks r (rev m' @ b') rest = (cs, u)" by fastforce
    show ?thesis
    proof (cases "length rest < length a")
      case True
      then have "chunks r b a = ((take (length a - length m' - length rest) a, m', g') # cs, u)"
        using q cs by (subst chunks.simps) simp
      with "1.prems" consider "m = m'" "g = g'" | "(pre, m, g) \<in> set cs" by auto
      then show ?thesis
      proof cases
        case 1
        with rm sub show ?thesis by blast
      next
        case 2
        with "1.IH" [OF q refl refl refl True] cs sub show ?thesis by fastforce
      qed
    next
      case False
      with q "1.prems" show ?thesis by (simp add: chunks.simps [of r b a])
    qed
  qed
qed

lemma ReplaceAllFunc_shrinks:
  assumes "\<And>pre m g. (pre, m, g) \<in> set (fst (chunks r [] s)) \<Longrightarrow> length (f m g) < length m"
  shows "ReplaceAllFunc r f s = s \<or> length (ReplaceAllFunc r f s) < length s"
proof -
  obtain cs t where cs: "chunks r [] s = (cs, t)" by fastforce
  have s: "concat (map (\<lambda>(pre, m, g). pre @ m) cs) @ t = s"
    using chunks_concat [of r "[]" s] cs by simp
  have shrink: "length (f m g) < length m" if "(pre, m, g) \<in> set cs" for pre m g
    using assms cs that by simp
  have "cs = [] \<or> length (concat (map (\<lambda>(pre, m, g). pre @ f m g) cs))
      < length (concat (map (\<lambda>(pre, m, g). pre @ m) cs))"
    using shrink
  proof (induction cs)
    case (Cons c cs)
    obtain pre m g where c: "c = (pre, m, g)" by (cases c)
    have "length (f m g) < length m" by (rule Cons.prems [of pre]) (simp add: c)
    moreover have "length (concat (map (\<lambda>(pre, m, g). pre @ f m g) cs))
        \<le> length (concat (map (\<lambda>(pre, m, g). pre @ m) cs))"
      using Cons by fastforce
    ultimately show ?case using c by simp
  qed simp
  then show ?thesis
  proof
    assume "cs = []"
    with s cs show ?thesis by (simp add: ReplaceAllFunc_def)
  next
    assume "length (concat (map (\<lambda>(pre, m, g). pre @ f m g) cs))
      < length (concat (map (\<lambda>(pre, m, g). pre @ m) cs))"
    moreover have "length s = length (concat (map (\<lambda>(pre, m, g). pre @ m) cs)) + length t"
      using arg_cong [OF s, of length] by simp
    ultimately show ?thesis using cs by (simp add: ReplaceAllFunc_def)
  qed
qed

lemma set_chunks:
  "(pre, m, g) \<in> set (fst (chunks r b a)) \<Longrightarrow> set pre \<union> set m \<subseteq> set a"
  "set (snd (chunks r b a)) \<subseteq> set a"
  using arg_cong [OF chunks_concat [of r b a], of set] by force+

lemma set_ReplaceAllFunc:
  assumes "\<And>pre m g. (pre, m, g) \<in> set (fst (chunks r [] s)) \<Longrightarrow> set (f m g) \<subseteq> A" "set s \<subseteq> A"
  shows "set (ReplaceAllFunc r f s) \<subseteq> A"
proof -
  obtain cs t where cs: "chunks r [] s = (cs, t)" by fastforce
  have "set t \<subseteq> A" using set_chunks(2) [of r "[]" s] cs assms(2) by auto
  moreover have "set (pre @ f m g) \<subseteq> A" if "(pre, m, g) \<in> set cs" for pre m g
    using set_chunks(1) [of pre m g r "[]" s] assms cs that by fastforce
  ultimately show ?thesis using cs by (fastforce simp: ReplaceAllFunc_def)
qed

lemma star_greedy_single:
  "F \<sigma> = [\<tau>] \<Longrightarrow> length (after \<tau>) < length (after \<sigma>) \<Longrightarrow>
     star_greedy (Suc n) F \<sigma> = star_greedy n F \<tau> @ [\<sigma>]"
  by simp

lemma star_greedy_cls:
  "length a \<le> n \<Longrightarrow>
     \<exists>xs. star_greedy n (runs (RCls p)) (b, a, g) = (rev (takeWhile p a) @ b, dropWhile p a, g) # xs"
proof (induction n arbitrary: a b)
  case (Suc n)
  show ?case
  proof (cases a)
    case (Cons c a')
    show ?thesis
    proof (cases "p c")
      case True
      with Suc Cons obtain xs where
        "star_greedy n (runs (RCls p)) (c # b, a', g)
          = (rev (takeWhile p a') @ c # b, dropWhile p a', g) # xs"
        by fastforce
      moreover have "star_greedy (Suc n) (runs (RCls p)) (b, c # a', g)
          = star_greedy n (runs (RCls p)) (c # b, a', g) @ [(b, c # a', g)]"
        by (rule star_greedy_single) (use True in simp_all)
      ultimately show ?thesis using True Cons by (simp del: star_greedy.simps runs.simps)
    qed (use Cons in simp)
  qed simp
qed simp

end
