(* ===== verification/Mission_Pointer.thy ===== *)
theory Mission_Pointer
  imports Mission_State Regex
begin

text \<open>
  \<open>pkg/mission/pointer.go\<close>, \<open>QuestionExempt\<close> of \<open>trivial.go\<close> and \<open>GateDispatch\<close> of \<open>mutator.go\<close>:
  the pointer invariant. A value that a step produced may appear in later dispatch arguments
  only as a reference; the scan looks for string leaves that equal a cell of an earlier result.
  Go maps are association lists here, enumerated in sorted key order as the code does.
\<close>

section \<open>References\<close>

text \<open>\<open>^(?:m[0-9A-Za-z_-]+\.)?t\d+(?:\.[^.\[\]]+(?:\[\d+\])?)?$\<close>\<close>

definition is_mission_char :: "char \<Rightarrow> bool" where
  "is_mission_char c \<longleftrightarrow> is_word_char c \<or> c = CHR ''-''"

definition is_column_char :: "char \<Rightarrow> bool" where
  "is_column_char c \<longleftrightarrow> c \<noteq> CHR ''.'' \<and> c \<noteq> CHR ''['' \<and> c \<noteq> CHR '']''"

definition refBody :: regex where
  "refBody = RSeqs
     [ROpt (RSeqs [RLit ''m'', RPlus (RCls is_mission_char), RLit ''.'']),
      RLit ''t'', RPlus (RCls is_digit),
      ROpt (RSeqs [RLit ''.'', RPlus (RCls is_column_char),
                   ROpt (RSeqs [RLit ''['', RPlus (RCls is_digit), RLit '']''])])]"

definition refPattern :: regex where
  "refPattern = RSeqs [RBegin, refBody, REnd]"

definition IsRef :: "string \<Rightarrow> bool" where
  "IsRef s \<longleftrightarrow> MatchString refPattern (trim_space s)"

record Violation =
  vi_Literal :: string
  vi_Path :: string
  vi_ShouldBe :: string

type_synonym Exempt = "(string \<Rightarrow> bool) option"

definition QuestionExempt :: "string \<Rightarrow> Exempt" where
  "QuestionExempt q = (if q = [] then None else Some (\<lambda>s. s \<noteq> [] \<and> contains_str q s))"

section \<open>The index of cells\<close>

definition sorted_keys :: "(string \<times> 'a) list \<Rightarrow> string list" where
  "sorted_keys m = sort (remdups (map fst m))"

definition cell_ref :: "string \<Rightarrow> string \<Rightarrow> nat \<Rightarrow> string" where
  "cell_ref stepID col rowIdx = stepID @ ''.'' @ col @ ''['' @ show_nat rowIdx @ '']''"

definition index_cell ::
  "string \<Rightarrow> nat \<Rightarrow> (string \<times> json) list \<Rightarrow> (string \<rightharpoonup> string) \<Rightarrow> string \<Rightarrow> (string \<rightharpoonup> string)" where
  "index_cell stepID rowIdx row idx col =
     (case map_of row col of
        Some (JStr s) \<Rightarrow>
          if trim_space s = [] then idx
          else if idx s = None then idx(s \<mapsto> cell_ref stepID col rowIdx) else idx
      | _ \<Rightarrow> idx)"

definition index_row ::
  "string \<Rightarrow> (string \<rightharpoonup> string) \<Rightarrow> nat \<times> (string \<times> json) list \<Rightarrow> (string \<rightharpoonup> string)" where
  "index_row stepID idx ir = (case ir of (rowIdx, row) \<Rightarrow>
     foldl (index_cell stepID rowIdx row) idx (sorted_keys row))"

definition buildCellIndex :: "(string \<times> StepResult) list \<Rightarrow> (string \<rightharpoonup> string)" where
  "buildCellIndex steps =
     foldl (\<lambda>idx stepID.
         (case map_of steps stepID of
            None \<Rightarrow> idx
          | Some sr \<Rightarrow> foldl (index_row stepID) idx (List.enumerate 0 (sr_Rows sr))))
       Map.empty (sorted_keys steps)"

section \<open>The scan\<close>

lemma set_clearjunk_subset: "set (AList.clearjunk m) \<subseteq> set m"
  by (induction m rule: clearjunk.induct) (auto simp: AList.delete_eq)

lemma size_obj_member:
  "(k, v) \<in> set (sort_key fst (AList.clearjunk m)) \<Longrightarrow>
     size (v :: json) < Suc (size_list (size_prod (\<lambda>x. 0) size) m)"
proof -
  assume "(k, v) \<in> set (sort_key fst (AList.clearjunk m))"
  then have "(k, v) \<in> set m" using set_clearjunk_subset by auto
  then show ?thesis by (induction m) auto
qed

lemma size_arr_member:
  "(i, v) \<in> set (List.enumerate n xs) \<Longrightarrow> size (v :: json) < Suc (size_list size xs)"
proof -
  assume "(i, v) \<in> set (List.enumerate n xs)"
  then have "v \<in> set xs" by (auto simp: enumerate_eq_zip dest: set_zip_rightD)
  then show ?thesis by (induction xs) auto
qed

function scan :: "json \<Rightarrow> string \<Rightarrow> (string \<rightharpoonup> string) \<Rightarrow> Exempt \<Rightarrow> Violation option" where
  "scan (JStr v) path idx ex =
     (let s = trim_space v
      in if s = [] \<or> IsRef s then None
         else if (case ex of None \<Rightarrow> False | Some e \<Rightarrow> e s) then None
         else (case idx s of
                 None \<Rightarrow> None
               | Some ref \<Rightarrow> Some \<lparr>vi_Literal = s, vi_Path = path, vi_ShouldBe = ref\<rparr>))"
| "scan (JObj m) path idx ex =
     first_some (map (\<lambda>kv. scan (snd kv) (path @ ''.'' @ fst kv) idx ex)
       (sort_key fst (AList.clearjunk m)))"
| "scan (JArr xs) path idx ex =
     first_some (map (\<lambda>iv. scan (snd iv) (path @ ''['' @ show_nat (fst iv) @ '']'') idx ex)
       (List.enumerate 0 xs))"
| "scan JNull path idx ex = None"
| "scan (JBool b) path idx ex = None"
| "scan (JNum r) path idx ex = None"
  by pat_completeness auto
termination
  by (relation "measure (\<lambda>(v, p, i, e). size v)")
    (auto simp del: set_sort intro: size_obj_member size_arr_member)

definition ScanForLiteral ::
  "json \<Rightarrow> (string \<times> StepResult) list \<Rightarrow> Exempt \<Rightarrow> Violation option" where
  "ScanForLiteral value steps ex = scan value ''$'' (buildCellIndex steps) ex"

definition GateDispatch ::
  "Dispatch \<Rightarrow> (string \<times> StepResult) list \<Rightarrow> Exempt \<Rightarrow> Violation option" where
  "GateDispatch d steps ex =
     (if d_Args d = [] then None else ScanForLiteral (JObj (d_Args d)) steps ex)"

section \<open>What the index holds\<close>

text \<open>A reference text points at a cell holding exactly the value.\<close>

definition cell_at ::
  "(string \<times> StepResult) list \<Rightarrow> string \<Rightarrow> string \<Rightarrow> nat \<Rightarrow> string \<Rightarrow> bool" where
  "cell_at steps stepID col i v \<longleftrightarrow>
     (\<exists>sr. map_of steps stepID = Some sr \<and> i < length (sr_Rows sr)
        \<and> map_of (sr_Rows sr ! i) col = Some (JStr v))"

definition index_sound :: "(string \<times> StepResult) list \<Rightarrow> (string \<rightharpoonup> string) \<Rightarrow> bool" where
  "index_sound steps idx \<longleftrightarrow> (\<forall>v r. idx v = Some r \<longrightarrow> trim_space v \<noteq> []
     \<and> (\<exists>sid col i. cell_at steps sid col i v \<and> r = cell_ref sid col i))"

lemma foldl_invariant:
  assumes "P a" and "\<And>a x. P a \<Longrightarrow> x \<in> set xs \<Longrightarrow> P (f a x)"
  shows "P (foldl f a xs)"
  using assms by (induction xs arbitrary: a) auto

lemma index_cell_mono: "idx v = Some r \<Longrightarrow> index_cell sid i row idx col v = Some r"
  by (auto simp: index_cell_def split: option.splits json.splits)

lemma index_cell_hit:
  "map_of row col = Some (JStr v) \<Longrightarrow> trim_space v \<noteq> [] \<Longrightarrow> index_cell sid i row idx col v \<noteq> None"
  by (auto simp: index_cell_def)

lemma index_cell_sound:
  assumes "index_sound steps idx" "map_of steps sid = Some sr" "i < length (sr_Rows sr)"
    "sr_Rows sr ! i = row"
  shows "index_sound steps (index_cell sid i row idx col)"
  using assms unfolding index_sound_def index_cell_def cell_at_def
  by (auto split: option.splits json.splits)

lemma enumerate_mem: "(i, x) \<in> set (List.enumerate 0 xs) \<longleftrightarrow> i < length xs \<and> xs ! i = x"
  by (simp add: in_set_enumerate_eq)

lemma enumerate_ball: "(\<forall>iv \<in> set (List.enumerate n xs). P (snd iv)) \<longleftrightarrow> (\<forall>w \<in> set xs. P w)"
proof -
  have "snd ` set (List.enumerate n xs) = set xs" by (metis map_snd_enumerate set_map)
  then show ?thesis by (metis (no_types, lifting) image_iff)
qed

lemma index_row_sound:
  assumes "index_sound steps idx" "map_of steps sid = Some sr"
    "ir \<in> set (List.enumerate 0 (sr_Rows sr))"
  shows "index_sound steps (index_row sid idx ir)"
proof (cases ir)
  case (Pair i row)
  with assms(3) have "i < length (sr_Rows sr)" "sr_Rows sr ! i = row" by (simp_all add: enumerate_mem)
  then have "index_sound steps (foldl (index_cell sid i row) idx (sorted_keys row))"
    by (intro foldl_invariant [where P = "index_sound steps"])
      (auto intro: assms(1) index_cell_sound [OF _ assms(2)])
  with Pair show ?thesis by (simp add: index_row_def)
qed

lemma foldl_mono_hit:
  assumes mono: "\<And>a x. Q a \<Longrightarrow> Q (f a x)" and hit: "\<And>a. Q (f a x)" and "x \<in> set xs"
  shows "Q (foldl f a xs)"
proof -
  from \<open>x \<in> set xs\<close> obtain ys zs where xs: "xs = ys @ x # zs" by (auto dest: split_list)
  have "Q (foldl f (f (foldl f a ys) x) zs)"
    by (rule foldl_invariant [where P = Q]) (auto intro: mono hit)
  then show ?thesis by (simp add: xs)
qed

lemma sorted_keys_mem: "k \<in> set (sorted_keys m) \<longleftrightarrow> k \<in> dom (map_of m)"
  by (simp add: sorted_keys_def dom_map_of_conv_image_fst)

lemma index_row_mono:
  "idx v \<noteq> None \<Longrightarrow> index_row sid idx ir v \<noteq> None"
  unfolding index_row_def
  by (auto split: prod.splits intro!: foldl_invariant [where P = "\<lambda>idx. \<exists>r. idx v = Some r"]
      intro: index_cell_mono)

lemma index_row_hit:
  assumes "map_of row col = Some (JStr v)" "trim_space v \<noteq> []"
  shows "index_row sid idx (i, row) v \<noteq> None"
proof -
  have "foldl (index_cell sid i row) idx (sorted_keys row) v \<noteq> None"
    by (rule foldl_mono_hit [where Q = "\<lambda>idx. idx v \<noteq> None" and x = col])
      (use assms in \<open>auto simp: sorted_keys_mem index_cell_hit intro: index_cell_mono\<close>)
  then show ?thesis by (simp add: index_row_def)
qed

lemma buildCellIndex_sound: "index_sound steps (buildCellIndex steps)"
  unfolding buildCellIndex_def
  by (rule foldl_invariant [where P = "index_sound steps"])
    (auto simp: index_sound_def [of _ Map.empty] split: option.splits
      intro!: foldl_invariant [where P = "index_sound steps"] intro: index_row_sound)

lemma buildCellIndex_complete:
  assumes "cell_at steps sid col i v" "trim_space v \<noteq> []"
  shows "buildCellIndex steps v \<noteq> None"
proof -
  from assms(1) obtain sr where sr: "map_of steps sid = Some sr" "i < length (sr_Rows sr)"
    "map_of (sr_Rows sr ! i) col = Some (JStr v)" by (auto simp: cell_at_def)
  have hit: "foldl (index_row sid) idx (List.enumerate 0 (sr_Rows sr)) v \<noteq> None" for idx
    by (rule foldl_mono_hit [where Q = "\<lambda>idx. idx v \<noteq> None" and x = "(i, sr_Rows sr ! i)"])
      (use sr assms(2) in \<open>simp_all only: index_row_mono index_row_hit enumerate_mem simp_thms
        not_False_eq_True\<close>)
  have mono: "foldl (index_row k) idx rs v \<noteq> None" if "idx v \<noteq> None" for k idx rs
    by (rule foldl_invariant [where P = "\<lambda>idx. idx v \<noteq> None"]) (use that index_row_mono in auto)
  show ?thesis
    unfolding buildCellIndex_def
  proof (rule foldl_mono_hit [where Q = "\<lambda>idx. idx v \<noteq> None" and x = sid])
    show "sid \<in> set (sorted_keys steps)" using sr by (auto simp: sorted_keys_mem)
  qed (use sr hit mono in \<open>auto split: option.splits\<close>)
qed

section \<open>String leaves and the verdict of the scan\<close>

inductive string_leaf :: "json \<Rightarrow> string \<Rightarrow> bool" where
  leaf_str: "string_leaf (JStr v) v"
| leaf_obj: "map_of m k = Some w \<Longrightarrow> string_leaf w v \<Longrightarrow> string_leaf (JObj m) v"
| leaf_arr: "w \<in> set xs \<Longrightarrow> string_leaf w v \<Longrightarrow> string_leaf (JArr xs) v"

inductive_simps string_leaf_simps:
  "string_leaf (JStr s) v" "string_leaf (JObj m) v" "string_leaf (JArr xs) v"
  "string_leaf JNull v" "string_leaf (JBool b) v" "string_leaf (JNum r) v"

definition copied :: "(string \<rightharpoonup> string) \<Rightarrow> Exempt \<Rightarrow> string \<Rightarrow> bool" where
  "copied idx ex v \<longleftrightarrow>
     (let s = trim_space v
      in s \<noteq> [] \<and> \<not> IsRef s \<and> \<not> (case ex of None \<Rightarrow> False | Some e \<Rightarrow> e s) \<and> idx s \<noteq> None)"

lemma clearjunk_mem: "(k, w) \<in> set (AList.clearjunk m) \<longleftrightarrow> map_of m k = Some w"
  using map_of_eq_Some_iff [OF distinct_clearjunk, of m k w] by (simp add: map_of_clearjunk)

lemma scan_None: "scan x path idx ex = None \<longleftrightarrow> (\<forall>v. string_leaf x v \<longrightarrow> \<not> copied idx ex v)"
proof (induction x path idx ex rule: scan.induct)
  case (1 v path idx ex)
  show ?case by (auto simp: copied_def Let_def string_leaf_simps split: option.splits)
next
  case (2 m path idx ex)
  have "scan (JObj m) path idx ex = None \<longleftrightarrow>
      (\<forall>kv \<in> set (AList.clearjunk m). scan (snd kv) (path @ ''.'' @ fst kv) idx ex = None)"
    by (auto simp: first_some_None)
  also have "\<dots> \<longleftrightarrow> (\<forall>(k, w) \<in> set (AList.clearjunk m). \<forall>v. string_leaf w v \<longrightarrow> \<not> copied idx ex v)"
    using 2 by fastforce
  also have "\<dots> \<longleftrightarrow> (\<forall>v. string_leaf (JObj m) v \<longrightarrow> \<not> copied idx ex v)"
    by (simp add: string_leaf_simps Ball_def clearjunk_mem) blast
  finally show ?case .
next
  case (3 xs path idx ex)
  have "scan (JArr xs) path idx ex = None \<longleftrightarrow>
      (\<forall>iv \<in> set (List.enumerate 0 xs).
         scan (snd iv) (path @ ''['' @ show_nat (fst iv) @ '']'') idx ex = None)"
    by (auto simp: first_some_None)
  also have "\<dots> \<longleftrightarrow> (\<forall>iv \<in> set (List.enumerate 0 xs). \<forall>v. string_leaf (snd iv) v \<longrightarrow> \<not> copied idx ex v)"
    using 3 by blast
  also have "\<dots> \<longleftrightarrow> (\<forall>v. string_leaf (JArr xs) v \<longrightarrow> \<not> copied idx ex v)"
    unfolding enumerate_ball [of 0 xs "\<lambda>w. \<forall>v. string_leaf w v \<longrightarrow> \<not> copied idx ex v"]
    by (auto simp: string_leaf_simps)
  finally show ?case .
qed (auto simp: string_leaf_simps)

lemma scan_Some:
  "scan x path idx ex = Some vi \<Longrightarrow>
     \<exists>v. string_leaf x v \<and> copied idx ex v \<and> vi_Literal vi = trim_space v
       \<and> idx (vi_Literal vi) = Some (vi_ShouldBe vi)"
proof (induction x path idx ex rule: scan.induct)
  case (1 v path idx ex)
  then show ?case
    by (auto simp: copied_def Let_def string_leaf_simps split: option.splits if_splits)
next
  case (2 m path idx ex)
  from "2.prems" obtain kv where kv: "kv \<in> set (sort_key fst (AList.clearjunk m))"
    "scan (snd kv) (path @ ''.'' @ fst kv) idx ex = Some vi" by (auto dest!: first_some_Some)
  from "2.IH" [OF kv] kv(1) show ?case
    by (cases kv) (auto simp: string_leaf_simps clearjunk_mem)
next
  case (3 xs path idx ex)
  from "3.prems" obtain iv where iv: "iv \<in> set (List.enumerate 0 xs)"
    "scan (snd iv) (path @ ''['' @ show_nat (fst iv) @ '']'') idx ex = Some vi"
    by (auto dest!: first_some_Some)
  have "snd iv \<in> set xs"
    using enumerate_ball [of 0 xs "\<lambda>w. w \<in> set xs"] iv(1) by blast
  with "3.IH" [OF iv] show ?case by (auto simp: string_leaf_simps)
qed simp_all

section \<open>Properties\<close>

definition demo_steps :: "(string \<times> StepResult) list" where
  "demo_steps = [(''t1'', \<lparr>sr_Rows = [[(''city'', JStr ''Rome'')]], sr_FromTask = ''a'',
     sr_Schema = [''city'']\<rparr>)]"


text \<open>a violation the gate reports is real: its literal is a leaf of the arguments, it is not
  a reference, and \<open>ShouldBe\<close> names a cell of a step result that holds exactly that literal.\<close>

theorem gate_violation_is_real:
  assumes "GateDispatch d steps ex = Some vi"
  shows "\<exists>v sid col i. string_leaf (JObj (d_Args d)) v \<and> vi_Literal vi = trim_space v
    \<and> \<not> IsRef (vi_Literal vi) \<and> cell_at steps sid col i (vi_Literal vi)
    \<and> vi_ShouldBe vi = cell_ref sid col i"
proof -
  from assms have "scan (JObj (d_Args d)) ''$'' (buildCellIndex steps) ex = Some vi"
    by (simp add: GateDispatch_def ScanForLiteral_def del: scan.simps split: if_splits)
  from scan_Some [OF this] obtain v where v: "string_leaf (JObj (d_Args d)) v"
    "copied (buildCellIndex steps) ex v" "vi_Literal vi = trim_space v"
    "buildCellIndex steps (vi_Literal vi) = Some (vi_ShouldBe vi)" by blast
  from v(4) buildCellIndex_sound [of steps] obtain sid col i where
    "cell_at steps sid col i (vi_Literal vi)" "vi_ShouldBe vi = cell_ref sid col i"
    unfolding index_sound_def by blast
  moreover have "\<not> IsRef (vi_Literal vi)" using v(2,3) by (simp add: copied_def Let_def)
  ultimately show ?thesis using v(1,3) by blast
qed

theorem gate_violation_is_real_witness:
  "\<exists>v sid col i. string_leaf (JObj [(''where'', JArr [JStr '' Rome''])]) v
     \<and> ''Rome'' = trim_space v \<and> \<not> IsRef ''Rome'' \<and> cell_at demo_steps sid col i ''Rome''
     \<and> ''t1.city[0]'' = cell_ref sid col i"
proof -
  have "GateDispatch \<lparr>d_Tool = ''smartquery'', d_Args = [(''where'', JArr [JStr '' Rome''])]\<rparr>
      demo_steps None
    = Some \<lparr>vi_Literal = ''Rome'', vi_Path = ''$.where[0]'', vi_ShouldBe = ''t1.city[0]''\<rparr>"
    by code_simp
  from gate_violation_is_real [OF this] show ?thesis by simp
qed

text \<open>\<open>IsRef\<close> accepts exactly the reference grammar of the comment: an optional mission
  prefix \<open>m...\<close>, a step \<open>t\<close> and digits, an optional column and an optional row index.\<close>

theorem is_ref_grammar:
  "IsRef s \<longleftrightarrow>
     (\<exists>mis step col. trim_space s = mis @ ''t'' @ step @ col
        \<and> (mis = [] \<or> (\<exists>x. mis = ''m'' @ x @ ''.'' \<and> x \<noteq> [] \<and> list_all is_mission_char x))
        \<and> step \<noteq> [] \<and> list_all is_digit step
        \<and> (col = [] \<or> (\<exists>x row. col = ''.'' @ x @ row \<and> x \<noteq> [] \<and> list_all is_column_char x
             \<and> (row = [] \<or> (\<exists>n. row = ''['' @ n @ '']'' \<and> n \<noteq> [] \<and> list_all is_digit n)))))"
proof -
  have "plain refBody" by (simp add: refBody_def)
  then have "IsRef s \<longleftrightarrow> trim_space s \<in> lang refBody"
    unfolding IsRef_def refPattern_def by (rule MatchString_anchored)
  also have "\<dots> \<longleftrightarrow> (\<exists>mis t step col. trim_space s = mis @ t @ step @ col
      \<and> mis \<in> lang (ROpt (RSeqs [RLit ''m'', RPlus (RCls is_mission_char), RLit ''.'']))
      \<and> t \<in> lang (RLit ''t'') \<and> step \<in> lang (RPlus (RCls is_digit))
      \<and> col \<in> lang (ROpt (RSeqs [RLit ''.'', RPlus (RCls is_column_char),
          ROpt (RSeqs [RLit ''['', RPlus (RCls is_digit), RLit '']''])])))"
    unfolding refBody_def lang_RSeqs_4 ..
  finally have main: "IsRef s \<longleftrightarrow> \<dots>" .
  have mis: "lang (ROpt (RSeqs [RLit ''m'', RPlus (RCls is_mission_char), RLit ''.'']))
      = {mis. mis = [] \<or> (\<exists>x. mis = ''m'' @ x @ ''.'' \<and> x \<noteq> [] \<and> (\<forall>c \<in> set x. is_mission_char c))}"
    by (rule set_eqI) (simp only: lang_ROpt Un_iff lang_RSeqs_3 lang_RLit lang_RPlus_RCls
        mem_Collect_eq singleton_iff, blast)
  have row: "lang (ROpt (RSeqs [RLit ''['', RPlus (RCls is_digit), RLit '']'']))
      = {row. row = [] \<or> (\<exists>n. row = ''['' @ n @ '']'' \<and> n \<noteq> [] \<and> (\<forall>c \<in> set n. is_digit c))}"
    by (rule set_eqI) (simp only: lang_ROpt Un_iff lang_RSeqs_3 lang_RLit lang_RPlus_RCls
        mem_Collect_eq singleton_iff, blast)
  have col: "lang (ROpt (RSeqs [RLit ''.'', RPlus (RCls is_column_char),
          ROpt (RSeqs [RLit ''['', RPlus (RCls is_digit), RLit '']''])]))
      = {col. col = [] \<or> (\<exists>x row. col = ''.'' @ x @ row \<and> x \<noteq> [] \<and> (\<forall>c \<in> set x. is_column_char c)
           \<and> (row = [] \<or> (\<exists>n. row = ''['' @ n @ '']'' \<and> n \<noteq> [] \<and> (\<forall>c \<in> set n. is_digit c))))}"
    by (rule set_eqI) (simp only: lang_ROpt [of "RSeqs [RLit ''.'', _, _]"] Un_iff lang_RSeqs_3
        row lang_RLit lang_RPlus_RCls mem_Collect_eq singleton_iff, blast)
  show ?thesis
    unfolding main mis col lang_RLit lang_RPlus_RCls mem_Collect_eq singleton_iff list_all_iff by simp
qed

text \<open>the gate compares the trimmed argument with the untrimmed cell, so a cell with
  surrounding white space can be copied into an argument unnoticed.\<close>

theorem padded_cells_are_not_protected:
  assumes "trim_space v \<noteq> v" "map_of steps sid = Some sr" "i < length (sr_Rows sr)"
    "map_of (sr_Rows sr ! i) col = Some (JStr v)" "\<nexists>sid col i. cell_at steps sid col i (trim_space v)"
  shows "cell_at steps sid col i v
    \<and> GateDispatch \<lparr>d_Tool = t, d_Args = [(''value'', JStr v)]\<rparr> steps ex = None"
proof -
  let ?d = "\<lparr>d_Tool = t, d_Args = [(''value'', JStr v)]\<rparr>"
  have "string_leaf (JObj (d_Args ?d)) x \<longleftrightarrow> x = v" for x
    by (auto simp: string_leaf_simps)
  moreover have "GateDispatch ?d steps ex = None \<longleftrightarrow>
      (\<forall>x. string_leaf (JObj (d_Args ?d)) x \<longrightarrow> \<not> copied (buildCellIndex steps) ex x)"
    using scan_None [of "JObj (d_Args ?d)" "''$''" "buildCellIndex steps" ex]
    by (simp add: GateDispatch_def ScanForLiteral_def del: scan.simps)
  moreover have "buildCellIndex steps (trim_space v) = None"
    using buildCellIndex_sound [of steps] assms(5) unfolding index_sound_def by (meson option.exhaust)
  ultimately show ?thesis using assms(2-4) by (auto simp: cell_at_def copied_def Let_def)
qed

theorem padded_cells_are_not_protected_witness:
  "GateDispatch \<lparr>d_Tool = ''smartquery'', d_Args = [(''value'', JStr '' Rome '')]\<rparr>
     [(''t1'', \<lparr>sr_Rows = [[(''city'', JStr '' Rome '')]], sr_FromTask = ''a'', sr_Schema = []\<rparr>)]
     None = None"
  by (rule padded_cells_are_not_protected [where sid = "''t1''" and i = 0 and col = "''city''",
        THEN conjunct2])
    (auto simp: cell_at_def trim_space_def trim_left_def trim_right_def split: if_splits)

end
