(* ===== verification/Sql_Rewrite.thy ===== *)
theory Sql_Rewrite
  imports Regex
begin

text \<open>
  \<open>pkg/sqlrewrite/sqlrewrite.go\<close>: the rewrite and validation of SQL the services run on behalf of
  users. The order of the pipeline is the code's: placeholders become positional parameters,
  \<open>RejectDDL\<close> screens the text, referenced names are extracted, a WITH prefix and a LIMIT are
  added; and the inline parameters \<open>{sys.req.NAME}\<close> and \<open>{sys.opt.NAME}\<close> are rendered by
  position. Error messages are the constructors of an error type, with the text the message
  quotes as their argument. \<open>fmt.Sprint\<close> of a number is a parameter.
\<close>

section \<open>Patterns\<close>

definition dq :: char where "dq = CHR 0x22"
definition is_nl :: "char \<Rightarrow> bool" where "is_nl c \<longleftrightarrow> c = CHR 0x0A"
definition not_dq :: "char \<Rightarrow> bool" where "not_dq c \<longleftrightarrow> c \<noteq> dq"

definition dollarQuoteRe :: regex where
  "dollarQuoteRe = RSeqs [RLit ''$'', RStar (RCls is_word_char), RLit ''$'']"

definition lineCommentRe :: regex where
  "lineCommentRe = RSeq (RLit ''--'') (RStar (RCls (\<lambda>c. \<not> is_nl c)))"

definition blockCommentRe :: regex where
  "blockCommentRe = RSeqs [RLit ''/*'', RLazy RAny, RLit ''*/'']"

definition strip_comments :: "string \<Rightarrow> string" where
  "strip_comments s =
     ReplaceAllString blockCommentRe '' '' (ReplaceAllString lineCommentRe '' '' s)"

section \<open>RejectDDL\<close>

datatype reject_error =
    DollarQuote
  | BannedStatement string
  | CrossSchema string
  | MultiStatement

definition banned :: "string list" where
  "banned = [''drop'', ''truncate'', ''alter'', ''create'', ''grant'', ''revoke'', ''vacuum'',
     ''reindex'', ''insert'', ''update'', ''delete'', ''copy'', ''set'', ''reset'', ''show'']"

text \<open>Each pattern with the name its error message prints.\<close>

definition user_table :: regex where
  "user_table = RSeqs [RWordB, RLit ''public.'', ROpt (RLit [dq]), RLit ''user'', ROpt (RLit [dq]),
     RWordB]"

definition quoted_user :: regex where
  "quoted_user =
     RAlt (RLit ([dq] @ ''user'' @ [dq] @ ''.''))
       (RSeqs [RLit ([dq] @ ''user'' @ [dq]), RStar RSpace,
          RAlts (map RLit ['')'', ''('', ''where'', ''on'', ''left'', ''right'', ''inner'', ''cross'',
            ''join'', ''from''])])"

definition forbidden :: "(regex \<times> string) list" where
  "forbidden =
     [(RSeqs [RWordB, RLit ''pg_catalog.''], ''pg_catalog''),
      (RSeqs [RWordB, RLit ''information_schema.''], ''information_schema''),
      (RWord ''pg_authid'', ''pg_authid''), (RWord ''pg_shadow'', ''pg_shadow''),
      (RWord ''pg_user'', ''pg_user''),
      (user_table, ''public.user''), (quoted_user, ''user'')]"

definition is_stmt_end :: "char \<Rightarrow> bool" where
  "is_stmt_end c \<longleftrightarrow> c = CHR '';'' \<or> c = CHR '' '' \<or> c = CHR 0x09 \<or> c = CHR 0x0D \<or> c = CHR 0x0A"

definition RejectDDL :: "string \<Rightarrow> reject_error option" where
  "RejectDDL sqlText =
     (if MatchString dollarQuoteRe sqlText then Some DollarQuote
      else
        let lower = to_lower (strip_comments sqlText)
        in case find (\<lambda>w. MatchString (RWord w) lower) banned of
             Some w \<Rightarrow> Some (BannedStatement w)
           | None \<Rightarrow>
             (case find (\<lambda>(r, n). MatchString r lower) forbidden of
                Some (r, n) \<Rightarrow> Some (CrossSchema n)
              | None \<Rightarrow>
                  if contains_str (trim_right is_stmt_end lower) '';'' then Some MultiStatement
                  else None))"

section \<open>Referenced names\<close>

definition nameRefRe :: regex where
  "nameRefRe = RSeqs [RWordB, RAlt (RLitI ''from'') (RLitI ''join''), RPlus RSpace,
     RAlt (RSeqs [RLit [dq], RGrp 1 (RPlus (RCls not_dq)), RLit [dq]]) (RGrp 2 RIdent)]"

definition ExtractReferencedNames :: "string \<Rightarrow> string list" where
  "ExtractReferencedNames sqlText =
     filter (\<lambda>name. name \<noteq> [] \<and> to_lower name \<noteq> ''lateral'' \<and> to_lower name \<noteq> ''only'')
       (map (\<lambda>(m, g). if group g 1 = [] then group g 2 else group g 1)
         (FindAllSubmatch nameRefRe (strip_comments sqlText)))"

section \<open>The WITH prefix\<close>

definition hex_digit :: "nat \<Rightarrow> char" where
  "hex_digit n = (if n < 10 then char_of (48 + n) else char_of (87 + n))"

text \<open>
  The verb \<open>%q\<close> (\<open>strconv.Quote\<close>): a Go string literal. Bytes of 128 or more are taken to be
  printable UTF-8, which \<open>%q\<close> keeps.
\<close>

definition go_quote_char :: "char \<Rightarrow> string" where
  "go_quote_char c =
     (let n = (of_char c :: nat); bs = CHR 0x5C
      in if c = dq then [bs, dq]
         else if c = bs then [bs, bs]
         else if n = 7 then [bs, CHR ''a''] else if n = 8 then [bs, CHR ''b'']
         else if n = 12 then [bs, CHR ''f''] else if n = 10 then [bs, CHR ''n'']
         else if n = 13 then [bs, CHR ''r''] else if n = 9 then [bs, CHR ''t'']
         else if n = 11 then [bs, CHR ''v'']
         else if n < 32 \<or> n = 127 then [bs, CHR ''x'', hex_digit (n div 16), hex_digit (n mod 16)]
         else [c])"

definition go_quote :: "string \<Rightarrow> string" where
  "go_quote s = [dq] @ concat (map go_quote_char s) @ [dq]"

definition newline :: string where "newline = [CHR 0x0A]"

definition BuildCTEPrefix :: "(string \<rightharpoonup> string) \<Rightarrow> string list \<Rightarrow> string" where
  "BuildCTEPrefix odCanonical usedNames =
     (let parts = concat (map (\<lambda>name.
            case odCanonical name of
              None \<Rightarrow> []
            | Some cq \<Rightarrow> [go_quote name @ '' AS ('' @ newline @ cq @ newline @ '')'']) usedNames)
      in if parts = [] then []
         else ''WITH '' @ join_str ('','' @ newline) parts @ newline)"

definition hasLimitRe :: regex where
  "hasLimitRe = RSeqs [RWordB, RLitI ''limit'', RPlus RSpace, RPlus (RCls is_digit)]"

definition MaybeInjectLimit :: "string \<Rightarrow> int \<Rightarrow> string" where
  "MaybeInjectLimit sqlText limit =
     (let trimmed = trim_right is_stmt_end sqlText
      in if MatchString hasLimitRe trimmed then sqlText
         else trimmed @ newline @ ''LIMIT '' @ show_int limit)"

section \<open>Double-brace placeholders\<close>

definition placeholderRe :: regex where
  "placeholderRe = RSeqs [RLit ''{{'', RStar RSpace, RGrp 1 RIdent, RStar RSpace, RLit ''}}'']"

definition placeholder_name :: "string \<Rightarrow> string" where
  "placeholder_name m =
     (case find_match placeholderRe [] m of
        None \<Rightarrow> [] | Some (b, m', rest, g) \<Rightarrow> group g 1)"

text \<open>The callback of the replacement counts the matches: the loop carries the counter.\<close>

fun number_pieces :: "nat \<Rightarrow> (string \<times> string \<times> groups) list \<Rightarrow> string \<Rightarrow> string" where
  "number_pieces idx [] t = t"
| "number_pieces idx ((pre, m, g) # cs) t =
     pre @ ''$'' @ show_nat (Suc idx) @ number_pieces (Suc idx) cs t"

definition SubstitutePlaceholders :: "string \<Rightarrow> string \<times> string list" where
  "SubstitutePlaceholders sql =
     (case chunks placeholderRe [] sql of
        (cs, t) \<Rightarrow> (number_pieces 0 cs t, map (\<lambda>(pre, m, g). placeholder_name m) cs))"

section \<open>Inline parameters\<close>

record SysParam =
  sp_Name :: string
  sp_Required :: bool

definition sysParamRe :: regex where
  "sysParamRe = RSeqs [RLit ''{sys.'', RGrp 1 (RAlt (RLit ''req'') (RLit ''opt'')), RLit ''.'',
     RGrp 2 RIdent, RLit ''}'']"

definition add_sys_param :: "SysParam list \<Rightarrow> SysParam \<Rightarrow> SysParam list" where
  "add_sys_param out p =
     (case find_index (\<lambda>q. sp_Name q = sp_Name p) out of
        Some pos \<Rightarrow>
          if sp_Required p \<and> \<not> sp_Required (out ! pos)
          then out[pos := (out ! pos)\<lparr>sp_Required := True\<rparr>] else out
      | None \<Rightarrow> out @ [p])"

definition ParseSysParams :: "string \<Rightarrow> SysParam list" where
  "ParseSysParams sql =
     foldl add_sys_param []
       (map (\<lambda>(m, g). \<lparr>sp_Name = group g 2, sp_Required = (group g 1 = ''req'')\<rparr>)
         (FindAllSubmatch sysParamRe sql))"

definition valueCtxRe :: regex where
  "valueCtxRe = RSeq
     (RAlts [RLit ''!='', RLit ''<>'', RLit ''<='', RLit ''>='', RLit ''='', RLit ''<'', RLit ''>'',
        RLit ''('', RSeq RWordB (RLitI ''in''), RSeq RWordB (RLitI ''like''),
        RSeq RWordB (RLitI ''ilike''), RSeq RWordB (RLitI ''is'')])
     REnd"

definition quoteSysIdent :: "string \<Rightarrow> string" where
  "quoteSysIdent name = [dq] @ replace_char dq [dq, dq] name @ [dq]"

text \<open>The local function \<open>provided\<close> of \<open>RenderSysParams\<close>; the null value is not provided.\<close>

definition provided :: "(string \<times> json) list \<Rightarrow> string \<Rightarrow> json option" where
  "provided values name =
     (case map_of values name of
        None \<Rightarrow> None
      | Some v \<Rightarrow>
          (case v of
             JNull \<Rightarrow> None
           | JStr s \<Rightarrow> if s = [] then None else Some v
           | JArr xs \<Rightarrow> if xs = [] then None else Some v
           | _ \<Rightarrow> Some v))"

text \<open>\<open>fmt.Sprint\<close> of an element of a list value; \<open>num\<close> prints numbers.\<close>

fun sprint :: "(rat \<Rightarrow> string) \<Rightarrow> json \<Rightarrow> string" where
  "sprint num JNull = ''<nil>''"
| "sprint num (JBool b) = (if b then ''true'' else ''false'')"
| "sprint num (JNum r) = num r"
| "sprint num (JStr s) = s"
| "sprint num (JArr xs) = ''['' @ join_str '' '' (map (sprint num) xs) @ '']''"
| "sprint num (JObj m) =
     ''map['' @ join_str '' '' (map (\<lambda>(k, v). k @ '':'' @ v)
        (sort_key fst (map (\<lambda>(k, v). (k, sprint num v)) m))) @ '']''"

definition toStringSlice :: "(rat \<Rightarrow> string) \<Rightarrow> json \<Rightarrow> string list option" where
  "toStringSlice num v =
     (case v of
        JArr xs \<Rightarrow> Some (map (sprint num) (filter (\<lambda>e. e \<noteq> JNull) xs))
      | _ \<Rightarrow> None)"

datatype arg = ScalarArg json | ListArg "string list"

definition to_arg :: "(rat \<Rightarrow> string) \<Rightarrow> json \<Rightarrow> arg" where
  "to_arg num v = (case toStringSlice num v of Some sl \<Rightarrow> ListArg sl | None \<Rightarrow> ScalarArg v)"

definition is_blank :: "char \<Rightarrow> bool" where
  "is_blank c \<longleftrightarrow> c = CHR '' '' \<or> c = CHR 0x09 \<or> c = CHR 0x0D \<or> c = CHR 0x0A"

definition conn_re :: regex where
  "conn_re = RAlt (RLitI ''and'') (RLitI ''or'')"

definition clause_or_end :: regex where
  "clause_or_end = RGrp 1 (RAlt
     (RSeqs [RWordB, RAlts [RLitI ''group'', RLitI ''order'', RLitI ''limit'', RLitI ''having''], RWordB])
     REnd)"

definition whereAndRe :: regex where
  "whereAndRe = RSeqs [RWordB, RLitI ''where'', RWordB, RPlus RSpace, conn_re, RWordB, RPlus RSpace]"

definition trailingConnRe :: regex where
  "trailingConnRe = RSeqs [RPlus RSpace, conn_re, RPlus RSpace, clause_or_end]"

definition danglingWhereRe :: regex where
  "danglingWhereRe = RSeqs [RWordB, RLitI ''where'', RWordB, RPlus RSpace, clause_or_end]"

definition leadingCommaRe :: regex where
  "leadingCommaRe = RSeqs [RBegin, RStar RSpace, RLit '','']"

definition trailingCommaRe :: regex where
  "trailingCommaRe = RSeqs [RLit '','', RStar RSpace, REnd]"

definition leadingCloseParenRe :: regex where
  "leadingCloseParenRe = RSeqs [RBegin, RStar RSpace, RLit '')'']"

definition is_dotted_char :: "char \<Rightarrow> bool" where
  "is_dotted_char c \<longleftrightarrow> is_word_char c \<or> c = CHR ''.''"

definition optionalPredicateRe :: regex where
  "optionalPredicateRe = RSeqs
     [ROpt (RGrp 1 (RSeqs [RWordB, conn_re, RWordB, RPlus RSpace])),
      RAlt (RSeqs [RLit [dq], RPlus (RCls not_dq), RLit [dq]])
           (RSeq (RCls is_alpha_us) (RStar (RCls is_dotted_char))),
      RStar RSpace,
      RAlts [RLit ''!='', RLit ''<>'', RLit ''<='', RLit ''>='', RLit ''='', RLit ''<'', RLit ''>'',
        RSeqs [RWordB, RLitI ''not'', RPlus RSpace, RLitI ''in''], RSeq RWordB (RLitI ''in''),
        RSeqs [RWordB, RLitI ''not'', RPlus RSpace, RLitI ''like''], RSeq RWordB (RLitI ''like''),
        RSeq RWordB (RLitI ''ilike''), RSeq RWordB (RLitI ''is'')],
      RStar RSpace, ROpt (RSeq (RLitI ''any'') (RStar RSpace)), ROpt (RLit ''(''), RStar RSpace, REnd]"

text \<open>One round of the connector clean-up, and the loop to its fixpoint.\<close>

definition where_head :: "string \<Rightarrow> string" where
  "where_head m = takeWhile (\<lambda>c. \<not> is_blank c) m @ '' ''"

definition clean_round :: "string \<Rightarrow> string" where
  "clean_round s =
     ReplaceAllFunc trailingConnRe (\<lambda>m g. '' '' @ group g 1)
       (ReplaceAllFunc whereAndRe (\<lambda>m g. where_head m) s)"

partial_function (option) clean_loop :: "string \<Rightarrow> string option" where
  "clean_loop s = (let s' = clean_round s in if s' = s then Some s else clean_loop s')"

declare clean_loop.simps [code]

definition cleanDanglingConnectors :: "string \<Rightarrow> string option" where
  "cleanDanglingConnectors s =
     (case clean_loop s of
        None \<Rightarrow> None
      | Some t \<Rightarrow> Some (ReplaceAllFunc danglingWhereRe (\<lambda>m g. group g 1) t))"

definition stripTrailingComma :: "string \<Rightarrow> string" where
  "stripTrailingComma s = ReplaceAllString trailingCommaRe [] s"

definition dropOptionalValuePredicate :: "string \<Rightarrow> string" where
  "dropOptionalValuePredicate emitted =
     (case find_match optionalPredicateRe [] emitted of
        None \<Rightarrow> emitted
      | Some (b, m, rest, g) \<Rightarrow>
          if g 1 \<noteq> None then trim_right is_blank (rev b)
          else trim_right is_blank (rev b) @ '' '')"

text \<open>
  The loop over the tokens. The pieces are the tokens with the text before them; swallowing
  text after a token (a comma, a closing parenthesis) drops bytes from the next piece.
\<close>

record render =
  rn_out :: string
  rn_args :: "arg list"
  rn_missing :: "string list"

type_synonym pieces = "(string \<times> string \<times> groups) list \<times> string"

definition rest_text :: "pieces \<Rightarrow> string" where
  "rest_text p = concat (map (\<lambda>(pre, m, g). pre @ m) (fst p)) @ snd p"

definition drop_text :: "nat \<Rightarrow> pieces \<Rightarrow> pieces" where
  "drop_text n p =
     (case p of
        ([], t) \<Rightarrow> ([], drop n t)
      | ((pre, m, g) # cs, t) \<Rightarrow> ((drop n pre, m, g) # cs, t))"

text \<open>The length of the match of an anchored pattern at the start of the remaining text.\<close>

definition swallow :: "regex \<Rightarrow> pieces \<Rightarrow> nat" where
  "swallow r p =
     (case find_match r [] (rest_text p) of
        Some (b, m, rest, g) \<Rightarrow> if b = [] then length m else 0
      | None \<Rightarrow> 0)"

definition add_missing :: "string \<Rightarrow> render \<Rightarrow> render" where
  "add_missing name st =
     (if name \<in> set (rn_missing st) then st else st\<lparr>rn_missing := rn_missing st @ [name]\<rparr>)"

definition render_value ::
  "(rat \<Rightarrow> string) \<Rightarrow> (string \<times> json) list \<Rightarrow> bool \<Rightarrow> string \<Rightarrow> string \<Rightarrow> pieces \<Rightarrow> render
     \<Rightarrow> render \<times> nat" where
  "render_value num values required name ctx rest st =
     (case provided values name of
        Some v \<Rightarrow>
          (st\<lparr>rn_out := rn_out st @ ''$'' @ show_nat (Suc (length (rn_args st))),
              rn_args := rn_args st @ [to_arg num v]\<rparr>, 0)
      | None \<Rightarrow>
          if required then (add_missing name st, 0)
          else
            let emitted = rn_out st; trimmed = dropOptionalValuePredicate emitted
            in (st\<lparr>rn_out := trimmed\<rparr>,
                if has_suffix ctx ''('' \<and> trimmed \<noteq> emitted then swallow leadingCloseParenRe rest
                else 0))"

definition render_identifier ::
  "(string \<times> json) list \<Rightarrow> bool \<Rightarrow> string \<Rightarrow> pieces \<Rightarrow> render \<Rightarrow> render \<times> nat" where
  "render_identifier values required name rest st =
     (if map_of values name \<noteq> None then (st\<lparr>rn_out := rn_out st @ quoteSysIdent name\<rparr>, 0)
      else if required then (add_missing name st, 0)
      else
        let n = swallow leadingCommaRe rest
        in if n \<noteq> 0 then (st\<lparr>rn_out := trim_right is_blank (rn_out st)\<rparr>, n)
           else (st\<lparr>rn_out := stripTrailingComma (rn_out st)\<rparr>, 0))"

definition render_token ::
  "(rat \<Rightarrow> string) \<Rightarrow> (string \<times> json) list \<Rightarrow> string \<Rightarrow> groups \<Rightarrow> pieces \<Rightarrow> render \<Rightarrow> render \<times> nat" where
  "render_token num values pre g rest st =
     (let st1 = st\<lparr>rn_out := rn_out st @ pre\<rparr>;
          ctx = trim_right is_blank (rn_out st1);
          required = (group g 1 = ''req''); name = group g 2
      in if MatchString valueCtxRe ctx then render_value num values required name ctx rest st1
         else render_identifier values required name rest st1)"

lemma length_drop_text [simp]: "length (fst (drop_text n p)) = length (fst p)"
  by (auto simp: drop_text_def split: prod.splits list.splits)

function render_loop ::
  "(rat \<Rightarrow> string) \<Rightarrow> (string \<times> json) list \<Rightarrow> pieces \<Rightarrow> render \<Rightarrow> render" where
  "render_loop num values p st =
     (case p of
        ([], t) \<Rightarrow> st\<lparr>rn_out := rn_out st @ t\<rparr>
      | ((pre, m, g) # cs, t) \<Rightarrow>
          (case render_token num values pre g (cs, t) st of
             (st', n) \<Rightarrow> render_loop num values (drop_text n (cs, t)) st'))"
  by pat_completeness auto
termination by (relation "measure (\<lambda>(num, values, p, st). length (fst p))") auto

declare render_loop.simps [simp del]

definition RenderSysParams ::
  "(rat \<Rightarrow> string) \<Rightarrow> string \<Rightarrow> (string \<times> json) list \<Rightarrow> (string \<times> arg list \<times> string list) option" where
  "RenderSysParams num sql values =
     (let st = render_loop num values (chunks sysParamRe [] sql)
            \<lparr>rn_out = [], rn_args = [], rn_missing = []\<rparr>
      in case cleanDanglingConnectors (rn_out st) of
           None \<Rightarrow> None
         | Some rendered \<Rightarrow> Some (rendered, rn_args st, sort (rn_missing st)))"

end
