(* ===== verification/Sql_Rewrite_Props.thy ===== *)
theory Sql_Rewrite_Props
  imports Sql_Rewrite
begin

text \<open>
  Properties of the SQL rewrite: what \<open>RejectDDL\<close> lets through (and what its comment stripping
  misses), that substitution leaves no placeholder, that the row cap is idempotent, and that
  parameter values never reach the SQL text.
\<close>

section \<open>The screen\<close>

lemma contains_char: "contains_str s [c] \<longleftrightarrow> c \<in> set s"
  by (induction s) (auto simp: contains_str_def has_prefix_def)

lemma find_None_list: "find P xs = None \<longleftrightarrow> (\<forall>x \<in> set xs. \<not> P x)"
  by (induction xs) auto

lemma banned_words:
  "w \<in> set banned \<Longrightarrow> w \<noteq> [] \<and> is_word_char (hd w) \<and> is_word_char (last w)"
  by (auto simp: banned_def is_word_char_def)

lemma MatchString_banned: "w \<in> set banned \<Longrightarrow> MatchString (RWord w) s \<longleftrightarrow> has_word w s"
  using banned_words MatchString_RWord by blast

lemma RejectDDL_None:
  "RejectDDL s = None \<longleftrightarrow>
     \<not> MatchString dollarQuoteRe s
     \<and> (\<forall>w \<in> set banned. \<not> has_word w (to_lower (strip_comments s)))
     \<and> (\<forall>(r, n) \<in> set forbidden. \<not> MatchString r (to_lower (strip_comments s)))
     \<and> CHR '';'' \<notin> set (trim_right is_stmt_end (to_lower (strip_comments s)))"
proof -
  have ban: "find (\<lambda>w. MatchString (RWord w) t) banned = None \<longleftrightarrow> (\<forall>w \<in> set banned. \<not> has_word w t)" for t
    by (auto simp: find_None_list MatchString_banned)
  have forb: "find (\<lambda>(r, n). MatchString r t) forbidden = None \<longleftrightarrow>
      (\<forall>(r, n) \<in> set forbidden. \<not> MatchString r t)" for t
    by (auto simp: find_None_list)
  show ?thesis
    unfolding ban [symmetric] forb [symmetric]
    by (auto simp: RejectDDL_def Let_def contains_char split: option.splits)
qed

lemma lang_dollar: "lang dollarQuoteRe = {''$'' @ tag @ ''$'' |tag. \<forall>c \<in> set tag. is_word_char c}"
  by (rule set_eqI) (simp only: dollarQuoteRe_def lang_RSeqs_3 lang_RLit lang_RStar_RCls
      mem_Collect_eq singleton_iff, blast)

lemma dollar_match:
  "MatchString dollarQuoteRe s \<longleftrightarrow>
     infix_of {''$'' @ tag @ ''$'' |tag. \<forall>c \<in> set tag. is_word_char c} s"
proof -
  have "anchor_free (RLit w)" for w by (induction w) auto
  then have "anchor_free dollarQuoteRe" by (simp add: dollarQuoteRe_def)
  then show ?thesis by (simp add: MatchString_anchor_free lang_dollar)
qed

section \<open>Placeholders\<close>

lemma anchor_free_RLit [simp]: "anchor_free (RLit w)"
  by (induction w) auto

lemma anchor_free_placeholder: "anchor_free placeholderRe"
  by (simp add: placeholderRe_def RSpace_def RIdent_def)

lemma lang_RIdent: "lang RIdent = {c # w |c w. is_alpha_us c \<and> (\<forall>x \<in> set w. is_word_char x)}"
proof -
  have "lang RIdent = {u @ v |u v. u \<in> {[c] |c. is_alpha_us c} \<and> (\<forall>x \<in> set v. is_word_char x)}"
    unfolding RIdent_def lang.simps(2,3) lang_RStar_RCls by simp
  also have "\<dots> = {c # w |c w. is_alpha_us c \<and> (\<forall>x \<in> set w. is_word_char x)}"
    by auto (metis append_Cons append_Nil)
  finally show ?thesis .
qed

lemma no_dollar_chars:
  "is_word_char c \<Longrightarrow> c \<noteq> CHR ''$''" "is_rx_space c \<Longrightarrow> c \<noteq> CHR ''$''"
  "is_alpha_us c \<Longrightarrow> c \<noteq> CHR ''$''"
  by (auto simp: is_word_char_def is_rx_space_def is_alpha_us_def)

lemma lang_placeholder:
  "w \<in> lang placeholderRe \<Longrightarrow>
     \<exists>a x b. w = ''{{'' @ a @ x @ b @ ''}}'' \<and> x \<in> lang RIdent
       \<and> (\<forall>c \<in> set a. is_rx_space c) \<and> (\<forall>c \<in> set b. is_rx_space c)"
  unfolding placeholderRe_def lang_RSeqs_Cons lang_RSeqs_Nil lang.simps(7) RSpace_def lang_RStar_RCls
    lang_RLit by force

lemma placeholder_shape:
  assumes "w \<in> lang placeholderRe"
  shows "w \<noteq> [] \<and> hd w = CHR ''{'' \<and> CHR ''$'' \<notin> set w"
proof -
  from lang_placeholder [OF assms] obtain a x b where
    w: "w = ''{{'' @ a @ x @ b @ ''}}''" "x \<in> lang RIdent"
    "\<forall>c \<in> set a. is_rx_space c" "\<forall>c \<in> set b. is_rx_space c" by blast
  have "CHR ''$'' \<notin> set x" using w(2) no_dollar_chars(1) no_dollar_chars(3) by (fastforce simp: lang_RIdent)
  moreover have "CHR ''$'' \<notin> set a" "CHR ''$'' \<notin> set b" using w(3,4) no_dollar_chars(2) by blast+
  ultimately show ?thesis using w(1) by simp
qed

lemma show_nat_digits: "c \<in> set (show_nat n) \<Longrightarrow> is_digit c"
proof (induction n rule: show_nat.induct)
  case (1 n)
  then show ?case
    by (subst (asm) (2) show_nat.simps) (auto simp: is_digit_def split: if_splits)
qed

lemma show_nat_not_Nil [simp]: "show_nat n \<noteq> []"
  by (subst show_nat.simps) simp

text \<open>A placeholder cannot straddle an inserted positional parameter.\<close>

lemma infix_split:
  assumes shape: "\<And>w. w \<in> L \<Longrightarrow> w \<noteq> [] \<and> hd w = CHR ''{'' \<and> CHR ''$'' \<notin> set w"
    and d: "\<forall>c \<in> set d. c \<noteq> CHR ''{''"
    and inf: "infix_of L (pre @ CHR ''$'' # d @ rest)"
  shows "infix_of L pre \<or> infix_of L rest"
proof -
  from inf obtain x w y where w: "w \<in> L" and "pre @ CHR ''$'' # d @ rest = x @ w @ y"
    unfolding infix_of_def by blast
  then have eq: "pre @ (CHR ''$'' # d @ rest) = (x @ w) @ y" by simp
  note sh = shape [OF w]
  consider (left) us where "pre = (x @ w) @ us"
    | (right) us where "x @ w = pre @ us" "us @ y = CHR ''$'' # d @ rest"
    using eq unfolding append_eq_append_conv2 by metis
  then show ?thesis
  proof cases
    case left
    with w show ?thesis unfolding infix_of_def by (metis append.assoc)
  next
    case right
    show ?thesis
    proof (cases "us = []")
      case True
      with right w show ?thesis unfolding infix_of_def by (metis append.right_neutral)
    next
      case False
      with right(2) obtain us' where us: "us = CHR ''$'' # us'" "us' @ y = d @ rest"
        by (cases us) auto
      from right(1) us(1) have "x @ w = (pre @ [CHR ''$'']) @ us'" by simp
      then obtain z where "x = (pre @ [CHR ''$'']) @ z \<and> z @ w = us' \<or>
          x @ z = pre @ [CHR ''$''] \<and> w = z @ us'"
        unfolding append_eq_append_conv2 by blast
      then show ?thesis
      proof
        assume "x = (pre @ [CHR ''$'']) @ z \<and> z @ w = us'"
        with us(2) have zw: "z @ (w @ y) = d @ rest" by auto
        then consider (a) v where "d = z @ v" "w @ y = v @ rest" | (b) v where "z = d @ v" "v @ w @ y = rest"
          by (auto simp: append_eq_append_conv2)
        then show ?thesis
        proof cases
          case a
          show ?thesis
          proof (cases v)
            case Nil
            with a w show ?thesis unfolding infix_of_def by (metis append_Nil)
          next
            case (Cons e v')
            with a sh have "e = CHR ''{''" by (cases w) auto
            with Cons a(1) d show ?thesis by auto
          qed
        next
          case b
          with w show ?thesis unfolding infix_of_def by blast
        qed
      next
        assume *: "x @ z = pre @ [CHR ''$''] \<and> w = z @ us'"
        then have "z = [] \<or> last z = CHR ''$''" by (metis last_appendR last_snoc)
        with * sh have "z = []" by (metis UnCI last_in_set set_append)
        with * us(2) have zw: "[] @ (w @ y) = d @ rest" by auto
        then consider (a) v where "d = v" "w @ y = v @ rest" by auto
        then show ?thesis
        proof cases
          case a
          show ?thesis
          proof (cases v)
            case Nil
            with a w show ?thesis unfolding infix_of_def by (metis append_Nil)
          next
            case (Cons e v')
            with a sh have "e = CHR ''{''" by (cases w) auto
            with Cons a(1) d show ?thesis by auto
          qed
        qed
      qed
    qed
  qed
qed

lemma digit_not_brace: "is_digit c \<Longrightarrow> c \<noteq> CHR ''{''"
  by (auto simp: is_digit_def)

lemma number_pieces_clean:
  assumes "\<And>w. w \<in> L \<Longrightarrow> w \<noteq> [] \<and> hd w = CHR ''{'' \<and> CHR ''$'' \<notin> set w"
  shows "\<forall>(pre, m, g) \<in> set cs. \<not> infix_of L pre \<Longrightarrow> \<not> infix_of L t \<Longrightarrow>
    \<not> infix_of L (number_pieces i cs t)"
proof (induction i cs t rule: number_pieces.induct)
  case (2 idx pre m g cs t)
  have "\<forall>c \<in> set (show_nat (Suc idx)). c \<noteq> CHR ''{''"
    using show_nat_digits digit_not_brace by blast
  from infix_split [OF assms this, where pre = pre and rest = "number_pieces (Suc idx) cs t"] 2
  show ?case by auto
qed simp

section \<open>The connector clean-up ends\<close>

definition no_form_feed :: "string \<Rightarrow> bool" where
  "no_form_feed s \<longleftrightarrow> CHR 0x0C \<notin> set s"

lemma lang_RLitI: "w \<in> lang (RLitI v) \<Longrightarrow> length w = length v \<and> map lower_char w = map lower_char v"
  by (induction v arbitrary: w) auto

lemma lang_RPlus_RSpace: "lang (RPlus RSpace) = {w. w \<noteq> [] \<and> (\<forall>c \<in> set w. is_rx_space c)}"
  by (simp add: RSpace_def)

lemma rx_space_blank: "is_rx_space c \<Longrightarrow> c \<noteq> CHR 0x0C \<Longrightarrow> is_blank c"
  by (auto simp: is_rx_space_def is_blank_def)

lemma lower_where_not_blank:
  assumes "map lower_char w = ''where''" "c \<in> set w"
  shows "\<not> is_blank c"
proof
  assume "is_blank c"
  then have "lower_char c = c" by (auto simp: is_blank_def)
  moreover have "lower_char c \<in> set ''where''" using assms by (metis image_eqI list.set_map)
  ultimately show False using \<open>is_blank c\<close> by (auto simp: is_blank_def)
qed

lemma conn_length: "c \<in> lang conn_re \<Longrightarrow> length c \<ge> 2"
proof -
  assume "c \<in> lang conn_re"
  then have "c \<in> lang (RLitI ''and'') \<or> c \<in> lang (RLitI ''or'')"
    unfolding conn_re_def lang.simps(4) by blast
  then have "length c = 3 \<or> length c = 2" by (metis lang_RLitI length_Cons list.size(3) numeral_2_eq_2 numeral_3_eq_3)
  then show ?thesis by auto
qed

lemma lang_RSeqs_WordB: "w \<in> lang (RSeqs (RWordB # rs)) \<longleftrightarrow> w \<in> lang (RSeqs rs)"
  by simp

lemma whereAnd_shape:
  assumes "m \<in> lang whereAndRe"
  shows "\<exists>w s c t. m = w @ s @ c @ t \<and> map lower_char w = ''where'' \<and> length c \<ge> 2
    \<and> s \<noteq> [] \<and> (\<forall>x \<in> set s. is_rx_space x) \<and> t \<noteq> []"
proof -
  from assms have "m \<in> lang (RSeqs [RLitI ''where'', RPlus RSpace, conn_re, RPlus RSpace])"
    unfolding whereAndRe_def lang_RSeqs_WordB
    unfolding lang_RSeqs_Cons [of _ "RLitI _"] lang_RSeqs_Cons [of _ "RPlus RSpace"]
      lang_RSeqs_Cons [of _ conn_re] lang_RSeqs_WordB .
  then obtain w s c t where "m = w @ s @ c @ t" "w \<in> lang (RLitI ''where'')"
    "s \<in> lang (RPlus RSpace)" "c \<in> lang conn_re" "t \<in> lang (RPlus RSpace)"
    unfolding lang_RSeqs_4 by blast
  moreover have "map lower_char w = ''where''" using lang_RLitI [OF calculation(2)] by simp
  moreover have "s \<noteq> []" "\<forall>x \<in> set s. is_rx_space x" "t \<noteq> []"
    using calculation(3,5) by (simp_all add: lang_RPlus_RSpace)
  moreover have "length c \<ge> 2" using calculation(4) by (rule conn_length)
  ultimately have "m = w @ s @ c @ t \<and> map lower_char w = ''where'' \<and> length c \<ge> 2
    \<and> s \<noteq> [] \<and> (\<forall>x \<in> set s. is_rx_space x) \<and> t \<noteq> []" by simp
  then show ?thesis by - (rule exI, rule exI, rule exI, rule exI)
qed

lemma whereAnd_shrinks:
  assumes "m \<in> lang whereAndRe" "no_form_feed m"
  shows "length (where_head m) < length m"
proof -
  from whereAnd_shape [OF assms(1)] obtain w s c t where m: "m = w @ s @ c @ t"
    "map lower_char w = ''where''" "length c \<ge> 2" "s \<noteq> []" "\<forall>x \<in> set s. is_rx_space x" "t \<noteq> []"
    by (elim exE conjE)
  then obtain x s' where s: "s = x # s'" by (cases s) auto
  with m(1,5) assms(2) have "is_blank x" by (auto simp: no_form_feed_def intro: rx_space_blank)
  then have "takeWhile (\<lambda>c. \<not> is_blank c) m = w"
    using m(1) s lower_where_not_blank [OF m(2)] by (simp add: takeWhile_append)
  with m s show ?thesis by (simp add: where_head_def)
qed

lemma trailing_group:
  assumes "rmatch trailingConnRe (b, a, Map.empty) (b', rest, g)"
  shows "\<exists>s c t w. a = s @ c @ t @ w @ rest \<and> b' = rev (s @ c @ t @ w) @ b \<and> g 1 = Some w
    \<and> s \<noteq> [] \<and> length c \<ge> 2 \<and> t \<noteq> []"
proof -
  have plain: "plain (RLitI v)" for v by (induction v) auto
  then have pc: "plain conn_re" "plain (RPlus RSpace)" by (simp_all add: conn_re_def RSpace_def)
  have words: "\<sigma> = \<tau> \<or> (\<exists>w. after \<sigma> = w @ after \<tau> \<and> before \<tau> = rev w @ before \<sigma>)"
    if "rmatch r \<sigma> \<tau>" for r \<sigma> \<tau>
    using rmatch_forward [OF that] by blast
  from assms obtain \<rho> where r: "rmatch (RPlus RSpace) (b, a, Map.empty) \<rho>"
    "rmatch (RSeqs [conn_re, RPlus RSpace, clause_or_end]) \<rho> (b', rest, g)"
    unfolding trailingConnRe_def RSeqs.simps rmatch_simps(3) by blast
  from r(1) obtain s u where s: "a = s @ u" "s \<in> lang (RPlus RSpace)" "\<rho> = (rev s @ b, u, Map.empty)"
    unfolding rmatch_plain [OF pc(2)] by blast
  from r(2) obtain \<rho>' where r': "rmatch conn_re \<rho> \<rho>'"
    "rmatch (RSeqs [RPlus RSpace, clause_or_end]) \<rho>' (b', rest, g)"
    unfolding RSeqs.simps rmatch_simps(3) by blast
  from r'(1) obtain c v where c: "u = c @ v" "c \<in> lang conn_re" "\<rho>' = (rev c @ rev s @ b, v, Map.empty)"
    unfolding s(3) rmatch_plain [OF pc(1)] by blast
  from r'(2) obtain \<rho>'' where r'': "rmatch (RPlus RSpace) \<rho>' \<rho>''"
    "rmatch (RSeqs [clause_or_end]) \<rho>'' (b', rest, g)"
    unfolding RSeqs.simps rmatch_simps(3) by blast
  from r''(1) obtain t x where t: "v = t @ x" "t \<in> lang (RPlus RSpace)"
    "\<rho>'' = (rev t @ rev c @ rev s @ b, x, Map.empty)"
    unfolding c(3) rmatch_plain [OF pc(2)] by blast
  from r''(2) have "rmatch clause_or_end (rev t @ rev c @ rev s @ b, x, Map.empty) (b', rest, g)"
    unfolding t(3) RSeqs.simps rmatch_simps(1,3) by blast
  then obtain h where h: "rmatch (RAlt
     (RSeqs [RWordB, RAlts [RLitI ''group'', RLitI ''order'', RLitI ''limit'', RLitI ''having''], RWordB])
     REnd) (rev t @ rev c @ rev s @ b, x, Map.empty) (b', rest, h)"
    and g: "g = h(1 \<mapsto> take (length x - length rest) x)"
    unfolding clause_or_end_def rmatch_simps(8) by auto
  from rmatch_forward [OF h] obtain w where w: "x = w @ rest" "b' = rev w @ rev t @ rev c @ rev s @ b"
    by auto
  have "g 1 = Some w" using g w(1) by simp
  moreover have "s \<noteq> []" "t \<noteq> []" using s(2) t(2) by (auto simp: lang_RPlus_RSpace)
  moreover have "length c \<ge> 2" using c(2) by (rule conn_length)
  moreover have "a = s @ c @ t @ w @ rest" using s(1) c(1) t(1) w(1) by simp
  moreover have "b' = rev (s @ c @ t @ w) @ b" using w(2) by simp
  ultimately show ?thesis by blast
qed

lemma trailing_chunk:
  assumes "(pre, m, g) \<in> set (fst (chunks trailingConnRe [] s))"
  shows "length ('' '' @ group g 1) < length m \<and> set (group g 1) \<subseteq> set m"
proof -
  from chunks_rmatch [OF assms] obtain c rest where
    "rmatch trailingConnRe (c, m @ rest, Map.empty) (rev m @ c, rest, g)" by blast
  from trailing_group [OF this] obtain x y z w where
    "m @ rest = x @ y @ z @ w @ rest" "g 1 = Some w" "x \<noteq> []" "length y \<ge> 2" "z \<noteq> []" by blast
  then have "m = x @ y @ z @ w" "g 1 = Some w" "length y \<ge> 2" "x \<noteq> []" by auto
  then show ?thesis by (auto simp: group_def)
qed

lemma where_pass:
  assumes "no_form_feed s"
  defines "s' \<equiv> ReplaceAllFunc whereAndRe (\<lambda>m g. where_head m) s"
  shows "(s' = s \<or> length s' < length s) \<and> no_form_feed s'"
proof
  have m: "no_form_feed m \<and> m \<in> lang whereAndRe" if "(pre, m, g) \<in> set (fst (chunks whereAndRe [] s))"
    for pre m g
  proof -
    from set_chunks(1) [OF that] assms(1) have "no_form_feed m" by (auto simp: no_form_feed_def)
    moreover from chunks_rmatch [OF that] obtain c rest where
      "rmatch whereAndRe (c, m @ rest, Map.empty) (rev m @ c, rest, g)" by blast
    then have "m \<in> lang whereAndRe" by (rule rmatch_lang_text)
    ultimately show ?thesis by simp
  qed
  then show "s' = s \<or> length s' < length s"
    unfolding s'_def by (intro ReplaceAllFunc_shrinks) (auto intro: whereAnd_shrinks)
  have "set s' \<subseteq> - {CHR 0x0C}"
    unfolding s'_def
  proof (rule set_ReplaceAllFunc)
    show "set (where_head m) \<subseteq> - {CHR 0x0C}"
      if "(pre, m, g) \<in> set (fst (chunks whereAndRe [] s))" for pre m g
      using m [OF that] by (auto simp: where_head_def no_form_feed_def dest: set_takeWhileD)
  qed (use assms(1) in \<open>auto simp: no_form_feed_def\<close>)
  then show "no_form_feed s'" by (auto simp: no_form_feed_def)
qed

lemma trailing_pass:
  assumes "no_form_feed s"
  defines "s' \<equiv> ReplaceAllFunc trailingConnRe (\<lambda>m g. '' '' @ group g 1) s"
  shows "(s' = s \<or> length s' < length s) \<and> no_form_feed s'"
proof
  show "s' = s \<or> length s' < length s"
    unfolding s'_def using trailing_chunk by (intro ReplaceAllFunc_shrinks) blast
  have "set s' \<subseteq> - {CHR 0x0C}"
    unfolding s'_def
  proof (rule set_ReplaceAllFunc)
    show "set ('' '' @ group g 1) \<subseteq> - {CHR 0x0C}"
      if "(pre, m, g) \<in> set (fst (chunks trailingConnRe [] s))" for pre m g
      using trailing_chunk [OF that] set_chunks(1) [OF that] assms(1) by (auto simp: no_form_feed_def)
  qed (use assms(1) in \<open>auto simp: no_form_feed_def\<close>)
  then show "no_form_feed s'" by (auto simp: no_form_feed_def)
qed

lemma clean_round_pass:
  assumes "no_form_feed s"
  shows "(clean_round s = s \<or> length (clean_round s) < length s) \<and> no_form_feed (clean_round s)"
  using where_pass [OF assms] trailing_pass [OF conjunct2 [OF where_pass [OF assms]]]
  unfolding clean_round_def by auto

lemma clean_loop_ends:
  "no_form_feed s \<Longrightarrow> \<exists>t. clean_loop s = Some t \<and> clean_round t = t \<and> length t \<le> length s"
proof (induction "length s" arbitrary: s rule: less_induct)
  case less
  show ?case
  proof (cases "clean_round s = s")
    case True
    then show ?thesis by (subst clean_loop.simps) simp
  next
    case False
    with clean_round_pass [OF less.prems] have "length (clean_round s) < length s"
      "no_form_feed (clean_round s)" by auto
    from less.hyps [OF this] this(1) False show ?thesis
      by (subst clean_loop.simps) (auto simp: Let_def)
  qed
qed

section \<open>Values do not reach the text\<close>

text \<open>What a rendering may depend on: which keys are present and which values are provided.\<close>

definition same_shape :: "(string \<times> json) list \<Rightarrow> (string \<times> json) list \<Rightarrow> bool" where
  "same_shape v v' \<longleftrightarrow>
     (\<forall>n. (map_of v n = None) = (map_of v' n = None) \<and> (provided v n = None) = (provided v' n = None))"

definition same_render :: "render \<Rightarrow> render \<Rightarrow> bool" where
  "same_render st st' \<longleftrightarrow> rn_out st = rn_out st' \<and> rn_missing st = rn_missing st'
     \<and> length (rn_args st) = length (rn_args st')"

lemma same_render_add_missing:
  "same_render st st' \<Longrightarrow> same_render (add_missing n st) (add_missing n st')"
  by (auto simp: same_render_def add_missing_def)

lemma render_token_same:
  assumes "same_shape v v'" "same_render st st'"
  shows "same_render (fst (render_token num v pre g rest st)) (fst (render_token num' v' pre g rest st'))
    \<and> snd (render_token num v pre g rest st) = snd (render_token num' v' pre g rest st')"
proof -
  let ?n = "group g 2"
  have k: "map_of v ?n = None \<longleftrightarrow> map_of v' ?n = None" "provided v ?n = None \<longleftrightarrow> provided v' ?n = None"
    using assms(1) by (simp_all add: same_shape_def)
  have o: "rn_out st = rn_out st'" using assms(2) by (simp add: same_render_def)
  define s1 s1' where s1: "s1 = st\<lparr>rn_out := rn_out st @ pre\<rparr>" "s1' = st'\<lparr>rn_out := rn_out st' @ pre\<rparr>"
  have same: "same_render s1 s1'" using assms(2) by (auto simp: same_render_def s1)
  then have o1: "rn_out s1 = rn_out s1'" and l: "length (rn_args s1) = length (rn_args s1')"
    and mi: "rn_missing s1 = rn_missing s1'" by (simp_all add: same_render_def)
  have val: "same_render (fst (render_value num v r ?n c rest s1)) (fst (render_value num' v' r ?n c rest s1'))
     \<and> snd (render_value num v r ?n c rest s1) = snd (render_value num' v' r ?n c rest s1')" for r c
    using k(2) o1 l mi same_render_add_missing [OF same]
    by (cases "provided v ?n"; cases "provided v' ?n")
      (auto simp: render_value_def same_render_def Let_def)
  have ident: "same_render (fst (render_identifier v r ?n rest s1)) (fst (render_identifier v' r ?n rest s1'))
     \<and> snd (render_identifier v r ?n rest s1) = snd (render_identifier v' r ?n rest s1')" for r
    using k(1) o1 l mi same_render_add_missing [OF same]
    by (auto simp: render_identifier_def same_render_def Let_def)
  show ?thesis
    using val ident o1 unfolding render_token_def Let_def s1 by simp
qed

lemma render_loop_same:
  assumes "same_shape v v'"
  shows "same_render st st' \<Longrightarrow> same_render (render_loop num v p st) (render_loop num' v' p st')"
  using assms
proof (induction num v p st arbitrary: st' rule: render_loop.induct)
  case (1 num v p st)
  obtain ps t where p: "p = (ps, t)" by (cases p)
  show ?case
  proof (cases ps)
    case Nil
    with p "1.prems" show ?thesis by (subst (1 2) render_loop.simps) (auto simp: same_render_def)
  next
    case (Cons c cs)
    obtain pre m g where c: "c = (pre, m, g)" by (cases c)
    obtain s n where sn: "render_token num v pre g (cs, t) st = (s, n)" by fastforce
    obtain s' n' where sn': "render_token num' v' pre g (cs, t) st' = (s', n')" by fastforce
    from render_token_same [OF "1.prems"(2,1), of num pre g "(cs, t)" num'] sn sn'
    have "same_render s s'" "n = n'" by simp_all
    with "1.IH" [OF p [symmetric] Cons c [symmetric] refl sn [symmetric], of s'] "1.prems"(2) p Cons c sn sn'
    show ?thesis by (subst (1 2) render_loop.simps) simp
  qed
qed

section \<open>The row cap\<close>

lemma show_int_digits: "0 \<le> n \<Longrightarrow> show_int n \<noteq> [] \<and> (\<forall>c \<in> set (show_int n). is_digit c)"
  using show_nat_digits by (auto simp: show_int_def)

lemma digit_not_stmt_end: "is_digit c \<Longrightarrow> \<not> is_stmt_end c"
  by (auto simp: is_digit_def is_stmt_end_def)

lemma trim_right_last: "s \<noteq> [] \<Longrightarrow> \<not> p (last s) \<Longrightarrow> trim_right p s = s"
  by (cases s rule: rev_cases) (auto simp: trim_right_def)

lemma limit_matches:
  assumes "d \<noteq> []" "\<forall>c \<in> set d. is_digit c"
  shows "MatchString hasLimitRe (t @ newline @ ''LIMIT '' @ d)"
proof -
  let ?b = "CHR 0x0A # rev t"
  have m1: "rmatch RWordB (?b, ''LIMIT '' @ d, Map.empty) (?b, ''LIMIT '' @ d, Map.empty)"
    by (simp add: rmatch_simps word_boundary_def head_is_def is_word_char_def)
  have m2: "rmatch (RLitI ''limit'') (?b, ''LIMIT '' @ d, Map.empty)
      (rev ''LIMIT'' @ ?b, '' '' @ d, Map.empty)"
    by (simp add: rmatch_simps)
  have m3: "rmatch (RPlus RSpace) (rev ''LIMIT'' @ ?b, '' '' @ d, Map.empty)
      ('' '' @ rev ''LIMIT'' @ ?b, d, Map.empty)"
    unfolding RSpace_def rmatch_RPlus_RCls
    by (rule exI [of _ "'' ''"], rule exI [of _ d]) (simp add: is_rx_space_def)
  have m4: "rmatch (RPlus (RCls is_digit)) ('' '' @ rev ''LIMIT'' @ ?b, d, Map.empty)
      (rev d @ '' '' @ rev ''LIMIT'' @ ?b, [], Map.empty)"
    unfolding rmatch_RPlus_RCls using assms by (auto intro: exI [of _ d])
  have "rmatch hasLimitRe (?b, ''LIMIT '' @ d, Map.empty)
      (rev d @ '' '' @ rev ''LIMIT'' @ ?b, [], Map.empty)"
    unfolding hasLimitRe_def RSeqs.simps by (rule m_seq [OF m1 m_seq [OF m2 m_seq [OF m3 m_seq [OF m4 m_eps]]]])
  moreover have "rev (t @ newline) = ?b" by (simp add: newline_def)
  moreover have "t @ newline @ ''LIMIT '' @ d = (t @ newline) @ (''LIMIT '' @ d)" by simp
  ultimately show ?thesis unfolding MatchString_iff by metis
qed

section \<open>Parsed parameters\<close>

lemma add_sys_param_names:
  "map sp_Name (add_sys_param out p) =
     (if sp_Name p \<in> sp_Name ` set out then map sp_Name out else map sp_Name out @ [sp_Name p])"
proof (cases "find_index (\<lambda>q. sp_Name q = sp_Name p) out")
  case None
  then have "sp_Name p \<notin> sp_Name ` set out" by (auto simp: find_index_None)
  with None show ?thesis by (simp add: add_sys_param_def)
next
  case (Some i)
  then have "i < length out" "sp_Name (out ! i) = sp_Name p" by (auto dest: find_index_Some)
  then have "sp_Name p \<in> sp_Name ` set out" by (metis image_eqI nth_mem)
  moreover have "map sp_Name (out[i := (out ! i)\<lparr>sp_Required := True\<rparr>]) = map sp_Name out"
    using \<open>i < length out\<close> by (simp add: map_update list_update_same_conv)
  ultimately show ?thesis using Some by (simp add: add_sys_param_def)
qed

definition params_inv :: "SysParam list \<Rightarrow> SysParam list \<Rightarrow> bool" where
  "params_inv toks out \<longleftrightarrow> distinct (map sp_Name out) \<and> sp_Name ` set out = sp_Name ` set toks
     \<and> (\<forall>p \<in> set out. sp_Required p \<longleftrightarrow> (\<exists>q \<in> set toks. sp_Name q = sp_Name p \<and> sp_Required q))"

lemma add_sys_param_inv:
  assumes inv: "params_inv toks out"
  shows "params_inv (toks @ [p]) (add_sys_param out p)"
proof (cases "find_index (\<lambda>q. sp_Name q = sp_Name p) out")
  case None
  then have "sp_Name p \<notin> sp_Name ` set out" by (auto simp: find_index_None)
  with None inv show ?thesis
    by (auto simp: params_inv_def add_sys_param_def) (metis image_eqI)
next
  case (Some i)
  then have i: "i < length out" "sp_Name (out ! i) = sp_Name p" by (auto dest: find_index_Some)
  have names: "map sp_Name (add_sys_param out p) = map sp_Name out"
    using add_sys_param_names [of out p] i by (metis image_eqI nth_mem)
  have mem: "q \<in> set (add_sys_param out p) \<Longrightarrow>
      \<exists>q0 \<in> set out. sp_Name q = sp_Name q0 \<and>
        (sp_Required q \<longleftrightarrow> sp_Required q0 \<or> sp_Name q0 = sp_Name p \<and> sp_Required p)" for q
  proof -
    assume "q \<in> set (add_sys_param out p)"
    then obtain j where j: "j < length out" "q = add_sys_param out p ! j"
      using arg_cong [OF names, of length] by (auto simp: in_set_conv_nth)
    have "sp_Name (out ! j) = sp_Name p \<longleftrightarrow> j = i"
      using inv nth_eq_iff_index_eq [of "map sp_Name out" j i] i j(1)
      unfolding params_inv_def by simp
    then show ?thesis using Some j i
      by (intro bexI [of _ "out ! j"]) (auto simp: add_sys_param_def nth_list_update)
  qed
  show ?thesis
    unfolding params_inv_def
  proof (intro conjI ballI)
    show "distinct (map sp_Name (add_sys_param out p))" using names inv by (simp add: params_inv_def)
    have "sp_Name ` set (add_sys_param out p) = sp_Name ` set out"
      using arg_cong [OF names, of set] by simp
    moreover have "sp_Name p \<in> sp_Name ` set toks"
      using i inv unfolding params_inv_def by (metis image_eqI nth_mem)
    ultimately show "sp_Name ` set (add_sys_param out p) = sp_Name ` set (toks @ [p])"
      using inv by (auto simp: params_inv_def)
  next
    fix q assume "q \<in> set (add_sys_param out p)"
    from mem [OF this] obtain q0 where q0: "q0 \<in> set out" "sp_Name q = sp_Name q0"
      "sp_Required q \<longleftrightarrow> sp_Required q0 \<or> sp_Name q0 = sp_Name p \<and> sp_Required p" by blast
    with inv show "sp_Required q \<longleftrightarrow> (\<exists>x \<in> set (toks @ [p]). sp_Name x = sp_Name q \<and> sp_Required x)"
      unfolding params_inv_def by auto
  qed
qed

lemma foldl_params_inv: "params_inv pre out \<Longrightarrow> params_inv (pre @ toks) (foldl add_sys_param out toks)"
proof (induction toks arbitrary: pre out)
  case (Cons p toks)
  from Cons.IH [OF add_sys_param_inv [OF Cons.prems, of p]] show ?case by simp
qed simp

section \<open>Properties\<close>



text \<open>comment stripping does not know string literals: after a literal that starts with two
  dashes the rest of the line is never screened, so any text at all, with statements of its own,
  passes \<open>RejectDDL\<close> there (dollar signs and line ends excepted).\<close>

theorem reject_ddl_misses_text_after_dashes_in_a_literal:
  assumes "CHR 0x0A \<notin> set t" "CHR ''$'' \<notin> set t"
  shows "RejectDDL (''select '' @ [CHR 0x27] @ ''--'' @ t) = None"
proof -
  let ?s = "''select '' @ [CHR 0x27] @ ''--'' @ t"
  have len: "length ?s = 10 + length t" by simp
  have tw: "takeWhile (\<lambda>c. \<not> is_nl c) t = t" "dropWhile (\<lambda>c. \<not> is_nl c) t = []"
    using assms(1) by (auto simp: is_nl_def takeWhile_eq_all_conv)
  have run: "\<exists>xs. runs lineCommentRe (b, ''--'' @ t, Map.empty) = (rev t @ rev ''--'' @ b, [], Map.empty) # xs"
    for b
    using star_greedy_cls [of t "length t" "\<lambda>c. \<not> is_nl c" "rev ''--'' @ b" Map.empty] tw
    by (auto simp: lineCommentRe_def)
  have no: "runs lineCommentRe (b, c # a, g) = []" if "c \<noteq> CHR ''-''" for b c a g
    using that by (simp add: lineCommentRe_def)
  obtain b where fm: "find_match lineCommentRe [] ?s = Some (b, ''--'' @ t, [], Map.empty)"
    using run [of "rev (''select '' @ [CHR 0x27])"] by (auto simp: no)
  have "chunks lineCommentRe (rev (''--'' @ t) @ b) [] = ([], [])"
    by (subst chunks.simps) (simp add: lineCommentRe_def)
  then have "chunks lineCommentRe [] ?s = ([(''select '' @ [CHR 0x27], ''--'' @ t, Map.empty)], [])"
    using fm by (subst chunks.simps) simp
  then have "ReplaceAllString lineCommentRe '' '' ?s = ''select '' @ [CHR 0x27] @ '' ''"
    by (simp add: ReplaceAllString_def ReplaceAllFunc_def)
  moreover have "ReplaceAllString blockCommentRe '' '' (''select '' @ [CHR 0x27] @ '' '')
      = ''select '' @ [CHR 0x27] @ '' ''" by code_simp
  ultimately have strip: "strip_comments ?s = ''select '' @ [CHR 0x27] @ '' ''"
    by (simp add: strip_comments_def)
  have "\<not> MatchString dollarQuoteRe ?s"
  proof
    assume "MatchString dollarQuoteRe ?s"
    then obtain x tag y where "?s = x @ (''$'' @ tag @ ''$'') @ y"
      unfolding dollar_match infix_of_def by blast
    then have "CHR ''$'' \<in> set ?s" by (metis UnCI append_Cons list.set_intros(1) set_append)
    then show False using assms(2) by simp
  qed
  moreover have "find (\<lambda>w. MatchString (RWord w) (''select '' @ [CHR 0x27] @ '' '')) banned = None"
    "find (\<lambda>(r, n). MatchString r (''select '' @ [CHR 0x27] @ '' '')) forbidden = None"
    "\<not> contains_str (trim_right is_stmt_end (''select '' @ [CHR 0x27] @ '' '')) '';''" by code_simp+
  moreover have "to_lower (''select '' @ [CHR 0x27] @ '' '') = ''select '' @ [CHR 0x27] @ '' ''"
    by code_simp
  ultimately show ?thesis unfolding RejectDDL_def strip Let_def by simp
qed

theorem reject_ddl_misses_text_after_dashes_in_a_literal_witness:
  "RejectDDL (''select '' @ [CHR 0x27] @ ''--'' @ CHR 0x27 # ''; drop table T'') = None"
  by (rule reject_ddl_misses_text_after_dashes_in_a_literal) code_simp+

text \<open>substitution is complete: the rewritten text holds no placeholder any more (an inserted
  positional parameter can not complete one), every name it returns is an identifier, and a
  text without placeholders is returned unchanged.\<close>

theorem substitution_leaves_no_placeholder:
  "\<not> MatchString placeholderRe (fst (SubstitutePlaceholders sql))
   \<and> (\<not> MatchString placeholderRe sql \<longrightarrow> SubstitutePlaceholders sql = (sql, []))"
proof
  obtain cs t where cs: "chunks placeholderRe [] sql = (cs, t)" by fastforce
  have "[] \<notin> lang placeholderRe" using placeholder_shape by blast
  from chunks_gaps [OF anchor_free_placeholder this, of "[]" sql] cs
  have "\<forall>(pre, m, g) \<in> set cs. \<not> infix_of (lang placeholderRe) pre" "\<not> infix_of (lang placeholderRe) t"
    by auto
  from number_pieces_clean [OF placeholder_shape this]
  show "\<not> MatchString placeholderRe (fst (SubstitutePlaceholders sql))"
    unfolding MatchString_anchor_free [OF anchor_free_placeholder]
    by (simp add: SubstitutePlaceholders_def cs)
  show "\<not> MatchString placeholderRe sql \<longrightarrow> SubstitutePlaceholders sql = (sql, [])"
    by (cases "find_match placeholderRe [] sql")
      (simp_all add: SubstitutePlaceholders_def MatchString_def chunks.simps [of placeholderRe "[]" sql])
qed

theorem substitution_leaves_no_placeholder_witness:
  "SubstitutePlaceholders ''a = {{ x }} or b = {{x}}'' = (''a = $1 or b = $2'', [''x'', ''x''])
   \<and> SubstitutePlaceholders ''a = {x}'' = (''a = {x}'', [])"
proof -
  have "\<not> MatchString placeholderRe ''a = {x}''"
    "SubstitutePlaceholders ''a = {{ x }} or b = {{x}}'' = (''a = $1 or b = $2'', [''x'', ''x''])"
    by code_simp+
  with substitution_leaves_no_placeholder [of "''a = {x}''"] show ?thesis by blast
qed

text \<open>the row cap is idempotent, and a text without a LIMIT comes out with one.\<close>

theorem row_cap_idempotent:
  assumes "0 \<le> n" "0 \<le> k"
  shows "MaybeInjectLimit (MaybeInjectLimit s n) k = MaybeInjectLimit s n
    \<and> MatchString hasLimitRe (trim_right is_stmt_end (MaybeInjectLimit s n))"
proof -
  let ?t = "trim_right is_stmt_end s"
  show ?thesis
  proof (cases "MatchString hasLimitRe ?t")
    case True
    then show ?thesis by (simp add: MaybeInjectLimit_def)
  next
    case False
    let ?o = "?t @ newline @ ''LIMIT '' @ show_int n"
    note d = show_int_digits [OF assms(1)]
    then have "\<not> is_stmt_end (last ?o)" by (simp add: digit_not_stmt_end)
    then have o: "trim_right is_stmt_end ?o = ?o" by (intro trim_right_last) simp_all
    have m: "MatchString hasLimitRe ?o" using d by (intro limit_matches) simp_all
    have "MaybeInjectLimit ?o k = ?o"
      unfolding MaybeInjectLimit_def [of ?o k] Let_def o if_P [OF m] ..
    moreover have "MaybeInjectLimit s n = ?o" using False by (simp add: MaybeInjectLimit_def)
    ultimately show ?thesis using o m by simp
  qed
qed

theorem row_cap_idempotent_witness:
  "MaybeInjectLimit (MaybeInjectLimit ''select 1; '' 10) 20 = MaybeInjectLimit ''select 1; '' 10"
  using row_cap_idempotent [of 10 20 "''select 1; ''"] by simp

text \<open>the derived parameter list has each name once, holds exactly the names of the tokens,
  and a parameter is required exactly when some token with its name is a \<open>req\<close> token.\<close>

theorem parsed_params_are_the_tokens:
  "let toks = map (\<lambda>(m, g). (group g 2, group g 1 = ''req'')) (FindAllSubmatch sysParamRe sql);
       out = ParseSysParams sql
   in distinct (map sp_Name out) \<and> sp_Name ` set out = fst ` set toks
      \<and> (\<forall>p \<in> set out. sp_Required p \<longleftrightarrow> (sp_Name p, True) \<in> set toks)"
proof -
  define T where "T = map (\<lambda>(m, g). \<lparr>sp_Name = group g 2, sp_Required = (group g 1 = ''req'')\<rparr>)
         (FindAllSubmatch sysParamRe sql)"
  have "params_inv [] []" by (simp add: params_inv_def)
  from foldl_params_inv [OF this, of T] have inv: "params_inv T (ParseSysParams sql)"
    by (simp add: ParseSysParams_def T_def)
  have toks: "map (\<lambda>(m, g). (group g 2, group g 1 = ''req'')) (FindAllSubmatch sysParamRe sql)
      = map (\<lambda>p. (sp_Name p, sp_Required p)) T" by (simp add: T_def comp_def split_def)
  have names: "fst ` set (map (\<lambda>p. (sp_Name p, sp_Required p)) T) = sp_Name ` set T"
    by (simp add: image_image)
  have req: "(n, True) \<in> set (map (\<lambda>p. (sp_Name p, sp_Required p)) T) \<longleftrightarrow>
      (\<exists>q \<in> set T. sp_Name q = n \<and> sp_Required q)" for n by force
  show ?thesis
    using inv unfolding params_inv_def Let_def toks names req by simp
qed

theorem parsed_params_are_the_tokens_witness:
  "distinct (map sp_Name (ParseSysParams ''{sys.opt.A} {sys.req.B} {sys.req.A}''))
   \<and> map sp_Required (ParseSysParams ''{sys.opt.A} {sys.req.B} {sys.req.A}'') = [True, True]"
proof -
  have "map sp_Required (ParseSysParams ''{sys.opt.A} {sys.req.B} {sys.req.A}'') = [True, True]"
    by code_simp
  with parsed_params_are_the_tokens [of "''{sys.opt.A} {sys.req.B} {sys.req.A}''"]
  show ?thesis by (simp add: Let_def)
qed

text \<open>C28: no value reaches the SQL text: two value maps with the same keys and the same provided
  names give the same rendered text and missing names, and as many arguments, whatever the
  values are and however they are printed.\<close>

theorem rendered_sql_is_independent_of_values:
  assumes "\<And>n. (map_of v n = None) = (map_of v' n = None)"
    and "\<And>n. (provided v n = None) = (provided v' n = None)"
  shows "map_option (\<lambda>(r, a, m). (r, length a, m)) (RenderSysParams num sql v)
    = map_option (\<lambda>(r, a, m). (r, length a, m)) (RenderSysParams num' sql v')"
proof -
  have "same_shape v v'" using assms by (simp add: same_shape_def)
  from render_loop_same [OF this, of "\<lparr>rn_out = [], rn_args = [], rn_missing = []\<rparr>"
      "\<lparr>rn_out = [], rn_args = [], rn_missing = []\<rparr>" num "chunks sysParamRe [] sql" num']
  show ?thesis
    by (auto simp: RenderSysParams_def same_render_def Let_def split: option.splits)
qed

theorem rendered_sql_is_independent_of_values_witness:
  "map_option (\<lambda>(r, a, m). (r, length a, m))
     (RenderSysParams (\<lambda>_. []) ''select x from T where a = {sys.opt.A}'' [(''A'', JStr ''1'')])
   = map_option (\<lambda>(r, a, m). (r, length a, m))
     (RenderSysParams (\<lambda>_. []) ''select x from T where a = {sys.opt.A}''
        [(''A'', JStr (CHR 0x27 # ''; drop table T''))])"
  by (rule rendered_sql_is_independent_of_values) (auto simp: provided_def)

text \<open>the clean-up of dangling connectors ends on every text without form feeds, at a fixpoint
  of its round that is no longer than the text.\<close>

theorem connector_cleanup_terminates:
  assumes "CHR 0x0C \<notin> set s"
  shows "\<exists>t. clean_loop s = Some t \<and> clean_round t = t \<and> length t \<le> length s
    \<and> cleanDanglingConnectors s \<noteq> None"
  using clean_loop_ends [of s] assms by (auto simp: no_form_feed_def cleanDanglingConnectors_def)

theorem connector_cleanup_terminates_witness:
  "cleanDanglingConnectors ''select x from T where  and '' \<noteq> None"
proof -
  have "CHR 0x0C \<notin> set ''select x from T where  and ''" by simp
  from connector_cleanup_terminates [OF this] show ?thesis by blast
qed

end
