(* ===== verification/Parse_Metric.thy ===== *)
theory Parse_Metric
  imports Sql_Rewrite
begin

text \<open>
  \<open>pkg/sqlrewrite/parse_metric.go\<close>: the decomposition of a bare metric
  (\<open>select ... from "OD" ... group by ...\<close>) into its object, its one aggregate and its
  dimensions. Clause keywords and commas are found at parenthesis depth 0 only; the depth may
  go below zero, as in the code.
\<close>

definition aggFuncs :: "string list" where
  "aggFuncs = [''sum'', ''avg'', ''min'', ''max'', ''count'', ''distinct_count'', ''distinctcount'']"

definition clauseKws :: "string list" where
  "clauseKws = [''select'', ''from'', ''where'', ''group by'', ''having'', ''order by'', ''limit'']"

datatype metric_error =
    EmptySQL
  | NotASelect
  | MissingSelect
  | MissingFrom
  | JoinInFrom
  | NestedFrom
  | NoObject
  | ManyObjects "string list"
  | EmptySelectList
  | BadColumn string
  | NoAggregate
  | ManyAggregates "string list"
  | MissingGroupBy "string list"
  | NotGrouped string

definition stripSQLComments :: "string \<Rightarrow> string" where
  "stripSQLComments s = strip_comments s"

text \<open>\<open>isIdentByte\<close> is the class of word bytes.\<close>

definition isIdentByte :: "char \<Rightarrow> bool" where
  "isIdentByte c \<longleftrightarrow> is_word_char c"

record mark =
  mk_kw :: string
  mk_start :: nat
  mk_end :: nat

definition kw_at :: "string \<Rightarrow> nat \<Rightarrow> string \<Rightarrow> bool" where
  "kw_at lower i kw \<longleftrightarrow>
     i + length kw \<le> length lower \<and> take (length kw) (drop i lower) = kw
     \<and> (i = 0 \<or> \<not> isIdentByte (lower ! (i - 1)))
     \<and> (i + length kw = length lower \<or> \<not> isIdentByte (lower ! (i + length kw)))"

lemma clauseKws_progress:
  "find P clauseKws = Some kw \<Longrightarrow> \<not> length (s :: string) \<le> i \<Longrightarrow>
     length s - (i + length kw) < length s - i"
  by (auto simp: clauseKws_def split: if_splits)

function scan_marks :: "string \<Rightarrow> nat \<Rightarrow> int \<Rightarrow> mark list" where
  "scan_marks lower i depth =
     (if length lower \<le> i then []
      else if lower ! i = CHR ''('' then scan_marks lower (Suc i) (depth + 1)
      else if lower ! i = CHR '')'' then scan_marks lower (Suc i) (depth - 1)
      else case (if depth = 0 then find (kw_at lower i) clauseKws else None) of
             Some kw \<Rightarrow>
               \<lparr>mk_kw = kw, mk_start = i, mk_end = i + length kw\<rparr>
                 # scan_marks lower (i + length kw) depth
           | None \<Rightarrow> scan_marks lower (Suc i) depth)"
  by pat_completeness auto
termination
  by (relation "measure (\<lambda>(lower, i, depth). length lower - i)")
    (auto split: if_splits intro: clauseKws_progress)

declare scan_marks.simps [simp del]

text \<open>The body of a clause runs to the next mark; a repeated keyword overwrites the map.\<close>

fun clause_bodies :: "string \<Rightarrow> mark list \<Rightarrow> (string \<rightharpoonup> string) \<Rightarrow> (string \<rightharpoonup> string)" where
  "clause_bodies sql [] out = out"
| "clause_bodies sql [m] out = out(mk_kw m \<mapsto> trim_space (drop (mk_end m) sql))"
| "clause_bodies sql (m # n # ms) out =
     clause_bodies sql (n # ms)
       (out(mk_kw m \<mapsto> trim_space (take (mk_start n - mk_end m) (drop (mk_end m) sql))))"

definition splitTopLevelClauses :: "string \<Rightarrow> metric_error + (string \<rightharpoonup> string)" where
  "splitTopLevelClauses sql =
     (let marks = scan_marks (to_lower sql) 0 0
      in if marks = [] \<or> mk_kw (hd marks) \<noteq> ''select'' then Inl NotASelect
         else Inr (clause_bodies sql marks Map.empty))"

text \<open>The loop carries the current item; the last item is kept only when it is not empty.\<close>

fun split_commas :: "int \<Rightarrow> string \<Rightarrow> string \<Rightarrow> string list" where
  "split_commas depth cur [] = (if cur = [] then [] else [cur])"
| "split_commas depth cur (c # s) =
     (if c = CHR ''('' then split_commas (depth + 1) (cur @ [c]) s
      else if c = CHR '')'' then split_commas (depth - 1) (cur @ [c]) s
      else if c = CHR '','' \<and> depth = 0 then cur # split_commas depth [] s
      else split_commas depth (cur @ [c]) s)"

definition splitTopLevelCommas :: "string \<Rightarrow> string list" where
  "splitTopLevelCommas s = split_commas 0 [] s"

definition aggCallRe :: regex where
  "aggCallRe = RSeqs [RBegin, RGrp 1 RIdent, RStar RSpace, RLit ''('']"

definition overRe :: regex where
  "overRe = RSeqs [RWordB, RLitI ''over'', RStar RSpace, RLit ''('']"

definition isAggregateExpr :: "string \<Rightarrow> bool" where
  "isAggregateExpr expr =
     (case find_match aggCallRe [] (trim_space expr) of
        None \<Rightarrow> False
      | Some (b, m, rest, g) \<Rightarrow>
          to_lower (group g 1) \<in> set aggFuncs \<and> \<not> MatchString overRe expr)"

definition aliasName :: regex where
  "aliasName = RGrp 2 (RSeqs [ROpt (RLit [dq]), RIdent, ROpt (RLit [dq])])"

definition selectAliasTightRe :: regex where
  "selectAliasTightRe = RSeqs
     [RBegin, RGrp 1 (RSeq (RPlusLazy RAny) (RCls (\<lambda>c. c = CHR '')'' \<or> c = dq))), RStar RSpace,
      RLitI ''as'', RPlus RSpace, aliasName, RStar RSpace, REnd]"

definition selectAliasLooseRe :: regex where
  "selectAliasLooseRe = RSeqs
     [RBegin, RGrp 1 (RPlusLazy RAny), RPlus RSpace, RLitI ''as'', RPlus RSpace, aliasName,
      RStar RSpace, REnd]"

definition trim_dq :: "string \<Rightarrow> string" where
  "trim_dq s = trim_right (\<lambda>c. c = dq) (trim_left (\<lambda>c. c = dq) s)"

definition stripSelectAlias :: "string \<Rightarrow> string \<times> string" where
  "stripSelectAlias item =
     (let s = trim_space item
      in case find_match selectAliasTightRe [] s of
           Some (b, m, rest, g) \<Rightarrow> (trim_space (group g 1), trim_dq (group g 2))
         | None \<Rightarrow>
           (case find_match selectAliasLooseRe [] s of
              Some (b, m, rest, g) \<Rightarrow> (trim_space (group g 1), trim_dq (group g 2))
            | None \<Rightarrow> (s, [])))"

definition stripQuotedIdent :: "string \<Rightarrow> string" where
  "stripQuotedIdent s0 =
     (let s = trim_space s0
      in if 2 \<le> length s \<and> hd s = dq \<and> last s = dq
         then replace_all (butlast (tl s)) [dq, dq] [dq] else s)"

text \<open>The classification loop over the select items.\<close>

fun classify :: "string list \<Rightarrow> string list \<Rightarrow> string list \<Rightarrow> metric_error + (string list \<times> string list)"
where
  "classify [] aggregates dims = Inr (aggregates, dims)"
| "classify (raw # items) aggregates dims =
     (let itemTrim = trim_space raw; body = fst (stripSelectAlias itemTrim)
      in if isAggregateExpr body then classify items (aggregates @ [itemTrim]) dims
         else
           let d = stripQuotedIdent body
           in if d = [] then Inl (BadColumn raw) else classify items aggregates (dims @ [d]))"

definition group_by_set :: "string \<Rightarrow> string list" where
  "group_by_set gbText =
     map (\<lambda>g. to_lower (stripQuotedIdent (trim_space g))) (splitTopLevelCommas gbText)"

definition check_group_by :: "string list \<Rightarrow> string option \<Rightarrow> metric_error option" where
  "check_group_by dims gb =
     (case gb of
        None \<Rightarrow> if dims \<noteq> [] then Some (MissingGroupBy dims) else None
      | Some gbText \<Rightarrow>
          map_option NotGrouped (find (\<lambda>d. to_lower d \<notin> set (group_by_set gbText)) dims))"

definition joinRe :: regex where "joinRe = RSeqs [RWordB, RLitI ''join'', RWordB]"

definition normalize_sql :: "string \<Rightarrow> string" where
  "normalize_sql rawSQL =
     trim_space (trim_right (\<lambda>c. c = CHR '';'')
       (ReplaceAllString (RPlus RSpace) '' '' (stripSQLComments rawSQL)))"

definition ParseBareMetricSQL :: "string \<Rightarrow> metric_error + (string \<times> string \<times> string list)" where
  "ParseBareMetricSQL rawSQL =
     (let sqlText = normalize_sql rawSQL
      in if sqlText = [] then Inl EmptySQL
         else case splitTopLevelClauses sqlText of
           Inl e \<Rightarrow> Inl e
         | Inr clauses \<Rightarrow>
           (case clauses ''select'' of
              None \<Rightarrow> Inl MissingSelect
            | Some selectText \<Rightarrow>
              (case clauses ''from'' of
                 None \<Rightarrow> Inl MissingFrom
               | Some fromText \<Rightarrow>
                   if MatchString joinRe fromText then Inl JoinInFrom
                   else if contains_str fromText ''('' then Inl NestedFrom
                   else
                     (case ExtractReferencedNames sqlText of
                        [] \<Rightarrow> Inl NoObject
                      | primaryOD # others \<Rightarrow>
                          if others \<noteq> [] then Inl (ManyObjects (primaryOD # others))
                          else
                            let items = splitTopLevelCommas selectText
                            in if items = [] then Inl EmptySelectList
                               else case classify items [] [] of
                                 Inl e \<Rightarrow> Inl e
                               | Inr (aggregates, dims) \<Rightarrow>
                                   (case aggregates of
                                      [] \<Rightarrow> Inl NoAggregate
                                    | msr # rest \<Rightarrow>
                                        if rest \<noteq> [] then Inl (ManyAggregates aggregates)
                                        else case check_group_by dims (clauses ''group by'') of
                                               Some e \<Rightarrow> Inl e
                                             | None \<Rightarrow> Inr (primaryOD, msr, dims))))))"

section \<open>Lemmas\<close>

text \<open>The aggregates and the dimensions are the select items, in order, split by their kind.\<close>

definition item_body :: "string \<Rightarrow> string" where
  "item_body raw = fst (stripSelectAlias (trim_space raw))"

lemma classify_Inr:
  "classify items as ds = Inr (as', ds') \<Longrightarrow>
     as' = as @ map trim_space (filter (\<lambda>r. isAggregateExpr (item_body r)) items)
     \<and> ds' = ds @ map (stripQuotedIdent \<circ> item_body) (filter (\<lambda>r. \<not> isAggregateExpr (item_body r)) items)
     \<and> (\<forall>r \<in> set items. \<not> isAggregateExpr (item_body r) \<longrightarrow> stripQuotedIdent (item_body r) \<noteq> [])"
proof (induction items as ds rule: classify.induct)
  case (2 raw items aggregates dims)
  show ?case
  proof (cases "isAggregateExpr (item_body raw)")
    case True
    with "2.prems" have "classify items (aggregates @ [trim_space raw]) dims = Inr (as', ds')"
      by (simp add: item_body_def Let_def)
    with "2.IH"(1) [OF refl refl] True show ?thesis by (simp add: item_body_def)
  next
    case False
    with "2.prems" have "stripQuotedIdent (item_body raw) \<noteq> []"
      "classify items aggregates (dims @ [stripQuotedIdent (item_body raw)]) = Inr (as', ds')"
      by (simp_all add: item_body_def Let_def split: if_splits)
    with "2.IH"(2) [OF refl refl _ refl] False show ?thesis by (simp add: item_body_def)
  qed
qed simp

lemma check_group_by_None:
  "check_group_by ds gb = None \<longleftrightarrow>
     (case gb of None \<Rightarrow> ds = [] | Some t \<Rightarrow> \<forall>d \<in> set ds. to_lower d \<in> set (group_by_set t))"
  by (auto simp: check_group_by_def find_None_iff split: option.splits)

text \<open>Joining the items with commas gives the text back, up to one trailing comma.\<close>

lemma split_commas_join:
  "join_str '','' (split_commas d cur s) = cur @ s
   \<or> (\<exists>t. cur @ s = t @ '','' \<and> join_str '','' (split_commas d cur s) = t)"
proof (induction d cur s rule: split_commas.induct)
  case (2 depth cur c s)
  show ?case
  proof (cases "c = CHR '','' \<and> depth = 0")
    case False
    with 2 show ?thesis by auto
  next
    case True
    then have IH: "join_str '','' (split_commas depth [] s) = s
        \<or> (\<exists>t. s = t @ '','' \<and> join_str '','' (split_commas depth [] s) = t)"
      using "2.IH"(3) by auto
    show ?thesis
    proof (cases "split_commas depth [] s")
      case Nil
      with IH have "s = [] \<or> s = '',''" by auto
      moreover have "split_commas depth [] '','' = [[]]" using True by simp
      ultimately show ?thesis using True Nil by auto
    next
      case (Cons x xs)
      then have "join_str '','' (split_commas depth cur (c # s))
          = cur @ '','' @ join_str '','' (split_commas depth [] s)" using True by simp
      with IH True show ?thesis by auto
    qed
  qed
qed auto

section \<open>Properties\<close>

text \<open>what a successful parse returns: the only object the normalised text names, the one
  select item that is an aggregate call, and the columns of all other select items in order,
  none of them blank and all of them listed, up to case, in GROUP BY.\<close>

theorem parsed_metric_is_well_formed:
  assumes "ParseBareMetricSQL raw = Inr (od, msr, dims)"
  shows "\<exists>clauses selectText. splitTopLevelClauses (normalize_sql raw) = Inr clauses
    \<and> clauses ''select'' = Some selectText
    \<and> ExtractReferencedNames (normalize_sql raw) = [od]
    \<and> map trim_space (filter (\<lambda>r. isAggregateExpr (item_body r)) (splitTopLevelCommas selectText))
        = [msr]
    \<and> map (stripQuotedIdent \<circ> item_body)
         (filter (\<lambda>r. \<not> isAggregateExpr (item_body r)) (splitTopLevelCommas selectText)) = dims
    \<and> [] \<notin> set dims
    \<and> (dims \<noteq> [] \<longrightarrow> (\<exists>gb. clauses ''group by'' = Some gb
         \<and> (\<forall>d \<in> set dims. to_lower d \<in> set (group_by_set gb))))"
proof -
  from assms obtain clauses selectText as where
    c: "splitTopLevelClauses (normalize_sql raw) = Inr clauses" "clauses ''select'' = Some selectText"
    and r: "ExtractReferencedNames (normalize_sql raw) = [od]"
    and k: "classify (splitTopLevelCommas selectText) [] [] = Inr (as, dims)" "as = [msr]"
    and g: "check_group_by dims (clauses ''group by'') = None"
    by (auto simp: ParseBareMetricSQL_def Let_def split: if_splits sum.splits option.splits list.splits)
  note cl = classify_Inr [OF k(1)]
  from g have "dims \<noteq> [] \<longrightarrow> (\<exists>gb. clauses ''group by'' = Some gb
         \<and> (\<forall>d \<in> set dims. to_lower d \<in> set (group_by_set gb)))"
    unfolding check_group_by_None by (cases "clauses ''group by''") auto
  moreover have "[] \<notin> set dims" using cl by auto
  ultimately show ?thesis using c r cl k(2) by auto
qed

theorem parsed_metric_is_well_formed_witness:
  "ParseBareMetricSQL (''select '' @ [dq] @ ''T'' @ [dq] @ '', sum(q) as n from O group by T'')
     = Inr (''O'', ''sum(q) as n'', [''T''])
   \<and> ExtractReferencedNames (normalize_sql
       (''select '' @ [dq] @ ''T'' @ [dq] @ '', sum(q) as n from O group by T'')) = [''O'']"
proof -
  have p: "ParseBareMetricSQL (''select '' @ [dq] @ ''T'' @ [dq] @ '', sum(q) as n from O group by T'')
     = Inr (''O'', ''sum(q) as n'', [''T''])" by code_simp
  with parsed_metric_is_well_formed [OF p] show ?thesis by blast
qed

text \<open>splitting a list at its top-level commas loses nothing: joined with commas again the
  items give the text, except that one trailing comma is dropped.\<close>

theorem split_items_join_back:
  "join_str '','' (splitTopLevelCommas s) = s
   \<or> join_str '','' (splitTopLevelCommas s) @ '','' = s"
  using split_commas_join [of 0 "[]" s] by (auto simp: splitTopLevelCommas_def)

end
