(* ===== verification/Go_Format.thy ===== *)
theory Go_Format
  imports Regex
begin

text \<open>
  The parts of \<open>strconv\<close> and \<open>fmt\<close> the query services rely on: \<open>strconv.Atoi\<close>, the shortest
  decimal forms of a float (\<open>FormatFloat(v, 'f', -1)\<close> and the verb \<open>%g\<close>), and the verb \<open>%v\<close> on a
  decoded JSON value. A JSON number is kept as the rational its literal denotes; the digits
  printed are those of that rational, which is what Go prints for literals of at most 15
  significant digits (longer literals are rounded to a float64 first, which is outside the
  model). A finite decimal with denominator \<open>q\<close> has fewer than \<open>q\<close> digits after the point, so
  \<open>q\<close> is enough fuel for the digit loop.
\<close>

section \<open>Integers\<close>

definition int64_min :: int where "int64_min = - (2 ^ 63)"
definition int64_max :: int where "int64_max = 2 ^ 63 - 1"

definition digit_val :: "char \<Rightarrow> int" where
  "digit_val c = of_char c - 48"

definition digits_val :: "string \<Rightarrow> int" where
  "digits_val s = foldl (\<lambda>acc c. 10 * acc + digit_val c) 0 s"

text \<open>\<open>strconv.Atoi\<close> on a 64-bit platform: an optional sign, digits, and a range check.\<close>

definition atoi :: "string \<Rightarrow> int option" where
  "atoi s =
     (let neg = has_prefix s ''-'';
          body = (if neg \<or> has_prefix s ''+'' then tl s else s);
          n = (if neg then - digits_val body else digits_val body)
      in if body = [] \<or> \<not> list_all is_digit body then None
         else if int64_min \<le> n \<and> n \<le> int64_max then Some n else None)"

text \<open>
  The conversion \<open>int64(v)\<close> of a float truncates toward zero; out of range the result is the
  minimal integer (as on amd64; the Go specification leaves it open).
\<close>

definition trunc :: "rat \<Rightarrow> int" where
  "trunc r = (if 0 \<le> r then floor r else - floor (- r))"

definition float_to_int :: "rat \<Rightarrow> int" where
  "float_to_int r =
     (if int64_min \<le> trunc r \<and> trunc r \<le> int64_max then trunc r else int64_min)"

section \<open>Floats\<close>

lemma digit_chars [simp]:
  "char_of (48::nat) = CHR ''0''" "char_of (49::nat) = CHR ''1''" "char_of (50::nat) = CHR ''2''"
  "char_of (51::nat) = CHR ''3''" "char_of (52::nat) = CHR ''4''" "char_of (53::nat) = CHR ''5''"
  "char_of (54::nat) = CHR ''6''" "char_of (55::nat) = CHR ''7''" "char_of (56::nat) = CHR ''8''"
  "char_of (57::nat) = CHR ''9''"
  by (simp_all add: char_of_def bit_iff_odd)

function frac_digits :: "nat \<Rightarrow> int \<Rightarrow> int \<Rightarrow> string" where
  "frac_digits k p q =
     (if k = 0 \<or> p = 0 then []
      else char_of (48 + nat (10 * p div q)) # frac_digits (k - 1) (10 * p mod q) q)"
  by pat_completeness auto
termination by (relation "measure (\<lambda>(k, p, q). k)") auto

declare frac_digits.simps [simp del]

text \<open>Integer part and fractional digits of a non-negative rational.\<close>

definition dec_parts :: "rat \<Rightarrow> nat \<times> string" where
  "dec_parts r = (case quotient_of r of (p, q) \<Rightarrow> (nat (p div q), frac_digits (nat q) (p mod q) q))"

definition sign_str :: "rat \<Rightarrow> string" where
  "sign_str r = (if r < 0 then ''-'' else [])"

definition with_point :: "string \<Rightarrow> string \<Rightarrow> string" where
  "with_point ip fs = (if fs = [] then ip else ip @ ''.'' @ fs)"

definition show_f :: "rat \<Rightarrow> string" where
  "show_f r = (case dec_parts \<bar>r\<bar> of (ip, fs) \<Rightarrow> sign_str r @ with_point (show_nat ip) fs)"

definition strip_zeros :: "string \<Rightarrow> string" where
  "strip_zeros s = trim_right (\<lambda>c. c = CHR ''0'') s"

definition show_exp :: "int \<Rightarrow> string" where
  "show_exp e =
     (let d = show_nat (nat \<bar>e\<bar>)
      in ''e'' @ (if e < 0 then ''-'' else ''+'') @ (if length d < 2 then ''0'' @ d else d))"

text \<open>
  \<open>%g\<close> with the shortest precision: the exponent form is used for exponents below -4 and from
  6 on (\<open>fmt.Sprintf("%g", 2000000.0)\<close> is \<open>2e+06\<close>).
\<close>

definition show_g :: "rat \<Rightarrow> string" where
  "show_g r =
     (if r = 0 then ''0''
      else case dec_parts \<bar>r\<bar> of (ip, fs) \<Rightarrow>
        let ds = (if 0 < ip then show_nat ip @ fs else dropWhile (\<lambda>c. c = CHR ''0'') fs);
            e = (if 0 < ip then int (length (show_nat ip)) - 1
                 else - int (length (takeWhile (\<lambda>c. c = CHR ''0'') fs)) - 1);
            m = strip_zeros ds
        in if e < -4 \<or> 6 \<le> e
           then sign_str r @ with_point (take 1 m) (drop 1 m) @ show_exp e
           else show_f r)"

section \<open>The verb %v\<close>

text \<open>The entries of a map are printed in the order of their keys.\<close>

fun fmt_v :: "json \<Rightarrow> string" where
  "fmt_v JNull = ''<nil>''"
| "fmt_v (JBool b) = (if b then ''true'' else ''false'')"
| "fmt_v (JNum r) = show_g r"
| "fmt_v (JStr s) = s"
| "fmt_v (JArr xs) = ''['' @ join_str '' '' (map fmt_v xs) @ '']''"
| "fmt_v (JObj kvs) =
     ''map['' @ join_str '' ''
       (map (\<lambda>(k, s). k @ '':'' @ s) (sort_key fst (map (\<lambda>(k, v). (k, fmt_v v)) kvs))) @ '']''"

section \<open>Type assertions on a decoded JSON value\<close>

definition as_str :: "json option \<Rightarrow> string option" where
  "as_str v = (case v of Some (JStr s) \<Rightarrow> Some s | _ \<Rightarrow> None)"

definition as_num :: "json option \<Rightarrow> rat option" where
  "as_num v = (case v of Some (JNum r) \<Rightarrow> Some r | _ \<Rightarrow> None)"

definition as_bool :: "json option \<Rightarrow> bool option" where
  "as_bool v = (case v of Some (JBool b) \<Rightarrow> Some b | _ \<Rightarrow> None)"

definition as_arr :: "json option \<Rightarrow> json list option" where
  "as_arr v = (case v of Some (JArr xs) \<Rightarrow> Some xs | _ \<Rightarrow> None)"

definition as_obj :: "json option \<Rightarrow> (string \<times> json) list option" where
  "as_obj v = (case v of Some (JObj kvs) \<Rightarrow> Some kvs | _ \<Rightarrow> None)"

text \<open>\<open>s, _ := v.(T)\<close>: the zero value when the assertion fails.\<close>

definition str_or_empty :: "json option \<Rightarrow> string" where
  "str_or_empty v = (case as_str v of Some s \<Rightarrow> s | None \<Rightarrow> [])"

definition bool_or_false :: "json option \<Rightarrow> bool" where
  "bool_or_false v = (case as_bool v of Some b \<Rightarrow> b | None \<Rightarrow> False)"

lemma str_or_empty_simps [simp]:
  "str_or_empty None = []" "str_or_empty (Some (JStr s)) = s" "str_or_empty (Some (JNum r)) = []"
  by (simp_all add: str_or_empty_def as_str_def)

end
