(* ===== verification/Query_Types.thy ===== *)
theory Query_Types
  imports Go_Format
begin

text \<open>
  The query DTOs of \<open>pkg/contracts\<close> (a \<open>QuerySpec\<close> as the language model fills it, its filters,
  the metric-intent hint and the intent parameters) and the canonical key of a property token
  (\<open>smartquery/resolve.go\<close>), on which every "already there?" test of the query passes rests.
  The text of an error message is not modelled; the code of a \<open>ResolveError\<close> and the list of
  problems it carries are.
\<close>

section \<open>Data\<close>

record FilterItem =
  fi_prop :: string
  fi_op :: string
  fi_value :: string
  fi_fuzzy :: bool

record OrderByItem =
  ob_prop :: string
  ob_dir :: string

record DerivedMetricDef =
  dm_name :: string
  dm_expression :: string
  dm_baseTable :: string

record MetricFilter =
  mf_op :: string
  mf_value :: string

record IntentHint =
  ih_intentID :: string
  ih_name :: string
  ih_canonicalMetric :: string
  ih_canonicalFilters :: "FilterItem list"
  ih_autoGroupBy :: "string list"
  ih_replaceGroupBy :: bool
  ih_addShareColumnSafe :: bool
  ih_defaultOrderByLabel :: string
  ih_defaultOrderByDir :: string
  ih_defaultLimit :: int

text \<open>\<open>ip_default\<close> is \<open>JNull\<close> for a nil default; \<open>ip_allowed\<close> is \<open>None\<close> for a nil slice.\<close>

record IntentParameter =
  ip_name :: string
  ip_type :: string
  ip_property :: string
  ip_op :: string
  ip_default :: json
  ip_optional :: bool
  ip_description :: string
  ip_fuzzy :: bool
  ip_allowed :: "string list option"

record QuerySpec =
  q_projectID :: string
  q_objects :: "string list"
  q_metric :: string
  q_groupBy :: "string list"
  q_filters :: "FilterItem list"
  q_orderBy :: "OrderByItem list"
  q_limit :: int
  q_derived :: "DerivedMetricDef list"
  q_metricFilter :: "MetricFilter option"
  q_displayMode :: string
  q_denseGroups :: "bool option"
  q_addShareColumn :: bool
  q_shareLabel :: string
  q_intentHint :: "IntentHint option"

definition empty_spec :: QuerySpec where
  "empty_spec = \<lparr>q_projectID = [], q_objects = [], q_metric = [], q_groupBy = [], q_filters = [],
     q_orderBy = [], q_limit = 0, q_derived = [], q_metricFilter = None, q_displayMode = [],
     q_denseGroups = None, q_addShareColumn = False, q_shareLabel = [], q_intentHint = None\<rparr>"

definition empty_hint :: IntentHint where
  "empty_hint = \<lparr>ih_intentID = [], ih_name = [], ih_canonicalMetric = [], ih_canonicalFilters = [],
     ih_autoGroupBy = [], ih_replaceGroupBy = False, ih_addShareColumnSafe = False,
     ih_defaultOrderByLabel = [], ih_defaultOrderByDir = [], ih_defaultLimit = 0\<rparr>"

text \<open>
  One entry of a problem list, with the values its text is made from; \<open>SingleMessage c\<close> is the
  message of an error with code \<open>c\<close> that carries no list. The detail of a parameter error names
  the parameter (\<open>re_name\<close>).
\<close>

datatype problem =
    LimitNegative int
  | GroupByBlank nat
  | OrderByNoProp nat
  | OrderByBadDir nat string
  | FilterNoProp nat
  | FilterNoOp nat string
  | FilterBadOp nat string string
  | MetricFilterBadOp string
  | MetricFilterBadValue string
  | SingleMessage string

record ResolveError =
  re_code :: string
  re_name :: string
  re_errors :: "problem list"

section \<open>Property tokens\<close>

definition stripObjectPrefix :: "string \<Rightarrow> string \<times> string" where
  "stripObjectPrefix token =
     (case split_first CHR ''.'' token of Some (obj, prop) \<Rightarrow> (obj, prop) | None \<Rightarrow> ([], token))"

text \<open>The suffixes, with the five bracketed CJK characters by their UTF-8 bytes.\<close>

definition suffixEntries :: "(string \<times> string \<times> string) list" where
  "suffixEntries =
     [([CHR ''('', CHR 0xE6, CHR 0x9C, CHR 0x88, CHR '')''], ''YYYY-MM'', ''Month''),
      ([CHR ''('', CHR 0xE5, CHR 0xB9, CHR 0xB4, CHR '')''], ''YYYY'', ''Year''),
      ([CHR ''('', CHR 0xE6, CHR 0x97, CHR 0xA5, CHR '')''], ''YYYY-MM-DD'', ''Day''),
      ([CHR ''('', CHR 0xE5, CHR 0xAD, CHR 0xA3, CHR '')''], ''YYYY-Q'', ''Quarter''),
      ([CHR ''('', CHR 0xE5, CHR 0x91, CHR 0xA8, CHR '')''], ''YYYY-WW'', ''Week''),
      ('':month'', ''YYYY-MM'', ''Month''),
      ('':year'', ''YYYY'', ''Year''),
      ('':day'', ''YYYY-MM-DD'', ''Day''),
      ('':quarter'', ''YYYY-Q'', ''Quarter''),
      ('':week'', ''YYYY-WW'', ''Week''),
      ('':hour'', ''YYYY-MM-DD HH'', ''Hour''),
      (''_month'', ''YYYY-MM'', ''Month''),
      (''_year'', ''YYYY'', ''Year''),
      (''_day'', ''YYYY-MM-DD'', ''Day''),
      (''_quarter'', ''YYYY-Q'', ''Quarter''),
      (''_week'', ''YYYY-WW'', ''Week'')]"

fun strip_suffix :: "(string \<times> string \<times> string) list \<Rightarrow> string \<Rightarrow> string \<times> string \<times> string" where
  "strip_suffix [] name = (name, [], name)"
| "strip_suffix ((suffix, fmt, label) # es) name =
     (if has_suffix (to_lower name) suffix
      then let clean = take (length name - length suffix) name
           in (clean, fmt, clean @ ''_'' @ label)
      else strip_suffix es name)"

definition stripDateGranularity :: "string \<Rightarrow> string \<times> string \<times> string" where
  "stripDateGranularity name = strip_suffix suffixEntries name"

definition CanonicalPropKey :: "string \<Rightarrow> string" where
  "CanonicalPropKey token =
     (if token = [] then []
      else let prop = snd (stripObjectPrefix token);
               prop = (if prop = [] then token else prop)
           in to_lower (trim_space (fst (stripDateGranularity prop))))"

definition aggWrappers :: "string list" where
  "aggWrappers = [''sum('', ''count('', ''avg('', ''average('', ''max('', ''min('', ''distinctcount('']"

fun strip_wrapper :: "string list \<Rightarrow> string \<Rightarrow> string" where
  "strip_wrapper [] s = s"
| "strip_wrapper (fn # fns) s =
     (if has_prefix (to_lower s) fn \<and> has_suffix s '')''
      then trim_space (take (length s - 1 - length fn) (drop (length fn) s))
      else strip_wrapper fns s)"

definition stripAggWrapper :: "string \<Rightarrow> string" where
  "stripAggWrapper s = strip_wrapper aggWrappers (trim_space s)"

end
