(* ===== verification/Query_Passes.thy ===== *)
theory Query_Passes
  imports Query_Types
begin

text \<open>
  The spec-level passes of \<open>smartquery\<close>: the only sanctioned way to extend a group-by list
  (\<open>engine.go\<close>), the application of a metric-intent hint (\<open>intent_hint.go\<close>) and the pipeline
  with its two gates (\<open>pipeline.go\<close>). A pass takes the spec and returns it updated together
  with its error; the change records of \<open>applyIntentHint\<close> are kept as data.
\<close>

section \<open>The group-by list\<close>

definition HasGroupBy :: "QuerySpec \<Rightarrow> string \<Rightarrow> bool" where
  "HasGroupBy s token =
     (let key = CanonicalPropKey token
      in if key = [] then False
         else list_ex (\<lambda>g. CanonicalPropKey g = key) (q_groupBy s))"

text \<open>The update of the list; the returned flag tells whether the token was appended.\<close>

definition append_token :: "string list \<Rightarrow> string \<Rightarrow> string list \<times> bool" where
  "append_token gs token =
     (let token = trim_space token in
      if token = [] then (gs, False)
      else let key = CanonicalPropKey token in
        if key = [] then (gs, False)
        else if list_ex (\<lambda>g. CanonicalPropKey g = key) gs then (gs, False)
        else (gs @ [token], True))"

definition AppendGroupBy :: "QuerySpec \<Rightarrow> string \<Rightarrow> QuerySpec \<times> bool" where
  "AppendGroupBy s token =
     (case append_token (q_groupBy s) token of (gs, added) \<Rightarrow> (s\<lparr>q_groupBy := gs\<rparr>, added))"

section \<open>Applying an intent hint\<close>

definition isEqualityOp :: "string \<Rightarrow> bool" where
  "isEqualityOp op = (to_lower (trim_space op) \<in> set ['''', ''='', ''=='', ''ilike'', ''in''])"

definition normMetric :: "string \<Rightarrow> string" where
  "normMetric s = filter (\<lambda>c. \<not> (c = CHR '' '' \<or> c = CHR 0x09)) (to_lower s)"

definition filter_key :: "FilterItem \<Rightarrow> string" where
  "filter_key f = CanonicalPropKey (fi_prop f)"

text \<open>What a change record tells, one constructor for each message.\<close>

datatype intent_change =
    MetricOverride string string
  | FiltersMerged "FilterItem list"
  | DefaultOrderBySet string string
  | DefaultLimitSet int
  | ReplaceStripped "FilterItem list"
  | GroupByReplaced "string list" "string list"
  | GroupByInjected "string list" "string list"
  | FiltersStripped "FilterItem list"

definition stripEqualityFiltersOn ::
  "QuerySpec \<Rightarrow> string list \<Rightarrow> QuerySpec \<times> FilterItem list" where
  "stripEqualityFiltersOn s keys =
     (if q_filters s = [] \<or> keys = [] then (s, [])
      else let hit = (\<lambda>f. filter_key f \<in> set keys \<and> isEqualityOp (fi_op f))
           in (s\<lparr>q_filters := filter (\<lambda>f. \<not> hit f) (q_filters s)\<rparr>, filter hit (q_filters s)))"

text \<open>Step 1: the metric override.\<close>

definition hint_metric :: "IntentHint \<Rightarrow> QuerySpec \<Rightarrow> QuerySpec \<times> intent_change list" where
  "hint_metric h s =
     (if ih_canonicalMetric h \<noteq> [] \<and> normMetric (q_metric s) \<noteq> normMetric (ih_canonicalMetric h)
      then (s\<lparr>q_metric := ih_canonicalMetric h\<rparr>, [MetricOverride (q_metric s) (ih_canonicalMetric h)])
      else (s, []))"

text \<open>Step 2: canonical filters whose key is not there yet; \<open>existing\<close> is the set of seen keys.\<close>

fun merge_loop ::
  "FilterItem list \<Rightarrow> FilterItem list \<Rightarrow> string list \<Rightarrow> FilterItem list
     \<Rightarrow> FilterItem list \<times> FilterItem list" where
  "merge_loop [] fs existing added = (fs, added)"
| "merge_loop (cf # cfs) fs existing added =
     (if filter_key cf \<in> set existing then merge_loop cfs fs existing added
      else merge_loop cfs (fs @ [cf]) (filter_key cf # existing) (added @ [cf]))"

definition hint_filters :: "IntentHint \<Rightarrow> QuerySpec \<Rightarrow> QuerySpec \<times> intent_change list" where
  "hint_filters h s =
     (case merge_loop (ih_canonicalFilters h) (q_filters s) (map filter_key (q_filters s)) [] of
        (fs, added) \<Rightarrow> (s\<lparr>q_filters := fs\<rparr>, if added = [] then [] else [FiltersMerged added]))"

text \<open>Steps 6 and 7 (numbered as in the code): the default order and the default limit.\<close>

definition hint_orderBy :: "IntentHint \<Rightarrow> QuerySpec \<Rightarrow> QuerySpec \<times> intent_change list" where
  "hint_orderBy h s =
     (if q_orderBy s = [] \<and> ih_defaultOrderByLabel h \<noteq> []
      then let dir = (if ih_defaultOrderByDir h \<noteq> ''ASC'' \<and> ih_defaultOrderByDir h \<noteq> ''DESC''
                      then ''DESC'' else ih_defaultOrderByDir h)
           in (s\<lparr>q_orderBy := q_orderBy s @ [\<lparr>ob_prop = ih_defaultOrderByLabel h, ob_dir = dir\<rparr>]\<rparr>,
               [DefaultOrderBySet (ih_defaultOrderByLabel h) dir])
      else (s, []))"

definition hint_limit :: "IntentHint \<Rightarrow> QuerySpec \<Rightarrow> QuerySpec \<times> intent_change list" where
  "hint_limit h s =
     (if 0 < ih_defaultLimit h \<and> (q_limit s \<le> 0 \<or> 1000 \<le> q_limit s)
      then (s\<lparr>q_limit := ih_defaultLimit h\<rparr>, [DefaultLimitSet (ih_defaultLimit h)])
      else (s, []))"

text \<open>Step 2 of the group-by rules: replace the list.\<close>

definition hint_replace :: "IntentHint \<Rightarrow> QuerySpec \<Rightarrow> QuerySpec \<times> intent_change list" where
  "hint_replace h s =
     (case stripEqualityFiltersOn s (map CanonicalPropKey (ih_autoGroupBy h)) of
        (s1, dropped) \<Rightarrow>
          let s2 = foldl (\<lambda>t g. fst (AppendGroupBy t g)) (s1\<lparr>q_groupBy := []\<rparr>) (ih_autoGroupBy h)
          in (s2, (if dropped = [] then [] else [ReplaceStripped dropped])
                  @ [GroupByReplaced (q_groupBy s) (q_groupBy s2)]))"

text \<open>Step 3: each property is moved out of an equality filter, injected, or skipped.\<close>

record injection =
  inj_strip :: "string list"
  inj_move :: "string list"
  inj_fresh :: "string list"

definition classify_canonical :: "IntentHint \<Rightarrow> QuerySpec \<Rightarrow> injection \<Rightarrow> string \<Rightarrow> injection" where
  "classify_canonical h s st g =
     (if HasGroupBy s g then st
      else let k = CanonicalPropKey g in
        if k \<in> filter_key ` set (filter (\<lambda>f. isEqualityOp (fi_op f)) (q_filters s))
        then st\<lparr>inj_strip := inj_strip st @ [k], inj_move := inj_move st @ [g]\<rparr>
        else if \<not> q_addShareColumn s \<or> ih_addShareColumnSafe h
        then st\<lparr>inj_fresh := inj_fresh st @ [g]\<rparr>
        else st)"

definition hint_inject :: "IntentHint \<Rightarrow> QuerySpec \<Rightarrow> QuerySpec \<times> intent_change list" where
  "hint_inject h s =
     (let st = foldl (classify_canonical h s) \<lparr>inj_strip = [], inj_move = [], inj_fresh = []\<rparr> (ih_autoGroupBy h);
          injected = inj_move st @ inj_fresh st;
          (s1, ch1) =
            (if injected = [] then (s, [])
             else (s\<lparr>q_groupBy := injected
                      @ filter (\<lambda>g. CanonicalPropKey g \<notin> set (map CanonicalPropKey injected))
                          (q_groupBy s)\<rparr>,
                   [GroupByInjected (inj_move st) (inj_fresh st)]));
          (s2, dropped) =
            (if inj_strip st = [] then (s1, []) else stripEqualityFiltersOn s1 (inj_strip st))
      in (s2, ch1 @ (if dropped = [] then [] else [FiltersStripped dropped])))"

fun applyIntentHint :: "QuerySpec \<Rightarrow> IntentHint option \<Rightarrow> QuerySpec \<times> intent_change list" where
  "applyIntentHint s None = (s, [])"
| "applyIntentHint s (Some h) =
     (let (s1, c1) = hint_metric h s;
          (s2, c2) = hint_filters h s1;
          (s3, c3) = hint_orderBy h s2;
          (s4, c4) = hint_limit h s3;
          (s5, c5) = (if ih_autoGroupBy h = [] then (s4, [])
                      else if ih_replaceGroupBy h then hint_replace h s4
                      else hint_inject h s4)
      in (s5, c1 @ c2 @ c3 @ c4 @ c5))"

declare applyIntentHint.simps(2) [simp del]

section \<open>The pipeline\<close>

type_synonym pass = "QuerySpec \<Rightarrow> QuerySpec \<times> ResolveError option"

text \<open>The wrapped error of a pipeline names the position of the failing pass.\<close>

datatype pipeline_error = PassFailed nat ResolveError

fun run_from :: "nat \<Rightarrow> pass list \<Rightarrow> QuerySpec \<Rightarrow> QuerySpec \<times> pipeline_error option" where
  "run_from i [] s = (s, None)"
| "run_from i (p # ps) s =
     (case p s of
        (s', Some e) \<Rightarrow> (s', Some (PassFailed i e))
      | (s', None) \<Rightarrow> run_from (Suc i) ps s')"

definition Run :: "pass list \<Rightarrow> QuerySpec \<Rightarrow> QuerySpec \<times> pipeline_error option" where
  "Run ps s = run_from 0 ps s"

definition PassApplyIntentHint :: pass where
  "PassApplyIntentHint s = (fst (applyIntentHint s (q_intentHint s)), None)"

definition PassGateMetricOrGroupBy :: pass where
  "PassGateMetricOrGroupBy s =
     (if q_metric s \<noteq> [] \<or> q_groupBy s \<noteq> [] then (s, None)
      else (s, Some \<lparr>re_code = ''MISSING_METRIC_OR_GROUPBY'', re_name = [], re_errors = []\<rparr>))"

definition validOpSet :: "string list" where
  "validOpSet =
     [''='', ''<>'', ''>'', ''>='', ''<'', ''<='', ''contains'', ''not contains'', ''starts with'',
      ''ends with'', ''like'', ''in'', ''not in'', ''is blank'', ''is not blank'', ''between'',
      ''regex'']"

definition metricFilterOpSet :: "string list" where
  "metricFilterOpSet = [''>'', ''>='', ''<'', ''<='', ''='', ''<>'']"

text \<open>The pattern for numeric literals; its only group is never read and is left out.\<close>

definition metricFilterValueRe :: regex where
  "metricFilterValueRe =
     RSeqs [RBegin,
       RSeqs [ROpt (RLit ''-''), RPlus (RCls is_digit),
         ROpt (RSeq (RLit ''.'') (RPlus (RCls is_digit)))],
       REnd]"

definition groupBy_problems :: "QuerySpec \<Rightarrow> problem list" where
  "groupBy_problems s =
     concat (map (\<lambda>(i, g). if trim_space g = [] then [GroupByBlank i] else [])
       (enumerate 0 (q_groupBy s)))"

definition orderBy_problem :: "nat \<Rightarrow> OrderByItem \<Rightarrow> problem list" where
  "orderBy_problem i ob =
     (if trim_space (ob_prop ob) = [] then [OrderByNoProp i]
      else let dir = to_upper (trim_space (ob_dir ob))
           in if dir \<noteq> ''ASC'' \<and> dir \<noteq> ''DESC'' then [OrderByBadDir i (ob_dir ob)] else [])"

definition filter_problem :: "nat \<Rightarrow> FilterItem \<Rightarrow> problem list" where
  "filter_problem i f =
     (if trim_space (fi_prop f) = [] then [FilterNoProp i]
      else let op = trim_space (fi_op f) in
        if op = [] then [FilterNoOp i (fi_prop f)]
        else if op \<notin> set validOpSet then [FilterBadOp i (fi_prop f) (fi_op f)] else [])"

definition metricFilter_problems :: "MetricFilter option \<Rightarrow> problem list" where
  "metricFilter_problems m =
     (case m of None \<Rightarrow> []
      | Some mf \<Rightarrow>
          (if trim_space (mf_op mf) \<notin> set metricFilterOpSet then [MetricFilterBadOp (mf_op mf)] else [])
          @ (if \<not> MatchString metricFilterValueRe (trim_space (mf_value mf))
             then [MetricFilterBadValue (mf_value mf)] else []))"

definition spec_problems :: "QuerySpec \<Rightarrow> problem list" where
  "spec_problems s =
     (if q_limit s < 0 then [LimitNegative (q_limit s)] else [])
     @ groupBy_problems s
     @ concat (map (\<lambda>(i, ob). orderBy_problem i ob) (enumerate 0 (q_orderBy s)))
     @ concat (map (\<lambda>(i, f). filter_problem i f) (enumerate 0 (q_filters s)))
     @ metricFilter_problems (q_metricFilter s)"

definition PassValidateSpec :: pass where
  "PassValidateSpec s =
     (let problems = spec_problems s
      in if problems = [] then (s, None)
         else (s, Some \<lparr>re_code = ''SPEC_VALIDATION_FAILED'', re_name = [], re_errors = problems\<rparr>))"

definition DefaultPipeline :: "pass list" where
  "DefaultPipeline = [PassApplyIntentHint, PassGateMetricOrGroupBy, PassValidateSpec]"

end
