(* ===== verification/Query_Params.thy ===== *)
theory Query_Params
  imports Query_Passes
begin

text \<open>
  Binding the parameters of an intent (\<open>intent_params.go\<close>) and the dry run that decides whether
  an intent record may be saved (\<open>intent_validate.go\<close>). Raw values are decoded JSON; a Go map
  is an association list. When several given names are unknown, the code reports any of them
  (map iteration order); the model reports the first of the list.
\<close>

section \<open>Coercions\<close>

definition coerceInt :: "json \<Rightarrow> int option" where
  "coerceInt raw =
     (case raw of
        JNum r \<Rightarrow> if of_int (float_to_int r) \<noteq> r then None else Some (float_to_int r)
      | JStr s \<Rightarrow> atoi s
      | _ \<Rightarrow> None)"

definition coerceString :: "json \<Rightarrow> string option" where
  "coerceString raw =
     (case raw of
        JStr s \<Rightarrow> Some s
      | JBool b \<Rightarrow> Some (if b then ''true'' else ''false'')
      | JNum r \<Rightarrow> Some (if of_int (float_to_int r) = r then show_int (float_to_int r) else show_f r)
      | _ \<Rightarrow> None)"

definition paramNames :: "IntentParameter list \<Rightarrow> string list" where
  "paramNames ps = map ip_name ps"

section \<open>Binding\<close>

definition param_error :: "string \<Rightarrow> string \<Rightarrow> ResolveError" where
  "param_error code name = \<lparr>re_code = code, re_name = name, re_errors = []\<rparr>"

definition param_op :: "IntentParameter \<Rightarrow> string" where
  "param_op p = (if ip_op p = [] then ''='' else ip_op p)"

definition param_filter :: "IntentParameter \<Rightarrow> string \<Rightarrow> FilterItem" where
  "param_filter p v =
     \<lparr>fi_prop = ip_property p, fi_op = param_op p, fi_value = v, fi_fuzzy = ip_fuzzy p\<rparr>"

definition add_param_filter :: "QuerySpec \<Rightarrow> IntentParameter \<Rightarrow> string \<Rightarrow> QuerySpec" where
  "add_param_filter s p v = s\<lparr>q_filters := q_filters s @ [param_filter p v]\<rparr>"

text \<open>The allowed value a given one stands for: equal up to case and surrounding white space.\<close>

definition match_allowed :: "string list \<Rightarrow> string \<Rightarrow> string option" where
  "match_allowed allowed v = find (\<lambda>av. equal_fold (trim_space av) (trim_space v)) allowed"

definition applyOneParam ::
  "QuerySpec \<Rightarrow> IntentParameter \<Rightarrow> json \<Rightarrow> QuerySpec \<times> ResolveError option" where
  "applyOneParam s p raw =
     (let fail = (\<lambda>code. (s, Some (param_error code (ip_name p)))) in
      if ip_type p = ''int'' then
        (case coerceInt raw of
           None \<Rightarrow> fail ''PARAM_TYPE_ERROR''
         | Some n \<Rightarrow> if n \<le> 0 then fail ''PARAM_TYPE_ERROR'' else (s\<lparr>q_limit := n\<rparr>, None))
      else if ip_type p = ''string'' then
        (case coerceString raw of
           None \<Rightarrow> fail ''PARAM_TYPE_ERROR''
         | Some v \<Rightarrow> (if ip_property p \<noteq> [] then add_param_filter s p v else s, None))
      else if ip_type p = ''enum_ref'' then
        (if ip_property p = [] then fail ''PARAM_SCHEMA_INVALID''
         else case coerceString raw of
           None \<Rightarrow> fail ''PARAM_TYPE_ERROR''
         | Some v \<Rightarrow>
             (case ip_allowed p of
                None \<Rightarrow> (add_param_filter s p v, None)
              | Some allowed \<Rightarrow>
                  (case match_allowed allowed v of
                     Some av \<Rightarrow> (add_param_filter s p av, None)
                   | None \<Rightarrow> fail ''PARAM_VALUE_UNKNOWN'')))
      else if ip_type p = ''property_filter'' then
        (if ip_property p = [] then fail ''PARAM_SCHEMA_INVALID''
         else case coerceString raw of
           None \<Rightarrow> fail ''PARAM_TYPE_ERROR''
         | Some v \<Rightarrow> (add_param_filter s p v, None))
      else fail ''PARAM_SCHEMA_INVALID'')"

fun bind_loop ::
  "IntentParameter list \<Rightarrow> (string \<times> json) list \<Rightarrow> QuerySpec \<Rightarrow> QuerySpec \<times> ResolveError option" where
  "bind_loop [] given s = (s, None)"
| "bind_loop (p # ps) given s =
     (let raw = (case map_of given (ip_name p) of
                   Some v \<Rightarrow> Some v
                 | None \<Rightarrow> if ip_default p \<noteq> JNull then Some (ip_default p) else None)
      in case raw of
           None \<Rightarrow> if \<not> ip_optional p then (s, Some (param_error ''PARAM_REQUIRED'' (ip_name p)))
                   else bind_loop ps given s
         | Some v \<Rightarrow>
             (case applyOneParam s p v of
                (s', Some e) \<Rightarrow> (s', Some e)
              | (s', None) \<Rightarrow> bind_loop ps given s'))"

definition BindIntentParams ::
  "QuerySpec \<Rightarrow> (string \<times> json) list \<Rightarrow> IntentParameter list
     \<Rightarrow> QuerySpec \<times> ResolveError option" where
  "BindIntentParams s given ps =
     (case find (\<lambda>k. k \<notin> set (paramNames ps)) (map fst given) of
        Some k \<Rightarrow> (s, Some (param_error ''PARAM_UNKNOWN'' k))
      | None \<Rightarrow> bind_loop ps given s)"

section \<open>The dry run\<close>

definition DummyParamValue :: "IntentParameter \<Rightarrow> json" where
  "DummyParamValue p =
     (if ip_default p \<noteq> JNull then ip_default p
      else if ip_type p = ''int'' then JNum 1
      else if ip_type p = ''property_filter'' \<or> ip_type p = ''string'' then JStr ''x''
      else JStr '''')"

definition BuildBaseSpecFromHint :: "IntentHint \<Rightarrow> string \<Rightarrow> QuerySpec" where
  "BuildBaseSpecFromHint h objectName =
     empty_spec\<lparr>q_objects := [objectName], q_intentHint := Some h, q_displayMode := ''table''\<rparr>"

record IntentValidationInput =
  iv_name :: string
  iv_objectName :: string
  iv_canonicalMetric :: string
  iv_canonicalFilters :: "FilterItem list"
  iv_autoGroupBy :: "string list"
  iv_replaceGroupBy :: bool
  iv_defaultOrderByLabel :: string
  iv_defaultOrderByDir :: string
  iv_defaultLimit :: int
  iv_parameters :: "IntentParameter list"

record BoundSpecOut =
  bo_objects :: "string list"
  bo_metric :: string
  bo_groupBy :: "string list"
  bo_filters :: "FilterItem list"
  bo_orderBy :: "OrderByItem list"
  bo_limit :: int

record IntentValidationResult =
  vr_ok :: bool
  vr_errors :: "problem list"
  vr_code :: string
  vr_boundSpec :: "BoundSpecOut option"

definition extractProblemList :: "ResolveError \<Rightarrow> problem list" where
  "extractProblemList re = (if re_errors re \<noteq> [] then re_errors re else [SingleMessage (re_code re)])"

definition input_hint :: "IntentValidationInput \<Rightarrow> IntentHint" where
  "input_hint i =
     empty_hint\<lparr>ih_name := iv_name i, ih_canonicalMetric := iv_canonicalMetric i,
       ih_canonicalFilters := iv_canonicalFilters i, ih_autoGroupBy := iv_autoGroupBy i,
       ih_replaceGroupBy := iv_replaceGroupBy i,
       ih_defaultOrderByLabel := iv_defaultOrderByLabel i,
       ih_defaultOrderByDir := iv_defaultOrderByDir i, ih_defaultLimit := iv_defaultLimit i\<rparr>"

text \<open>The map of dummy values: of several parameters with one name the last one counts.\<close>

definition dummy_params :: "IntentParameter list \<Rightarrow> (string \<times> json) list" where
  "dummy_params ps = map (\<lambda>p. (ip_name p, DummyParamValue p)) (rev ps)"

definition ValidateIntentDryRun :: "IntentValidationInput \<Rightarrow> IntentValidationResult" where
  "ValidateIntentDryRun i =
     (if trim_space (iv_objectName i) = [] then
        \<lparr>vr_ok = False, vr_errors = [SingleMessage ''MISSING_OBJECT_NAME''],
         vr_code = ''MISSING_OBJECT_NAME'', vr_boundSpec = None\<rparr>
      else
        let spec = BuildBaseSpecFromHint (input_hint i) (iv_objectName i) in
        case BindIntentParams spec (dummy_params (iv_parameters i)) (iv_parameters i) of
          (_, Some re) \<Rightarrow>
            \<lparr>vr_ok = False, vr_errors = [SingleMessage (re_code re)], vr_code = re_code re,
             vr_boundSpec = None\<rparr>
        | (spec, None) \<Rightarrow>
            (case Run DefaultPipeline spec of
               (_, Some (PassFailed _ re)) \<Rightarrow>
                 \<lparr>vr_ok = False, vr_errors = extractProblemList re, vr_code = re_code re,
                  vr_boundSpec = None\<rparr>
             | (spec, None) \<Rightarrow>
                 \<lparr>vr_ok = True, vr_errors = [], vr_code = [],
                  vr_boundSpec = Some \<lparr>bo_objects = q_objects spec, bo_metric = q_metric spec,
                    bo_groupBy = q_groupBy spec, bo_filters = q_filters spec,
                    bo_orderBy = q_orderBy spec, bo_limit = q_limit spec\<rparr>\<rparr>))"

end
