(* ===== verification/Query_Passes_Props.thy ===== *)
theory Query_Passes_Props
  imports Query_Passes
begin

text \<open>
  Properties of the query passes: both "append unless the key is there" loops are instances of
  \<open>keyed_add\<close>; what an applied hint guarantees, when applying it twice is the same as once, and
  when it is not; and what a spec that passed validation looks like.
\<close>

section \<open>Group-by tokens and canonical filters as keyed lists\<close>

definition add_token :: "string list \<Rightarrow> string \<Rightarrow> string list" where
  "add_token gs t = fst (append_token gs t)"

definition token_ok :: "string \<Rightarrow> bool" where
  "token_ok t \<longleftrightarrow> CanonicalPropKey (trim_space t) \<noteq> []"

lemma CanonicalPropKey_Nil [simp]: "CanonicalPropKey [] = []"
  by (simp add: CanonicalPropKey_def)

interpretation group_by: keyed_add CanonicalPropKey trim_space token_ok add_token
  by unfold_locales
    (auto simp: add_token_def append_token_def token_ok_def Let_def list_ex_iff image_iff)

definition add_filter :: "FilterItem list \<Rightarrow> FilterItem \<Rightarrow> FilterItem list" where
  "add_filter fs f = (if filter_key f \<in> filter_key ` set fs then fs else fs @ [f])"

interpretation canonical: keyed_add filter_key "\<lambda>f. f" "\<lambda>_. True" add_filter
  by unfold_locales (auto simp: add_filter_def)

lemma AppendGroupBy_groupBy:
  "fst (AppendGroupBy s t) = s\<lparr>q_groupBy := add_token (q_groupBy s) t\<rparr>"
  by (simp add: AppendGroupBy_def add_token_def split: prod.split)

lemma fold_AppendGroupBy:
  "foldl (\<lambda>t g. fst (AppendGroupBy t g)) s ts = s\<lparr>q_groupBy := foldl add_token (q_groupBy s) ts\<rparr>"
  by (induction ts arbitrary: s) (simp_all add: AppendGroupBy_groupBy)

lemma merge_loop_fold:
  assumes "set existing = filter_key ` set fs"
  shows "fst (merge_loop cfs fs existing added) = foldl add_filter fs cfs"
  using assms by (induction cfs arbitrary: fs existing added) (auto simp: add_filter_def)

lemma HasGroupBy_iff:
  "HasGroupBy s t \<longleftrightarrow>
     CanonicalPropKey t \<noteq> [] \<and> CanonicalPropKey t \<in> CanonicalPropKey ` set (q_groupBy s)"
  by (auto simp: HasGroupBy_def Let_def list_ex_iff image_iff eq_commute)

text \<open>The group-by passes satisfy the contract the code calls anti-seesaw: starting from a list
  without duplicate keys, appending the tokens of two passes in either order gives lists without
  duplicate keys and with the same set of keys, and running a pass again changes nothing.\<close>

theorem group_by_passes_commute:
  assumes "distinct (map CanonicalPropKey (q_groupBy s))"
  shows "let pass = foldl (\<lambda>t g. fst (AppendGroupBy t g));
             a = pass (pass s xs) ys; b = pass (pass s ys) xs
         in distinct (map CanonicalPropKey (q_groupBy a))
            \<and> distinct (map CanonicalPropKey (q_groupBy b))
            \<and> CanonicalPropKey ` set (q_groupBy a) = CanonicalPropKey ` set (q_groupBy b)
            \<and> pass a xs = a \<and> pass a ys = a"
proof -
  let ?g = "q_groupBy s"
  have "foldl add_token (foldl add_token (foldl add_token ?g xs) ys) xs
      = foldl add_token (foldl add_token ?g xs) ys"
    by (rule group_by.fold_absorb) (auto simp: group_by.keys_fold)
  with assms show ?thesis
    by (auto simp: fold_AppendGroupBy Let_def group_by.keys_fold group_by.distinct_fold
        group_by.fold_idem)
qed

lemma group_by_passes_commute_witness:
  "CanonicalPropKey ` set (q_groupBy
       (fst (AppendGroupBy (fst (AppendGroupBy empty_spec ''Order.Day'')) ''day '')))
   = CanonicalPropKey ` set (q_groupBy
       (fst (AppendGroupBy (fst (AppendGroupBy empty_spec ''day '')) ''Order.Day'')))"
  using group_by_passes_commute [of empty_spec "[''Order.Day'']" "[''day '']"]
  by (simp add: empty_spec_def Let_def)

section \<open>What an applied hint guarantees\<close>

lemmas hint_steps = hint_metric_def hint_filters_def hint_orderBy_def hint_limit_def Let_def

lemma strip_fst:
  "fst (stripEqualityFiltersOn s ks) = s\<lparr>q_filters :=
     filter (\<lambda>f. \<not> (filter_key f \<in> set ks \<and> isEqualityOp (fi_op f))) (q_filters s)\<rparr>"
  by (auto simp: stripEqualityFiltersOn_def Let_def)

lemma hint_filters_fst:
  "fst (hint_filters h s) = s\<lparr>q_filters := foldl add_filter (q_filters s) (ih_canonicalFilters h)\<rparr>"
  using merge_loop_fold [of "map filter_key (q_filters s)" "q_filters s" "ih_canonicalFilters h" "[]"]
  by (simp add: hint_filters_def case_prod_beta)

lemma hint_replace_fst:
  "fst (hint_replace h s) = s\<lparr>
     q_filters := filter (\<lambda>f. \<not> (filter_key f \<in> CanonicalPropKey ` set (ih_autoGroupBy h)
                                 \<and> isEqualityOp (fi_op f))) (q_filters s),
     q_groupBy := foldl add_token [] (ih_autoGroupBy h)\<rparr>"
  using strip_fst [of s "map CanonicalPropKey (ih_autoGroupBy h)"]
  by (simp add: hint_replace_def Let_def fold_AppendGroupBy case_prod_beta)

text \<open>The tokens \<open>hint_inject\<close> moves out of a filter, and those it adds afresh.\<close>

definition moved :: "IntentHint \<Rightarrow> QuerySpec \<Rightarrow> string list" where
  "moved h s = filter (\<lambda>g. \<not> HasGroupBy s g \<and> CanonicalPropKey g
     \<in> filter_key ` set (filter (\<lambda>f. isEqualityOp (fi_op f)) (q_filters s))) (ih_autoGroupBy h)"

definition fresh :: "IntentHint \<Rightarrow> QuerySpec \<Rightarrow> string list" where
  "fresh h s = filter (\<lambda>g. \<not> HasGroupBy s g \<and> CanonicalPropKey g
     \<notin> filter_key ` set (filter (\<lambda>f. isEqualityOp (fi_op f)) (q_filters s))
     \<and> (\<not> q_addShareColumn s \<or> ih_addShareColumnSafe h)) (ih_autoGroupBy h)"

lemma fold_classify:
  "foldl (classify_canonical h s) st gs =
     \<lparr>inj_strip = inj_strip st @ map CanonicalPropKey (moved (h\<lparr>ih_autoGroupBy := gs\<rparr>) s),
      inj_move = inj_move st @ moved (h\<lparr>ih_autoGroupBy := gs\<rparr>) s,
      inj_fresh = inj_fresh st @ fresh (h\<lparr>ih_autoGroupBy := gs\<rparr>) s\<rparr>"
  by (induction gs arbitrary: st) (auto simp: classify_canonical_def moved_def fresh_def Let_def)

lemma hint_inject_fst:
  "fst (hint_inject h s) =
     (let new = moved h s @ fresh h s in s\<lparr>
        q_groupBy := new @ filter (\<lambda>g. CanonicalPropKey g \<notin> CanonicalPropKey ` set new) (q_groupBy s),
        q_filters := filter (\<lambda>f. \<not> (filter_key f \<in> CanonicalPropKey ` set (moved h s)
                                    \<and> isEqualityOp (fi_op f))) (q_filters s)\<rparr>)"
  by (auto simp: hint_inject_def fold_classify strip_fst Let_def case_prod_beta image_Un)

text \<open>The spec after the steps that do not touch the group-by list.\<close>

definition hint_base :: "IntentHint \<Rightarrow> QuerySpec \<Rightarrow> QuerySpec" where
  "hint_base h s =
     fst (hint_limit h (fst (hint_orderBy h (fst (hint_filters h (fst (hint_metric h s)))))))"

definition hint_group :: "IntentHint \<Rightarrow> QuerySpec \<Rightarrow> QuerySpec" where
  "hint_group h s =
     (if ih_autoGroupBy h = [] then s
      else if ih_replaceGroupBy h then fst (hint_replace h s) else fst (hint_inject h s))"

lemma applyIntentHint_fst: "fst (applyIntentHint s (Some h)) = hint_group h (hint_base h s)"
  by (simp add: applyIntentHint.simps hint_group_def hint_base_def split: prod.split)

text \<open>What each step leaves alone.\<close>

lemma hint_metric_frame [frame]:
  "q_filters (fst (hint_metric h s)) = q_filters s" "q_orderBy (fst (hint_metric h s)) = q_orderBy s"
  "q_limit (fst (hint_metric h s)) = q_limit s" "q_groupBy (fst (hint_metric h s)) = q_groupBy s"
  by (simp_all add: hint_metric_def)

lemma hint_orderBy_frame [frame]:
  "q_filters (fst (hint_orderBy h s)) = q_filters s" "q_metric (fst (hint_orderBy h s)) = q_metric s"
  "q_limit (fst (hint_orderBy h s)) = q_limit s" "q_groupBy (fst (hint_orderBy h s)) = q_groupBy s"
  by (simp_all add: hint_orderBy_def Let_def)

lemma hint_limit_frame [frame]:
  "q_filters (fst (hint_limit h s)) = q_filters s" "q_metric (fst (hint_limit h s)) = q_metric s"
  "q_orderBy (fst (hint_limit h s)) = q_orderBy s" "q_groupBy (fst (hint_limit h s)) = q_groupBy s"
  by (simp_all add: hint_limit_def)

lemma hint_group_frame [frame]:
  "q_metric (hint_group h s) = q_metric s" "q_orderBy (hint_group h s) = q_orderBy s"
  "q_limit (hint_group h s) = q_limit s"
  by (simp_all add: hint_group_def hint_replace_fst hint_inject_fst Let_def)

lemma hint_group_filters:
  "\<exists>P. q_filters (hint_group h s) = filter P (q_filters s)
     \<and> (\<forall>f. filter_key f \<notin> CanonicalPropKey ` set (ih_autoGroupBy h) \<longrightarrow> P f)"
proof (cases "ih_autoGroupBy h = []")
  case True
  then show ?thesis by (auto simp: hint_group_def intro!: exI [of _ "\<lambda>_. True"])
next
  case False
  have "CanonicalPropKey ` set (moved h s) \<subseteq> CanonicalPropKey ` set (ih_autoGroupBy h)"
    by (auto simp: moved_def)
  with False show ?thesis
    by (cases "ih_replaceGroupBy h")
      (auto simp: hint_group_def hint_replace_fst hint_inject_fst Let_def intro!: exI)
qed

text \<open>A spec on which every step of the hint has nothing left to do.\<close>

definition settled :: "IntentHint \<Rightarrow> QuerySpec \<Rightarrow> bool" where
  "settled h s \<longleftrightarrow>
     (ih_canonicalMetric h = [] \<or> normMetric (q_metric s) = normMetric (ih_canonicalMetric h))
     \<and> filter_key ` set (ih_canonicalFilters h) \<subseteq> filter_key ` set (q_filters s)
     \<and> (q_orderBy s \<noteq> [] \<or> ih_defaultOrderByLabel h = [])
     \<and> (ih_defaultLimit h \<le> 0 \<or> q_limit s = ih_defaultLimit h \<or> 0 < q_limit s \<and> q_limit s < 1000)"

lemma hint_base_settled: "settled h (hint_base h s)"
proof -
  have "filter_key ` set (ih_canonicalFilters h)
      \<subseteq> filter_key ` set (q_filters (fst (hint_filters h (fst (hint_metric h s)))))"
    using canonical.keys_fold [of "q_filters s" "ih_canonicalFilters h"]
    by (auto simp: hint_filters_fst frame)
  moreover have "ih_canonicalMetric h = []
      \<or> normMetric (q_metric (fst (hint_metric h s))) = normMetric (ih_canonicalMetric h)"
    by (simp add: hint_metric_def)
  moreover have "q_orderBy (fst (hint_orderBy h t)) \<noteq> [] \<or> ih_defaultOrderByLabel h = []" for t
    by (simp add: hint_orderBy_def Let_def)
  moreover have "ih_defaultLimit h \<le> 0 \<or> q_limit (fst (hint_limit h t)) = ih_defaultLimit h
      \<or> 0 < q_limit (fst (hint_limit h t)) \<and> q_limit (fst (hint_limit h t)) < 1000" for t
    by (auto simp: hint_limit_def)
  ultimately show ?thesis
    unfolding settled_def hint_base_def by (simp add: frame hint_filters_fst)
qed

lemma hint_base_fixed:
  assumes "settled h s"
  shows "hint_base h s = s"
proof -
  have m: "fst (hint_metric h s) = s" using assms by (auto simp: settled_def hint_metric_def)
  have "foldl add_filter (q_filters s) (ih_canonicalFilters h) = q_filters s"
    by (rule canonical.fold_absorb) (use assms in \<open>auto simp: settled_def\<close>)
  then have f: "fst (hint_filters h s) = s" by (simp add: hint_filters_fst)
  have "fst (hint_orderBy h s) = s" using assms by (auto simp: settled_def hint_orderBy_def)
  moreover have "fst (hint_limit h s) = s" using assms by (auto simp: settled_def hint_limit_def)
  ultimately show ?thesis by (simp add: hint_base_def m f)
qed

lemma image_shadow: "k ` G \<subseteq> k ` (N \<union> {g \<in> G. k g \<notin> k ` N})"
  by blast

lemma HasGroupBy_inject:
  assumes "g \<in> set (ih_autoGroupBy h)" "CanonicalPropKey g \<noteq> []"
    "\<not> q_addShareColumn s \<or> ih_addShareColumnSafe h \<or> HasGroupBy s g \<or> g \<in> set (moved h s)"
  shows "HasGroupBy (fst (hint_inject h s)) g"
proof (cases "HasGroupBy s g")
  case True
  let ?new = "moved h s @ fresh h s" and ?k = CanonicalPropKey
  obtain g0 where "g0 \<in> set (q_groupBy s)" "?k g0 = ?k g"
    using True by (auto simp: HasGroupBy_iff)
  then have "?k g \<in> ?k ` set (q_groupBy s)" by (metis imageI)
  from subsetD [OF image_shadow this]
  have "?k g \<in> ?k ` (set ?new \<union> {x \<in> set (q_groupBy s). ?k x \<notin> ?k ` set ?new})" .
  with assms(2) show ?thesis by (simp add: HasGroupBy_iff hint_inject_fst Let_def image_Un)
next
  case False
  with assms have "g \<in> set (moved h s) \<union> set (fresh h s)"
    by (auto simp: moved_def fresh_def)
  with assms(2) show ?thesis by (auto simp: HasGroupBy_iff hint_inject_fst Let_def)
qed

lemma moved_fixed:
  assumes "list_all (\<lambda>g. CanonicalPropKey g \<noteq> []) (ih_autoGroupBy h)"
  shows "moved h (fst (hint_inject h s)) = [] \<and> fresh h (fst (hint_inject h s)) = []"
proof -
  let ?s = "fst (hint_inject h s)"
  have "HasGroupBy ?s g \<or> q_addShareColumn ?s \<and> \<not> ih_addShareColumnSafe h
      \<and> CanonicalPropKey g \<notin> filter_key ` set (filter (\<lambda>f. isEqualityOp (fi_op f)) (q_filters ?s))"
    if "g \<in> set (ih_autoGroupBy h)" for g
  proof (cases "\<not> q_addShareColumn s \<or> ih_addShareColumnSafe h \<or> HasGroupBy s g
      \<or> g \<in> set (moved h s)")
    case True
    with that assms HasGroupBy_inject show ?thesis by (auto simp: list_all_iff)
  next
    case False
    with that have "CanonicalPropKey g
        \<notin> filter_key ` set (filter (\<lambda>f. isEqualityOp (fi_op f)) (q_filters s))"
      by (auto simp: moved_def)
    with False show ?thesis by (auto simp: hint_inject_fst Let_def)
  qed
  then show ?thesis unfolding moved_def fresh_def filter_empty_conv by blast
qed

lemma hint_inject_fixed:
  "moved h s = [] \<Longrightarrow> fresh h s = [] \<Longrightarrow> fst (hint_inject h s) = s"
  by (simp add: hint_inject_fst)

lemma hint_group_idem:
  assumes "list_all (\<lambda>g. CanonicalPropKey g \<noteq> []) (ih_autoGroupBy h)"
  shows "hint_group h (hint_group h s) = hint_group h s"
proof (cases "ih_autoGroupBy h = []")
  case False
  show ?thesis
  proof (cases "ih_replaceGroupBy h")
    case True
    with False show ?thesis by (simp add: hint_group_def hint_replace_fst)
  next
    case nr: False
    with False hint_inject_fixed [OF conjunct1 conjunct2, OF moved_fixed moved_fixed, OF assms assms]
    show ?thesis by (simp add: hint_group_def)
  qed
qed (simp add: hint_group_def)

lemma hint_group_settled:
  assumes "settled h s"
    "list_all (\<lambda>f. filter_key f \<notin> CanonicalPropKey ` set (ih_autoGroupBy h)) (ih_canonicalFilters h)"
  shows "settled h (hint_group h s)"
proof -
  obtain P where P: "q_filters (hint_group h s) = filter P (q_filters s)"
    "\<And>f. filter_key f \<notin> CanonicalPropKey ` set (ih_autoGroupBy h) \<Longrightarrow> P f"
    using hint_group_filters by blast
  have "filter_key c \<in> filter_key ` set (q_filters (hint_group h s))"
    if c: "c \<in> set (ih_canonicalFilters h)" for c
  proof -
    obtain f where "f \<in> set (q_filters s)" "filter_key f = filter_key c"
      using assms(1) c by (auto simp: settled_def image_subset_iff image_iff)
    with c assms(2) P show ?thesis by (auto simp: list_all_iff image_iff)
  qed
  with assms(1) show ?thesis by (auto simp: settled_def frame)
qed

text \<open>Applying a hint is idempotent, as the contract of a pass asks, for hints whose canonical
  filters and automatic group-by tokens concern different properties and whose tokens have a key:
  the second application finds nothing left to do.\<close>

theorem intent_hint_idempotent:
  assumes "list_all (\<lambda>f. filter_key f \<notin> CanonicalPropKey ` set (ih_autoGroupBy h))
      (ih_canonicalFilters h)"
    and "list_all (\<lambda>g. CanonicalPropKey g \<noteq> []) (ih_autoGroupBy h)"
  shows "let once = fst (applyIntentHint s (Some h))
         in fst (applyIntentHint once (Some h)) = once"
proof -
  let ?s = "hint_group h (hint_base h s)"
  have "hint_base h ?s = ?s"
    by (rule hint_base_fixed, rule hint_group_settled [OF hint_base_settled assms(1)])
  then show ?thesis by (simp add: applyIntentHint_fst Let_def hint_group_idem [OF assms(2)])
qed

definition sample_hint :: IntentHint where
  "sample_hint = empty_hint\<lparr>ih_canonicalMetric := ''Revenue'',
     ih_canonicalFilters := [\<lparr>fi_prop = ''Status'', fi_op = ''='', fi_value = ''ok'', fi_fuzzy = False\<rparr>],
     ih_autoGroupBy := [''Order.Day''], ih_defaultLimit := 10\<rparr>"

lemma intent_hint_idempotent_witness:
  "(let once = fst (applyIntentHint empty_spec (Some sample_hint))
    in fst (applyIntentHint once (Some sample_hint)) = once)
   \<and> q_groupBy (fst (applyIntentHint empty_spec (Some sample_hint))) = [''Order.Day'']"
  by (rule conjI, rule intent_hint_idempotent; code_simp)

text \<open>Without those conditions the pass is not idempotent: a canonical equality filter on an
  automatic group-by property is moved into the group-by list by the first application and merged
  into the filters again by the second, which then restricts the grouped property to one value.\<close>

definition clashing_hint :: IntentHint where
  "clashing_hint = empty_hint\<lparr>
     ih_canonicalFilters := [\<lparr>fi_prop = ''Status'', fi_op = ''='', fi_value = ''ok'', fi_fuzzy = False\<rparr>],
     ih_autoGroupBy := [''Status'']\<rparr>"
theorem intent_hint_not_idempotent:
  "let once = fst (applyIntentHint empty_spec (Some clashing_hint));
       twice = fst (applyIntentHint once (Some clashing_hint))
   in q_groupBy once = [''Status''] \<and> q_filters once = []
      \<and> q_groupBy twice = [''Status'']
      \<and> q_filters twice = [\<lparr>fi_prop = ''Status'', fi_op = ''='', fi_value = ''ok'', fi_fuzzy = False\<rparr>]"
  by code_simp

lemma hint_limit_share:
  "q_addShareColumn (fst (hint_limit h s)) = q_addShareColumn s"
  "q_addShareColumn (fst (hint_orderBy h s)) = q_addShareColumn s"
  "q_addShareColumn (fst (hint_metric h s)) = q_addShareColumn s"
  by (simp_all add: hint_limit_def hint_orderBy_def hint_metric_def Let_def)

lemma hint_base_parts:
  "q_filters (hint_base h s) = foldl add_filter (q_filters s) (ih_canonicalFilters h)"
  "q_groupBy (hint_base h s) = q_groupBy s"
  "q_addShareColumn (hint_base h s) = q_addShareColumn s"
  "q_limit (hint_base h s) =
     (if 0 < ih_defaultLimit h \<and> (q_limit s \<le> 0 \<or> 1000 \<le> q_limit s) then ih_defaultLimit h
      else q_limit s)"
  by (simp_all add: hint_base_def frame hint_filters_fst hint_limit_share)
    (auto simp: hint_limit_def frame hint_filters_fst)

lemma hint_group_other_filters:
  "filter (\<lambda>f. filter_key f \<notin> CanonicalPropKey ` set (ih_autoGroupBy h)) (q_filters (hint_group h s))
   = filter (\<lambda>f. filter_key f \<notin> CanonicalPropKey ` set (ih_autoGroupBy h)) (q_filters s)"
proof -
  obtain P where P: "q_filters (hint_group h s) = filter P (q_filters s)"
    "\<And>f. filter_key f \<notin> CanonicalPropKey ` set (ih_autoGroupBy h) \<Longrightarrow> P f"
    using hint_group_filters by blast
  show ?thesis unfolding P(1) filter_filter by (rule filter_cong) (use P(2) in auto)
qed

lemma hint_group_groupBy:
  "if ih_autoGroupBy h = [] then q_groupBy (hint_group h s) = q_groupBy s
   else if ih_replaceGroupBy h
   then CanonicalPropKey ` set (q_groupBy (hint_group h s))
          = {k. k \<in> (\<lambda>g. CanonicalPropKey (trim_space g)) ` set (ih_autoGroupBy h) \<and> k \<noteq> []}
        \<and> distinct (map CanonicalPropKey (q_groupBy (hint_group h s)))
        \<and> list_all (\<lambda>f. \<not> (filter_key f \<in> CanonicalPropKey ` set (ih_autoGroupBy h)
                       \<and> isEqualityOp (fi_op f))) (q_filters (hint_group h s))
   else q_addShareColumn s \<and> \<not> ih_addShareColumnSafe h
        \<or> list_all (\<lambda>g. CanonicalPropKey g = [] \<or> HasGroupBy (hint_group h s) g) (ih_autoGroupBy h)"
proof -
  have "CanonicalPropKey ` set (foldl add_token [] gs)
      = {k. k \<in> (\<lambda>g. CanonicalPropKey (trim_space g)) ` set gs \<and> k \<noteq> []}" for gs
    using group_by.keys_fold [of "[]" gs] by (auto simp: token_ok_def)
  moreover have "distinct (map CanonicalPropKey (foldl add_token [] gs))" for gs
    by (rule group_by.distinct_fold) simp
  moreover have "q_addShareColumn s \<and> \<not> ih_addShareColumnSafe h
      \<or> list_all (\<lambda>g. CanonicalPropKey g = [] \<or> HasGroupBy (fst (hint_inject h s)) g)
          (ih_autoGroupBy h)"
    unfolding list_all_iff using HasGroupBy_inject [of _ h s] by blast
  ultimately show ?thesis by (simp add: hint_group_def hint_replace_fst list_all_iff)
qed

text \<open>An applied hint is enforced: the metric is the canonical one up to case and blanks, the
  default order and limit are in place when the spec had none, every filter on a property outside
  the automatic group-by list is kept, the tokens that must be grouped are grouped (with
  replacement exactly the cleaned list, without duplicate keys), and no equality filter is left on
  a property that was replaced into the group-by list.\<close>

theorem applied_hint_is_enforced:
  "let s' = fst (applyIntentHint s (Some h));
       auto_keys = CanonicalPropKey ` set (ih_autoGroupBy h)
   in (ih_canonicalMetric h = [] \<or> normMetric (q_metric s') = normMetric (ih_canonicalMetric h))
      \<and> \<not> (q_orderBy s' = [] \<and> ih_defaultOrderByLabel h \<noteq> [])
      \<and> (ih_defaultLimit h \<le> 0 \<or> q_limit s' = ih_defaultLimit h
          \<or> q_limit s' = q_limit s \<and> 0 < q_limit s \<and> q_limit s < 1000)
      \<and> filter (\<lambda>f. filter_key f \<notin> auto_keys) (q_filters s')
          = filter (\<lambda>f. filter_key f \<notin> auto_keys) (foldl add_filter (q_filters s) (ih_canonicalFilters h))
      \<and> (if ih_autoGroupBy h = [] then q_groupBy s' = q_groupBy s
          else if ih_replaceGroupBy h
          then CanonicalPropKey ` set (q_groupBy s')
                 = {k. k \<in> (\<lambda>g. CanonicalPropKey (trim_space g)) ` set (ih_autoGroupBy h) \<and> k \<noteq> []}
               \<and> distinct (map CanonicalPropKey (q_groupBy s'))
               \<and> list_all (\<lambda>f. \<not> (filter_key f \<in> auto_keys \<and> isEqualityOp (fi_op f))) (q_filters s')
          else q_addShareColumn s \<and> \<not> ih_addShareColumnSafe h
               \<or> list_all (\<lambda>g. CanonicalPropKey g = [] \<or> HasGroupBy s' g) (ih_autoGroupBy h))"
proof -
  let ?b = "hint_base h s"
  have base: "settled h ?b" by (rule hint_base_settled)
  show ?thesis
    unfolding applyIntentHint_fst Let_def
  proof (intro conjI)
    show "ih_canonicalMetric h = []
        \<or> normMetric (q_metric (hint_group h ?b)) = normMetric (ih_canonicalMetric h)"
      "\<not> (q_orderBy (hint_group h ?b) = [] \<and> ih_defaultOrderByLabel h \<noteq> [])"
      using base by (auto simp: settled_def frame)
  next
    show "ih_defaultLimit h \<le> 0 \<or> q_limit (hint_group h ?b) = ih_defaultLimit h
        \<or> q_limit (hint_group h ?b) = q_limit s \<and> 0 < q_limit s \<and> q_limit s < 1000"
      by (auto simp: frame hint_base_parts)
  qed (use hint_group_groupBy [of h ?b] hint_group_other_filters [of h ?b]
      in \<open>simp_all only: hint_base_parts\<close>)
qed

text \<open>Injection does not go through \<open>AppendGroupBy\<close>: duplicate tokens of a hint are not removed.\<close>

lemma injection_bypasses_dedup:
  "q_groupBy (fst (applyIntentHint empty_spec (Some (empty_hint\<lparr>ih_autoGroupBy := [''day'', ''Day'']\<rparr>))))
   = [''day'', ''Day'']"
  by code_simp

section \<open>What passes validation\<close>

text \<open>A numeric literal: an optional minus, digits, and an optional point with digits.\<close>

definition numeric_literal :: "string \<Rightarrow> bool" where
  "numeric_literal v \<longleftrightarrow>
     (\<exists>sign ds fs. v = sign @ ds @ fs \<and> sign \<in> {[], ''-''} \<and> ds \<noteq> [] \<and> list_all is_digit ds
        \<and> (fs = [] \<or> (\<exists>ds'. fs = ''.'' @ ds' \<and> ds' \<noteq> [] \<and> list_all is_digit ds')))"

lemma MatchString_metricFilterValue:
  "MatchString metricFilterValueRe v \<longleftrightarrow> numeric_literal v"
proof -
  let ?p = "RPlus (RCls is_digit)"
  let ?r = "RSeqs [ROpt (RLit ''-''), ?p, ROpt (RSeq (RLit ''.'') ?p)]"
  have "MatchString metricFilterValueRe v \<longleftrightarrow> v \<in> lang ?r"
    unfolding metricFilterValueRe_def by (rule MatchString_anchored) simp
  also have "\<dots> \<longleftrightarrow> (\<exists>a b c. v = a @ b @ c \<and> a \<in> {''-'', []} \<and> b \<in> lang ?p
      \<and> (c \<in> {''.'' @ d |d. d \<in> lang ?p} \<or> c = []))"
    unfolding lang_RSeqs_3 by (simp del: lang_RPlus_RCls) blast
  also have "\<dots> \<longleftrightarrow> numeric_literal v"
    unfolding numeric_literal_def list_all_iff by (simp add: conj_assoc) blast
  finally show ?thesis .
qed

definition spec_ok :: "QuerySpec \<Rightarrow> bool" where
  "spec_ok s \<longleftrightarrow>
     0 \<le> q_limit s
     \<and> list_all (\<lambda>g. trim_space g \<noteq> []) (q_groupBy s)
     \<and> list_all (\<lambda>ob. trim_space (ob_prop ob) \<noteq> []
          \<and> to_upper (trim_space (ob_dir ob)) \<in> {''ASC'', ''DESC''}) (q_orderBy s)
     \<and> list_all (\<lambda>f. trim_space (fi_prop f) \<noteq> [] \<and> trim_space (fi_op f) \<in> set validOpSet)
          (q_filters s)
     \<and> (case q_metricFilter s of None \<Rightarrow> True
        | Some mf \<Rightarrow> trim_space (mf_op mf) \<in> set metricFilterOpSet
            \<and> numeric_literal (trim_space (mf_value mf)))"

lemma concat_enumerate_empty:
  "concat (map (\<lambda>(i, x). p i x) (enumerate n xs)) = [] \<longleftrightarrow>
     list_all (\<lambda>(i, x). p i x = []) (enumerate n xs)"
  by (auto simp: list_all_iff)

lemma list_all_enumerate: "list_all (\<lambda>(i, x). P x) (enumerate n xs) = list_all P xs"
  by (induction xs arbitrary: n) auto

lemma spec_problems_Nil: "spec_problems s = [] \<longleftrightarrow> spec_ok s"
proof -
  have "[] \<notin> set validOpSet" by code_simp
  then have "(filter_problem i f = []) =
      (trim_space (fi_prop f) \<noteq> [] \<and> trim_space (fi_op f) \<in> set validOpSet)" for i f
    by (auto simp: filter_problem_def Let_def)
  moreover have "(orderBy_problem i ob = []) =
      (trim_space (ob_prop ob) \<noteq> [] \<and> to_upper (trim_space (ob_dir ob)) \<in> {''ASC'', ''DESC''})" for i ob
    by (auto simp: orderBy_problem_def Let_def)
  moreover have "(groupBy_problems s = []) = list_all (\<lambda>g. trim_space g \<noteq> []) (q_groupBy s)"
    unfolding groupBy_problems_def concat_enumerate_empty
    by (rule trans [OF _ list_all_enumerate]) (auto simp: list_all_iff)
  ultimately show ?thesis
    unfolding spec_problems_def spec_ok_def append_is_Nil_conv concat_enumerate_empty
    by (auto simp: list_all_enumerate metricFilter_problems_def MatchString_metricFilterValue
        split: option.splits if_splits)
qed

lemma pipeline_accepts_exactly_helper:
  "snd (Run DefaultPipeline s) = None \<longleftrightarrow>
     (let s' = fst (applyIntentHint s (q_intentHint s))
      in (q_metric s' \<noteq> [] \<or> q_groupBy s' \<noteq> []) \<and> spec_ok s')"
  unfolding Run_def DefaultPipeline_def Let_def spec_problems_Nil [symmetric]
  by (auto simp: PassApplyIntentHint_def PassGateMetricOrGroupBy_def PassValidateSpec_def Let_def)

text \<open>C30: The default pipeline accepts a spec exactly when, after its hint has been applied, the spec
  has a metric or a group-by, a non-negative limit, no blank group-by token, order items with a
  property and a direction ASC or DESC, filters with a property and a whitelisted operator, and a
  metric filter whose operator is a comparison and whose value is a plain numeric literal (these
  two are interpolated unescaped into HAVING); the resulting spec is the one with the hint applied.\<close>

theorem pipeline_accepts_exactly:
  "let s' = fst (applyIntentHint s (q_intentHint s))
   in snd (Run DefaultPipeline s) = None \<longleftrightarrow>
        \<not> (q_metric s' = [] \<and> q_groupBy s' = []) \<and> spec_ok s'
      \<and> fst (Run DefaultPipeline s) = s'"
  unfolding Run_def DefaultPipeline_def Let_def spec_problems_Nil [symmetric]
  by (auto simp: PassApplyIntentHint_def PassGateMetricOrGroupBy_def PassValidateSpec_def Let_def)

end
