(* ===== verification/Query_Params_Props.thy ===== *)
theory Query_Params_Props
  imports Query_Params Query_Passes_Props
begin

text \<open>
  What binding parameters accepts and produces, and the guarantee of the dry run: an intent it
  accepts never fails the pipeline at run time, whatever parameters are given, provided its
  canonical filters are well-formed themselves (they can be shadowed in the dry run).
\<close>

section \<open>The effect of one parameter\<close>

definition raw_value :: "(string \<times> json) list \<Rightarrow> IntentParameter \<Rightarrow> json option" where
  "raw_value given p =
     (case map_of given (ip_name p) of
        Some v \<Rightarrow> Some v
      | None \<Rightarrow> if ip_default p \<noteq> JNull then Some (ip_default p) else None)"

definition param_accepts :: "IntentParameter \<Rightarrow> json \<Rightarrow> bool" where
  "param_accepts p v \<longleftrightarrow>
     (if ip_type p = ''int'' then (case coerceInt v of None \<Rightarrow> False | Some n \<Rightarrow> 0 < n)
      else if ip_type p = ''string'' then coerceString v \<noteq> None
      else if ip_type p = ''property_filter'' then ip_property p \<noteq> [] \<and> coerceString v \<noteq> None
      else if ip_type p = ''enum_ref'' then ip_property p \<noteq> [] \<and>
        (case coerceString v of
           None \<Rightarrow> False
         | Some w \<Rightarrow> (case ip_allowed p of None \<Rightarrow> True
             | Some allowed \<Rightarrow> list_ex (\<lambda>av. equal_fold (trim_space av) (trim_space w)) allowed))
      else False)"

definition param_effect :: "IntentParameter \<Rightarrow> json \<Rightarrow> FilterItem list \<times> int option" where
  "param_effect p v =
     (let s = fst (applyOneParam empty_spec p v)
      in (q_filters s, if ip_type p = ''int'' then Some (q_limit s) else None))"

definition effect :: "QuerySpec \<Rightarrow> FilterItem list \<times> int option \<Rightarrow> QuerySpec" where
  "effect s e = s\<lparr>q_filters := q_filters s @ fst e,
     q_limit := (case snd e of None \<Rightarrow> q_limit s | Some n \<Rightarrow> n)\<rparr>"

lemma match_allowed_iff:
  "match_allowed allowed w = None \<longleftrightarrow>
     \<not> list_ex (\<lambda>av. equal_fold (trim_space av) (trim_space w)) allowed"
  by (auto simp: match_allowed_def find_None_iff list_ex_iff)

lemma match_allowed_SomeD:
  "match_allowed allowed w = Some av \<Longrightarrow>
     list_ex (\<lambda>av. equal_fold (trim_space av) (trim_space w)) allowed"
  using match_allowed_iff [of allowed w] by auto

lemma applyOneParam_rejects:
  "\<not> param_accepts p v \<Longrightarrow> \<exists>e. applyOneParam s p v = (s, Some e)"
  by (auto simp: param_accepts_def applyOneParam_def Let_def match_allowed_iff dest!: match_allowed_SomeD
      split: option.splits if_splits)

lemma applyOneParam_accepts:
  assumes "param_accepts p v"
  shows "applyOneParam s p v = (effect s (param_effect p v), None)"
  using assms
  by (auto simp: param_accepts_def param_effect_def applyOneParam_def Let_def effect_def
      match_allowed_iff add_param_filter_def empty_spec_def split: option.splits if_splits)

lemma param_effect_limit:
  "param_accepts p v \<Longrightarrow> snd (param_effect p v) = Some n \<Longrightarrow> 0 < n"
  by (auto simp: param_accepts_def param_effect_def applyOneParam_def Let_def
      split: option.splits if_splits)

lemma param_effect_filter:
  assumes "param_accepts p v" "f \<in> set (fst (param_effect p v))"
  shows "\<exists>w. f = param_filter p w \<and> ip_property p \<noteq> []
    \<and> (case ip_allowed p of None \<Rightarrow> True
       | Some allowed \<Rightarrow> ip_type p = ''enum_ref'' \<longrightarrow> w \<in> set allowed)"
  using assms
  by (auto simp: param_accepts_def param_effect_def applyOneParam_def Let_def match_allowed_def
      add_param_filter_def empty_spec_def find_Some_iff split: option.splits if_splits)

lemma param_effect_keys:
  assumes "param_accepts p v" "param_accepts p v'"
  shows "map fi_prop (fst (param_effect p v)) = map fi_prop (fst (param_effect p v'))
    \<and> map fi_op (fst (param_effect p v)) = map fi_op (fst (param_effect p v'))"
  using assms
  by (auto simp: param_accepts_def param_effect_def applyOneParam_def Let_def match_allowed_iff
      add_param_filter_def empty_spec_def param_filter_def split: option.splits if_splits)

section \<open>The binding loop\<close>

definition binds :: "(string \<times> json) list \<Rightarrow> IntentParameter \<Rightarrow> bool" where
  "binds given p \<longleftrightarrow>
     (case raw_value given p of None \<Rightarrow> ip_optional p | Some v \<Rightarrow> param_accepts p v)"

definition bound_effect ::
  "(string \<times> json) list \<Rightarrow> IntentParameter \<Rightarrow> FilterItem list \<times> int option" where
  "bound_effect given p = (case raw_value given p of None \<Rightarrow> ([], None) | Some v \<Rightarrow> param_effect p v)"

lemma effect_none [simp]: "effect s ([], None) = s"
  by (simp add: effect_def)

lemma bind_loop_Cons:
  "bind_loop (p # ps) given s =
     (if binds given p then bind_loop ps given (effect s (bound_effect given p))
      else (s, snd (bind_loop (p # ps) given s)))
   \<and> (\<not> binds given p \<longrightarrow> snd (bind_loop (p # ps) given s) \<noteq> None)"
proof (cases "raw_value given p")
  case None
  then show ?thesis
    by (auto simp: binds_def bound_effect_def raw_value_def split: option.splits if_splits)
next
  case (Some v)
  then have step: "bind_loop (p # ps) given s =
      (case applyOneParam s p v of (s', Some e) \<Rightarrow> (s', Some e) | (s', None) \<Rightarrow> bind_loop ps given s')"
    by (auto simp: raw_value_def split: option.splits if_splits)
  show ?thesis
  proof (cases "param_accepts p v")
    case True
    with Some step show ?thesis by (simp add: binds_def bound_effect_def applyOneParam_accepts)
  next
    case False
    with Some step applyOneParam_rejects [OF False, of s] show ?thesis
      by (auto simp: binds_def)
  qed
qed

declare bind_loop.simps(2) [simp del]

lemma bind_loop_ok: "snd (bind_loop ps given s) = None \<longleftrightarrow> list_all (binds given) ps"
proof (induction ps arbitrary: s)
  case (Cons p ps)
  then show ?case using bind_loop_Cons [of p ps given s] by (cases "binds given p") auto
qed simp

lemma bind_loop_result:
  "list_all (binds given) ps \<Longrightarrow>
     bind_loop ps given s = (foldl effect s (map (bound_effect given) ps), None)"
proof (induction ps arbitrary: s)
  case (Cons p ps)
  then show ?case using bind_loop_Cons [of p ps given s] by simp
qed simp

text \<open>Binding succeeds exactly when every given name is declared and every parameter either has
  an acceptable value (given or default; a positive integer for int, a string form for the others,
  a member of the allowed values for an enum reference) or is absent and optional.\<close>

theorem bind_accepts_exactly:
  "snd (BindIntentParams s given ps) = None \<longleftrightarrow>
     list_all (\<lambda>kv. fst kv \<in> ip_name ` set ps) given
     \<and> list_all (\<lambda>p. case raw_value given p of None \<Rightarrow> ip_optional p | Some v \<Rightarrow> param_accepts p v) ps"
proof -
  have "find (\<lambda>k. k \<notin> set (paramNames ps)) (map fst given) = None \<longleftrightarrow>
      list_all (\<lambda>kv. fst kv \<in> ip_name ` set ps) given"
    by (auto simp: find_None_iff list_all_iff paramNames_def)
  moreover have "list_all (\<lambda>p. case raw_value given p of None \<Rightarrow> ip_optional p
      | Some v \<Rightarrow> param_accepts p v) ps = list_all (binds given) ps"
    by (simp add: list_all_iff binds_def)
  ultimately show ?thesis
    by (auto simp: BindIntentParams_def bind_loop_ok split: option.splits)
qed

lemma bind_accepts_exactly_helper:
  "BindIntentParams s given ps = (s', None) \<Longrightarrow>
     list_all (binds given) ps \<and> s' = foldl effect s (map (bound_effect given) ps)"
  using bind_loop_ok [of ps given s] bind_loop_result [of given ps s]
  by (auto simp: BindIntentParams_def split: option.splits)

lemma fold_effect:
  "foldl effect s es = s\<lparr>q_filters := q_filters s @ concat (map fst es),
     q_limit := foldl (\<lambda>l e. case snd e of None \<Rightarrow> l | Some n \<Rightarrow> n) (q_limit s) es\<rparr>"
  by (induction es arbitrary: s) (simp_all add: effect_def)

lemma fold_limit:
  "list_all (\<lambda>e. case snd e of None \<Rightarrow> True | Some n \<Rightarrow> 0 < n) es \<Longrightarrow>
     (let l' = foldl (\<lambda>l e. case snd e of None \<Rightarrow> l | Some n \<Rightarrow> n) l es in l' = l \<or> (0::int) < l')"
  by (induction es arbitrary: l) (force simp: Let_def split: option.splits)+

lemma bound_effect_limits:
  "list_all (binds given) ps \<Longrightarrow>
     list_all (\<lambda>e. case snd e of None \<Rightarrow> True | Some n \<Rightarrow> 0 < n) (map (bound_effect given) ps)"
  by (auto simp: list_all_iff binds_def bound_effect_def split: option.splits
      dest: param_effect_limit)

lemma bound_limit:
  assumes "BindIntentParams s given ps = (s', None)"
  shows "q_limit s' = q_limit s \<or> 0 < q_limit s'"
proof -
  from bind_accepts_exactly_helper [OF assms]
  have "list_all (binds given) ps" "s' = foldl effect s (map (bound_effect given) ps)" by simp_all
  with fold_limit [OF bound_effect_limits, of given ps "q_limit s"] show ?thesis
    by (simp add: fold_effect Let_def)
qed

text \<open>C31: A successful binding only appends filters and sets the limit: every appended filter is on
  the declared property of some parameter with its declared operator (\<open>=\<close> by default), its value is
  one of the allowed values when the parameter is an enum reference with a list of them, and the
  limit is the old one or positive.\<close>

theorem bound_spec_is_declared:
  assumes "BindIntentParams s given ps = (s', None)"
  shows "\<exists>new. s' = s\<lparr>q_filters := q_filters s @ new, q_limit := q_limit s'\<rparr>
    \<and> (q_limit s' = q_limit s \<or> 0 < q_limit s')
    \<and> list_all (\<lambda>f. list_ex (\<lambda>p. ip_property p \<noteq> [] \<and> f = param_filter p (fi_value f)
         \<and> (ip_type p \<noteq> ''enum_ref'' \<or> ip_allowed p = None
             \<or> fi_value f \<in> set (the (ip_allowed p)))) ps) new"
proof -
  let ?new = "concat (map fst (map (bound_effect given) ps))"
  from bind_accepts_exactly_helper [OF assms]
  have b: "list_all (binds given) ps" and s': "s' = foldl effect s (map (bound_effect given) ps)"
    by simp_all
  have "\<exists>p \<in> set ps. ip_property p \<noteq> [] \<and> f = param_filter p (fi_value f)
      \<and> (ip_type p \<noteq> ''enum_ref'' \<or> ip_allowed p = None \<or> fi_value f \<in> set (the (ip_allowed p)))"
    if f: "f \<in> set ?new" for f
  proof -
    from f obtain p where p: "p \<in> set ps" "f \<in> set (fst (bound_effect given p))" by auto
    with b obtain v where "param_accepts p v" "f \<in> set (fst (param_effect p v))"
      by (auto simp: list_all_iff binds_def bound_effect_def split: option.splits)
    from param_effect_filter [OF this] p(1) show ?thesis
      by (cases "ip_allowed p") (auto simp: param_filter_def intro!: bexI [of _ p])
  qed
  then have "list_all (\<lambda>f. list_ex (\<lambda>p. ip_property p \<noteq> [] \<and> f = param_filter p (fi_value f)
      \<and> (ip_type p \<noteq> ''enum_ref'' \<or> ip_allowed p = None
          \<or> fi_value f \<in> set (the (ip_allowed p)))) ps) ?new"
    unfolding list_all_iff list_ex_iff by blast
  moreover have "s' = s\<lparr>q_filters := q_filters s @ ?new, q_limit := q_limit s'\<rparr>"
    by (simp add: s' fold_effect)
  ultimately show ?thesis using bound_limit [OF assms] by blast
qed

definition sample_param :: IntentParameter where
  "sample_param = \<lparr>ip_name = ''status'', ip_type = ''enum_ref'', ip_property = ''Order.Status'',
     ip_op = [], ip_default = JNull, ip_optional = False, ip_description = [], ip_fuzzy = False,
     ip_allowed = Some [''Open'', ''Closed'']\<rparr>"

lemma bound_spec_is_declared_witness:
  "\<exists>s' new. BindIntentParams empty_spec [(''status'', JStr '' open'')] [sample_param] = (s', None)
    \<and> s' = empty_spec\<lparr>q_filters := new, q_limit := q_limit s'\<rparr>
    \<and> new = [\<lparr>fi_prop = ''Order.Status'', fi_op = ''='', fi_value = ''Open'', fi_fuzzy = False\<rparr>]"
proof -
  have eq: "BindIntentParams empty_spec [(''status'', JStr '' open'')] [sample_param]
    = (empty_spec\<lparr>q_filters := [\<lparr>fi_prop = ''Order.Status'', fi_op = ''='', fi_value = ''Open'',
         fi_fuzzy = False\<rparr>]\<rparr>, None)" by code_simp
  from bound_spec_is_declared [OF this] eq show ?thesis by (auto simp: empty_spec_def)
qed

section \<open>The dry run\<close>

text \<open>What the final spec is, for a spec without group-by, order and share column.\<close>

definition bare :: "QuerySpec \<Rightarrow> bool" where
  "bare s \<longleftrightarrow> q_groupBy s = [] \<and> q_orderBy s = [] \<and> q_metric s = [] \<and> q_metricFilter s = None
     \<and> \<not> q_addShareColumn s \<and> 0 \<le> q_limit s"

definition applied :: "IntentHint \<Rightarrow> QuerySpec \<Rightarrow> QuerySpec" where
  "applied h s = hint_group h (hint_base h s)"

lemma applied_metric_orderBy:
  assumes "bare s" "bare t"
  shows "q_metric (applied h s) = q_metric (applied h t)"
    "q_orderBy (applied h s) = q_orderBy (applied h t)"
    "q_metricFilter (applied h s) = None" "0 \<le> q_limit (applied h s)"
  using assms
  by (auto simp: applied_def frame hint_base_def hint_metric_def hint_orderBy_def hint_limit_def
      Let_def hint_filters_fst bare_def hint_group_def hint_replace_fst hint_inject_fst)

lemma HasGroupBy_empty: "q_groupBy s = [] \<Longrightarrow> \<not> HasGroupBy s g"
  by (simp add: HasGroupBy_def Let_def)

lemma applied_groupBy:
  assumes "bare s"
  shows "set (q_groupBy (applied h s)) =
    (if ih_autoGroupBy h = [] then {}
     else if ih_replaceGroupBy h then set (foldl add_token [] (ih_autoGroupBy h))
     else set (ih_autoGroupBy h))"
proof -
  have b: "q_groupBy (hint_base h s) = []" "\<not> q_addShareColumn (hint_base h s)"
    using assms by (simp_all add: hint_base_parts bare_def)
  then show ?thesis
    by (auto simp: applied_def hint_group_def hint_replace_fst hint_inject_fst Let_def moved_def
        fresh_def HasGroupBy_empty)
qed

lemma applied_filters:
  assumes "bare s"
  shows "q_filters (applied h s) =
    filter (\<lambda>f. \<not> (filter_key f \<in> CanonicalPropKey ` set (ih_autoGroupBy h) \<and> isEqualityOp (fi_op f)))
      (foldl add_filter (q_filters s) (ih_canonicalFilters h))"
proof -
  have b: "q_groupBy (hint_base h s) = []" using assms by (simp add: hint_base_parts bare_def)
  have "filter (\<lambda>f. \<not> (filter_key f \<in> CanonicalPropKey ` set (moved h (hint_base h s))
          \<and> isEqualityOp (fi_op f))) (q_filters (hint_base h s))
      = filter (\<lambda>f. \<not> (filter_key f \<in> CanonicalPropKey ` set (ih_autoGroupBy h)
          \<and> isEqualityOp (fi_op f))) (q_filters (hint_base h s))"
  proof (rule filter_cong)
    fix f assume f: "f \<in> set (q_filters (hint_base h s))"
    have "filter_key f \<in> CanonicalPropKey ` set (moved h (hint_base h s))"
      if "isEqualityOp (fi_op f)" "filter_key f = CanonicalPropKey g" "g \<in> set (ih_autoGroupBy h)" for g
    proof -
      have "g \<in> set (moved h (hint_base h s))"
        using f that by (auto simp: moved_def HasGroupBy_empty [OF b] intro!: image_eqI [of _ _ f])
      with that(2) show ?thesis by auto
    qed
    then show "(\<not> (filter_key f \<in> CanonicalPropKey ` set (moved h (hint_base h s))
          \<and> isEqualityOp (fi_op f)))
        = (\<not> (filter_key f \<in> CanonicalPropKey ` set (ih_autoGroupBy h) \<and> isEqualityOp (fi_op f)))"
      by (auto simp: moved_def)
  qed simp
  then show ?thesis
    by (auto simp: applied_def hint_group_def hint_replace_fst hint_inject_fst Let_def hint_base_parts)
qed

definition filter_ok :: "FilterItem \<Rightarrow> bool" where
  "filter_ok f \<longleftrightarrow> trim_space (fi_prop f) \<noteq> [] \<and> trim_space (fi_op f) \<in> set validOpSet"

text \<open>A bare spec is accepted as soon as another one is whose filters cover its own.\<close>

lemma accepted_bare:
  assumes "bare s" "bare t" "q_intentHint s = Some h" "q_intentHint t = Some h"
    and acc: "snd (Run DefaultPipeline t) = None"
    and cov: "\<And>f. f \<in> set (q_filters s) \<Longrightarrow>
        \<exists>f' \<in> set (q_filters t). fi_prop f' = fi_prop f \<and> fi_op f' = fi_op f"
    and can: "list_all filter_ok (ih_canonicalFilters h)"
  shows "snd (Run DefaultPipeline s) = None"
proof -
  have r: "fst (applyIntentHint u (q_intentHint u)) = applied h u" if "q_intentHint u = Some h" for u
    using that by (simp add: applyIntentHint_fst applied_def)
  have t: "q_metric (applied h t) \<noteq> [] \<or> q_groupBy (applied h t) \<noteq> []" "spec_ok (applied h t)"
    using pipeline_accepts_exactly_helper [of t] acc r [OF assms(4)] by (auto simp: Let_def)
  have g: "set (q_groupBy (applied h s)) = set (q_groupBy (applied h t))"
    using applied_groupBy [OF assms(1)] applied_groupBy [OF assms(2)] by simp
  have "filter_ok f" if f: "f \<in> set (q_filters (applied h s))" for f
  proof -
    from f have "f \<in> set (q_filters s) \<union> set (ih_canonicalFilters h)"
      using canonical.set_fold [of "q_filters s" "ih_canonicalFilters h"]
      by (auto simp: applied_filters [OF assms(1)])
    then show ?thesis
    proof
      assume "f \<in> set (q_filters s)"
      then obtain f' where f': "f' \<in> set (q_filters t)" "fi_prop f' = fi_prop f" "fi_op f' = fi_op f"
        using cov by blast
      obtain zs where "foldl add_filter (q_filters t) (ih_canonicalFilters h) = q_filters t @ zs"
        using canonical.fold_prefix by blast
      with f f' have "f' \<in> set (q_filters (applied h t))"
        by (auto simp: applied_filters [OF assms(1)] applied_filters [OF assms(2)] filter_key_def)
      with t(2) f' show ?thesis by (auto simp: spec_ok_def list_all_iff filter_ok_def)
    qed (use can in \<open>simp add: list_all_iff\<close>)
  qed
  moreover have "q_groupBy (applied h s) = [] \<longleftrightarrow> q_groupBy (applied h t) = []"
    using g by (metis set_empty)
  ultimately have "(q_metric (applied h s) \<noteq> [] \<or> q_groupBy (applied h s) \<noteq> [])
      \<and> spec_ok (applied h s)"
    using t g applied_metric_orderBy [OF assms(1,2)]
    by (auto simp: spec_ok_def filter_ok_def list_all_iff)
  then show ?thesis using pipeline_accepts_exactly_helper [of s] r [OF assms(3)] by (auto simp: Let_def)
qed

lemma map_of_dummy:
  assumes "p \<in> set ps"
  shows "\<exists>v. raw_value (dummy_params ps) p = Some v"
proof -
  have "ip_name p \<in> fst ` set (dummy_params ps)" using assms by (force simp: dummy_params_def)
  then obtain v where "map_of (dummy_params ps) (ip_name p) = Some v"
    by (auto simp: map_of_eq_None_iff [symmetric] dest: weak_map_of_SomeI
        intro: option.exhaust [of "map_of (dummy_params ps) (ip_name p)"])
  then show ?thesis by (simp add: raw_value_def)
qed

lemma bound_filters_cover:
  assumes given: "list_all (binds given) ps" and dummy: "list_all (binds (dummy_params ps)) ps"
    and f: "f \<in> set (concat (map fst (map (bound_effect given) ps)))"
  shows "\<exists>f' \<in> set (concat (map fst (map (bound_effect (dummy_params ps)) ps))).
    fi_prop f' = fi_prop f \<and> fi_op f' = fi_op f"
proof -
  from f obtain p where p: "p \<in> set ps" "f \<in> set (fst (bound_effect given p))" by auto
  with given obtain v where v: "param_accepts p v" "f \<in> set (fst (param_effect p v))"
    by (auto simp: list_all_iff binds_def bound_effect_def split: option.splits)
  obtain w where w: "raw_value (dummy_params ps) p = Some w" using map_of_dummy [OF p(1)] by blast
  with dummy p(1) have pw: "param_accepts p w" by (auto simp: list_all_iff binds_def)
  let ?a = "fst (param_effect p v)" and ?b = "fst (param_effect p w)"
  have eq: "map fi_prop ?a = map fi_prop ?b" "map fi_op ?a = map fi_op ?b"
    using param_effect_keys [OF v(1) pw] by auto
  from v(2) obtain n where n: "n < length ?a" "?a ! n = f" by (auto simp: in_set_conv_nth)
  with eq have "n < length ?b" "fi_prop (?b ! n) = fi_prop f" "fi_op (?b ! n) = fi_op f"
    by (metis length_map, metis length_map nth_map, metis length_map nth_map)
  moreover from this(1) have "?b ! n \<in> set (concat (map fst (map (bound_effect (dummy_params ps)) ps)))"
    using p(1) w by (auto simp: bound_effect_def intro!: bexI [of _ p])
  ultimately show ?thesis by blast
qed

lemma base_bare: "bare (BuildBaseSpecFromHint h obj)"
  by (simp add: bare_def BuildBaseSpecFromHint_def empty_spec_def)

lemma bound_bare:
  assumes "BindIntentParams (BuildBaseSpecFromHint h obj) given ps = (s, None)"
  shows "bare s" "q_intentHint s = Some h"
    "q_filters s = concat (map fst (map (bound_effect given) ps))"
proof -
  from bind_accepts_exactly_helper [OF assms]
  have "s = foldl effect (BuildBaseSpecFromHint h obj) (map (bound_effect given) ps)" by simp
  then have s: "s = (BuildBaseSpecFromHint h obj)\<lparr>
      q_filters := concat (map fst (map (bound_effect given) ps)), q_limit := q_limit s\<rparr>"
    by (simp add: fold_effect BuildBaseSpecFromHint_def empty_spec_def)
  have "0 \<le> q_limit s"
    using bound_limit [OF assms] by (auto simp: BuildBaseSpecFromHint_def empty_spec_def)
  with s base_bare [of h obj] show "bare s"
    unfolding bare_def by (metis QuerySpec.select_convs QuerySpec.update_convs QuerySpec.surjective)
  from s show "q_intentHint s = Some h"
    by (metis BuildBaseSpecFromHint_def QuerySpec.select_convs(14) QuerySpec.surjective
        QuerySpec.update_convs)
  from s show "q_filters s = concat (map fst (map (bound_effect given) ps))"
    by (metis QuerySpec.select_convs(5) QuerySpec.surjective QuerySpec.update_convs(5,7))
qed

text \<open>C29: The dry run is a guarantee for run time: if it accepts an intent whose canonical filters are
  well-formed, then whatever parameters a caller gives, either binding rejects them or the bound
  spec passes the default pipeline.\<close>

theorem dry_run_guarantees_run_time:
  assumes "vr_ok (ValidateIntentDryRun i)"
    and "list_all (\<lambda>f. trim_space (fi_prop f) \<noteq> [] \<and> trim_space (fi_op f) \<in> set validOpSet)
      (iv_canonicalFilters i)"
    and "BindIntentParams (BuildBaseSpecFromHint (input_hint i) (iv_objectName i)) given
      (iv_parameters i) = (s, None)"
  shows "snd (Run DefaultPipeline s) = None"
proof -
  let ?h = "input_hint i" and ?ps = "iv_parameters i"
  let ?base = "BuildBaseSpecFromHint ?h (iv_objectName i)"
  from assms(1) obtain t where t: "BindIntentParams ?base (dummy_params ?ps) ?ps = (t, None)"
    and acc: "snd (Run DefaultPipeline t) = None"
    by (auto simp: ValidateIntentDryRun_def Let_def
        split: if_splits prod.splits option.splits pipeline_error.splits)
  note sb = bound_bare [OF assms(3)] and tb = bound_bare [OF t]
  show ?thesis
  proof (rule accepted_bare [OF sb(1) tb(1) sb(2) tb(2) acc])
    show "\<exists>f' \<in> set (q_filters t). fi_prop f' = fi_prop f \<and> fi_op f' = fi_op f"
      if "f \<in> set (q_filters s)" for f
      using that unfolding sb(3) tb(3)
      by (rule bound_filters_cover [OF conjunct1 [OF bind_accepts_exactly_helper [OF assms(3)]]
            conjunct1 [OF bind_accepts_exactly_helper [OF t]]])
    show "list_all filter_ok (ih_canonicalFilters ?h)"
      using assms(2) by (simp add: input_hint_def empty_hint_def filter_ok_def list_all_iff)
  qed
qed

definition sample_input :: IntentValidationInput where
  "sample_input = \<lparr>iv_name = ''open orders'', iv_objectName = ''Order'', iv_canonicalMetric = [],
     iv_canonicalFilters = [\<lparr>fi_prop = ''Kind'', fi_op = ''<>'', fi_value = ''test'', fi_fuzzy = False\<rparr>],
     iv_autoGroupBy = [''Region''], iv_replaceGroupBy = False, iv_defaultOrderByLabel = [],
     iv_defaultOrderByDir = [], iv_defaultLimit = 0,
     iv_parameters = [sample_param\<lparr>ip_allowed := None\<rparr>]\<rparr>"

lemma dry_run_guarantees_run_time_witness:
  "vr_ok (ValidateIntentDryRun sample_input)
   \<and> snd (Run DefaultPipeline (fst (BindIntentParams
       (BuildBaseSpecFromHint (input_hint sample_input) ''Order'')
       [(''status'', JStr ''Open'')] (iv_parameters sample_input)))) = None"
proof
  show ok: "vr_ok (ValidateIntentDryRun sample_input)" by code_simp
  let ?b = "BindIntentParams (BuildBaseSpecFromHint (input_hint sample_input) ''Order'')
    [(''status'', JStr ''Open'')] (iv_parameters sample_input)"
  have "snd ?b = None" by code_simp
  then have "BindIntentParams (BuildBaseSpecFromHint (input_hint sample_input)
      (iv_objectName sample_input)) [(''status'', JStr ''Open'')] (iv_parameters sample_input)
      = (fst ?b, None)"
    by (simp add: sample_input_def prod_eq_iff)
  from dry_run_guarantees_run_time [OF ok _ this]
  show "snd (Run DefaultPipeline (fst ?b)) = None" by (simp add: sample_input_def) code_simp
qed

text \<open>
  Without the condition on the canonical filters the guarantee fails: an optional parameter on the
  same property hides a malformed canonical filter from the dry run; a caller that omits the
  parameter meets it.
\<close>

definition shadowed_input :: IntentValidationInput where
  "shadowed_input = sample_input\<lparr>
     iv_canonicalFilters := [\<lparr>fi_prop = ''Status'', fi_op = ''~'', fi_value = [], fi_fuzzy = False\<rparr>],
     iv_parameters := [sample_param\<lparr>ip_allowed := None, ip_optional := True\<rparr>]\<rparr>"

lemma dry_run_misses_shadowed_filter:
  "vr_ok (ValidateIntentDryRun shadowed_input)
   \<and> snd (BindIntentParams (BuildBaseSpecFromHint (input_hint shadowed_input) ''Order'') []
        (iv_parameters shadowed_input)) = None
   \<and> snd (Run DefaultPipeline (BuildBaseSpecFromHint (input_hint shadowed_input) ''Order''))
       = Some (PassFailed 2 \<lparr>re_code = ''SPEC_VALIDATION_FAILED'', re_name = [],
           re_errors = [FilterBadOp 0 ''Status'' ''~'']\<rparr>)"
  by code_simp

text \<open>An order direction other than ASC and DESC is replaced, not reported.\<close>

lemma dry_run_accepts_any_direction:
  "vr_ok (ValidateIntentDryRun (sample_input\<lparr>iv_defaultOrderByLabel := ''Region'',
     iv_defaultOrderByDir := ''sideways''\<rparr>))"
  by code_simp

end
