(* ===== verification/Query_Normalize.thy ===== *)
theory Query_Normalize
  imports Query_Passes_Props
begin

text \<open>
  \<open>NormalizeQuerySpec\<close> (\<open>smartquery/engine.go\<close>): from the tool-call arguments of the language
  model, a decoded JSON object, to a \<open>QuerySpec\<close>. A type assertion that fails leaves the field at
  its default, as in the code; a missing map entry is \<open>nil\<close>.
\<close>

section \<open>Operators and string filters\<close>

definition normalizeOperator :: "string \<Rightarrow> string" where
  "normalizeOperator op =
     (let o1 = to_lower (trim_space op) in
      if o1 \<in> set [''equal'', ''equals'', ''eq'', ''==''] then ''=''
      else if o1 \<in> set [''not equal'', ''neq'', ''ne'', ''!='', ''<>''] then ''<>''
      else if o1 \<in> set [''gte'', ''greater than or equal''] then ''>=''
      else if o1 \<in> set [''lte'', ''less than or equal''] then ''<=''
      else if o1 \<in> set [''gt'', ''greater than''] then ''>''
      else if o1 \<in> set [''lt'', ''less than''] then ''<''
      else if o1 \<in> set [''contains'', ''includes'', ''contains string''] then ''contains''
      else if o1 = ''like'' then ''like''
      else if o1 \<in> set [''not contains'', ''not like'', ''doesnt contain'',
                         ''doesn'' @ [CHR 0x27] @ ''t contain''] then ''not contains''
      else if o1 \<in> set [''starts with'', ''startswith''] then ''starts with''
      else if o1 \<in> set [''ends with'', ''endswith''] then ''ends with''
      else if o1 = ''in'' then ''in''
      else if o1 = ''not in'' then ''not in''
      else if o1 \<in> set [''is blank'', ''is empty'', ''is null'', ''isnull''] then ''is blank''
      else if o1 \<in> set [''is not blank'', ''is not empty'', ''is not null'', ''isnotnull'']
      then ''is not blank''
      else if o1 = ''between'' then ''between''
      else if o1 = ''regex'' then ''regex''
      else op)"

definition quoted_by :: "char \<Rightarrow> string \<Rightarrow> bool" where
  "quoted_by q v \<longleftrightarrow> hd v = q \<and> last v = q"

definition unquote :: "string \<Rightarrow> string" where
  "unquote v =
     (if 2 \<le> length v \<and> (quoted_by (CHR 0x27) v \<or> quoted_by (CHR 0x22) v) then butlast (tl v) else v)"

fun parse_ops :: "string list \<Rightarrow> string \<Rightarrow> FilterItem option" where
  "parse_ops [] s = None"
| "parse_ops (op # ops) s =
     (case index_of s op of
        None \<Rightarrow> parse_ops ops s
      | Some idx \<Rightarrow>
          let prop = trim_space (take idx s);
              val = unquote (trim_space (drop (idx + length op) s))
          in if prop = [] \<or> val = [] then parse_ops ops s
             else Some \<lparr>fi_prop = prop, fi_op = op, fi_value = val, fi_fuzzy = False\<rparr>)"

definition parseStringFilterItemNorm :: "string \<Rightarrow> FilterItem option" where
  "parseStringFilterItemNorm s =
     parse_ops [''>='', ''<='', ''!='', ''>'', ''<'', ''=''] (trim_space s)"

section \<open>The fields\<close>

type_synonym jobj = "(string \<times> json) list"

text \<open>The first of several keys that holds a non-empty string.\<close>

definition first_string :: "string list \<Rightarrow> jobj \<Rightarrow> string" where
  "first_string keys m =
     (case find (\<lambda>k. str_or_empty (map_of m k) \<noteq> []) keys of
        None \<Rightarrow> [] | Some k \<Rightarrow> str_or_empty (map_of m k))"

definition propKeys :: "string list" where
  "propKeys = [''prop'', ''property'', ''field'', ''column'']"

definition strip_od :: "string \<Rightarrow> string" where
  "strip_od s = (case split_first CHR ''.'' s of Some (_, rest) \<Rightarrow> rest | None \<Rightarrow> s)"

definition arr_of :: "jobj \<Rightarrow> string \<Rightarrow> json list" where
  "arr_of m k = (case as_arr (map_of m k) of Some xs \<Rightarrow> xs | None \<Rightarrow> [])"

definition nil_or :: "json option \<Rightarrow> json" where
  "nil_or v = (case v of None \<Rightarrow> JNull | Some x \<Rightarrow> x)"

definition norm_filter :: "json \<Rightarrow> FilterItem list" where
  "norm_filter f =
     (case f of
        JObj fm \<Rightarrow>
          (let prop = first_string propKeys fm;
               op = normalizeOperator (first_string [''op'', ''operator'', ''condition''] fm);
               op = (if op = [] \<or> op = ''<nil>'' then ''='' else op);
               val = fmt_v (nil_or (map_of fm ''value''))
           in if prop \<noteq> []
              then [\<lparr>fi_prop = prop, fi_op = op, fi_value = val,
                     fi_fuzzy = bool_or_false (map_of fm ''fuzzyMatch'')\<rparr>]
              else [])
      | JStr fs \<Rightarrow>
          (if fs \<noteq> [] then
             (case parseStringFilterItemNorm fs of Some item \<Rightarrow> [item] | None \<Rightarrow> [])
           else [])
      | _ \<Rightarrow> [])"

definition norm_orderBy :: "json \<Rightarrow> OrderByItem list" where
  "norm_orderBy v =
     (case v of
        JObj om \<Rightarrow>
          (let dir = to_upper (first_string [''dir'', ''order'', ''direction''] om);
               dir = (if dir \<noteq> ''ASC'' \<and> dir \<noteq> ''DESC'' then ''DESC'' else dir);
               prop = strip_od (stripAggWrapper (first_string propKeys om))
           in if prop \<noteq> [] then [\<lparr>ob_prop = prop, ob_dir = dir\<rparr>] else [])
      | _ \<Rightarrow> [])"

definition norm_limit :: "int \<Rightarrow> json option \<Rightarrow> int" where
  "norm_limit d v = (case as_num v of Some lv \<Rightarrow> if 0 < lv then float_to_int lv else d | None \<Rightarrow> d)"

definition norm_derived :: "json option \<Rightarrow> DerivedMetricDef list" where
  "norm_derived v =
     (case as_obj v of
        None \<Rightarrow> []
      | Some d \<Rightarrow>
          (let name = str_or_empty (map_of d ''name''); expr = str_or_empty (map_of d ''expression'')
           in if name \<noteq> [] \<and> expr \<noteq> []
              then [\<lparr>dm_name = name, dm_expression = expr,
                     dm_baseTable = str_or_empty (map_of d ''baseTable'')\<rparr>]
              else []))"

definition norm_canonical :: "json \<Rightarrow> FilterItem list" where
  "norm_canonical item =
     (case item of
        JObj fm \<Rightarrow>
          (let prop = str_or_empty (map_of fm ''prop''); op = str_or_empty (map_of fm ''op'')
           in if prop \<noteq> []
              then [\<lparr>fi_prop = prop, fi_op = (if op = [] then ''='' else op),
                     fi_value = str_or_empty (map_of fm ''value''), fi_fuzzy = False\<rparr>]
              else [])
      | _ \<Rightarrow> [])"

definition norm_hint :: "json option \<Rightarrow> IntentHint option" where
  "norm_hint v =
     (case as_obj v of
        None \<Rightarrow> None
      | Some ih \<Rightarrow>
          let hint = \<lparr>ih_intentID = str_or_empty (map_of ih ''intentId''),
                ih_name = str_or_empty (map_of ih ''name''),
                ih_canonicalMetric = str_or_empty (map_of ih ''canonicalMetric''),
                ih_canonicalFilters = concat (map norm_canonical (arr_of ih ''canonicalFilters'')),
                ih_autoGroupBy = map fmt_v (arr_of ih ''autoGroupBy''),
                ih_replaceGroupBy = bool_or_false (map_of ih ''replaceGroupBy''),
                ih_addShareColumnSafe = bool_or_false (map_of ih ''addShareColumnSafe''),
                ih_defaultOrderByLabel = str_or_empty (map_of ih ''defaultOrderByLabel''),
                ih_defaultOrderByDir = str_or_empty (map_of ih ''defaultOrderByDir''),
                ih_defaultLimit = norm_limit 0 (map_of ih ''defaultLimit'')\<rparr>
          in if ih_intentID hint \<noteq> [] \<or> ih_canonicalMetric hint \<noteq> [] \<or> ih_autoGroupBy hint \<noteq> []
               \<or> ih_defaultOrderByLabel hint \<noteq> [] \<or> 0 < ih_defaultLimit hint
               \<or> ih_canonicalFilters hint \<noteq> []
             then Some hint else None)"

definition norm_metricFilter :: "json option \<Rightarrow> MetricFilter option" where
  "norm_metricFilter v =
     (case as_obj v of
        None \<Rightarrow> None
      | Some mf \<Rightarrow>
          let op = str_or_empty (map_of mf ''op'');
              val = str_or_empty (map_of mf ''value'');
              val = (if val = [] then
                       (case as_num (map_of mf ''value'') of Some r \<Rightarrow> show_g r | None \<Rightarrow> val)
                     else val)
          in if op \<noteq> [] \<and> val \<noteq> [] then Some \<lparr>mf_op = op, mf_value = val\<rparr> else None)"

definition NormalizeQuerySpec :: "jobj \<Rightarrow> QuerySpec" where
  "NormalizeQuerySpec raw =
     empty_spec\<lparr>
       q_objects := map fmt_v (arr_of raw ''objects''),
       q_metric := (case as_str (map_of raw ''metric'') of Some m \<Rightarrow> stripAggWrapper m | None \<Rightarrow> []),
       q_groupBy := map (\<lambda>g. strip_od (fmt_v g)) (arr_of raw ''groupBy''),
       q_filters := concat (map norm_filter (arr_of raw ''filters'')),
       q_orderBy := concat (map norm_orderBy (arr_of raw ''orderBy'')),
       q_limit := norm_limit 1000 (map_of raw ''limit''),
       q_displayMode := (let dm = str_or_empty (map_of raw ''displayMode'')
                         in if dm \<noteq> [] then dm else ''table''),
       q_derived := norm_derived (map_of raw ''derivedMetric''),
       q_denseGroups := as_bool (map_of raw ''denseGroups''),
       q_addShareColumn := bool_or_false (map_of raw ''addShareColumn''),
       q_shareLabel := trim_space (str_or_empty (map_of raw ''shareLabel'')),
       q_intentHint := norm_hint (map_of raw ''intentHint''),
       q_metricFilter := norm_metricFilter (map_of raw ''metricFilter'')\<rparr>"

section \<open>Properties\<close>

text \<open>Normalisation repairs what it can: whatever the arguments, every order item of the spec has a
  property and the direction ASC or DESC, every filter has a property and an operator, a metric
  filter has an operator and a value, and every derived metric a name and an expression.\<close>

theorem normalized_spec_is_repaired:
  "let s = NormalizeQuerySpec raw
   in list_all (\<lambda>ob. ob_prop ob \<noteq> [] \<and> ob_dir ob \<in> {''ASC'', ''DESC''}) (q_orderBy s)
      \<and> list_all (\<lambda>f. fi_prop f \<noteq> [] \<and> fi_op f \<noteq> []) (q_filters s)
      \<and> (case q_metricFilter s of None \<Rightarrow> True | Some mf \<Rightarrow> mf_op mf \<noteq> [] \<and> mf_value mf \<noteq> [])
      \<and> list_all (\<lambda>d. dm_name d \<noteq> [] \<and> dm_expression d \<noteq> []) (q_derived s)"
proof -
  have ob: "list_all (\<lambda>ob. ob_prop ob \<noteq> [] \<and> ob_dir ob \<in> {''ASC'', ''DESC''}) (norm_orderBy v)" for v
    by (simp add: norm_orderBy_def Let_def split: json.splits)
  have ops: "parse_ops os t = Some f \<Longrightarrow> list_all (\<lambda>x. x \<noteq> []) os \<Longrightarrow> fi_prop f \<noteq> [] \<and> fi_op f \<noteq> []"
    for os t f
    by (induction os t rule: parse_ops.induct) (auto simp: Let_def split: option.splits if_splits)
  have fi: "list_all (\<lambda>f. fi_prop f \<noteq> [] \<and> fi_op f \<noteq> []) (norm_filter v)" for v
    by (auto simp: norm_filter_def Let_def parseStringFilterItemNorm_def split: json.splits option.splits
        dest: ops)
  have mf: "case norm_metricFilter v of None \<Rightarrow> True | Some mf \<Rightarrow> mf_op mf \<noteq> [] \<and> mf_value mf \<noteq> []" for v
    by (simp add: norm_metricFilter_def Let_def split: option.splits)
  have dm: "list_all (\<lambda>d. dm_name d \<noteq> [] \<and> dm_expression d \<noteq> []) (norm_derived v)" for v
    by (simp add: norm_derived_def Let_def split: option.splits)
  show ?thesis
    using ob fi mf dm by (simp add: NormalizeQuerySpec_def empty_spec_def Let_def list_all_iff)
qed

text \<open>A string filter with \<open>!=\<close> keeps that operator, which validation refuses.\<close>

lemma string_not_equal_is_rejected:
  "parseStringFilterItemNorm ''status != open''
     = Some \<lparr>fi_prop = ''status'', fi_op = ''!='', fi_value = ''open'', fi_fuzzy = False\<rparr>
   \<and> filter_problem 0 \<lparr>fi_prop = ''status'', fi_op = ''!='', fi_value = ''open'', fi_fuzzy = False\<rparr>
     = [FilterBadOp 0 ''status'' ''!='']"
  by code_simp

text \<open>An operator inside the quoted value is taken for the operator of the filter.\<close>

lemma operator_inside_value:
  "parseStringFilterItemNorm ''name = a>b''
     = Some \<lparr>fi_prop = ''name = a'', fi_op = ''>'', fi_value = ''b'', fi_fuzzy = False\<rparr>"
  by code_simp

text \<open>A positive limit below one is truncated to 0, which means no limit at all.\<close>

lemma fractional_limit_is_no_limit: "norm_limit 1000 (Some (JNum (1 / 2))) = 0"
  by (simp add: norm_limit_def as_num_def float_to_int_def trunc_def int64_min_def int64_max_def
      floor_eq_iff)

text \<open>The digits of a large number: the exponent form is inevitable from a million on.\<close>

lemma length_show_nat: "10 ^ k \<le> n \<Longrightarrow> k < length (show_nat n)"
proof (induction k arbitrary: n)
  case 0
  show ?case by (subst show_nat.simps) simp
next
  case (Suc k)
  then have n2: "10 ^ k \<le> n div 10" by (auto simp: less_eq_div_iff_mult_less_eq)
  moreover have "(1::nat) \<le> 10 ^ k" by simp
  ultimately have n1: "10 \<le> n" by linarith
  note n = n1 n2
  with Suc.IH [of "n div 10"] show ?case by (subst show_nat.simps) simp
qed

lemma dec_parts_floor: "fst (dec_parts r) = nat \<lfloor>r\<rfloor>"
  by (simp add: dec_parts_def rat_floor_code Let_def split: prod.split)

lemma show_g_exponent:
  assumes "10 ^ 6 \<le> r"
  shows "CHR ''e'' \<in> set (show_g r)"
proof -
  obtain ip fs where d: "dec_parts \<bar>r\<bar> = (ip, fs)" by fastforce
  have "10 ^ 6 \<le> ip"
    using assms dec_parts_floor [of "\<bar>r\<bar>"] d by (simp add: le_nat_iff le_floor_iff)
  then have "6 < length (show_nat ip)" by (rule length_show_nat)
  moreover have "0 < ip" using \<open>10 ^ 6 \<le> ip\<close> by simp
  moreover have "r \<noteq> 0" using assms by auto
  ultimately show ?thesis by (simp add: show_g_def d Let_def show_exp_def)
qed

lemma trim_space_keeps: "\<not> is_space_char c \<Longrightarrow> c \<in> set s \<Longrightarrow> c \<in> set (trim_space s)"
proof -
  have dw: "\<not> p c \<Longrightarrow> c \<in> set t \<Longrightarrow> c \<in> set (dropWhile p t)" for p t
    by (induction t) auto
  assume "\<not> is_space_char c" "c \<in> set s"
  then show ?thesis
    by (simp add: trim_space_def trim_right_def trim_left_def dw)
qed

lemma numeric_literal_chars:
  "numeric_literal v \<Longrightarrow> c \<in> set v \<Longrightarrow> is_digit c \<or> c = CHR ''-'' \<or> c = CHR ''.''"
  by (auto simp: numeric_literal_def list_all_iff)

text \<open>A numeric threshold of a million or more never survives: the verb \<open>%g\<close> renders it with an
  exponent, and the metric filter pattern accepts plain decimal literals only, so the spec made
  from \<open>{"metricFilter": {"op": op, "value": r}}\<close> fails validation for every such \<open>r\<close>.\<close>

theorem large_metric_filters_are_rejected:
  assumes "10 ^ 6 \<le> r" "op \<noteq> []"
    "map_of raw ''metricFilter'' = Some (JObj [(''op'', JStr op), (''value'', JNum r)])"
  shows "\<exists>e. snd (PassValidateSpec (NormalizeQuerySpec raw)) = Some e
    \<and> MetricFilterBadValue (show_g r) \<in> set (re_errors e)"
proof -
  have g: "CHR ''e'' \<in> set (show_g r)" by (rule show_g_exponent [OF assms(1)])
  then have ne: "show_g r \<noteq> []" by auto
  have "q_metricFilter (NormalizeQuerySpec raw) = Some \<lparr>mf_op = op, mf_value = show_g r\<rparr>"
    using assms(2,3) ne
    by (simp add: NormalizeQuerySpec_def norm_metricFilter_def as_obj_def as_num_def Let_def)
  moreover have "CHR ''e'' \<in> set (trim_space (show_g r))" using g by (rule trim_space_keeps [rotated]) simp
  then have "\<not> numeric_literal (trim_space (show_g r))"
    using numeric_literal_chars [of "trim_space (show_g r)" "CHR ''e''"] by (auto simp: is_digit_def)
  ultimately have "MetricFilterBadValue (show_g r) \<in> set (spec_problems (NormalizeQuerySpec raw))"
    by (simp add: spec_problems_def metricFilter_problems_def MatchString_metricFilterValue)
  then show ?thesis by (auto simp: PassValidateSpec_def Let_def)
qed

lemma large_metric_filters_are_rejected_witness:
  "\<exists>e. snd (PassValidateSpec (NormalizeQuerySpec
       [(''metricFilter'', JObj [(''op'', JStr ''>''), (''value'', JNum 2000000)])])) = Some e
     \<and> MetricFilterBadValue (show_g 2000000) \<in> set (re_errors e)"
  by (rule large_metric_filters_are_rejected [of _ "''>''"]) simp_all

end
