(* ===== verification/Sql_Types.thy ===== *)
theory Sql_Types
  imports Query_Types
begin

text \<open>
  The resolved query the SQL builders of \<open>lakehouse\<close> work on (\<open>types.go\<close> and the resolved types
  of \<open>pkg/contracts\<close>), the numeric and date type tests of \<open>resolve.go\<close>, and the quoting helpers of
  \<open>sql_builder.go\<close>. \<open>sq\<close> and \<open>dq\<close> are the single and the double quote.
\<close>

section \<open>Data\<close>

record PropertyInfo =
  pi_name :: string
  pi_dataType :: string
  pi_tableName :: string
  pi_columnName :: string
  pi_objectName :: string
  pi_objectID :: string

record ResolvedFilter =
  rf_prop :: PropertyInfo
  rf_op :: string
  rf_value :: string
  rf_originalValue :: string
  rf_fuzzy :: bool

record ResolvedGroupBy =
  gb_prop :: PropertyInfo
  gb_granularity :: string
  gb_outputLabel :: string
  gb_originalToken :: string

text \<open>The kinds of \<open>pkg/contracts\<close> with the one \<open>lakehouse\<close> adds.\<close>

datatype AggregateKind = AggStandard | AggCountRows | AggDerivedRef | AggCustomSQL

record ResolvedAggregate =
  ag_kind :: AggregateKind
  ag_prop :: "PropertyInfo option"
  ag_func :: string
  ag_label :: string
  ag_expr :: string
  ag_table :: string

datatype OrderByKind = OrderByProp | OrderByAggregate | OrderByCustomLabel

record ResolvedOrderBy =
  or_kind :: OrderByKind
  or_prop :: "PropertyInfo option"
  or_aggIndex :: int
  or_label :: string
  or_dir :: string

record JoinEdge =
  je_fromOd :: string
  je_fromProp :: string
  je_toOd :: string
  je_toProp :: string
  je_cardinality :: string

record ObjectInfo =
  oi_id :: string
  oi_name :: string
  oi_canonicalQuery :: string
  oi_props :: "PropertyInfo list"
  oi_actualColumns :: "string list"
  oi_unmatchedProps :: "string list"

record KeywordCorrection =
  kc_prop :: string
  kc_userValue :: string
  kc_dbValue :: string
  kc_status :: string

record ResolvedLakehouseQuery =
  rq_projectID :: string
  rq_objects :: "ObjectInfo list"
  rq_allProps :: "PropertyInfo list"
  rq_groupByCols :: "ResolvedGroupBy list"
  rq_filterItems :: "ResolvedFilter list"
  rq_aggregates :: "ResolvedAggregate list"
  rq_orderByCols :: "ResolvedOrderBy list"
  rq_derived :: "DerivedMetricDef list"
  rq_metricFilter :: "MetricFilter option"
  rq_keywordCorrections :: "KeywordCorrection list"
  rq_limit :: int
  rq_warnings :: "string list"
  rq_denseGroups :: "bool option"
  rq_addShareColumn :: bool
  rq_shareLabel :: string

definition HasObject :: "ResolvedLakehouseQuery \<Rightarrow> string \<Rightarrow> bool" where
  "HasObject rq name = list_ex (\<lambda>ob. equal_fold (oi_name ob) name) (rq_objects rq)"

section \<open>Type tests and operators\<close>

definition numericTypes :: "string list" where
  "numericTypes =
     [''integer'', ''int'', ''int64'', ''double'', ''decimal'', ''float'', ''number'', ''currency'',
      ''bigint'', ''numeric'', ''real'', ''int2'', ''int4'', ''int8'', ''smallint'', ''float4'',
      ''float8'', ''double precision'', ''money'', ''serial'', ''bigserial'']"

definition isNumericType :: "string \<Rightarrow> bool" where
  "isNumericType dtype =
     (let d = to_lower (trim_space dtype) in
      d \<in> set numericTypes
      \<or> list_ex (has_prefix d) [''numeric('', ''decimal('', ''float('', ''int('']) "

definition isDateType :: "string \<Rightarrow> bool" where
  "isDateType dtype =
     (let d = to_lower dtype in
      d = ''date'' \<or> d = ''datetime'' \<or> d = ''date/time'' \<or> d = ''timestamp'' \<or> contains_str d ''date'')"

definition isValidFilterOp :: "string \<Rightarrow> bool" where
  "isValidFilterOp op =
     (to_lower (trim_space op) \<in> set
        [''='', ''<>'', ''!='', ''>'', ''>='', ''<'', ''<='', ''contains'', ''not contains'',
         ''starts with'', ''ends with'', ''like'', ''not like'', ''is blank'', ''is not blank'',
         ''between'', ''in'', ''not in''])"

section \<open>Quoting\<close>

abbreviation sq :: string where "sq \<equiv> [CHR 0x27]"
abbreviation dq :: string where "dq \<equiv> [CHR 0x22]"

definition quoteIdent :: "string \<Rightarrow> string" where
  "quoteIdent s = dq @ replace_char CHR 0x22 (dq @ dq) s @ dq"

definition quoteColRef :: "string \<Rightarrow> string" where
  "quoteColRef s = quoteIdent s"

definition escapeSQLString :: "string \<Rightarrow> string" where
  "escapeSQLString s = replace_char CHR 0x27 (sq @ sq) s"

definition escapeLikeValue :: "string \<Rightarrow> string" where
  "escapeLikeValue s =
     escapeSQLString
       (replace_char CHR ''_'' [CHR 0x5C, CHR ''_'']
         (replace_char CHR ''%'' [CHR 0x5C, CHR ''%'']
           (replace_char CHR 0x5C [CHR 0x5C, CHR 0x5C] s)))"

definition literal :: "string \<Rightarrow> string" where
  "literal body = sq @ body @ sq"

section \<open>Small expression helpers\<close>

definition sqlAggFunc :: "string \<Rightarrow> string" where
  "sqlAggFunc fn =
     (let f = to_upper fn in
      if f = ''SUM'' then ''SUM''
      else if f = ''AVG'' \<or> f = ''AVERAGE'' then ''AVG''
      else if f = ''MIN'' then ''MIN''
      else if f = ''MAX'' then ''MAX''
      else if f = ''COUNT'' then ''COUNT''
      else ''SUM'')"

definition dateGranularityExpr :: "string \<Rightarrow> string \<Rightarrow> string" where
  "dateGranularityExpr colRef g =
     (let to_char = (\<lambda>f. ''TO_CHAR('' @ colRef @ ''::timestamp, '' @ literal f @ '')'') in
      if g = ''YYYY-MM'' then to_char ''YYYY-MM''
      else if g = ''YYYY'' then to_char ''YYYY''
      else if g = ''YYYY-MM-DD'' then to_char ''YYYY-MM-DD''
      else if g = ''YYYY-Q''
      then to_char ''YYYY'' @ '' || '' @ literal ''-Q'' @ '' || EXTRACT(QUARTER FROM '' @ colRef
             @ ''::timestamp)::text''
      else if g = ''YYYY-WW'' then to_char (''IYYY-'' @ dq @ ''W'' @ dq @ ''IW'')
      else if g = ''YYYY-MM-DD HH'' then to_char ''YYYY-MM-DD HH24''
      else colRef)"

definition aggExprRaw :: "ResolvedAggregate \<Rightarrow> string \<Rightarrow> string" where
  "aggExprRaw agg alias =
     (case ag_kind agg of
        AggCountRows \<Rightarrow> ''COUNT(*)''
      | AggCustomSQL \<Rightarrow> ''('' @ ag_expr agg @ '')''
      | AggStandard \<Rightarrow>
          (case ag_prop agg of
             None \<Rightarrow> ''COUNT(*)''
           | Some p \<Rightarrow>
               let col = (if alias \<noteq> [] then quoteIdent alias @ ''.'' @ quoteIdent (pi_columnName p)
                          else quoteIdent (pi_columnName p));
                   fn = to_upper (ag_func agg)
               in if fn = ''DISTINCTCOUNT'' then ''COUNT(DISTINCT '' @ col @ '')''
                  else sqlAggFunc fn @ ''('' @ col @ '')'')
      | AggDerivedRef \<Rightarrow> ''COUNT(*)'')"

definition buildHavingClause :: "ResolvedLakehouseQuery \<Rightarrow> string" where
  "buildHavingClause rq =
     (case rq_metricFilter rq of
        None \<Rightarrow> []
      | Some mf \<Rightarrow>
          if mf_op mf = [] \<or> mf_value mf = [] \<or> rq_aggregates rq = [] then []
          else ''HAVING '' @ aggExprRaw (hd (rq_aggregates rq)) [] @ '' '' @ mf_op mf @ '' '' @ mf_value mf)"

definition agg_at :: "ResolvedLakehouseQuery \<Rightarrow> int \<Rightarrow> ResolvedAggregate option" where
  "agg_at rq i = (if 0 \<le> i \<and> i < int (length (rq_aggregates rq))
                  then Some (rq_aggregates rq ! nat i) else None)"

definition derived_or_label :: "ResolvedLakehouseQuery \<Rightarrow> string \<Rightarrow> string" where
  "derived_or_label rq label =
     (case find (\<lambda>d. equal_fold label (dm_name d)) (rq_derived rq) of
        Some d \<Rightarrow> quoteIdent (dm_name d) | None \<Rightarrow> quoteIdent label)"

definition orderByRefDerived :: "ResolvedOrderBy \<Rightarrow> ResolvedLakehouseQuery \<Rightarrow> string" where
  "orderByRefDerived ob rq =
     (case or_kind ob of
        OrderByCustomLabel \<Rightarrow> quoteIdent (or_label ob)
      | OrderByAggregate \<Rightarrow>
          (case agg_at rq (or_aggIndex ob) of
             Some agg \<Rightarrow> quoteIdent (ag_label agg)
           | None \<Rightarrow> derived_or_label rq (or_label ob))
      | OrderByProp \<Rightarrow>
          (case or_prop ob of
             Some p \<Rightarrow> quoteIdent (pi_name p)
           | None \<Rightarrow> derived_or_label rq (or_label ob)))"

section \<open>Derived metrics\<close>

text \<open>The labels by their lower-case form; of equal ones the last wins.\<close>

type_synonym label_set = "(string \<times> string) list"

definition labelSet :: "ResolvedAggregate list \<Rightarrow> label_set" where
  "labelSet aggs = foldl (\<lambda>m a. AList.update (to_lower (ag_label a)) (ag_label a) m) [] aggs"

definition quoteExprLabel :: "string \<Rightarrow> label_set \<Rightarrow> string" where
  "quoteExprLabel token labels =
     (let token = trim_space token in
      case map_of labels (to_lower token) of
        Some label \<Rightarrow> quoteIdent label
      | None \<Rightarrow>
          (case (if has_prefix token ''('' \<and> has_suffix token '')''
                 then map_of labels (to_lower (trim_space (butlast (tl token)))) else None) of
             Some label \<Rightarrow> quoteIdent label
           | None \<Rightarrow> quoteIdent token))"

text \<open>The loop over the map of labels, in the order in which the map is iterated.\<close>

fun quoteExprLabels :: "string \<Rightarrow> label_set \<Rightarrow> string" where
  "quoteExprLabels result [] = result"
| "quoteExprLabels result ((low, label) # labels) =
     (case index_of (to_lower result) low of
        Some idx \<Rightarrow> quoteExprLabels
          (take idx result @ quoteIdent label @ drop (idx + length low) result) labels
      | None \<Rightarrow> quoteExprLabels result labels)"

definition wrapDivisionSafety :: "string \<Rightarrow> label_set \<Rightarrow> string" where
  "wrapDivisionSafety expr labels =
     (case split_first CHR ''/'' expr of
        Some (num, den) \<Rightarrow>
          quoteExprLabel (trim_space num) labels @ '' / NULLIF(''
            @ quoteExprLabel (trim_space den) labels @ '', 0)''
      | None \<Rightarrow> quoteExprLabels expr labels)"

text \<open>The result depends on the iteration order when one label occurs inside another.\<close>

lemma quoteExprLabels_order_matters:
  "quoteExprLabels ''total'' [(''total'', ''Total''), (''tot'', ''Tot'')]
   \<noteq> quoteExprLabels ''total'' [(''tot'', ''Tot''), (''total'', ''Total'')]"
  by code_simp

end
