(* ===== verification/Sql_Filters.thy ===== *)
theory Sql_Filters
  imports Sql_Types
begin

text \<open>
  Filter predicates as SQL text (\<open>sql_builder.go\<close>): grouping of filters by property, the merge of
  equality filters into IN, and one condition per operator. The properties say what the escaping
  achieves: a literal reads back as the value, a LIKE pattern made from a value matches that value
  literally, and, numeric ranges apart, no value changes the text outside the literals.
\<close>

section \<open>Building\<close>

record filterGroup =
  fg_prop :: PropertyInfo
  fg_filters :: "ResolvedFilter list"

definition prop_key :: "PropertyInfo \<Rightarrow> string" where
  "prop_key p = pi_objectName p @ ''.'' @ pi_name p"

text \<open>The map \<open>seen\<close> sends a key to the index of its group, which is the first group with the key.\<close>

fun add_to_group :: "filterGroup list \<Rightarrow> ResolvedFilter \<Rightarrow> filterGroup list" where
  "add_to_group [] f = [\<lparr>fg_prop = rf_prop f, fg_filters = [f]\<rparr>]"
| "add_to_group (g # gs) f =
     (if prop_key (fg_prop g) = prop_key (rf_prop f)
      then g\<lparr>fg_filters := fg_filters g @ [f]\<rparr> # gs
      else g # add_to_group gs f)"

definition groupFilters :: "ResolvedFilter list \<Rightarrow> filterGroup list" where
  "groupFilters fs = foldl add_to_group [] fs"

definition numeric :: "ResolvedFilter \<Rightarrow> bool" where
  "numeric f = isNumericType (pi_dataType (rf_prop f))"

definition as_text :: "string \<Rightarrow> string" where
  "as_text colRef = ''CAST('' @ colRef @ '' AS TEXT)''"

definition in_items :: "string \<Rightarrow> string" where
  "in_items v =
     join_str '', '' (map (\<lambda>item. literal (escapeSQLString (trim_space item))) (split_on CHR '','' v))"

definition bug_marker :: string where
  "bug_marker = ''FALSE /* SMARTQUERY-BUG: unhandled filter operator reached buildFilterCondition default ''
     @ [CHR 0xE2, CHR 0x80, CHR 0x94] @ '' sync isValidFilterOp() with this switch */''"

definition buildFilterCondition :: "string \<Rightarrow> ResolvedFilter \<Rightarrow> string" where
  "buildFilterCondition colRef f =
     (let val = escapeSQLString (rf_value f);
          likeVal = escapeLikeValue (rf_value f);
          op = rf_op f
      in
      if op = ''='' then
        (if rf_fuzzy f then as_text colRef @ '' ILIKE '' @ literal (''%'' @ likeVal @ ''%'')
         else if \<not> numeric f then as_text colRef @ '' ILIKE '' @ literal likeVal
         else colRef @ '' = '' @ literal val)
      else if op = ''<>'' \<or> op = ''!='' then
        (if \<not> numeric f then as_text colRef @ '' NOT ILIKE '' @ literal likeVal
         else colRef @ '' <> '' @ literal val)
      else if op \<in> set [''>'', ''>='', ''<'', ''<=''] then
        (if numeric f then colRef @ '' '' @ op @ '' '' @ val
         else colRef @ '' '' @ op @ '' '' @ literal val)
      else if op = ''contains'' then as_text colRef @ '' ILIKE '' @ literal (''%'' @ likeVal @ ''%'')
      else if op = ''not contains''
      then as_text colRef @ '' NOT ILIKE '' @ literal (''%'' @ likeVal @ ''%'')
      else if op = ''starts with'' then as_text colRef @ '' ILIKE '' @ literal (likeVal @ ''%'')
      else if op = ''ends with'' then as_text colRef @ '' ILIKE '' @ literal (''%'' @ likeVal)
      else if op = ''like'' then as_text colRef @ '' ILIKE '' @ literal val
      else if op = ''not like'' then as_text colRef @ '' NOT ILIKE '' @ literal val
      else if op = ''is blank''
      then ''('' @ colRef @ '' IS NULL OR '' @ as_text colRef @ '' = '' @ literal [] @ '')''
      else if op = ''is not blank''
      then ''('' @ colRef @ '' IS NOT NULL AND '' @ as_text colRef @ '' <> '' @ literal [] @ '')''
      else if op = ''between'' then
        (case split_first CHR '','' (rf_value f) of
           None \<Rightarrow> []
         | Some (a, b) \<Rightarrow>
             let lo = escapeSQLString (trim_space a); hi = escapeSQLString (trim_space b)
             in if numeric f then colRef @ '' BETWEEN '' @ lo @ '' AND '' @ hi
                else colRef @ '' BETWEEN '' @ literal lo @ '' AND '' @ literal hi)
      else if op = ''in'' then colRef @ '' IN ('' @ in_items (rf_value f) @ '')''
      else if op = ''not in'' then colRef @ '' NOT IN ('' @ in_items (rf_value f) @ '')''
      else bug_marker)"

definition buildFilterGroupExpr :: "string \<Rightarrow> ResolvedFilter list \<Rightarrow> string" where
  "buildFilterGroupExpr colRef filters =
     (case filters of
        [f] \<Rightarrow> buildFilterCondition colRef f
      | _ \<Rightarrow>
         (let allEquality = list_all (\<lambda>f. rf_op f = ''='') filters;
              hasRange = list_ex (\<lambda>f. rf_op f \<in> set [''>'', ''>='', ''<'', ''<='']) filters
          in if allEquality \<and> filters \<noteq> [] \<and> \<not> rf_fuzzy (hd filters) then
               (if \<not> numeric (hd filters)
                then ''LOWER('' @ as_text colRef @ '') IN (''
                  @ join_str '', '' (map (\<lambda>f. ''LOWER('' @ literal (escapeSQLString (rf_value f)) @ '')'')
                      filters) @ '')''
                else colRef @ '' IN (''
                  @ join_str '', '' (map (\<lambda>f. literal (escapeSQLString (rf_value f))) filters) @ '')'')
             else
               (let parts = filter (\<lambda>c. c \<noteq> []) (map (buildFilterCondition colRef) filters)
                in if hasRange \<or> 1 < length parts
                   then ''('' @ join_str '' AND '' parts @ '')'' else join_str '' AND '' parts)))"

definition col_ref :: "string \<Rightarrow> string \<Rightarrow> string" where
  "col_ref od name = quoteIdent od @ ''.'' @ quoteColRef name"

definition buildGroupedFilterConds :: "ResolvedFilter list \<Rightarrow> string \<Rightarrow> string list" where
  "buildGroupedFilterConds filters qualifyOd =
     filter (\<lambda>c. c \<noteq> [])
       (map (\<lambda>g. buildFilterGroupExpr
            (col_ref (if qualifyOd \<noteq> [] then qualifyOd else pi_objectName (fg_prop g))
              (pi_name (fg_prop g))) (fg_filters g))
          (groupFilters filters))"

section \<open>Grouping\<close>

abbreviation gkey :: "filterGroup \<Rightarrow> string" where "gkey g \<equiv> prop_key (fg_prop g)"
abbreviation fkey :: "ResolvedFilter \<Rightarrow> string" where "fkey f \<equiv> prop_key (rf_prop f)"

lemma add_to_group_keys:
  "map gkey (add_to_group gs f) =
     (if fkey f \<in> gkey ` set gs then map gkey gs else map gkey gs @ [fkey f])"
  by (induction gs) auto

lemma add_to_group_cases:
  assumes "distinct (map gkey gs)" "g' \<in> set (add_to_group gs f)"
  shows "g' \<in> set gs \<and> gkey g' \<noteq> fkey f
    \<or> (\<exists>g \<in> set gs. gkey g = fkey f \<and> g' = g\<lparr>fg_filters := fg_filters g @ [f]\<rparr>)
    \<or> fkey f \<notin> gkey ` set gs \<and> g' = \<lparr>fg_prop = rf_prop f, fg_filters = [f]\<rparr>"
  using assms by (induction gs) (auto simp: image_iff split: if_splits)

definition groups_ok :: "filterGroup list \<Rightarrow> ResolvedFilter list \<Rightarrow> bool" where
  "groups_ok gs fs \<longleftrightarrow>
     distinct (map gkey gs) \<and> fkey ` set fs = gkey ` set gs
     \<and> list_all (\<lambda>g. fg_filters g = filter (\<lambda>f. fkey f = gkey g) fs) gs"

lemma groups_ok_add:
  assumes "groups_ok gs fs"
  shows "groups_ok (add_to_group gs f) (fs @ [f])"
proof -
  have d: "distinct (map gkey gs)" and k: "fkey ` set fs = gkey ` set gs"
    and l: "\<And>g. g \<in> set gs \<Longrightarrow> fg_filters g = filter (\<lambda>f. fkey f = gkey g) fs"
    using assms by (auto simp: groups_ok_def list_all_iff)
  have "fg_filters g' = filter (\<lambda>f. fkey f = gkey g') (fs @ [f])"
    if g': "g' \<in> set (add_to_group gs f)" for g'
    using add_to_group_cases [OF d g']
  proof (elim disjE bexE conjE)
    assume "fkey f \<notin> gkey ` set gs" "g' = \<lparr>fg_prop = rf_prop f, fg_filters = [f]\<rparr>"
    moreover from this(1) have "filter (\<lambda>h. fkey h = fkey f) fs = []"
      unfolding filter_empty_conv k [symmetric] by (metis imageI)
    ultimately show ?thesis by simp
  qed (use l in auto)
  moreover have "distinct (map gkey (add_to_group gs f))"
    using d by (auto simp: add_to_group_keys)
  moreover have "gkey ` set (add_to_group gs f) = insert (fkey f) (gkey ` set gs)"
    using arg_cong [OF add_to_group_keys [of gs f], of set] by auto
  ultimately show ?thesis using k by (simp add: groups_ok_def list_all_iff)
qed

lemma groupFilters_ok: "groups_ok (groupFilters fs) fs"
  unfolding groupFilters_def
  by (induction fs rule: rev_induct) (simp add: groups_ok_def, simp add: groups_ok_add)

lemma groups_nonempty: "g \<in> set (groupFilters fs) \<Longrightarrow> fg_filters g \<noteq> []"
proof -
  assume g: "g \<in> set (groupFilters fs)"
  from groupFilters_ok [of fs] g obtain f where "f \<in> set fs" "fkey f = gkey g"
    unfolding groups_ok_def by (metis (mono_tags) imageE imageI)
  moreover from groupFilters_ok [of fs] g have "fg_filters g = filter (\<lambda>f. fkey f = gkey g) fs"
    by (simp add: groups_ok_def list_all_iff)
  ultimately show ?thesis by (auto simp: filter_empty_conv)
qed

section \<open>Literals and identifiers read back\<close>

text \<open>
  How PostgreSQL reads a quoted token (with \<open>standard_conforming_strings\<close>, its default): up to the
  next quote that is not doubled. \<open>read_quoted q\<close> starts after the opening quote.
\<close>

fun read_quoted :: "char \<Rightarrow> string \<Rightarrow> (string \<times> string) option" where
  "read_quoted q [] = None"
| "read_quoted q (c # s) =
     (if c = q then
        (case s of
           [] \<Rightarrow> Some ([], [])
         | d # s' \<Rightarrow> if d = q then map_option (\<lambda>(b, r). (q # b, r)) (read_quoted q s')
                     else Some ([], s))
      else map_option (\<lambda>(b, r). (c # b, r)) (read_quoted q s))"

lemma read_quoted_escaped:
  assumes "case rest of [] \<Rightarrow> True | d # _ \<Rightarrow> d \<noteq> q"
  shows "read_quoted q (replace_char q [q, q] s @ q # rest) = Some (s, rest)"
  using assms by (induction s) (auto split: list.splits)

text \<open>C33: Quoting round trip: whatever the value, the literal built from it reads back as exactly that
  value, and the quoted identifier built from a name as exactly that name; the rest of the SQL text
  after the closing quote is untouched.\<close>

theorem quoting_round_trip:
  assumes "rest = [] \<or> hd rest \<noteq> CHR 0x27 \<and> hd rest \<noteq> CHR 0x22"
  shows "read_quoted (CHR 0x27) (tl (literal (escapeSQLString v) @ rest)) = Some (v, rest)
    \<and> read_quoted (CHR 0x22) (tl (quoteIdent name @ rest)) = Some (name, rest)"
proof -
  have "case rest of [] \<Rightarrow> True | d # _ \<Rightarrow> d \<noteq> CHR 0x27" "case rest of [] \<Rightarrow> True | d # _ \<Rightarrow> d \<noteq> CHR 0x22"
    using assms by (auto split: list.splits)
  from read_quoted_escaped [OF this(1), of v] read_quoted_escaped [OF this(2), of name]
  show ?thesis by (simp add: literal_def escapeSQLString_def quoteIdent_def)
qed

lemma quoting_round_trip_witness:
  "read_quoted (CHR 0x22) (tl (quoteIdent (''a'' @ dq @ ''b'') @ '' = 1'')) = Some (''a'' @ dq @ ''b'', '' = 1'')"
  using quoting_round_trip [of "'' = 1''" "[]" "''a'' @ dq @ ''b''"] by simp

section \<open>What a LIKE pattern made from a value matches\<close>

text \<open>LIKE with its default escape character, the backslash; ILIKE compares lower-cased.\<close>

fun like :: "string \<Rightarrow> string \<Rightarrow> bool" where
  "like [] t \<longleftrightarrow> t = []"
| "like (c # p) [] \<longleftrightarrow> c = CHR ''%'' \<and> like p []"
| "like (c # p) (x # t) \<longleftrightarrow>
     (if c = CHR ''%'' then like p (x # t) \<or> like (c # p) t
      else if c = CHR ''_'' then like p t
      else if c = CHR 0x5C then (case p of [] \<Rightarrow> False | d # p' \<Rightarrow> x = d \<and> like p' t)
      else x = c \<and> like p t)"

definition ilike :: "string \<Rightarrow> string \<Rightarrow> bool" where
  "ilike p t \<longleftrightarrow> like (to_lower p) (to_lower t)"

definition like_escape :: "string \<Rightarrow> string" where
  "like_escape s =
     replace_char CHR ''_'' [CHR 0x5C, CHR ''_'']
       (replace_char CHR ''%'' [CHR 0x5C, CHR ''%'']
         (replace_char CHR 0x5C [CHR 0x5C, CHR 0x5C] s))"

lemma escapeLikeValue_eq: "escapeLikeValue s = escapeSQLString (like_escape s)"
  by (simp add: escapeLikeValue_def like_escape_def)

lemma like_escape_simps [simp]:
  "like_escape [] = []"
  "like_escape (c # s) =
     (if c = CHR 0x5C \<or> c = CHR ''%'' \<or> c = CHR ''_'' then [CHR 0x5C, c] else [c]) @ like_escape s"
  by (auto simp: like_escape_def)

lemma lower_char_special:
  "lower_char c = CHR ''%'' \<longleftrightarrow> c = CHR ''%''" "lower_char c = CHR ''_'' \<longleftrightarrow> c = CHR ''_''"
  "lower_char c = CHR 0x5C \<longleftrightarrow> c = CHR 0x5C"
  by (cases c; auto)+

lemma like_escaped:
  "like (to_lower (like_escape v) @ p) t \<longleftrightarrow>
     (\<exists>t'. t = to_lower v @ t' \<and> like p t')"
proof (induction v arbitrary: t)
  case Nil
  show ?case by simp
next
  case (Cons c v)
  show ?case
  proof (cases t)
    case Nil
    then show ?thesis
      by (auto simp: to_lower_def lower_char_special)
  next
    case (Cons x u)
    then show ?thesis
      using Cons.IH [of u] by (auto simp: to_lower_def lower_char_special)
  qed
qed

lemma like_percent: "like (CHR ''%'' # p) t \<longleftrightarrow> (\<exists>u w. t = u @ w \<and> like p w)"
proof (induction t)
  case (Cons x t)
  then show ?case by (auto simp: Cons_eq_append_conv)
qed auto

lemma lower_percent [simp]: "to_lower (CHR ''%'' # s) = CHR ''%'' # to_lower s"
  by (simp add: to_lower_def)

lemmas ilike_simps = ilike_def like_percent like_escaped
  like_escaped [where p = "[]", simplified]


definition sample_prop :: PropertyInfo where
  "sample_prop = \<lparr>pi_name = ''Note'', pi_dataType = ''text'', pi_tableName = [], pi_columnName = ''Note'',
     pi_objectName = ''Order'', pi_objectID = []\<rparr>"

definition sample_filter :: ResolvedFilter where
  "sample_filter = \<lparr>rf_prop = sample_prop, rf_op = ''contains'', rf_value = ''50%'',
     rf_originalValue = ''50%'', rf_fuzzy = False\<rparr>"


section \<open>Values stay inside their literals\<close>

text \<open>
  A scanner that tells code from literals: \<open>lex_scan\<close> returns the mode at the end and the text outside
  the string literals. A doubled quote leaves and re-enters the literal without effect.
\<close>

datatype lex_mode = LCode | LStr | LIdent

fun lex_scan :: "lex_mode \<Rightarrow> string \<Rightarrow> lex_mode \<times> string" where
  "lex_scan m [] = (m, [])"
| "lex_scan LCode (c # s) =
     (if c = CHR 0x27 then lex_scan LStr s
      else case lex_scan (if c = CHR 0x22 then LIdent else LCode) s of (m, out) \<Rightarrow> (m, c # out))"
| "lex_scan LStr (c # s) = lex_scan (if c = CHR 0x27 then LCode else LStr) s"
| "lex_scan LIdent (c # s) =
     (case lex_scan (if c = CHR 0x22 then LCode else LIdent) s of (m, out) \<Rightarrow> (m, c # out))"

definition lex_closed :: "string \<Rightarrow> bool" where "lex_closed s \<longleftrightarrow> fst (lex_scan LCode s) = LCode"
definition code_text :: "string \<Rightarrow> string" where "code_text s = snd (lex_scan LCode s)"

lemma scan_append:
  "lex_scan m (s @ t) = (case lex_scan m s of (m1, o1) \<Rightarrow> case lex_scan m1 t of (m2, o2) \<Rightarrow> (m2, o1 @ o2))"
  by (induction m s rule: lex_scan.induct) (auto split: prod.splits)

lemma closed_append: "lex_closed s \<Longrightarrow> lex_closed (s @ t) = lex_closed t"
  by (auto simp: lex_closed_def scan_append split: prod.splits)

lemma code_append: "lex_closed s \<Longrightarrow> code_text (s @ t) = code_text s @ code_text t"
  by (auto simp: lex_closed_def code_text_def scan_append split: prod.splits)

lemma closed_Nil: "lex_closed []" "code_text [] = []"
  by (simp_all add: lex_closed_def code_text_def)

lemma closed_Cons:
  "c \<noteq> CHR 0x27 \<Longrightarrow> c \<noteq> CHR 0x22 \<Longrightarrow> lex_closed (c # s) = lex_closed s"
  "c \<noteq> CHR 0x27 \<Longrightarrow> c \<noteq> CHR 0x22 \<Longrightarrow> code_text (c # s) = c # code_text s"
  by (auto simp: lex_closed_def code_text_def split: prod.splits)

definition inert :: "string \<Rightarrow> bool" where "inert b \<longleftrightarrow> lex_scan LStr b = (LStr, [])"

lemma inert_append: "inert a \<Longrightarrow> inert b \<Longrightarrow> inert (a @ b)"
  by (simp add: inert_def scan_append)

lemma inert_escape [simp]: "inert (escapeSQLString v)"
  by (induction v) (auto simp: inert_def escapeSQLString_def)

lemma inert_like [simp]: "inert (escapeLikeValue v)"
  by (simp add: escapeLikeValue_eq)

lemma inert_plain [simp]: "inert []" "inert ''%''"
  by (simp_all add: inert_def)

lemma inert_Cons [simp]: "c \<noteq> CHR 0x27 \<Longrightarrow> inert (c # b) = inert b"
  by (simp add: inert_def)

lemma literal_code: "inert b \<Longrightarrow> lex_closed (literal b) \<and> code_text (literal b) = []"
  by (simp add: literal_def inert_def lex_closed_def code_text_def scan_append)

lemma scan_ident: "lex_scan LIdent (replace_char CHR 0x22 [CHR 0x22, CHR 0x22] s @ t) =
    (case lex_scan LIdent t of (m, out) \<Rightarrow> (m, replace_char CHR 0x22 [CHR 0x22, CHR 0x22] s @ out))"
  by (induction s) (auto split: prod.splits)

lemma quoteIdent_code: "lex_closed (quoteIdent s) \<and> code_text (quoteIdent s) = quoteIdent s"
  by (simp add: lex_closed_def code_text_def quoteIdent_def scan_ident)

lemma col_ref_code: "lex_closed (col_ref od n) \<and> code_text (col_ref od n) = col_ref od n"
  by (simp add: col_ref_def quoteColRef_def closed_append code_append closed_Cons quoteIdent_code)

lemma join_code:
  assumes "list_all lex_closed ps" "lex_closed sep"
  shows "lex_closed (join_str sep ps) \<and> code_text (join_str sep ps) = join_str (code_text sep) (map code_text ps)"
  using assms
  by (induction sep ps rule: join_str.induct) (simp_all add: closed_Nil closed_append code_append)

lemma in_items_code:
  "lex_closed (in_items v) \<and> code_text (in_items v) = join_str '', '' (replicate (length (split_on CHR '','' v)) [])"
proof -
  let ?ps = "map (\<lambda>item. literal (escapeSQLString (trim_space item))) (split_on CHR '','' v)"
  have all: "list_all lex_closed ?ps" "map code_text ?ps = replicate (length (split_on CHR '','' v)) []"
    by (auto simp: list_all_iff literal_code map_replicate_const [symmetric] comp_def)
  have sep: "lex_closed '', ''" "code_text '', '' = '', ''" by (simp_all add: closed_Cons closed_Nil)
  from join_code [OF all(1) sep(1)] show ?thesis unfolding in_items_def all(2) sep(2) .
qed

lemma length_split_on: "length (split_on d s) = Suc (length (filter (\<lambda>c. c = d) s))"
  by (induction s) (auto split: list.splits)

lemma split_first_None: "split_first d s = None \<longleftrightarrow> filter (\<lambda>c. c = d) s = []"
  by (induction s) auto

lemmas code_simps = closed_append code_append closed_Cons closed_Nil literal_code inert_append
  col_ref_code in_items_code

definition raw_op :: "string \<Rightarrow> bool" where
  "raw_op op \<longleftrightarrow> op \<in> set [''>'', ''>='', ''<'', ''<='', ''between'']"

lemma condition_code:
  assumes "raw_op (rf_op f) \<longrightarrow> \<not> numeric f"
    "length (filter (\<lambda>c. c = CHR '','') v) = length (filter (\<lambda>c. c = CHR '','') (rf_value f))"
  shows "lex_closed (buildFilterCondition (col_ref od n) f)
    \<and> code_text (buildFilterCondition (col_ref od n) (f\<lparr>rf_value := v\<rparr>))
      = code_text (buildFilterCondition (col_ref od n) f)"
proof -
  let ?c = "col_ref od n"
  have n: "numeric (f\<lparr>rf_value := v\<rparr>) = numeric f" by (simp add: numeric_def)
  have l: "length (split_on CHR '','' v) = length (split_on CHR '','' (rf_value f))"
    using assms(2) by (simp add: length_split_on)
  have sf: "split_first CHR '','' v = None \<longleftrightarrow> split_first CHR '','' (rf_value f) = None"
    unfolding split_first_None using assms(2) by (metis length_0_conv)
  have as: "lex_closed (as_text ?c)" "code_text (as_text ?c) = as_text ?c"
    by (simp_all add: as_text_def code_simps)
  have bm: "lex_closed bug_marker" by (simp add: bug_marker_def code_simps)
  consider (btw) "rf_op f = ''between''" "\<not> numeric f"
    | (range) "rf_op f \<in> set [''>'', ''>='', ''<'', ''<='']" "\<not> numeric f"
    | (other) "rf_op f \<notin> set [''>'', ''>='', ''<'', ''<='', ''between'']"
    using assms(1) unfolding raw_op_def by (metis list.set_intros(1,2) insert_iff list.simps(15))
  then show ?thesis
  proof cases
    case btw
    then show ?thesis using sf n
      by (auto simp: buildFilterCondition_def Let_def code_simps split: option.split)
  next
    case range
    then show ?thesis using n
      by (auto simp: buildFilterCondition_def Let_def code_simps)
  next
    case other
    then show ?thesis using n l as bm
      by (simp add: buildFilterCondition_def Let_def code_simps)
  qed
qed

text \<open>Values never become SQL: except for range comparisons and BETWEEN on numeric columns, the
  condition built from a filter is lexically closed, and replacing its value by any other one with
  the same number of commas (the separator of IN and BETWEEN) leaves the text outside the string
  literals unchanged.\<close>

theorem filter_values_stay_in_literals:
  assumes "\<not> (numeric f \<and> rf_op f \<in> set [''>'', ''>='', ''<'', ''<='', ''between''])"
    and "length (filter (\<lambda>c. c = CHR '','') v) = length (filter (\<lambda>c. c = CHR '','') (rf_value f))"
  shows "fst (lex_scan LCode (buildFilterCondition (col_ref od n) f)) = LCode
    \<and> snd (lex_scan LCode (buildFilterCondition (col_ref od n) (f\<lparr>rf_value := v\<rparr>)))
      = snd (lex_scan LCode (buildFilterCondition (col_ref od n) f))"
  using condition_code [of f v od n] assms by (auto simp: lex_closed_def code_text_def raw_op_def)

lemma filter_values_stay_in_literals_witness:
  "snd (lex_scan LCode (buildFilterCondition (col_ref ''Order'' ''Note'')
        (sample_filter\<lparr>rf_value := CHR 0x27 # ''; DROP TABLE t; --''\<rparr>)))
   = snd (lex_scan LCode (buildFilterCondition (col_ref ''Order'' ''Note'') sample_filter))"
proof (rule conjunct2 [OF filter_values_stay_in_literals])
  show "\<not> (numeric sample_filter \<and> rf_op sample_filter \<in> set [''>'', ''>='', ''<'', ''<='', ''between''])"
    by code_simp
qed (simp add: sample_filter_def)

text \<open>On a numeric column the value of a range comparison is SQL: the condition is the column, the
  operator and the value as it was given (quotes doubled), so a value such as \<open>0 OR TRUE\<close> turns the
  comparison into a condition that always holds.\<close>

theorem numeric_ranges_are_raw:
  assumes "numeric f" "op \<in> set [''>'', ''>='', ''<'', ''<='']" "CHR 0x27 \<notin> set v"
  shows "buildFilterCondition col (f\<lparr>rf_op := op, rf_value := v\<rparr>) = col @ '' '' @ op @ '' '' @ v"
proof -
  have "escapeSQLString v = v"
    using assms(3) by (induction v) (auto simp: escapeSQLString_def)
  with assms(1,2) show ?thesis by (auto simp: buildFilterCondition_def numeric_def Let_def)
qed

lemma numeric_ranges_are_raw_witness:
  "buildFilterCondition ''qty'' (sample_filter\<lparr>rf_prop := sample_prop\<lparr>pi_dataType := ''int4''\<rparr>,
     rf_op := ''>'', rf_value := ''0 OR TRUE''\<rparr>) = ''qty > 0 OR TRUE''"
proof -
  have "numeric (sample_filter\<lparr>rf_prop := sample_prop\<lparr>pi_dataType := ''int4''\<rparr>\<rparr>)" by code_simp
  from numeric_ranges_are_raw [OF this, of "''>''" "''0 OR TRUE''" "''qty''"] show ?thesis
    by (simp add: sample_filter_def)
qed

end
