(* ===== verification/Sql_Dense.thy ===== *)
theory Sql_Dense
  imports Sql_Filters
begin

text \<open>
  The dense GROUP BY builder (\<open>dense_sql.go\<close>): a dimension universe (cartesian product of the
  distinct values of the grouped columns) left-joined with the fact object, so that empty groups
  show. A Go map from names to slices is an association list in order of first insertion; the
  loops over sorted keys are loops over the sorted key list.
\<close>

section \<open>Maps of slices\<close>

type_synonym 'a multi = "(string \<times> 'a list) list"

fun multi_add :: "'a multi \<Rightarrow> string \<Rightarrow> 'a \<Rightarrow> 'a multi" where
  "multi_add [] k x = [(k, [x])]"
| "multi_add ((k', xs) # m) k x =
     (if k' = k then (k', xs @ [x]) # m else (k', xs) # multi_add m k x)"

definition multi_get :: "'a multi \<Rightarrow> string \<Rightarrow> 'a list" where
  "multi_get m k = (case map_of m k of None \<Rightarrow> [] | Some xs \<Rightarrow> xs)"

definition sortedKeys :: "'a multi \<Rightarrow> string list" where
  "sortedKeys m = sort (map fst m)"

section \<open>Applicability and routing\<close>

definition factOdName :: "ResolvedLakehouseQuery \<Rightarrow> string" where
  "factOdName rq =
     (case find (\<lambda>agg. ag_kind agg = AggStandard
             \<and> (case ag_prop agg of None \<Rightarrow> False | Some p \<Rightarrow> pi_objectName p \<noteq> [])) (rq_aggregates rq) of
        Some agg \<Rightarrow> pi_objectName (the (ag_prop agg))
      | None \<Rightarrow> (case rq_objects rq of [] \<Rightarrow> [] | ob # _ \<Rightarrow> oi_name ob))"

definition isDenseApplicable :: "ResolvedLakehouseQuery \<Rightarrow> bool" where
  "isDenseApplicable rq =
     (if rq_denseGroups rq = Some False then False
      else if rq_groupByCols rq = [] \<or> rq_aggregates rq = [] then False
      else if list_ex (\<lambda>agg. ag_kind agg \<noteq> AggStandard \<and> ag_kind agg \<noteq> AggCountRows)
                (rq_aggregates rq) then False
      else if rq_derived rq \<noteq> [] then False
      else factOdName rq \<noteq> [])"

definition partitionGroupBy :: "ResolvedLakehouseQuery \<Rightarrow> ResolvedGroupBy multi" where
  "partitionGroupBy rq =
     foldl (\<lambda>m gb. multi_add m (pi_objectName (gb_prop gb)) gb) [] (rq_groupByCols rq)"

type_synonym routed = "ResolvedFilter multi \<times> ResolvedFilter list"

definition route_filter ::
  "ResolvedGroupBy multi \<Rightarrow> string \<Rightarrow> routed \<Rightarrow> ResolvedFilter \<Rightarrow> routed" where
  "route_filter gbByOd factOd acc f =
     (case acc of (dimFilters, factFilters) \<Rightarrow>
       let od = pi_objectName (rf_prop f);
           hasGB = (map_of gbByOd od \<noteq> None);
           isFact = equal_fold od factOd;
           factGBCols = map (\<lambda>gb. to_lower (pi_name (gb_prop gb))) (multi_get gbByOd factOd)
       in if hasGB \<and> \<not> isFact then (multi_add dimFilters od f, factFilters)
          else if isFact \<and> to_lower (pi_name (rf_prop f)) \<in> set factGBCols
          then (multi_add dimFilters od f, factFilters)
          else if isFact \<and> multi_get gbByOd factOd \<noteq> []
          then (multi_add dimFilters od f, factFilters @ [f])
          else (dimFilters, factFilters @ [f]))"

definition splitDenseFilters :: "ResolvedLakehouseQuery \<Rightarrow> string \<Rightarrow> routed" where
  "splitDenseFilters rq factOd =
     foldl (route_filter (partitionGroupBy rq) factOd) ([], []) (rq_filterItems rq)"

definition reverse_edge :: "JoinEdge \<Rightarrow> JoinEdge" where
  "reverse_edge e =
     \<lparr>je_fromOd = je_toOd e, je_fromProp = je_toProp e, je_toOd = je_fromOd e,
      je_toProp = je_fromProp e, je_cardinality = je_cardinality e\<rparr>"

fun findJoinEdgeBetween :: "string \<Rightarrow> string \<Rightarrow> JoinEdge list \<Rightarrow> JoinEdge option" where
  "findJoinEdgeBetween od1 od2 [] = None"
| "findJoinEdgeBetween od1 od2 (e # es) =
     (if equal_fold (je_fromOd e) od1 \<and> equal_fold (je_toOd e) od2 then Some e
      else if equal_fold (je_fromOd e) od2 \<and> equal_fold (je_toOd e) od1 then Some (reverse_edge e)
      else findJoinEdgeBetween od1 od2 es)"

text \<open>\<open>findJoinEdgeToFact\<close> has the same body with the dimension object first.\<close>

definition findJoinEdgeToFact :: "string \<Rightarrow> string \<Rightarrow> JoinEdge list \<Rightarrow> JoinEdge option" where
  "findJoinEdgeToFact dimOd factOd joinPath = findJoinEdgeBetween dimOd factOd joinPath"

section \<open>Labels and sources\<close>

definition gbOutputLabel :: "ResolvedGroupBy \<Rightarrow> string" where
  "gbOutputLabel gb = (if gb_outputLabel gb \<noteq> [] then gb_outputLabel gb else pi_name (gb_prop gb))"

definition dimJoinKeyAlias :: "string \<Rightarrow> string \<Rightarrow> string" where
  "dimJoinKeyAlias dimOd propName = ''__'' @ dimOd @ ''_'' @ propName @ ''_jk__''"

definition visible_key :: "string \<Rightarrow> ResolvedGroupBy \<Rightarrow> bool" where
  "visible_key name gb = (equal_fold (pi_name (gb_prop gb)) name \<and> gb_granularity gb = [])"

definition dimJoinRefInDims :: "string \<Rightarrow> JoinEdge \<Rightarrow> ResolvedGroupBy multi \<Rightarrow> string" where
  "dimJoinRefInDims dimOd edge gbByOd =
     (case find (visible_key (je_fromProp edge)) (multi_get gbByOd dimOd) of
        Some gb \<Rightarrow> gbOutputLabel gb
      | None \<Rightarrow> dimJoinKeyAlias dimOd (je_fromProp edge))"

definition renderOdSource :: "ObjectInfo \<Rightarrow> bool \<Rightarrow> string" where
  "renderOdSource ob ontology =
     (if ontology then quoteIdent (oi_name ob)
      else ''('' @ oi_canonicalQuery ob @ '') AS '' @ quoteIdent (oi_name ob))"

definition denseAggExpr :: "ResolvedAggregate \<Rightarrow> ObjectInfo \<Rightarrow> string" where
  "denseAggExpr agg factObj =
     (let factRef = quoteIdent (oi_name factObj);
          count_all = ''COALESCE(COUNT(*), 0) AS '' @ quoteIdent ''Count''
      in case ag_kind agg of
        AggCountRows \<Rightarrow>
          (let label = (if ag_label agg = [] then ''Count'' else ag_label agg);
               witness = (case oi_props factObj of [] \<Rightarrow> [] | p # _ \<Rightarrow> pi_name p)
           in if witness = [] then ''COUNT(*) AS '' @ quoteIdent label
              else ''COALESCE(COUNT('' @ factRef @ ''.'' @ quoteColRef witness @ ''), 0) AS ''
                @ quoteIdent label)
      | AggStandard \<Rightarrow>
          (case ag_prop agg of
             None \<Rightarrow> count_all
           | Some p \<Rightarrow>
               let col = factRef @ ''.'' @ quoteColRef (pi_name p);
                   fn = to_upper (ag_func agg);
                   needsNumeric = (fn \<in> set [''SUM'', ''AVG'', ''MIN'', ''MAX'']
                     \<and> isNumericType (pi_dataType p));
                   castedCol = (if needsNumeric then ''('' @ col @ '')::numeric'' else col);
                   label = quoteIdent (ag_label agg)
               in if fn = ''SUM'' then ''COALESCE(SUM('' @ castedCol @ ''), 0) AS '' @ label
                  else if fn = ''COUNT'' then ''COALESCE(COUNT('' @ col @ ''), 0) AS '' @ label
                  else if fn = ''DISTINCTCOUNT''
                  then ''COALESCE(COUNT(DISTINCT '' @ col @ ''), 0) AS '' @ label
                  else sqlAggFunc fn @ ''('' @ castedCol @ '') AS '' @ label)
      | _ \<Rightarrow> count_all)"

definition denseOrderByRef :: "ResolvedOrderBy \<Rightarrow> ResolvedLakehouseQuery \<Rightarrow> string" where
  "denseOrderByRef ob rq =
     (case or_kind ob of
        OrderByProp \<Rightarrow>
          (case or_prop ob of
             Some p \<Rightarrow>
               (case find (\<lambda>gb. equal_fold (pi_name (gb_prop gb)) (pi_name p)) (rq_groupByCols rq) of
                  Some gb \<Rightarrow> ''dims.'' @ quoteIdent (gbOutputLabel gb)
                | None \<Rightarrow> quoteColRef (pi_name p))
           | None \<Rightarrow> quoteIdent (or_label ob))
      | OrderByAggregate \<Rightarrow>
          (case agg_at rq (or_aggIndex ob) of
             Some agg \<Rightarrow> quoteIdent (ag_label agg) | None \<Rightarrow> quoteIdent ''Count'')
      | OrderByCustomLabel \<Rightarrow> quoteIdent (or_label ob))"

section \<open>The dimension universe\<close>

text \<open>The selected columns with their aliases: the grouped columns, and for a dimension object the join
  key to the fact object unless it is already among them.\<close>

definition dim_columns ::
  "string \<Rightarrow> ResolvedGroupBy list \<Rightarrow> string \<Rightarrow> JoinEdge list \<Rightarrow> ObjectInfo \<Rightarrow> (string \<times> string) list" where
  "dim_columns od gbCols factOd joinPath ob =
     (let odRef = quoteIdent (oi_name ob);
          visible = map (\<lambda>gb.
            let base = odRef @ ''.'' @ quoteColRef (pi_name (gb_prop gb));
                base = (if gb_granularity gb \<noteq> [] then dateGranularityExpr base (gb_granularity gb)
                        else base)
            in (base, gbOutputLabel gb)) gbCols;
          hidden =
            (if equal_fold od factOd then []
             else case findJoinEdgeToFact od factOd joinPath of
                 None \<Rightarrow> []
               | Some edge \<Rightarrow>
                   if list_ex (visible_key (je_fromProp edge)) gbCols then []
                   else [(odRef @ ''.'' @ quoteColRef (je_fromProp edge),
                          dimJoinKeyAlias od (je_fromProp edge))])
      in visible @ hidden)"

definition buildSingleDimOdSubquery ::
  "string \<Rightarrow> ResolvedGroupBy list \<Rightarrow> ResolvedFilter list \<Rightarrow> string \<Rightarrow> JoinEdge list
     \<Rightarrow> ObjectInfo \<Rightarrow> bool \<Rightarrow> string" where
  "buildSingleDimOdSubquery od gbCols filters factOd joinPath ob ontology =
     (let selCols = map (\<lambda>(expr, alias). expr @ '' AS '' @ quoteIdent alias)
            (dim_columns od gbCols factOd joinPath ob);
          whereConds = buildGroupedFilterConds filters od
      in ''SELECT DISTINCT '' @ join_str '', '' selCols @ '' FROM '' @ renderOdSource ob ontology
         @ (if whereConds \<noteq> [] then '' WHERE '' @ join_str '' AND '' whereConds else []))"

definition resolve_error :: "string \<Rightarrow> string \<Rightarrow> ResolveError" where
  "resolve_error code name = \<lparr>re_code = code, re_name = name, re_errors = []\<rparr>"

text \<open>Objects by name; of several with one name the last one counts.\<close>

definition odByName :: "ResolvedLakehouseQuery \<Rightarrow> string \<Rightarrow> ObjectInfo option" where
  "odByName rq = map_of (rev (map (\<lambda>ob. (oi_name ob, ob)) (rq_objects rq)))"

fun dim_subs ::
  "string list \<Rightarrow> ResolvedGroupBy multi \<Rightarrow> ResolvedFilter multi \<Rightarrow> string \<Rightarrow> JoinEdge list
     \<Rightarrow> (string \<Rightarrow> ObjectInfo option) \<Rightarrow> bool \<Rightarrow> ResolveError + string list" where
  "dim_subs [] gbByOd dimFilters factOd joinPath byName ontology = Inr []"
| "dim_subs (od # ods) gbByOd dimFilters factOd joinPath byName ontology =
     (case byName od of
        None \<Rightarrow> Inl (resolve_error ''OBJECT_NOT_FOUND'' od)
      | Some ob \<Rightarrow>
          (case dim_subs ods gbByOd dimFilters factOd joinPath byName ontology of
             Inl e \<Rightarrow> Inl e
           | Inr subs \<Rightarrow> Inr (buildSingleDimOdSubquery od (multi_get gbByOd od)
                 (multi_get dimFilters od) factOd joinPath ob ontology # subs)))"

definition buildDimUniverse ::
  "string list \<Rightarrow> ResolvedGroupBy multi \<Rightarrow> ResolvedFilter multi \<Rightarrow> string \<Rightarrow> JoinEdge list
     \<Rightarrow> (string \<Rightarrow> ObjectInfo option) \<Rightarrow> bool \<Rightarrow> ResolveError + string" where
  "buildDimUniverse dimOds gbByOd dimFilters factOd joinPath byName ontology =
     (if dimOds = [] then Inl (resolve_error ''DENSE_NO_DIMS'' [])
      else case dim_subs dimOds gbByOd dimFilters factOd joinPath byName ontology of
          Inl e \<Rightarrow> Inl e
        | Inr [s] \<Rightarrow> Inr s
        | Inr subs \<Rightarrow> Inr (''SELECT * FROM '' @ join_str '' CROSS JOIN ''
            (map (\<lambda>(i, s). ''('' @ s @ '') d'' @ show_nat i) (enumerate 0 subs))))"

section \<open>The join conditions\<close>

fun dim_conds ::
  "string list \<Rightarrow> ResolvedGroupBy multi \<Rightarrow> string \<Rightarrow> JoinEdge list \<Rightarrow> ResolveError + string list" where
  "dim_conds [] gbByOd factOd joinPath = Inr []"
| "dim_conds (od # ods) gbByOd factOd joinPath =
     (if equal_fold od factOd then dim_conds ods gbByOd factOd joinPath
      else case findJoinEdgeToFact od factOd joinPath of
          None \<Rightarrow> Inl (resolve_error ''DENSE_NO_DIRECT_JOIN'' od)
        | Some edge \<Rightarrow>
            (case dim_conds ods gbByOd factOd joinPath of
               Inl e \<Rightarrow> Inl e
             | Inr conds \<Rightarrow> Inr ((quoteIdent factOd @ ''.'' @ quoteColRef (je_toProp edge) @ '' = dims.''
                 @ quoteIdent (dimJoinRefInDims od edge gbByOd)) # conds)))"

definition buildDenseOn ::
  "ResolvedLakehouseQuery \<Rightarrow> string \<Rightarrow> JoinEdge list \<Rightarrow> ResolvedFilter list
     \<Rightarrow> ResolveError + string list" where
  "buildDenseOn rq factOd joinPath factFilters =
     (let gbByOd = partitionGroupBy rq;
          own = map (\<lambda>gb.
            let left = quoteIdent factOd @ ''.'' @ quoteColRef (pi_name (gb_prop gb));
                left = (if gb_granularity gb \<noteq> [] then dateGranularityExpr left (gb_granularity gb)
                        else left)
            in left @ '' = dims.'' @ quoteIdent (gbOutputLabel gb)) (multi_get gbByOd factOd)
      in case dim_conds (sortedKeys gbByOd) gbByOd factOd joinPath of
           Inl e \<Rightarrow> Inl e
         | Inr conds \<Rightarrow> Inr (own @ conds @ buildGroupedFilterConds factFilters factOd))"

section \<open>The whole query\<close>

text \<open>Filters on objects outside the dimension and fact chain: an inner join and WHERE conditions.\<close>

fun extra_parts ::
  "string list \<Rightarrow> ResolvedFilter multi \<Rightarrow> string \<Rightarrow> JoinEdge list \<Rightarrow> (string \<Rightarrow> ObjectInfo option)
     \<Rightarrow> bool \<Rightarrow> ResolveError + (string list \<times> string list)" where
  "extra_parts [] extras factOd joinPath byName ontology = Inr ([], [])"
| "extra_parts (od # ods) extras factOd joinPath byName ontology =
     (case byName od of
        None \<Rightarrow> Inl (resolve_error ''OBJECT_NOT_FOUND'' od)
      | Some ob \<Rightarrow>
          (case findJoinEdgeBetween factOd od joinPath of
             None \<Rightarrow> Inl (resolve_error ''DENSE_NO_DIRECT_JOIN'' od)
           | Some edge \<Rightarrow>
               (case extra_parts ods extras factOd joinPath byName ontology of
                  Inl e \<Rightarrow> Inl e
                | Inr (joins, conds) \<Rightarrow>
                    Inr ((''JOIN '' @ renderOdSource ob ontology @ '' ON '' @ quoteIdent od @ ''.''
                          @ quoteColRef (je_toProp edge) @ '' = '' @ quoteIdent factOd @ ''.''
                          @ quoteColRef (je_fromProp edge)) # joins,
                         buildGroupedFilterConds (multi_get extras od) od @ conds))))"

definition line_feed :: string where "line_feed = [CHR 0x0A]"

definition default_share_label :: string where
  "default_share_label = [CHR 0xE5, CHR 0x8D, CHR 0xA0, CHR 0xE6, CHR 0xAF, CHR 0x94]"

definition share_label :: "ResolvedLakehouseQuery \<Rightarrow> string" where
  "share_label rq = (if rq_shareLabel rq = [] then default_share_label else rq_shareLabel rq)"

definition share_select :: "string \<Rightarrow> string \<Rightarrow> string \<Rightarrow> string" where
  "share_select metricLabel shareLabel inner =
     ''SELECT _share_inner.*,'' @ line_feed @ ''  ROUND(_share_inner.'' @ quoteIdent metricLabel
     @ '' * 100.0 / NULLIF(SUM(_share_inner.'' @ quoteIdent metricLabel @ '') OVER (), 0), 2) AS ''
     @ quoteIdent shareLabel @ line_feed @ ''FROM ('' @ line_feed @ inner @ line_feed @ '') _share_inner''"

definition limit_clause :: "int \<Rightarrow> string" where
  "limit_clause limit = (if 0 < limit then line_feed @ ''LIMIT '' @ show_int limit else [])"

definition trim_dquotes :: "string \<Rightarrow> string" where
  "trim_dquotes s = trim_right (\<lambda>c. c = CHR 0x22) (trim_left (\<lambda>c. c = CHR 0x22) s)"

definition wrap_share :: "ResolvedLakehouseQuery \<Rightarrow> string \<Rightarrow> string" where
  "wrap_share rq inner =
     (let shareLabel = share_label rq;
          metricLabel = ag_label (hd (rq_aggregates rq));
          order = (if rq_orderByCols rq \<noteq> [] then
              line_feed @ ''ORDER BY '' @ join_str '', '' (map (\<lambda>ob.
                let ref = denseOrderByRef ob rq;
                    ref = (if trim_dquotes ref = metricLabel then quoteIdent shareLabel else ref)
                in ref @ '' '' @ or_dir ob) (rq_orderByCols rq))
            else line_feed @ ''ORDER BY '' @ quoteIdent shareLabel @ '' DESC'')
      in share_select metricLabel shareLabel inner @ order @ limit_clause (rq_limit rq))"

definition order_and_limit :: "ResolvedLakehouseQuery \<Rightarrow> string" where
  "order_and_limit rq =
     (if rq_orderByCols rq \<noteq> [] then line_feed @ ''ORDER BY ''
        @ join_str '', '' (map (\<lambda>ob. denseOrderByRef ob rq @ '' '' @ or_dir ob) (rq_orderByCols rq))
      else []) @ limit_clause (rq_limit rq)"

definition dense_body ::
  "ResolvedLakehouseQuery \<Rightarrow> ObjectInfo \<Rightarrow> bool \<Rightarrow> string \<Rightarrow> string list \<Rightarrow> string list \<Rightarrow> string list
     \<Rightarrow> string" where
  "dense_body rq factObj ontology dimSQL onConds extraJoins extraWhere =
     (let selParts = map (\<lambda>gb. ''  dims.'' @ quoteIdent (gbOutputLabel gb)) (rq_groupByCols rq)
            @ map (\<lambda>agg. ''  '' @ denseAggExpr agg factObj) (rq_aggregates rq);
          having = buildHavingClause rq
      in ''SELECT'' @ line_feed @ join_str ('','' @ line_feed) selParts
         @ line_feed @ ''FROM ('' @ dimSQL @ '') dims''
         @ line_feed @ ''LEFT JOIN '' @ renderOdSource factObj ontology @ '' ON ''
         @ join_str (line_feed @ ''  AND '') onConds
         @ concat (map (\<lambda>j. line_feed @ j) extraJoins)
         @ (if extraWhere \<noteq> [] then line_feed @ ''WHERE '' @ join_str '' AND '' extraWhere else [])
         @ line_feed @ ''GROUP BY ''
         @ join_str '', '' (map (\<lambda>i. show_nat (Suc i)) [0..<length (rq_groupByCols rq)])
         @ (if having \<noteq> [] then line_feed @ having else []))"

definition split_fact_filters ::
  "string \<Rightarrow> ResolvedFilter list \<Rightarrow> ResolvedFilter list \<times> ResolvedFilter multi" where
  "split_fact_filters factOd fs =
     foldl (\<lambda>(own, extras) f.
         if equal_fold (pi_objectName (rf_prop f)) factOd then (own @ [f], extras)
         else (own, multi_add extras (pi_objectName (rf_prop f)) f)) ([], []) fs"

definition buildDenseSQL ::
  "ResolvedLakehouseQuery \<Rightarrow> JoinEdge list \<Rightarrow> bool \<Rightarrow> ResolveError + string" where
  "buildDenseSQL rq joinPath ontology =
     (let factOd = factOdName rq in
      if factOd = [] then Inl (resolve_error ''OBJECT_NOT_FOUND'' [])
      else case odByName rq factOd of
          None \<Rightarrow> Inl (resolve_error ''OBJECT_NOT_FOUND'' factOd)
        | Some factObj \<Rightarrow>
            let (dimFilters, factFilters) = splitDenseFilters rq factOd;
                gbByOd = partitionGroupBy rq;
                (trueFactFilters, extras) = split_fact_filters factOd factFilters
            in case buildDimUniverse (map fst gbByOd) gbByOd dimFilters factOd joinPath (odByName rq)
                 ontology of
                 Inl e \<Rightarrow> Inl e
               | Inr dimSQL \<Rightarrow>
                   (case buildDenseOn rq factOd joinPath trueFactFilters of
                      Inl e \<Rightarrow> Inl e
                    | Inr conds \<Rightarrow>
                        let onConds = (if conds = [] then [''TRUE''] else conds) in
                        (case extra_parts (sortedKeys extras) extras factOd joinPath (odByName rq)
                           ontology of
                           Inl e \<Rightarrow> Inl e
                         | Inr (extraJoins, extraWhere) \<Rightarrow>
                             let body = dense_body rq factObj ontology dimSQL onConds extraJoins
                                   extraWhere
                             in Inr (if rq_addShareColumn rq \<and> rq_aggregates rq \<noteq> []
                                     then wrap_share rq body
                                     else body @ order_and_limit rq))))"

end
