(* ===== verification/Sql_Dense_Props.thy ===== *)
theory Sql_Dense_Props
  imports Sql_Dense
begin

text \<open>
  Properties of the dense builder: filters are routed without loss, the join key each ON condition
  refers to is a column of the dimension subquery, and the exact conditions under which the builder
  falls back.
\<close>

section \<open>Maps of slices\<close>

lemma multi_get_add:
  "multi_get (multi_add m k x) k' = (if k' = k then multi_get m k' @ [x] else multi_get m k')"
  by (induction m k x rule: multi_add.induct) (auto simp: multi_get_def)

lemma multi_add_keys: "fst ` set (multi_add m k x) = insert k (fst ` set m)"
  by (induction m k x rule: multi_add.induct) auto

lemma multi_get_fold:
  "multi_get (foldl (\<lambda>m x. multi_add m (key x) x) m xs) k = multi_get m k @ filter (\<lambda>x. key x = k) xs"
  by (induction xs arbitrary: m) (auto simp: multi_get_add)

lemma multi_keys_fold:
  "fst ` set (foldl (\<lambda>m x. multi_add m (key x) x) m xs) = fst ` set m \<union> key ` set xs"
  by (induction xs arbitrary: m) (auto simp: multi_add_keys)

lemma partition_get:
  "multi_get (partitionGroupBy rq) od = filter (\<lambda>gb. pi_objectName (gb_prop gb) = od) (rq_groupByCols rq)"
  by (simp add: partitionGroupBy_def multi_get_fold) (simp add: multi_get_def)

lemma partition_keys:
  "fst ` set (partitionGroupBy rq) = (\<lambda>gb. pi_objectName (gb_prop gb)) ` set (rq_groupByCols rq)"
  by (simp add: partitionGroupBy_def multi_keys_fold)

section \<open>Filters are not lost\<close>

abbreviation fod :: "ResolvedFilter \<Rightarrow> string" where "fod f \<equiv> pi_objectName (rf_prop f)"

text \<open>A filter is in force: in the WHERE of its dimension subquery, or among the fact filters.\<close>

definition has_od :: "'a multi \<Rightarrow> string \<Rightarrow> bool" where
  "has_od m od \<longleftrightarrow> od \<in> fst ` set m"

definition in_force :: "ResolvedGroupBy multi \<Rightarrow> routed \<Rightarrow> ResolvedFilter \<Rightarrow> bool" where
  "in_force gbByOd r f \<longleftrightarrow>
     has_od gbByOd (fod f) \<and> f \<in> set (multi_get (fst r) (fod f)) \<or> f \<in> set (snd r)"

lemma multi_get_key: "multi_get m k \<noteq> [] \<Longrightarrow> has_od m k"
  by (force simp: has_od_def multi_get_def split: option.splits dest: map_of_SomeD)

lemma route_mono: "in_force g r f \<Longrightarrow> in_force g (route_filter g factOd r h) f"
  by (cases r) (auto simp: in_force_def route_filter_def Let_def multi_get_add)

lemma route_in_force:
  assumes "equal_fold (fod f) factOd \<longrightarrow> fod f = factOd"
  shows "in_force g (route_filter g factOd r f) f"
proof -
  have 1: "map_of g (fod f) \<noteq> None \<Longrightarrow> has_od g (fod f)"
    by (force simp: has_od_def dest: map_of_SomeD)
  have 2: "x \<in> (\<lambda>gb. to_lower (pi_name (gb_prop gb))) ` set (multi_get g factOd) \<Longrightarrow> has_od g factOd" for x
    using multi_get_key [of g factOd] by (cases "multi_get g factOd") auto
  show ?thesis
    using assms 1 2 by (cases r) (auto simp: in_force_def route_filter_def Let_def multi_get_add)
qed

lemma fold_route_mono: "in_force g r f \<Longrightarrow> in_force g (foldl (route_filter g factOd) r hs) f"
  by (induction hs arbitrary: r) (auto simp: route_mono)

lemma fold_route_in_force:
  assumes "f \<in> set fs" "equal_fold (fod f) factOd \<longrightarrow> fod f = factOd"
  shows "in_force g (foldl (route_filter g factOd) r fs) f"
  using assms(1)
proof (induction fs arbitrary: r)
  case (Cons h fs)
  show ?case
  proof (cases "f = h")
    case True
    then show ?thesis using fold_route_mono [OF route_in_force [OF assms(2), of g r]] by simp
  next
    case False
    with Cons.prems have "f \<in> set fs" by simp
    from Cons.IH [OF this, of "route_filter g factOd r h"] show ?thesis by simp
  qed
qed simp

lemma split_fact:
  "split_fact_filters factOd fs =
     (filter (\<lambda>f. equal_fold (fod f) factOd) fs,
      foldl (\<lambda>m f. multi_add m (fod f) f) [] (filter (\<lambda>f. \<not> equal_fold (fod f) factOd) fs))"
proof -
  have "foldl (\<lambda>(own, extras) f. if equal_fold (fod f) factOd then (own @ [f], extras)
         else (own, multi_add extras (fod f) f)) (ow, x) fs =
      (ow @ filter (\<lambda>f. equal_fold (fod f) factOd) fs,
       foldl (\<lambda>m f. multi_add m (fod f) f) x (filter (\<lambda>f. \<not> equal_fold (fod f) factOd) fs))" for ow x
    by (induction fs arbitrary: ow x) auto
  then show ?thesis by (simp add: split_fact_filters_def)
qed

text \<open>No filter is lost in a dense query: provided object names that differ only in case are the
  same, every filter ends up in the WHERE of the dimension subquery of its grouped object, in the
  ON condition of the fact object, or in the WHERE of an extra joined object.\<close>

theorem no_filter_is_lost:
  assumes "list_all (\<lambda>f. \<not> (equal_fold (pi_objectName (rf_prop f)) factOd
      \<and> pi_objectName (rf_prop f) \<noteq> factOd)) (rq_filterItems rq)"
    and "f \<in> set (rq_filterItems rq)"
  shows "let (dimFilters, factFilters) = splitDenseFilters rq factOd;
             (own, extras) = split_fact_filters factOd factFilters;
             od = pi_objectName (rf_prop f)
         in od \<in> fst ` set (partitionGroupBy rq) \<and> f \<in> set (multi_get dimFilters od)
            \<or> od = factOd \<and> f \<in> set own
            \<or> od \<noteq> factOd \<and> f \<in> set (multi_get extras od)"
proof -
  let ?r = "splitDenseFilters rq factOd"
  have fold: "equal_fold (fod f) factOd \<longrightarrow> fod f = factOd"
    using assms by (auto simp: list_all_iff)
  have "in_force (partitionGroupBy rq) ?r f"
    unfolding splitDenseFilters_def by (rule fold_route_in_force [OF assms(2) fold])
  then show ?thesis
    using fold
    unfolding in_force_def has_od_def
    by (cases ?r) (simp add: split_fact multi_get_fold Let_def, metis equal_fold_refl)
qed

definition dense_prop :: "string \<Rightarrow> string \<Rightarrow> PropertyInfo" where
  "dense_prop od name = \<lparr>pi_name = name, pi_dataType = ''text'', pi_tableName = [], pi_columnName = name,
     pi_objectName = od, pi_objectID = []\<rparr>"

definition dense_filter :: "string \<Rightarrow> string \<Rightarrow> ResolvedFilter" where
  "dense_filter od name = \<lparr>rf_prop = dense_prop od name, rf_op = ''='', rf_value = ''x'',
     rf_originalValue = ''x'', rf_fuzzy = False\<rparr>"

definition dense_query :: ResolvedLakehouseQuery where
  "dense_query = \<lparr>rq_projectID = [],
     rq_objects = [\<lparr>oi_id = [], oi_name = ''Order'', oi_canonicalQuery = ''SELECT 1'', oi_props = [],
       oi_actualColumns = [], oi_unmatchedProps = []\<rparr>],
     rq_allProps = [],
     rq_groupByCols = [\<lparr>gb_prop = dense_prop ''Order'' ''Region'', gb_granularity = [],
       gb_outputLabel = [], gb_originalToken = []\<rparr>],
     rq_filterItems = [dense_filter ''Order'' ''Status''],
     rq_aggregates = [\<lparr>ag_kind = AggCountRows, ag_prop = None, ag_func = [], ag_label = [], ag_expr = [],
       ag_table = []\<rparr>],
     rq_orderByCols = [], rq_derived = [], rq_metricFilter = None, rq_keywordCorrections = [],
     rq_limit = 10, rq_warnings = [], rq_denseGroups = None, rq_addShareColumn = False,
     rq_shareLabel = []\<rparr>"

lemma no_filter_is_lost_witness:
  "let (dimFilters, factFilters) = splitDenseFilters dense_query ''Order'';
       own = fst (split_fact_filters ''Order'' factFilters);
       f = dense_filter ''Order'' ''Status''
   in f \<in> set own \<or> f \<in> set (multi_get dimFilters ''Order'')"
proof -
  have "list_all (\<lambda>f. \<not> (equal_fold (pi_objectName (rf_prop f)) ''Order''
      \<and> pi_objectName (rf_prop f) \<noteq> ''Order'')) (rq_filterItems dense_query)"
    "dense_filter ''Order'' ''Status'' \<in> set (rq_filterItems dense_query)"
    by (simp_all add: dense_query_def dense_filter_def dense_prop_def)
  from no_filter_is_lost [OF this] show ?thesis
    by (auto simp: Let_def dense_filter_def dense_prop_def split: prod.splits)
qed

section \<open>References into the dimension subquery\<close>

text \<open>Every name the outer query takes from \<open>dims\<close> is an output column of the dimension subquery:
  the label of each grouped column of the object, and the join key the ON condition compares with
  the fact object, visible or hidden.\<close>

theorem dims_references_exist:
  assumes "\<not> equal_fold od factOd" "findJoinEdgeToFact od factOd joinPath = Some edge"
  shows "let gbByOd = partitionGroupBy rq;
             columns = dim_columns od (multi_get gbByOd od) factOd joinPath ob
         in dimJoinRefInDims od edge gbByOd \<in> snd ` set columns
            \<and> list_all (\<lambda>gb. pi_objectName (gb_prop gb) = od \<longrightarrow> gbOutputLabel gb \<in> snd ` set columns)
                (rq_groupByCols rq)"
proof -
  let ?gs = "multi_get (partitionGroupBy rq) od"
  let ?cols = "dim_columns od ?gs factOd joinPath ob"
  have vis: "gbOutputLabel gb \<in> snd ` set ?cols" if "gb \<in> set ?gs" for gb
    using that by (force simp: dim_columns_def Let_def)
  have "dimJoinRefInDims od edge (partitionGroupBy rq) \<in> snd ` set ?cols"
  proof (cases "find (visible_key (je_fromProp edge)) ?gs")
    case None
    then have "\<not> list_ex (visible_key (je_fromProp edge)) ?gs"
      by (auto simp: find_None_iff list_ex_iff)
    with assms None show ?thesis by (simp add: dimJoinRefInDims_def dim_columns_def Let_def)
  next
    case (Some gb)
    then have "gb \<in> set ?gs" by (auto simp: find_Some_iff)
    with Some vis show ?thesis by (simp add: dimJoinRefInDims_def)
  qed
  with vis show ?thesis by (simp add: partition_get list_all_iff)
qed

lemma dims_references_exist_witness:
  "dimJoinRefInDims ''Store'' \<lparr>je_fromOd = ''Store'', je_fromProp = ''id'', je_toOd = ''Order'',
       je_toProp = ''store_id'', je_cardinality = ''1:N''\<rparr> (partitionGroupBy dense_query)
     \<in> snd ` set (dim_columns ''Store'' (multi_get (partitionGroupBy dense_query) ''Store'') ''Order''
         [\<lparr>je_fromOd = ''Order'', je_fromProp = ''store_id'', je_toOd = ''Store'', je_toProp = ''id'',
           je_cardinality = ''1:N''\<rparr>] (hd (rq_objects dense_query)))"
proof -
  have "\<not> equal_fold ''Store'' ''Order''"
    "findJoinEdgeToFact ''Store'' ''Order'' [\<lparr>je_fromOd = ''Order'', je_fromProp = ''store_id'',
       je_toOd = ''Store'', je_toProp = ''id'', je_cardinality = ''1:N''\<rparr>]
     = Some \<lparr>je_fromOd = ''Store'', je_fromProp = ''id'', je_toOd = ''Order'', je_toProp = ''store_id'',
         je_cardinality = ''1:N''\<rparr>" by code_simp+
  from dims_references_exist [OF this, of dense_query] show ?thesis by (simp add: Let_def)
qed

section \<open>When the builder falls back\<close>

lemma dim_subs_ok:
  "(\<exists>subs. dim_subs ods g df factOd jp byName ont = Inr subs \<and> length subs = length ods)
     \<longleftrightarrow> list_all (\<lambda>od. byName od \<noteq> None) ods"
  "(\<exists>subs. dim_subs ods g df factOd jp byName ont = Inr subs)
     \<longleftrightarrow> list_all (\<lambda>od. byName od \<noteq> None) ods"
  by (induction ods) (auto split: option.splits sum.splits)

lemma buildDimUniverse_ok:
  "(\<exists>s. buildDimUniverse ods g df factOd jp byName ont = Inr s)
     \<longleftrightarrow> ods \<noteq> [] \<and> list_all (\<lambda>od. byName od \<noteq> None) ods"
  unfolding dim_subs_ok(2) [of ods g df factOd jp byName ont, symmetric]
  by (auto simp: buildDimUniverse_def split: sum.splits list.splits)

lemma dim_conds_ok:
  "(\<exists>cs. dim_conds ods g factOd jp = Inr cs)
     \<longleftrightarrow> list_all (\<lambda>od. equal_fold od factOd \<or> findJoinEdgeToFact od factOd jp \<noteq> None) ods"
  by (induction ods) (auto split: option.splits sum.splits)

lemma extra_parts_ok:
  "(\<exists>r. extra_parts ods ex factOd jp byName ont = Inr r)
     \<longleftrightarrow> list_all (\<lambda>od. byName od \<noteq> None \<and> findJoinEdgeBetween factOd od jp \<noteq> None) ods"
  by (induction ods) (auto split: option.splits sum.splits simp del: split_paired_Ex)

lemma list_all_partition:
  "list_all P (map fst (partitionGroupBy rq))
     = list_all (\<lambda>gb. P (pi_objectName (gb_prop gb))) (rq_groupByCols rq)"
  "list_all P (sortedKeys (partitionGroupBy rq))
     = list_all (\<lambda>gb. P (pi_objectName (gb_prop gb))) (rq_groupByCols rq)"
proof -
  have "set (map fst (partitionGroupBy rq)) = (\<lambda>gb. pi_objectName (gb_prop gb)) ` set (rq_groupByCols rq)"
    by (simp add: partition_keys)
  then show "list_all P (map fst (partitionGroupBy rq))
     = list_all (\<lambda>gb. P (pi_objectName (gb_prop gb))) (rq_groupByCols rq)"
    "list_all P (sortedKeys (partitionGroupBy rq))
     = list_all (\<lambda>gb. P (pi_objectName (gb_prop gb))) (rq_groupByCols rq)"
    unfolding list_all_iff sortedKeys_def set_sort by simp_all
qed

lemma partition_empty: "map fst (partitionGroupBy rq) = [] \<longleftrightarrow> rq_groupByCols rq = []"
proof -
  have "set (map fst (partitionGroupBy rq)) = (\<lambda>gb. pi_objectName (gb_prop gb)) ` set (rq_groupByCols rq)"
    by (simp add: partition_keys)
  then show ?thesis by (metis image_is_empty set_empty)
qed

text \<open>C35: The dense builder produces a query exactly when the fact object is known and loaded, there
  is a grouped column, every grouped object is loaded and is the fact object or directly joined to
  it, and every other filtered object is loaded and directly joined; otherwise it returns an error
  and the caller falls back to the regular builder.\<close>

theorem dense_builder_succeeds_exactly:
  "let factOd = factOdName rq;
       extras = snd (split_fact_filters factOd (snd (splitDenseFilters rq factOd)))
   in (\<exists>sql. buildDenseSQL rq joinPath ontology = Inr sql) \<longleftrightarrow>
        factOd \<noteq> [] \<and> odByName rq factOd \<noteq> None \<and> rq_groupByCols rq \<noteq> []
        \<and> list_all (\<lambda>gb. let od = pi_objectName (gb_prop gb) in odByName rq od \<noteq> None
             \<and> \<not> (\<not> equal_fold od factOd \<and> findJoinEdgeToFact od factOd joinPath = None)) (rq_groupByCols rq)
        \<and> list_all (\<lambda>od. odByName rq od \<noteq> None \<and> findJoinEdgeBetween factOd od joinPath \<noteq> None)
             (map fst extras)"
proof -
  let ?f = "factOdName rq"
  obtain df ff where r: "splitDenseFilters rq ?f = (df, ff)" by fastforce
  obtain own ex where x: "split_fact_filters ?f ff = (own, ex)" by fastforce
  have un: "(\<exists>s. buildDimUniverse (map fst (partitionGroupBy rq)) (partitionGroupBy rq) df ?f joinPath
        (odByName rq) ontology = Inr s) \<longleftrightarrow> rq_groupByCols rq \<noteq> []
      \<and> list_all (\<lambda>gb. odByName rq (pi_objectName (gb_prop gb)) \<noteq> None) (rq_groupByCols rq)"
    unfolding buildDimUniverse_ok list_all_partition partition_empty ..
  have on: "(\<exists>c. buildDenseOn rq ?f joinPath own = Inr c) \<longleftrightarrow>
      list_all (\<lambda>gb. equal_fold (pi_objectName (gb_prop gb)) ?f
        \<or> findJoinEdgeToFact (pi_objectName (gb_prop gb)) ?f joinPath \<noteq> None) (rq_groupByCols rq)"
    using dim_conds_ok [of "sortedKeys (partitionGroupBy rq)" "partitionGroupBy rq" ?f joinPath]
    unfolding list_all_partition by (auto simp: buildDenseOn_def Let_def split: sum.splits)
  have ep: "(\<exists>r. extra_parts (sortedKeys ex) ex ?f joinPath (odByName rq) ontology = Inr r) \<longleftrightarrow>
      list_all (\<lambda>od. odByName rq od \<noteq> None \<and> findJoinEdgeBetween ?f od joinPath \<noteq> None) (map fst ex)"
    unfolding extra_parts_ok by (simp add: list_all_iff sortedKeys_def)
  have "(\<exists>sql. buildDenseSQL rq joinPath ontology = Inr sql) \<longleftrightarrow>
      ?f \<noteq> [] \<and> odByName rq ?f \<noteq> None
      \<and> (\<exists>s. buildDimUniverse (map fst (partitionGroupBy rq)) (partitionGroupBy rq) df ?f joinPath
            (odByName rq) ontology = Inr s)
      \<and> (\<exists>c. buildDenseOn rq ?f joinPath own = Inr c)
      \<and> (\<exists>r. extra_parts (sortedKeys ex) ex ?f joinPath (odByName rq) ontology = Inr r)"
    by (simp add: buildDenseSQL_def Let_def r x split: option.splits sum.splits prod.splits)
  then show ?thesis unfolding un on ep by (auto simp: r x Let_def list_all_iff)
qed

end
