(* ===== verification/Join_Resolver.thy ===== *)
theory Join_Resolver
  imports Sql_Dense
begin

text \<open>
  Join path resolution (\<open>join_resolver.go\<close>): the adjacency of the join edges of a project, the
  breadth-first search between two objects, the greedy connection of several, and the removal of
  duplicate edges. The edges themselves come from the database (\<open>loadJoinEdges\<close>) and are a
  parameter. Go iterates over its maps of remaining and joined objects in an arbitrary order,
  which may differ in every round; the order is the parameter \<open>ord\<close>, which gets the number of
  rounds left.
\<close>

section \<open>Adjacency\<close>

definition reverseCardinality :: "string \<Rightarrow> string" where
  "reverseCardinality c = (if c = ''1:N'' then ''N:1'' else if c = ''N:1'' then ''1:N'' else c)"

definition flip_edge :: "JoinEdge \<Rightarrow> JoinEdge" where
  "flip_edge e =
     \<lparr>je_fromOd = je_toOd e, je_fromProp = je_toProp e, je_toOd = je_fromOd e,
      je_toProp = je_fromProp e, je_cardinality = reverseCardinality (je_cardinality e)\<rparr>"

text \<open>The slice the map holds for one object: the edges from it, and the reversed edges to it.\<close>

definition adjacency :: "JoinEdge list \<Rightarrow> string \<Rightarrow> JoinEdge list" where
  "adjacency edges od =
     concat (map (\<lambda>e. (if je_fromOd e = od then [e] else [])
                    @ (if je_toOd e = od then [flip_edge e] else [])) edges)"

definition nodes :: "JoinEdge list \<Rightarrow> string set" where
  "nodes edges = je_fromOd ` set edges \<union> je_toOd ` set edges"

section \<open>Breadth-first search\<close>

type_synonym bfsNode = "string \<times> JoinEdge list"

text \<open>The inner loop over the edges of one object: the finished path, or the new loop state.\<close>

fun expand ::
  "string \<Rightarrow> JoinEdge list \<Rightarrow> JoinEdge list \<Rightarrow> string list \<Rightarrow> bfsNode list
     \<Rightarrow> JoinEdge list + (string list \<times> bfsNode list)" where
  "expand dst path [] visited queue = Inr (visited, queue)"
| "expand dst path (edge # es) visited queue =
     (if je_toOd edge \<in> set visited then expand dst path es visited queue
      else if je_toOd edge = dst then Inl (path @ [edge])
      else expand dst path es (je_toOd edge # visited) (queue @ [(je_toOd edge, path @ [edge])]))"

lemma expand_Inr:
  assumes "expand dst path es visited queue = Inr (visited', queue')"
  shows "\<exists>new. queue' = queue @ new \<and> set visited' = set visited \<union> je_toOd ` set es
    \<and> fst ` set new = je_toOd ` set es - set visited
    \<and> length new = card (je_toOd ` set es - set visited)
    \<and> (\<forall>(od, p) \<in> set new. \<exists>e \<in> set es. je_toOd e = od \<and> p = path @ [e])
    \<and> dst \<notin> je_toOd ` set es - set visited"
  using assms
proof (induction dst path es visited queue rule: expand.induct)
  case (1 dst path visited queue)
  then show ?case by simp
next
  case (2 dst path edge es visited queue)
  show ?case
  proof (cases "je_toOd edge \<in> set visited")
    case True
    with 2 obtain new where "queue' = queue @ new" "set visited' = set visited \<union> je_toOd ` set es"
      "fst ` set new = je_toOd ` set es - set visited"
      "length new = card (je_toOd ` set es - set visited)"
      "\<forall>(od, p) \<in> set new. \<exists>e \<in> set es. je_toOd e = od \<and> p = path @ [e]"
      "dst \<notin> je_toOd ` set es - set visited" by auto
    with True show ?thesis
      by (intro exI [of _ new]) (auto simp: insert_Diff_if)
  next
    case False
    let ?w = "je_toOd edge"
    from 2 False have "?w \<noteq> dst" by (auto split: if_splits)
    with 2 False obtain new where n:
      "queue' = (queue @ [(?w, path @ [edge])]) @ new"
      "set visited' = set (?w # visited) \<union> je_toOd ` set es"
      "fst ` set new = je_toOd ` set es - set (?w # visited)"
      "length new = card (je_toOd ` set es - set (?w # visited))"
      "\<forall>(od, p) \<in> set new. \<exists>e \<in> set es. je_toOd e = od \<and> p = path @ [e]"
      "dst \<notin> je_toOd ` set es - set (?w # visited)" by auto
    have diff: "je_toOd ` set (edge # es) - set visited
        = insert ?w (je_toOd ` set es - set (?w # visited))" using False by auto
    then have "card (je_toOd ` set (edge # es) - set visited) = Suc (length new)"
      using n(4) by simp
    with n False \<open>?w \<noteq> dst\<close> diff show ?thesis
      by (intro exI [of _ "(?w, path @ [edge]) # new"]) auto
  qed
qed

lemma adjacency_iff:
  "e \<in> set (adjacency edges od) \<longleftrightarrow>
     je_fromOd e = od \<and> (e \<in> set edges \<or> (\<exists>e' \<in> set edges. e = flip_edge e'))"
  by (auto simp: adjacency_def flip_edge_def split: if_splits)

lemma adjacency_nodes: "e \<in> set (adjacency edges od) \<Longrightarrow> je_toOd e \<in> nodes edges"
  by (auto simp: adjacency_iff nodes_def flip_edge_def)

function bfs_loop ::
  "JoinEdge list \<Rightarrow> string \<Rightarrow> string list \<Rightarrow> bfsNode list \<Rightarrow> JoinEdge list option" where
  "bfs_loop edges dst visited [] = None"
| "bfs_loop edges dst visited ((od, path) # queue) =
     (case expand dst path (adjacency edges od) visited queue of
        Inl p \<Rightarrow> Some p
      | Inr (visited', queue') \<Rightarrow> bfs_loop edges dst visited' queue')"
  by pat_completeness auto
termination
proof (relation "measure (\<lambda>(edges, dst, visited, queue).
    2 * card (nodes edges - set visited) + length queue)")
  fix edges dst visited od path queue r v' q'
  assume e: "expand dst path (adjacency edges od) visited queue = Inr r" "(v', q') = r"
  let ?new = "je_toOd ` set (adjacency edges od) - set visited"
  obtain new where n: "q' = queue @ new" "set v' = set visited \<union> je_toOd ` set (adjacency edges od)"
    "length new = card ?new"
    using expand_Inr [of dst path "adjacency edges od" visited queue v' q'] e by auto
  have fin: "finite (nodes edges)" by (simp add: nodes_def)
  have sub: "?new \<subseteq> nodes edges - set visited" using adjacency_nodes by auto
  have "nodes edges - set v' = (nodes edges - set visited) - ?new" using n(2) by auto
  then have "card (nodes edges - set v') = card (nodes edges - set visited) - card ?new"
    using sub fin by (simp add: card_Diff_subset finite_subset)
  moreover have "card ?new \<le> card (nodes edges - set visited)"
    using sub fin by (simp add: card_mono)
  ultimately show "((edges, dst, v', q'), (edges, dst, visited, (od, path) # queue))
      \<in> measure (\<lambda>(edges, dst, visited, queue). 2 * card (nodes edges - set visited) + length queue)"
    using n(1,3) by simp
qed simp

definition bfsPath :: "JoinEdge list \<Rightarrow> string \<Rightarrow> string \<Rightarrow> JoinEdge list option" where
  "bfsPath edges src dst =
     (if src = dst then Some [] else bfs_loop edges dst [src] [(src, [])])"

section \<open>Connecting several objects\<close>

text \<open>
  The search for the closest remaining object. The nil slice of Go is the empty list: it stands for
  "nothing found yet", and also for the path from an object to itself.
\<close>

definition better :: "JoinEdge list \<Rightarrow> JoinEdge list \<times> string \<Rightarrow> string \<times> string
    \<Rightarrow> JoinEdge list \<times> string" where
  "better edges best tn =
     (case bfsPath edges (snd tn) (fst tn) of
        None \<Rightarrow> best
      | Some path \<Rightarrow>
          if fst best = [] \<or> length path < length (fst best) then (path, fst tn) else best)"

definition best_path :: "JoinEdge list \<Rightarrow> string list \<Rightarrow> string list \<Rightarrow> JoinEdge list \<times> string" where
  "best_path edges remaining joined =
     foldl (better edges) ([], []) (concat (map (\<lambda>t. map (\<lambda>n. (t, n)) joined) remaining))"

text \<open>A failure lists the unreachable objects; the outer \<open>None\<close> would be running out of rounds.\<close>

fun span_loop ::
  "(nat \<Rightarrow> string list \<Rightarrow> string list) \<Rightarrow> nat \<Rightarrow> JoinEdge list \<Rightarrow> string list \<Rightarrow> string list
     \<Rightarrow> JoinEdge list \<Rightarrow> (string list + JoinEdge list) option" where
  "span_loop ord n edges joined [] result = Some (Inr result)"
| "span_loop ord 0 edges joined (t # ts) result = None"
| "span_loop ord (Suc n) edges joined (t # ts) result =
     (case best_path edges (ord n (t # ts)) (ord n joined) of
        (bestPath, bestTarget) \<Rightarrow>
          if bestPath = [] then Some (Inl (ord n (t # ts)))
          else span_loop ord n edges
                 (remdups (joined @ map je_fromOd bestPath @ map je_toOd bestPath))
                 (removeAll bestTarget (t # ts)) (result @ bestPath))"

definition edge_key :: "JoinEdge \<Rightarrow> string" where
  "edge_key e = je_fromOd e @ ''.'' @ je_fromProp e @ ''->'' @ je_toOd e @ ''.'' @ je_toProp e"

definition rev_key :: "JoinEdge \<Rightarrow> string" where
  "rev_key e = je_toOd e @ ''.'' @ je_toProp e @ ''->'' @ je_fromOd e @ ''.'' @ je_fromProp e"

fun dedup_loop :: "JoinEdge list \<Rightarrow> string list \<Rightarrow> JoinEdge list \<Rightarrow> JoinEdge list" where
  "dedup_loop [] seen result = result"
| "dedup_loop (e # es) seen result =
     (if edge_key e \<in> set seen \<or> rev_key e \<in> set seen then dedup_loop es seen result
      else dedup_loop es (edge_key e # seen) (result @ [e]))"

definition deduplicateEdges :: "JoinEdge list \<Rightarrow> JoinEdge list" where
  "deduplicateEdges edges = dedup_loop edges [] []"

datatype join_error = NoJoinRelations | NoPath "string list" | OutOfRounds

definition findSpanningPath ::
  "(nat \<Rightarrow> string list \<Rightarrow> string list) \<Rightarrow> JoinEdge list \<Rightarrow> string list
     \<Rightarrow> join_error + JoinEdge list" where
  "findSpanningPath ord edges targets =
     (if length targets = 2 then
        (case bfsPath edges (targets ! 0) (targets ! 1) of
           None \<Rightarrow> Inl (NoPath targets)
         | Some path \<Rightarrow> Inr path)
      else
        let remaining = remdups (tl targets) in
        case span_loop ord (length remaining) edges [hd targets] remaining [] of
          None \<Rightarrow> Inl OutOfRounds
        | Some (Inl unreachable) \<Rightarrow> Inl (NoPath unreachable)
        | Some (Inr result) \<Rightarrow> Inr (deduplicateEdges result))"

definition ResolveJoinPath ::
  "(nat \<Rightarrow> string list \<Rightarrow> string list) \<Rightarrow> JoinEdge list \<Rightarrow> string list
     \<Rightarrow> join_error + JoinEdge list" where
  "ResolveJoinPath ord edges objectNames =
     (if length objectNames \<le> 1 then Inr []
      else if edges = [] then Inl NoJoinRelations
      else findSpanningPath ord edges objectNames)"

end
