(* ===== verification/Join_Resolver_Props.thy ===== *)
theory Join_Resolver_Props
  imports Join_Resolver
begin

text \<open>
  What the join resolution delivers: the breadth-first search returns a shortest chain of joins and
  fails only when there is none, and the greedy connection of several distinct objects always ends,
  with a list of joins in which every edge starts at an object that is already connected.
\<close>

section \<open>Chains of joins\<close>

fun chain :: "JoinEdge list \<Rightarrow> string \<Rightarrow> JoinEdge list \<Rightarrow> string \<Rightarrow> bool" where
  "chain edges u [] v \<longleftrightarrow> u = v"
| "chain edges u (e # p) v \<longleftrightarrow> e \<in> set (adjacency edges u) \<and> chain edges (je_toOd e) p v"

lemma chain_snoc:
  "chain edges u (p @ [e]) v \<longleftrightarrow>
     (\<exists>w. chain edges u p w \<and> e \<in> set (adjacency edges w) \<and> je_toOd e = v)"
  by (induction p arbitrary: u) auto

text \<open>A chain that leaves a set of objects has a last object in it.\<close>

lemma chain_last_inside:
  assumes "chain edges u r w" and "u \<in> S" and "w \<notin> S"
  shows "\<exists>x e r'. x \<in> S \<and> e \<in> set (adjacency edges x) \<and> je_toOd e \<notin> S
    \<and> chain edges x (e # r') w \<and> length (e # r') \<le> length r
    \<and> (length (e # r') = length r \<longrightarrow> x = u)"
  using assms
proof (induction r arbitrary: u)
  case Nil
  then show ?case by simp
next
  case (Cons e r)
  show ?case
  proof (cases "je_toOd e \<in> S")
    case True
    with Cons obtain x e' r' where "x \<in> S" "e' \<in> set (adjacency edges x)" "je_toOd e' \<notin> S"
      "chain edges x (e' # r') w" "length (e' # r') \<le> length r"
      by (metis chain.simps(2))
    then show ?thesis by (intro exI [of _ x] exI [of _ e'] exI [of _ r']) auto
  next
    case False
    with Cons.prems show ?thesis by (intro exI [of _ u] exI [of _ e] exI [of _ r]) auto
  qed
qed

section \<open>The invariant of the search\<close>

definition bfs_inv :: "JoinEdge list \<Rightarrow> string \<Rightarrow> string \<Rightarrow> string list \<Rightarrow> bfsNode list \<Rightarrow> bool" where
  "bfs_inv edges src dst visited queue \<longleftrightarrow>
     dst \<notin> set visited
   \<and> (\<forall>n p. (n, p) \<in> set queue \<longrightarrow> chain edges src p n \<and> n \<in> set visited)
   \<and> sorted (map (length \<circ> snd) queue)
   \<and> (\<forall>x \<in> set queue. \<forall>y \<in> set queue. length (snd y) \<le> Suc (length (snd x)))
   \<and> (\<forall>n \<in> set visited. n \<in> fst ` set queue
        \<or> je_toOd ` set (adjacency edges n) \<subseteq> set visited)
   \<and> (\<forall>w q. w \<notin> set visited \<longrightarrow> chain edges src q w \<longrightarrow>
        (\<exists>n p r. (n, p) \<in> set queue \<and> chain edges n r w \<and> length p + length r \<le> length q))"

lemma bfs_inv_chain:
  assumes "bfs_inv edges src dst visited queue" "w \<notin> set visited" "chain edges src q w"
  obtains n p r where "(n, p) \<in> set queue" "chain edges n r w" "length p + length r \<le> length q"
proof -
  have "\<forall>w q. w \<notin> set visited \<longrightarrow> chain edges src q w \<longrightarrow>
        (\<exists>n p r. (n, p) \<in> set queue \<and> chain edges n r w \<and> length p + length r \<le> length q)"
    using assms(1) by (simp add: bfs_inv_def)
  from this [rule_format, OF assms(2,3)] show ?thesis using that by (elim exE conjE)
qed

lemma bfs_inv_start: "src \<noteq> dst \<Longrightarrow> bfs_inv edges src dst [src] [(src, [])]"
  by (auto simp: bfs_inv_def)

lemma expand_Inl:
  "expand dst path es visited queue = Inl p \<Longrightarrow> \<exists>e \<in> set es. je_toOd e = dst \<and> p = path @ [e]"
  by (induction dst path es visited queue rule: expand.induct) (auto split: if_splits)

lemma bfs_inv_step:
  assumes inv: "bfs_inv edges src dst visited ((od, path) # queue)"
    and step: "expand dst path (adjacency edges od) visited queue = Inr (visited', queue')"
  shows "bfs_inv edges src dst visited' queue'"
proof -
  let ?N = "je_toOd ` set (adjacency edges od)"
  obtain new where new: "queue' = queue @ new" "set visited' = set visited \<union> ?N"
    "fst ` set new = ?N - set visited"
    "\<forall>(od', p) \<in> set new. \<exists>e \<in> set (adjacency edges od). je_toOd e = od' \<and> p = path @ [e]"
    "dst \<notin> ?N - set visited"
    using expand_Inr [OF step] by blast
  have od: "chain edges src path od" "od \<in> set visited"
    using inv unfolding bfs_inv_def by auto
  have new_len: "length (snd x) = Suc (length path)" if "x \<in> set new" for x
    using new(4) that by fastforce
  have q_ge: "length path \<le> length (snd x)" and q_le: "length (snd x) \<le> Suc (length path)"
    if "x \<in> set queue" for x
    using inv that unfolding bfs_inv_def by auto
  have I1: "dst \<notin> set visited'" using inv new(2,5) unfolding bfs_inv_def by auto
  have I2: "chain edges src p n \<and> n \<in> set visited'" if "(n, p) \<in> set queue'" for n p
  proof (cases "(n, p) \<in> set queue")
    case True
    then show ?thesis using inv new(2) unfolding bfs_inv_def by auto
  next
    case False
    with that new(1) have "(n, p) \<in> set new" by auto
    with new(4) obtain e where "e \<in> set (adjacency edges od)" "je_toOd e = n" "p = path @ [e]"
      by fastforce
    with od(1) new(2) show ?thesis by (auto simp: chain_snoc)
  qed
  have "sorted (map (length \<circ> snd) queue)" using inv unfolding bfs_inv_def by auto
  moreover have "sorted (map (length \<circ> snd) new)"
    using new_len by (auto simp: sorted_iff_nth_mono)
  ultimately have I3: "sorted (map (length \<circ> snd) queue')"
    using new_len q_le by (auto simp: new(1) sorted_append)
  have I4: "length (snd y) \<le> Suc (length (snd x))" if "x \<in> set queue'" "y \<in> set queue'" for x y
  proof -
    have "length path \<le> length (snd x)" "length (snd y) \<le> Suc (length path)"
      using that new_len [of x] new_len [of y] q_le [of y] q_ge [of x]
      unfolding new(1) set_append Un_iff by linarith+
    then show ?thesis by simp
  qed
  have I5: "n \<in> fst ` set queue' \<or> je_toOd ` set (adjacency edges n) \<subseteq> set visited'"
    if "n \<in> set visited'" for n
  proof -
    have "n \<in> fst ` set ((od, path) # queue) \<or> je_toOd ` set (adjacency edges n) \<subseteq> set visited"
      if "n \<in> set visited" using inv that unfolding bfs_inv_def by blast
    moreover have "n \<in> fst ` set new" if "n \<notin> set visited"
      using \<open>n \<in> set visited'\<close> that new(2,3) by auto
    ultimately show ?thesis using new(1,2) by auto
  qed
  have I6: "\<exists>n p r. (n, p) \<in> set queue' \<and> chain edges n r w \<and> length p + length r \<le> length q"
    if w: "w \<notin> set visited'" "chain edges src q w" for w q
  proof -
    have "w \<notin> set visited" using w(1) new(2) by auto
    then obtain n p r where npr: "(n, p) \<in> set ((od, path) # queue)" "chain edges n r w"
      "length p + length r \<le> length q"
      by (rule bfs_inv_chain [OF inv _ w(2)])
    show ?thesis
    proof (cases "(n, p) \<in> set queue")
      case True
      with npr new(1) show ?thesis by auto
    next
      case False
      with npr(1) have n: "n = od" "p = path" by auto
      have "od \<in> set visited'" using od(2) new(2) by auto
      from chain_last_inside [OF npr(2) this [folded n(1)] w(1)]
      obtain x e r' where x: "x \<in> set visited'" "e \<in> set (adjacency edges x)"
        "je_toOd e \<notin> set visited'" "chain edges x (e # r') w" "length (e # r') \<le> length r"
        "length (e # r') = length r \<longrightarrow> x = n" by blast
      have "x \<noteq> od" using x(2,3) new(2) by auto
      then have len: "Suc (length (e # r')) \<le> length r" using x(5,6) n(1) by auto
      have "x \<in> fst ` set queue'" using I5 [OF x(1)] x(2,3) by auto
      then obtain px where px: "(x, px) \<in> set queue'" by auto
      then have "length px \<le> Suc (length path)"
        using new_len [of "(x, px)"] q_le [of "(x, px)"]
        unfolding new(1) set_append Un_iff snd_conv by linarith
      with len npr(3) n(2) have "length px + length (e # r') \<le> length q" by simp
      with px x(4) show ?thesis by blast
    qed
  qed
  show ?thesis unfolding bfs_inv_def
  proof (intro conjI)
    show "\<forall>n p. (n, p) \<in> set queue' \<longrightarrow> chain edges src p n \<and> n \<in> set visited'"
      by (intro allI impI I2)
    show "\<forall>x \<in> set queue'. \<forall>y \<in> set queue'. length (snd y) \<le> Suc (length (snd x))"
      by (intro ballI I4)
    show "\<forall>n \<in> set visited'. n \<in> fst ` set queue'
        \<or> je_toOd ` set (adjacency edges n) \<subseteq> set visited'"
      by (intro ballI I5)
    show "\<forall>w q. w \<notin> set visited' \<longrightarrow> chain edges src q w \<longrightarrow>
        (\<exists>n p r. (n, p) \<in> set queue' \<and> chain edges n r w \<and> length p + length r \<le> length q)"
      by (intro allI impI I6)
  qed (fact I1 I3)+
qed

definition shortest_chain ::
  "JoinEdge list \<Rightarrow> string \<Rightarrow> string \<Rightarrow> JoinEdge list option \<Rightarrow> bool" where
  "shortest_chain edges src dst res \<longleftrightarrow>
     (case res of
        None \<Rightarrow> (\<forall>q. \<not> chain edges src q dst)
      | Some p \<Rightarrow> chain edges src p dst \<and> (\<forall>q. chain edges src q dst \<longrightarrow> length p \<le> length q))"

lemma bfs_loop_shortest:
  "bfs_inv edges src dst visited queue \<Longrightarrow>
     shortest_chain edges src dst (bfs_loop edges dst visited queue)"
proof (induction edges dst visited queue rule: bfs_loop.induct)
  case (1 edges dst visited)
  then show ?case by (auto simp: bfs_inv_def shortest_chain_def)
next
  case (2 edges dst visited od path queue)
  show ?case
  proof (cases "expand dst path (adjacency edges od) visited queue")
    case (Inl p)
    from expand_Inl [OF this] obtain e where e: "e \<in> set (adjacency edges od)"
      "je_toOd e = dst" "p = path @ [e]" by blast
    have "chain edges src p dst" using 2(2) e by (auto simp: bfs_inv_def chain_snoc)
    moreover have "length p \<le> length q" if q: "chain edges src q dst" for q
    proof -
      have "dst \<notin> set visited" using 2(2) by (simp add: bfs_inv_def)
      then obtain n p0 r where npr: "(n, p0) \<in> set ((od, path) # queue)"
        "chain edges n r dst" "length p0 + length r \<le> length q"
        by (rule bfs_inv_chain [OF 2(2) _ q])
      have "length path \<le> length p0" "n \<noteq> dst" using 2(2) npr(1) by (auto simp: bfs_inv_def)
      moreover have "r \<noteq> []" using npr(2) \<open>n \<noteq> dst\<close> by auto
      ultimately show ?thesis using npr(3) e(3) by (cases r) auto
    qed
    ultimately show ?thesis using Inl by (simp add: shortest_chain_def)
  next
    case (Inr r)
    obtain v' q' where r: "r = (v', q')" by (cases r)
    from bfs_inv_step [OF 2(2)] Inr r have "bfs_inv edges src dst v' q'" by simp
    from 2(1) [OF Inr r [symmetric] this] show ?thesis using Inr r by simp
  qed
qed

lemma bfs_path_shortest_chain: "shortest_chain edges src dst (bfsPath edges src dst)"
proof (cases "src = dst")
  case True
  then show ?thesis by (simp add: bfsPath_def shortest_chain_def)
next
  case False
  then show ?thesis
    unfolding bfsPath_def using bfs_loop_shortest [OF bfs_inv_start] by simp
qed

text \<open>The search between two objects returns a chain of join edges (an edge of the project or
  the reverse of one) from the first to the second that no other chain beats in length, and reports
  failure exactly when there is no chain at all.\<close>

theorem bfs_path_is_shortest:
  "case bfsPath edges src dst of
     None \<Rightarrow> \<nexists>q. chain edges src q dst
   | Some p \<Rightarrow> chain edges src p dst \<and> (\<nexists>q. chain edges src q dst \<and> length q < length p)"
  using bfs_path_shortest_chain [of edges src dst]
  by (auto simp: shortest_chain_def not_less split: option.splits)

section \<open>Connected sequences of joins\<close>

text \<open>Every edge is one of the project, in some direction, and starts at a connected object.\<close>

fun attached :: "JoinEdge list \<Rightarrow> string set \<Rightarrow> JoinEdge list \<Rightarrow> bool" where
  "attached edges S [] \<longleftrightarrow> True"
| "attached edges S (e # es) \<longleftrightarrow>
     e \<in> set (adjacency edges (je_fromOd e)) \<and> je_fromOd e \<in> S
     \<and> attached edges (insert (je_toOd e) S) es"

definition reached :: "string set \<Rightarrow> JoinEdge list \<Rightarrow> string set" where
  "reached S es = S \<union> je_toOd ` set es"

lemma reached_simps [simp]:
  "reached S [] = S"
  "reached S (es @ fs) = reached (reached S es) fs"
  "reached S (e # es) = reached (insert (je_toOd e) S) es"
  by (auto simp: reached_def)

lemma attached_append [simp]:
  "attached edges S (es @ fs) \<longleftrightarrow> attached edges S es \<and> attached edges (reached S es) fs"
  by (induction es arbitrary: S) auto

lemma attached_ends:
  "attached edges S es \<Longrightarrow> e \<in> set es \<Longrightarrow>
     e \<in> set (adjacency edges (je_fromOd e)) \<and> je_fromOd e \<in> reached S es \<and> je_toOd e \<in> reached S es"
  by (induction es arbitrary: S) (auto simp: reached_def)

lemma attached_froms: "attached edges S es \<Longrightarrow> je_fromOd ` set es \<subseteq> reached S es"
  using attached_ends by blast

lemma chain_attached:
  "chain edges n p t \<Longrightarrow> n \<in> S \<Longrightarrow> attached edges S p \<and> t \<in> reached S p"
proof (induction p arbitrary: n S)
  case (Cons e p)
  then have "e \<in> set (adjacency edges n)" and c: "chain edges (je_toOd e) p t" by auto
  then have "je_fromOd e = n" by (simp add: adjacency_iff)
  with Cons.IH [OF c, of "insert (je_toOd e) S"] Cons.prems show ?case by simp
qed simp

lemma chain_prefix:
  "chain edges n p t \<Longrightarrow> e \<in> set p \<Longrightarrow>
     \<exists>q. chain edges n q (je_toOd e) \<and> (je_toOd e = t \<or> length q < length p)"
proof (induction p arbitrary: n)
  case (Cons e' p)
  show ?case
  proof (cases "e = e'")
    case True
    with Cons.prems have "chain edges n [e'] (je_toOd e)" by auto
    moreover have "je_toOd e = t \<or> length [e'] < length (e' # p)"
      using Cons.prems True by (cases p) auto
    ultimately show ?thesis by blast
  next
    case False
    with Cons obtain q where "chain edges (je_toOd e') q (je_toOd e)"
      "je_toOd e = t \<or> length q < length p" by auto
    with Cons.prems show ?thesis by (intro exI [of _ "e' # q"]) auto
  qed
qed simp

section \<open>The closest remaining object\<close>

lemma bfsPath_Some: "bfsPath edges n t = Some p \<Longrightarrow> chain edges n p t"
  using bfs_path_shortest_chain [of edges n t] by (simp add: shortest_chain_def)

lemma bfsPath_le: "bfsPath edges n t = Some p \<Longrightarrow> chain edges n q t \<Longrightarrow> length p \<le> length q"
  using bfs_path_shortest_chain [of edges n t] by (simp add: shortest_chain_def)

lemma bfsPath_None: "bfsPath edges n t = None \<longleftrightarrow> (\<forall>q. \<not> chain edges n q t)"
  using bfs_path_shortest_chain [of edges n t] bfsPath_Some [of edges n t]
  by (cases "bfsPath edges n t") (auto simp: shortest_chain_def)

lemma bfsPath_distinct: "bfsPath edges n t = Some p \<Longrightarrow> n \<noteq> t \<Longrightarrow> p \<noteq> []"
  using bfsPath_Some by fastforce

definition closest :: "JoinEdge list \<Rightarrow> (string \<times> string) set \<Rightarrow> JoinEdge list \<times> string \<Rightarrow> bool" where
  "closest edges P best \<longleftrightarrow>
     (if fst best = [] then \<forall>(t, n) \<in> P. bfsPath edges n t = None
      else (\<exists>n. (snd best, n) \<in> P \<and> bfsPath edges n (snd best) = Some (fst best))
        \<and> (\<forall>(t, n) \<in> P. \<forall>p. bfsPath edges n t = Some p \<longrightarrow> length (fst best) \<le> length p))"

lemma closest_better:
  assumes "closest edges P best" and "fst tn \<noteq> snd tn"
  shows "closest edges (insert tn P) (better edges best tn)"
proof (cases "bfsPath edges (snd tn) (fst tn)")
  case None
  with assms(1) show ?thesis by (cases tn) (auto simp: closest_def better_def)
next
  case (Some p)
  obtain t n where tn: "tn = (t, n)" by (cases tn)
  with Some assms(2) have p: "p \<noteq> []" "bfsPath edges n t = Some p"
    using bfsPath_distinct [of edges n t] by auto
  show ?thesis
  proof (cases "fst best = []")
    case True
    with assms(1) p show ?thesis by (auto simp: closest_def better_def tn)
  next
    case False
    with assms(1) have old: "\<exists>n. (snd best, n) \<in> P \<and> bfsPath edges n (snd best) = Some (fst best)"
      "\<forall>(t, n) \<in> P. \<forall>q. bfsPath edges n t = Some q \<longrightarrow> length (fst best) \<le> length q"
      by (simp_all add: closest_def)
    show ?thesis
    proof (cases "length p < length (fst best)")
      case True
      then have "\<forall>(t, n) \<in> P. \<forall>q. bfsPath edges n t = Some q \<longrightarrow> length p \<le> length q"
        using old(2) by fastforce
      with True False p show ?thesis by (simp add: closest_def better_def tn) blast
    next
      case no: False
      with False p old show ?thesis by (simp add: closest_def better_def tn) blast
    qed
  qed
qed

lemma closest_foldl:
  "closest edges P best \<Longrightarrow> \<forall>tn \<in> set ps. fst tn \<noteq> snd tn \<Longrightarrow>
     closest edges (P \<union> set ps) (foldl (better edges) best ps)"
proof (induction ps arbitrary: P best)
  case (Cons tn ps)
  from Cons.IH [OF closest_better [OF Cons.prems(1), of tn]] Cons.prems(2) show ?case by simp
qed simp

lemma best_path_closest:
  assumes "set remaining \<inter> set joined = {}"
  shows "closest edges (set remaining \<times> set joined) (best_path edges remaining joined)"
proof -
  let ?ps = "concat (map (\<lambda>t. map (\<lambda>n. (t, n)) joined) remaining)"
  have "closest edges {} ([], [])" by (simp add: closest_def)
  moreover have "\<forall>tn \<in> set ?ps. fst tn \<noteq> snd tn" using assms by auto
  ultimately have "closest edges ({} \<union> set ?ps) (best_path edges remaining joined)"
    unfolding best_path_def by (rule closest_foldl)
  moreover have "{} \<union> set ?ps = set remaining \<times> set joined" by auto
  ultimately show ?thesis by metis
qed

section \<open>The greedy connection\<close>

definition permuting :: "(nat \<Rightarrow> string list \<Rightarrow> string list) \<Rightarrow> bool" where
  "permuting ord \<longleftrightarrow> (\<forall>n xs. set (ord n xs) = set xs)"

lemma permuting_set: "permuting ord \<Longrightarrow> set (ord n xs) = set xs"
  by (simp add: permuting_def)

text \<open>One round: the closest remaining object is reached, and no other one on the way.\<close>

lemma round_step:
  assumes disj: "set remaining \<inter> set joined = {}"
    and best: "best_path edges remaining joined = (p, t)" and p: "p \<noteq> []"
  shows "t \<in> set remaining" "attached edges (set joined) p" "t \<in> reached (set joined) p"
    "reached (set joined) p \<inter> set remaining = {t}"
proof -
  from best_path_closest [OF disj, of edges] best p
  obtain n where n: "(t, n) \<in> set remaining \<times> set joined" "bfsPath edges n t = Some p"
    and least: "\<forall>(t', n') \<in> set remaining \<times> set joined. \<forall>q. bfsPath edges n' t' = Some q
      \<longrightarrow> length p \<le> length q"
    by (auto simp: closest_def)
  then show t: "t \<in> set remaining" by simp
  from chain_attached [OF bfsPath_Some [OF n(2)], of "set joined"] n(1)
  show att: "attached edges (set joined) p" and in_p: "t \<in> reached (set joined) p" by auto
  have only: "u = t" if "u \<in> reached (set joined) p" "u \<in> set remaining" for u
  proof -
    from that disj obtain e where e: "e \<in> set p" "je_toOd e = u" by (auto simp: reached_def)
    with chain_prefix [OF bfsPath_Some [OF n(2)] e(1)] obtain q
      where q: "chain edges n q u" "u = t \<or> length q < length p" by auto
    then obtain q' where q': "bfsPath edges n u = Some q'"
      using bfsPath_None [of edges n u] by (cases "bfsPath edges n u") auto
    have "(u, n) \<in> set remaining \<times> set joined" using n(1) that(2) by simp
    with least q' have "length p \<le> length q'" by blast
    with bfsPath_le [OF q' q(1)] q(2) show "u = t" by auto
  qed
  show "reached (set joined) p \<inter> set remaining = {t}"
    by (intro equalityI subsetI) (blast intro: only t in_p)+
qed

lemma span_loop_result:
  assumes "permuting ord" and "distinct remaining" and "length remaining \<le> n"
    and "set remaining \<inter> set joined = {}"
    and "attached edges S result" and "set joined = reached S result"
  shows "case span_loop ord n edges joined remaining result of
      None \<Rightarrow> False
    | Some (Inl u) \<Rightarrow> u \<noteq> [] \<and> set u \<subseteq> set remaining \<and> (\<forall>t \<in> set u. \<forall>s \<in> S. \<forall>q. \<not> chain edges s q t)
    | Some (Inr es) \<Rightarrow> attached edges S es \<and> set joined \<union> set remaining \<subseteq> reached S es"
  using assms
proof (induction ord n edges joined remaining result rule: span_loop.induct)
  case (3 ord n edges joined t ts result)
  let ?rem = "t # ts"
  obtain p b where best: "best_path edges (ord n ?rem) (ord n joined) = (p, b)" by fastforce
  have sets: "set (ord n ?rem) = set ?rem" "set (ord n joined) = set joined"
    by (rule permuting_set [OF "3.prems"(1)])+
  then have disj: "set (ord n ?rem) \<inter> set (ord n joined) = {}" using "3.prems"(4) by simp
  show ?case
  proof (cases "p = []")
    case True
    from best_path_closest [OF disj, of edges] best True sets
    have "\<forall>t' \<in> set ?rem. \<forall>s \<in> set joined. bfsPath edges s t' = None" by (auto simp: closest_def)
    moreover have "S \<subseteq> set joined" using "3.prems"(6) by (auto simp: reached_def)
    moreover have "ord n ?rem \<noteq> []" using sets(1) by auto
    ultimately show ?thesis using best True sets(1)
      by (auto simp del: set_simps simp: bfsPath_None)
  next
    case False
    let ?joined = "remdups (joined @ map je_fromOd p @ map je_toOd p)"
    let ?rem' = "removeAll b ?rem"
    note step = round_step [OF disj best False, unfolded sets]
    have joined: "set ?joined = reached S (result @ p)"
      using attached_froms [OF step(2)] "3.prems"(6) by (auto simp: reached_def)
    have rec: "case span_loop ord n edges ?joined ?rem' (result @ p) of
        None \<Rightarrow> False
      | Some (Inl u) \<Rightarrow> u \<noteq> [] \<and> set u \<subseteq> set ?rem'
          \<and> (\<forall>t \<in> set u. \<forall>s \<in> S. \<forall>q. \<not> chain edges s q t)
      | Some (Inr es) \<Rightarrow> attached edges S es \<and> set ?joined \<union> set ?rem' \<subseteq> reached S es"
    proof (rule "3.IH" [OF best [symmetric] False "3.prems"(1)])
      show "distinct ?rem'" using "3.prems"(2) by (rule distinct_removeAll)
      have "length ?rem' < length ?rem" using step(1) by (rule length_removeAll_less)
      then show "length ?rem' \<le> n" using "3.prems"(3) by simp
      show "set ?rem' \<inter> set ?joined = {}"
        using step(4) "3.prems"(6) unfolding joined by auto
      show "attached edges S (result @ p)" using step(2) "3.prems"(5,6) by simp
    qed (fact joined)
    have "set joined \<union> set ?rem \<subseteq> set ?joined \<union> set ?rem'"
      using step(3) "3.prems"(6) unfolding joined by (auto simp: reached_def)
    moreover have "set ?rem' \<subseteq> set ?rem" by auto
    ultimately show ?thesis using rec best False
      by (auto simp del: set_simps removeAll.simps set_removeAll set_remdups
          split: option.splits sum.splits)
  qed
qed (auto simp: reached_def)

section \<open>Removing duplicates\<close>

text \<open>
  The keys join the four names with dots and an arrow. They tell two edges apart when the object
  names have no dot and the names of the properties no dash.
\<close>

definition plain_edge :: "JoinEdge \<Rightarrow> bool" where
  "plain_edge e \<longleftrightarrow> CHR ''.'' \<notin> set (je_fromOd e) \<and> CHR ''.'' \<notin> set (je_toOd e)
     \<and> CHR ''-'' \<notin> set (je_fromProp e) \<and> CHR ''-'' \<notin> set (je_toProp e)"

lemma first_split:
  "x @ c # y = x' @ c # y' \<Longrightarrow> c \<notin> set x \<Longrightarrow> c \<notin> set x' \<Longrightarrow> x = x' \<and> y = y'"
  by (induction x arbitrary: x') (auto simp: Cons_eq_append_conv append_eq_Cons_conv)

lemma edge_key_ends:
  assumes "edge_key e = edge_key e'" "plain_edge e" "plain_edge e'"
  shows "je_fromOd e = je_fromOd e'" "je_toOd e = je_toOd e'"
proof -
  have key: "edge_key x = je_fromOd x @ CHR ''.'' # je_fromProp x @ CHR ''-'' # CHR ''>''
    # je_toOd x @ CHR ''.'' # je_toProp x" for x
    by (simp add: edge_key_def)
  note names = assms(2,3) [unfolded plain_edge_def]
  from first_split [OF assms(1) [unfolded key]] names
  have from_od: "je_fromOd e = je_fromOd e'"
    and rest: "je_fromProp e @ CHR ''-'' # CHR ''>'' # je_toOd e @ CHR ''.'' # je_toProp e
      = je_fromProp e' @ CHR ''-'' # CHR ''>'' # je_toOd e' @ CHR ''.'' # je_toProp e'"
    by blast+
  from first_split [OF rest] names
  have "je_toOd e @ CHR ''.'' # je_toProp e = je_toOd e' @ CHR ''.'' # je_toProp e'" by blast
  from first_split [OF this] names have "je_toOd e = je_toOd e'" by blast
  with from_od show "je_fromOd e = je_fromOd e'" "je_toOd e = je_toOd e'" by simp_all
qed

lemma rev_key_flip: "rev_key e = edge_key (flip_edge e)"
  by (simp add: rev_key_def edge_key_def flip_edge_def)

lemma plain_flip [simp]: "plain_edge (flip_edge e) = plain_edge e"
  by (auto simp: plain_edge_def flip_edge_def)

lemma plain_adjacency:
  "e \<in> set (adjacency edges od) \<Longrightarrow> list_all plain_edge edges \<Longrightarrow> plain_edge e"
  by (auto simp: adjacency_iff list_all_iff)

lemma seen_edge_reached:
  assumes "list_all plain_edge edges" "attached edges S result"
    and e: "e \<in> set (adjacency edges (je_fromOd e))"
    and seen: "edge_key e \<in> edge_key ` set result \<or> rev_key e \<in> edge_key ` set result"
  shows "je_toOd e \<in> reached S result"
proof -
  have plain: "plain_edge e" by (rule plain_adjacency [OF e assms(1)])
  from seen obtain e' where e': "e' \<in> set result"
    "edge_key e = edge_key e' \<or> edge_key (flip_edge e) = edge_key e'"
    unfolding rev_key_flip by blast
  note ends = attached_ends [OF assms(2) e'(1)]
  have plain': "plain_edge e'" using plain_adjacency ends assms(1) by blast
  from e'(2) show ?thesis
  proof
    assume "edge_key e = edge_key e'"
    from edge_key_ends [OF this plain plain'] ends show ?thesis by simp
  next
    assume "edge_key (flip_edge e) = edge_key e'"
    from edge_key_ends [OF this _ plain'] plain have "je_fromOd (flip_edge e) = je_fromOd e'"
      by simp
    with ends show ?thesis by (simp add: flip_edge_def)
  qed
qed

lemma dedup_loop_attached:
  "list_all plain_edge edges \<Longrightarrow> attached edges S (result @ es) \<Longrightarrow>
     set seen = edge_key ` set result \<Longrightarrow>
     attached edges S (dedup_loop es seen result)
     \<and> reached S (dedup_loop es seen result) = reached S (result @ es)"
proof (induction es seen result rule: dedup_loop.induct)
  case (2 e es seen result)
  let ?dup = "edge_key e \<in> set seen \<or> rev_key e \<in> set seen"
  show ?case
  proof (cases ?dup)
    case True
    have "je_toOd e \<in> reached S result"
      using seen_edge_reached [of edges S result e] 2(3,4,5) True by simp
    then have "insert (je_toOd e) (reached S result) = reached S result" by auto
    with 2(1) [OF True 2(3)] 2(4,5) True show ?thesis by simp
  next
    case False
    from 2(2) [OF False 2(3)] 2(4,5) False show ?thesis by simp
  qed
qed simp

lemma deduplicateEdges_attached:
  "list_all plain_edge edges \<Longrightarrow> attached edges S es \<Longrightarrow>
     attached edges S (deduplicateEdges es) \<and> reached S (deduplicateEdges es) = reached S es"
  using dedup_loop_attached [of edges S "[]" es "[]"] by (simp add: deduplicateEdges_def)

section \<open>The resolved join path\<close>

definition joins_all :: "JoinEdge list \<Rightarrow> string list \<Rightarrow> JoinEdge list \<Rightarrow> bool" where
  "joins_all edges targets es \<longleftrightarrow>
     attached edges {hd targets} es \<and> set targets \<subseteq> reached {hd targets} es"

lemma resolved_join_path:
  assumes "permuting ord" "distinct objects" "objects \<noteq> []" "list_all plain_edge edges"
  shows "case ResolveJoinPath ord edges objects of
      Inr es \<Rightarrow> joins_all edges objects es
    | Inl (NoPath u) \<Rightarrow> \<exists>t. t \<in> set u \<and> t \<in> set objects \<and> (\<nexists>q. chain edges (hd objects) q t)
    | Inl NoJoinRelations \<Rightarrow> edges = []
    | Inl OutOfRounds \<Rightarrow> False"
proof -
  consider (one) "length objects \<le> 1" | (none) "1 < length objects" "edges = []"
    | (two) "length objects = 2" "edges \<noteq> []" | (three) "2 < length objects" "edges \<noteq> []"
    by linarith
  then show ?thesis
  proof cases
    case one
    with assms(3) have "objects = [hd objects]" by (cases objects) auto
    then have "set objects = {hd objects}" by (metis list.set(1,2))
    with one show ?thesis by (simp add: ResolveJoinPath_def joins_all_def)
  next
    case none
    then show ?thesis by (simp add: ResolveJoinPath_def)
  next
    case two
    then obtain a b where ab: "objects = [a, b]"
      by (metis One_nat_def length_0_conv length_Suc_conv numeral_2_eq_2)
    show ?thesis
    proof (cases "bfsPath edges a b")
      case None
      with two ab bfsPath_None [of edges a b] show ?thesis
        by (auto simp: ResolveJoinPath_def findSpanningPath_def)
    next
      case (Some p)
      from chain_attached [OF bfsPath_Some [OF this], of "{a}"] Some two ab show ?thesis
        by (simp add: ResolveJoinPath_def findSpanningPath_def joins_all_def)
          (simp add: reached_def)
    qed
  next
    case three
    let ?rem = "remdups (tl objects)"
    from assms(2,3) three have "hd objects \<notin> set (tl objects)"
      and objs: "set objects = insert (hd objects) (set (tl objects))" by (cases objects; simp)+
    then have "case span_loop ord (length ?rem) edges [hd objects] ?rem [] of
        None \<Rightarrow> False
      | Some (Inl u) \<Rightarrow> u \<noteq> [] \<and> set u \<subseteq> set ?rem
          \<and> (\<forall>t \<in> set u. \<forall>s \<in> {hd objects}. \<forall>q. \<not> chain edges s q t)
      | Some (Inr es) \<Rightarrow> attached edges {hd objects} es
          \<and> set [hd objects] \<union> set ?rem \<subseteq> reached {hd objects} es"
      by (intro span_loop_result assms) auto
    then show ?thesis
      using three objs deduplicateEdges_attached [OF assms(4), of "{hd objects}"]
      by (auto simp: ResolveJoinPath_def findSpanningPath_def joins_all_def Let_def neq_Nil_conv
          split: option.splits sum.splits)
  qed
qed


definition star_edges :: "JoinEdge list" where
  "star_edges =
     [\<lparr>je_fromOd = ''Order'', je_fromProp = ''store_id'', je_toOd = ''Store'', je_toProp = ''id'',
       je_cardinality = ''N:1''\<rparr>,
      \<lparr>je_fromOd = ''Order'', je_fromProp = ''item_id'', je_toOd = ''Item'', je_toProp = ''id'',
       je_cardinality = ''N:1''\<rparr>]"


text \<open>
  A name that is requested twice stays among the remaining objects, and its path from itself is the
  nil slice, which stands for "nothing found": the resolution reports objects as unreachable that
  are one join away, and which ones depends on the order of the map iteration.
\<close>

lemma repeated_object_is_unreachable:
  "ResolveJoinPath (\<lambda>n xs. xs) star_edges [''Order'', ''Store'', ''Order'']
     = Inl (NoPath [''Store'', ''Order''])"
  "ResolveJoinPath (\<lambda>n xs. rev xs) star_edges [''Order'', ''Store'', ''Order'']
     = Inl (NoPath [''Order''])"
  by code_simp+

end
