(* ===== verification/Plan_Graph.thy ===== *)
theory Plan_Graph
  imports Query_Types
begin

text \<open>
  Composite intents (\<open>lakehouse/plan_executor.go\<close>), first half: the plan, the references of its
  filters, the two topological orders and the validation by \<open>ParsePlan\<close>. Decoding the JSON text is
  the parameter \<open>unmarshal\<close>. \<open>stepDependencies\<close> reads its result off a Go map, in an arbitrary order:
  the parameter \<open>ord\<close> arranges the set.
\<close>

section \<open>Data\<close>

record PlanStepFilter =
  psf_prop :: string
  psf_op :: string
  psf_value :: string

record PlanStep =
  ps_id :: string
  ps_od :: string
  ps_select :: "string list"
  ps_metric :: string
  ps_groupBy :: "string list"
  ps_filters :: "PlanStepFilter list"

record Plan =
  pl_params :: "IntentParameter list"
  pl_steps :: "PlanStep list"
  pl_output :: string

datatype plan_error =
    DecodeFailed
  | NoSteps
  | OutputNotSet
  | MissingStepId string
  | DuplicateStepId string
  | UnknownOutput string
  | UndeclaredParam string string string
  | UnknownStepRef string string string
  | SelfReference string string
  | UnknownDependency string string
  | OrderCycle "string list" string
  | LevelCycle "string list"

section \<open>References\<close>

definition plan_refPattern :: regex where
  "plan_refPattern = RSeqs [RLit ''$'', RGrp 1 RIdent, RLit ''.'', RGrp 2 RIdent]"

text \<open>The token, the head and the tail of every reference in a text.\<close>

definition plan_refs :: "string \<Rightarrow> (string \<times> string \<times> string) list" where
  "plan_refs v = map (\<lambda>(m, g). (m, group g 1, group g 2)) (FindAllSubmatch plan_refPattern v)"

definition step_heads :: "string \<Rightarrow> string list" where
  "step_heads v = filter (\<lambda>h. h \<noteq> ''param'') (map (\<lambda>(t, h, c). h) (plan_refs v))"

definition stepDependencies :: "(string list \<Rightarrow> string list) \<Rightarrow> PlanStep \<Rightarrow> string list" where
  "stepDependencies ord s = ord (remdups (concat (map (\<lambda>f. step_heads (psf_value f)) (ps_filters s))))"

text \<open>A Go map filled in a loop keeps the last step of an id.\<close>

definition stepByID :: "Plan \<Rightarrow> string \<Rightarrow> PlanStep option" where
  "stepByID p = map_of (rev (map (\<lambda>s. (ps_id s, s)) (pl_steps p)))"

section \<open>Layers\<close>

fun unknown_dep :: "(string list \<Rightarrow> string list) \<Rightarrow> Plan \<Rightarrow> PlanStep list \<Rightarrow> plan_error option" where
  "unknown_dep ord p [] = None"
| "unknown_dep ord p (s # ss) =
     (case find (\<lambda>d. stepByID p d = None) (stepDependencies ord s) of
        Some d \<Rightarrow> Some (UnknownDependency (ps_id s) d)
      | None \<Rightarrow> unknown_dep ord p ss)"

definition in_degree :: "(string list \<Rightarrow> string list) \<Rightarrow> PlanStep list \<Rightarrow> string \<Rightarrow> int" where
  "in_degree ord ss sid =
     sum_list (map (\<lambda>s. if ps_id s = sid then int (length (stepDependencies ord s)) else 0) ss)"

definition children :: "(string list \<Rightarrow> string list) \<Rightarrow> PlanStep list \<Rightarrow> string \<Rightarrow> string list" where
  "children ord ss dep =
     concat (map (\<lambda>s. if dep \<in> set (stepDependencies ord s) then [ps_id s] else []) ss)"

definition decrement :: "string list \<Rightarrow> (string \<Rightarrow> int) \<Rightarrow> string \<Rightarrow> int" where
  "decrement cs deg = foldl (\<lambda>g c. g(c := g c - 1)) deg cs"

text \<open>The loop over the remaining steps. A round without a step of in-degree zero is the error.\<close>

function kahn ::
  "(string \<Rightarrow> string list) \<Rightarrow> (string \<Rightarrow> int) \<Rightarrow> string list \<Rightarrow> string list list
     \<Rightarrow> plan_error + string list list" where
  "kahn kids deg remaining levels =
     (if remaining = [] then Inr levels
      else
        let layer = sort (filter (\<lambda>sid. deg sid = 0) remaining)
        in if layer = [] then Inl (LevelCycle (sort remaining))
           else kahn kids (foldl (\<lambda>g sid. decrement (kids sid) g) deg layer)
                  (filter (\<lambda>sid. sid \<notin> set layer) remaining) (levels @ [layer]))"
  by pat_completeness auto
termination
proof (relation "measure (\<lambda>(kids, deg, remaining, levels). length remaining)")
  fix kids :: "string \<Rightarrow> string list" and deg :: "string \<Rightarrow> int" and remaining levels layer
  assume layer: "layer = sort (filter (\<lambda>sid. deg sid = 0) remaining)" "layer \<noteq> []"
  then have "hd layer \<in> set layer" by (intro hd_in_set)
  then obtain x where "x \<in> set layer" by blast
  with layer(1) have "x \<in> set remaining" "\<not> x \<notin> set layer" by auto
  then have "length (filter (\<lambda>sid. sid \<notin> set layer) remaining) < length remaining"
    by (rule length_filter_less)
  then show "((kids, foldl (\<lambda>g sid. decrement (kids sid) g) deg layer,
        filter (\<lambda>sid. sid \<notin> set layer) remaining, levels @ [layer]), kids, deg, remaining, levels)
      \<in> measure (\<lambda>(kids, deg, remaining, levels). length remaining)" by simp
qed simp

declare kahn.simps [simp del]

definition TopoLevels :: "(string list \<Rightarrow> string list) \<Rightarrow> Plan \<Rightarrow> plan_error + string list list" where
  "TopoLevels ord p =
     (case unknown_dep ord p (pl_steps p) of
        Some e \<Rightarrow> Inl e
      | None \<Rightarrow> kahn (children ord (pl_steps p)) (in_degree ord (pl_steps p))
                  (remdups (map ps_id (pl_steps p))) [])"

section \<open>Depth-first order\<close>

text \<open>
  The three states of a step are: done, when it is in the order; on the stack, when it is in the
  path; unvisited otherwise.
\<close>

definition deps_of :: "(string list \<Rightarrow> string list) \<Rightarrow> Plan \<Rightarrow> string \<Rightarrow> string list" where
  "deps_of ord p sid = (case stepByID p sid of None \<Rightarrow> [] | Some s \<Rightarrow> stepDependencies ord s)"

function visit_step ::
    "(string list \<Rightarrow> string list) \<Rightarrow> Plan \<Rightarrow> string \<Rightarrow> string list \<Rightarrow> string list
       \<Rightarrow> plan_error + string list"
  and visit_all ::
    "(string list \<Rightarrow> string list) \<Rightarrow> Plan \<Rightarrow> string \<Rightarrow> string list \<Rightarrow> string list \<Rightarrow> string list
       \<Rightarrow> plan_error + string list" where
  "visit_step ord p sid path order =
     (if sid \<in> set order then Inr order
      else if sid \<in> set path then Inl (OrderCycle path sid)
      else case visit_all ord p sid (deps_of ord p sid) (path @ [sid]) order of
             Inl e \<Rightarrow> Inl e
           | Inr order' \<Rightarrow> Inr (order' @ [sid]))"
| "visit_all ord p sid [] path order = Inr order"
| "visit_all ord p sid (d # ds) path order =
     (if stepByID p d = None then Inl (UnknownDependency sid d)
      else case visit_step ord p d path order of
             Inl e \<Rightarrow> Inl e
           | Inr order' \<Rightarrow> visit_all ord p sid ds path order')"
  by pat_completeness auto
termination
proof (relation "inv_image (less_than <*lex*> less_than)
    (case_sum (\<lambda>(ord, p, sid, path, order). (card (dom (stepByID p) - set path), 1))
      (\<lambda>(ord, p, sid, ds, path, order). (card (dom (stepByID p) - set path), 2 * length ds)))")
  fix ord p path order and sid :: string
  assume "sid \<notin> set path"
  let ?D = "dom (stepByID p)"
  have fin: "finite ?D" by (simp add: stepByID_def finite_dom_map_of)
  show "(Inr (ord, p, sid, deps_of ord p sid, path @ [sid], order), Inl (ord, p, sid, path, order))
    \<in> inv_image (less_than <*lex*> less_than)
      (case_sum (\<lambda>(ord, p, sid, path, order). (card (dom (stepByID p) - set path), 1))
        (\<lambda>(ord, p, sid, ds, path, order). (card (dom (stepByID p) - set path), 2 * length ds)))"
  proof (cases "sid \<in> ?D")
    case True
    with \<open>sid \<notin> set path\<close> have "?D - set (path @ [sid]) \<subset> ?D - set path" by auto
    with fin have "card (?D - set (path @ [sid])) < card (?D - set path)" by (simp add: psubset_card_mono)
    then show ?thesis by simp
  next
    case False
    then have "?D - set (path @ [sid]) = ?D - set path" "deps_of ord p sid = []"
      by (auto simp: deps_of_def split: option.splits)
    then show ?thesis by simp
  qed
qed auto

fun visit_steps ::
  "(string list \<Rightarrow> string list) \<Rightarrow> Plan \<Rightarrow> PlanStep list \<Rightarrow> string list \<Rightarrow> plan_error + string list" where
  "visit_steps ord p [] order = Inr order"
| "visit_steps ord p (s # ss) order =
     (case visit_step ord p (ps_id s) [] order of
        Inl e \<Rightarrow> Inl e
      | Inr order' \<Rightarrow> visit_steps ord p ss order')"

definition TopoOrder :: "(string list \<Rightarrow> string list) \<Rightarrow> Plan \<Rightarrow> plan_error + string list" where
  "TopoOrder ord p = visit_steps ord p (pl_steps p) []"

section \<open>Validation\<close>

fun bad_id :: "PlanStep list \<Rightarrow> string list \<Rightarrow> plan_error option" where
  "bad_id [] seen = None"
| "bad_id (s # ss) seen =
     (if ps_id s = [] then Some (MissingStepId (ps_od s))
      else if ps_id s \<in> set seen then Some (DuplicateStepId (ps_id s))
      else bad_id ss (ps_id s # seen))"

definition bad_ref ::
  "string list \<Rightarrow> string list \<Rightarrow> PlanStep \<Rightarrow> PlanStepFilter \<Rightarrow> string \<times> string \<times> string
     \<Rightarrow> plan_error option" where
  "bad_ref params ids s f ref =
     (case ref of (token, head, tail) \<Rightarrow>
        if head = ''param'' then
          (if tail \<in> set params then None else Some (UndeclaredParam (ps_id s) (psf_prop f) tail))
        else if head \<notin> set ids then Some (UnknownStepRef (ps_id s) (psf_prop f) head)
        else if head = ps_id s then Some (SelfReference (ps_id s) (psf_prop f))
        else None)"

definition bad_refs :: "Plan \<Rightarrow> plan_error option" where
  "bad_refs p =
     first_some (concat (map (\<lambda>s. concat (map (\<lambda>f.
         map (bad_ref (map ip_name (pl_params p)) (map ps_id (pl_steps p)) s f)
           (plan_refs (psf_value f))) (ps_filters s))) (pl_steps p)))"

definition ParsePlan ::
  "(string list \<Rightarrow> string list) \<Rightarrow> (string \<Rightarrow> Plan option) \<Rightarrow> string \<Rightarrow> plan_error + Plan" where
  "ParsePlan ord unmarshal raw =
     (case unmarshal raw of
        None \<Rightarrow> Inl DecodeFailed
      | Some p \<Rightarrow>
          if pl_steps p = [] then Inl NoSteps
          else if pl_output p = [] then Inl OutputNotSet
          else case bad_id (pl_steps p) [] of
            Some e \<Rightarrow> Inl e
          | None \<Rightarrow>
              if pl_output p \<notin> ps_id ` set (pl_steps p) then Inl (UnknownOutput (pl_output p))
              else case bad_refs p of
                Some e \<Rightarrow> Inl e
              | None \<Rightarrow>
                  (case TopoOrder ord p of Inl e \<Rightarrow> Inl e | Inr order \<Rightarrow> Inr p))"

end
