(* ===== verification/Plan_Executor.thy ===== *)
theory Plan_Executor
  imports Plan_Graph Go_Format Sql_Types
begin

text \<open>
  Composite intents (\<open>lakehouse/plan_executor.go\<close>), second half: substitution of references and the
  execution of a plan. What is not in the file is a parameter: the \<open>runner\<close> of a step (the query
  engine) and the JSON decoding and encoding of rows. A decoded row is an association list, a nil
  slice is \<open>None\<close>.

  The steps of a layer run in goroutines that share three maps behind a mutex. A step touches them
  in two critical sections: it reads the results of earlier steps when it begins and writes its own
  result when it finishes. A schedule is the list of these events; \<open>sched\<close> gives the one of each
  layer. Durations are not modelled.
\<close>

section \<open>Data\<close>

type_synonym row = "(string \<times> json) list"
type_synonym rows = "row list option"

record LakehouseDebugInfo =
  di_resolvedProps :: "PropertyInfo list"
  di_joinPath :: "JoinEdge list"
  di_keywordCorrections :: "KeywordCorrection list"
  di_warnings :: "string list"

datatype step_status = StepSuccess | StepEmpty | StepEmptyUpstream | StepFailed | StepPending

datatype step_fault =
    UnboundParam string
  | RefNeedsIn string string
  | RefNotWhole string
  | NoResultsYet string
  | DecodeRows

text \<open>The text of an error is represented by the error, the message of a runner by itself.\<close>

record StepTrace =
  st_id :: string
  st_layer :: nat
  st_od :: string
  st_status :: step_status
  st_rowCount :: nat
  st_error :: "(step_fault + string) option"
  st_sql :: string
  st_ontologySQL :: string
  st_dependsOn :: "string list"
  st_isOutput :: bool

record PlanTrace =
  pt_steps :: "StepTrace list"
  pt_output :: string

record LakehouseResult =
  lr_ontologySQL :: string
  lr_sql :: string
  lr_executionOK :: bool
  lr_resultJSON :: string
  lr_errorMessage :: string
  lr_debugInfo :: LakehouseDebugInfo
  lr_planTrace :: "PlanTrace option"

text \<open>A fault of a step is wrapped with its id; \<open>StepFailure\<close> is the typed error of a runner result.\<close>

datatype exec_error =
    RunnerNil
  | BadPlan plan_error
  | StepError string step_fault
  | StepFailure string LakehouseResult
  | EncodeOutput

type_synonym runner = "string \<Rightarrow> QuerySpec \<Rightarrow> LakehouseResult"

definition zero_result :: LakehouseResult where
  "zero_result =
     \<lparr>lr_ontologySQL = [], lr_sql = [], lr_executionOK = False, lr_resultJSON = [],
      lr_errorMessage = [],
      lr_debugInfo = \<lparr>di_resolvedProps = [], di_joinPath = [], di_keywordCorrections = [], di_warnings = []\<rparr>,
      lr_planTrace = None\<rparr>"

section \<open>Substitution\<close>

definition stringify :: "json \<Rightarrow> string" where
  "stringify v = (case v of JNull \<Rightarrow> [] | JStr s \<Rightarrow> s | _ \<Rightarrow> fmt_v v)"

definition isStandaloneRef :: "string \<Rightarrow> bool" where
  "isStandaloneRef v =
     (let v = trim_space v in
      if \<not> has_prefix v ''$'' then False
      else case find_match plan_refPattern [] v of
        None \<Rightarrow> False
      | Some (pre, m, rest, g) \<Rightarrow> pre = [] \<and> rest = [])"

fun subst_params ::
  "(string \<Rightarrow> string option) \<Rightarrow> (string \<times> string \<times> string) list \<Rightarrow> string \<Rightarrow> step_fault + string" where
  "subst_params params [] v = Inr v"
| "subst_params params ((token, head, tail) # refs) v =
     (if head = ''param'' then
        (case params tail of
           None \<Rightarrow> Inl (UnboundParam tail)
         | Some val \<Rightarrow> subst_params params refs (replace_all v token val))
      else subst_params params refs v)"

text \<open>The distinct non-empty texts of a column, in the order of the rows.\<close>

fun column_values :: "string \<Rightarrow> row list \<Rightarrow> string list \<Rightarrow> string list" where
  "column_values col [] values = values"
| "column_values col (row # rs) values =
     (case map_of row col of
        None \<Rightarrow> column_values col rs values
      | Some raw \<Rightarrow>
          let s = stringify raw in
          if s = [] \<or> s \<in> set values then column_values col rs values
          else column_values col rs (values @ [s]))"

definition rows_list :: "rows \<Rightarrow> row list" where
  "rows_list r = (case r of None \<Rightarrow> [] | Some rs \<Rightarrow> rs)"

definition SubstituteFilter ::
  "PlanStepFilter \<Rightarrow> (string \<Rightarrow> string option) \<Rightarrow> (string \<Rightarrow> rows option)
     \<Rightarrow> step_fault + PlanStepFilter \<times> bool" where
  "SubstituteFilter f params stepResults =
     (if plan_refs (psf_value f) = [] then Inr (f, False)
      else case subst_params params (plan_refs (psf_value f)) (psf_value f) of
        Inl e \<Rightarrow> Inl e
      | Inr v \<Rightarrow>
          let out = f\<lparr>psf_value := v\<rparr>; op = to_lower (trim_space (psf_op f)) in
          (case plan_refs v of
             [] \<Rightarrow> Inr (out, False)
           | (token, stepID, col) # _ \<Rightarrow>
               if op \<noteq> ''in'' \<and> op \<noteq> ''not in'' then Inl (RefNeedsIn (psf_op f) (psf_value f))
               else if \<not> isStandaloneRef v then Inl (RefNotWhole v)
               else case stepResults stepID of
                 None \<Rightarrow> Inl (NoResultsYet stepID)
               | Some rows \<Rightarrow>
                   let values = column_values col (rows_list rows) [] in
                   if values = [] then Inr (out, True)
                   else Inr (out\<lparr>psf_value := join_str '','' values\<rparr>, False)))"

section \<open>The objects of a step\<close>

definition dottedPropPattern :: regex where
  "dottedPropPattern = RSeqs
     [RAlt RBegin (RCls (\<lambda>c. \<not> is_word_char c \<and> c \<noteq> CHR ''$'')), RGrp 1 RIdent, RLit ''.'', RGrp 2 RIdent]"

definition add_object :: "string list \<Rightarrow> string \<Rightarrow> string list" where
  "add_object objs od =
     (if to_lower od = [] \<or> to_lower od \<in> to_lower ` set objs then objs else objs @ [od])"

definition dotted_ods :: "string \<Rightarrow> string list" where
  "dotted_ods s = map (\<lambda>(m, g). group g 1) (FindAllSubmatch dottedPropPattern s)"

definition collectStepObjects :: "PlanStep \<Rightarrow> FilterItem list \<Rightarrow> string list" where
  "collectStepObjects s boundFilters =
     foldl add_object [ps_od s]
       (concat (map dotted_ods (ps_metric s # ps_groupBy s @ map fi_prop boundFilters)))"

section \<open>One step\<close>

record exec_state =
  es_results :: "string \<Rightarrow> rows option"
  es_empty :: "string \<Rightarrow> bool"
  es_trace :: "string \<Rightarrow> StepTrace option"

text \<open>What a step writes when it finishes, beside its trace.\<close>

datatype step_effect = NoRows | Produced rows | Broken exec_error

record plan_env =
  pe_run :: runner
  pe_unmarshal :: "string \<Rightarrow> rows option"
  pe_plan :: Plan
  pe_params :: "string \<Rightarrow> string option"
  pe_projectID :: string
  pe_ord :: "string list \<Rightarrow> string list"

definition zero_step :: PlanStep where
  "zero_step = \<lparr>ps_id = [], ps_od = [], ps_select = [], ps_metric = [], ps_groupBy = [], ps_filters = []\<rparr>"

definition step_of :: "plan_env \<Rightarrow> string \<Rightarrow> PlanStep" where
  "step_of env sid = (case stepByID (pe_plan env) sid of None \<Rightarrow> zero_step | Some s \<Rightarrow> s)"

definition base_trace :: "plan_env \<Rightarrow> string \<Rightarrow> nat \<Rightarrow> StepTrace" where
  "base_trace env sid layer =
     \<lparr>st_id = sid, st_layer = layer, st_od = ps_od (step_of env sid), st_status = StepPending,
      st_rowCount = 0, st_error = None, st_sql = [], st_ontologySQL = [],
      st_dependsOn = stepDependencies (pe_ord env) (step_of env sid),
      st_isOutput = (sid = pl_output (pe_plan env))\<rparr>"

text \<open>The loop over the filters: \<open>None\<close> is the short circuit.\<close>

fun bind_filters ::
  "(string \<Rightarrow> string option) \<Rightarrow> (string \<Rightarrow> rows option) \<Rightarrow> PlanStepFilter list \<Rightarrow> FilterItem list
     \<Rightarrow> step_fault + FilterItem list option" where
  "bind_filters params results [] bound = Inr (Some bound)"
| "bind_filters params results (f # fs) bound =
     (case SubstituteFilter f params results of
        Inl e \<Rightarrow> Inl e
      | Inr (sub, isEmpty) \<Rightarrow>
          if isEmpty then Inr None
          else bind_filters params results fs
                 (bound @ [\<lparr>fi_prop = psf_prop sub, fi_op = psf_op sub, fi_value = psf_value sub,
                            fi_fuzzy = False\<rparr>]))"

definition step_spec :: "plan_env \<Rightarrow> PlanStep \<Rightarrow> FilterItem list \<Rightarrow> QuerySpec" where
  "step_spec env s bound =
     empty_spec\<lparr>q_projectID := pe_projectID env, q_objects := collectStepObjects s bound,
       q_metric := ps_metric s,
       q_groupBy := (if ps_metric s = [] \<and> ps_groupBy s = [] then ps_select s else ps_groupBy s),
       q_filters := bound\<rparr>"

definition decodeResultRows :: "plan_env \<Rightarrow> string \<Rightarrow> rows option" where
  "decodeResultRows env resultJSON =
     (if resultJSON = [] \<or> resultJSON = ''null'' then Some None else pe_unmarshal env resultJSON)"

definition runStep ::
  "plan_env \<Rightarrow> nat \<Rightarrow> string \<Rightarrow> (string \<Rightarrow> rows option) \<Rightarrow> (string \<Rightarrow> bool) \<Rightarrow> StepTrace \<times> step_effect" where
  "runStep env layer sid snapshot emptied =
     (let s = step_of env sid; t = base_trace env sid layer in
      if list_ex emptied (stepDependencies (pe_ord env) s)
      then (t\<lparr>st_status := StepEmptyUpstream\<rparr>, NoRows)
      else case bind_filters (pe_params env) snapshot (ps_filters s) [] of
        Inl e \<Rightarrow> (t\<lparr>st_status := StepFailed, st_error := Some (Inl e)\<rparr>, Broken (StepError sid e))
      | Inr None \<Rightarrow> (t\<lparr>st_status := StepEmpty\<rparr>, NoRows)
      | Inr (Some bound) \<Rightarrow>
          let res = pe_run env sid (step_spec env s bound) in
          if \<not> lr_executionOK res then
            (t\<lparr>st_status := StepFailed, st_error := Some (Inr (lr_errorMessage res)), st_sql := lr_sql res,
               st_ontologySQL := lr_ontologySQL res\<rparr>, Broken (StepFailure sid res))
          else case decodeResultRows env (lr_resultJSON res) of
            None \<Rightarrow>
              (t\<lparr>st_status := StepFailed, st_error := Some (Inl DecodeRows), st_sql := lr_sql res\<rparr>,
               Broken (StepError sid DecodeRows))
          | Some rows \<Rightarrow>
              (t\<lparr>st_status := StepSuccess, st_rowCount := length (rows_list rows), st_sql := lr_sql res,
                 st_ontologySQL := lr_ontologySQL res\<rparr>, Produced rows))"

section \<open>A layer\<close>

datatype event = Begin string | Finish string

definition write_step :: "string \<Rightarrow> StepTrace \<times> step_effect \<Rightarrow> exec_state \<Rightarrow> exec_state" where
  "write_step sid out st =
     (case out of (t, eff) \<Rightarrow>
        let st = st\<lparr>es_trace := (es_trace st)(sid \<mapsto> t)\<rparr> in
        case eff of
          NoRows \<Rightarrow> st\<lparr>es_results := (es_results st)(sid \<mapsto> None), es_empty := (es_empty st)(sid := True)\<rparr>
        | Produced rows \<Rightarrow> st\<lparr>es_results := (es_results st)(sid \<mapsto> rows)\<rparr>
        | Broken e \<Rightarrow> st)"

definition step_error :: "StepTrace \<times> step_effect \<Rightarrow> exec_error option" where
  "step_error out = (case snd out of Broken e \<Rightarrow> Some e | _ \<Rightarrow> None)"

record layer_run =
  ly_state :: exec_state
  ly_pending :: "string \<Rightarrow> (StepTrace \<times> step_effect) option"
  ly_error :: "exec_error option"

text \<open>The first error wins (\<open>errOnce\<close>).\<close>

fun do_event :: "plan_env \<Rightarrow> nat \<Rightarrow> layer_run \<Rightarrow> event \<Rightarrow> layer_run" where
  "do_event env layer r (Begin sid) =
     r\<lparr>ly_pending := (ly_pending r)(sid \<mapsto>
         runStep env layer sid (es_results (ly_state r)) (es_empty (ly_state r)))\<rparr>"
| "do_event env layer r (Finish sid) =
     (case ly_pending r sid of
        None \<Rightarrow> r
      | Some out \<Rightarrow>
          r\<lparr>ly_state := write_step sid out (ly_state r),
            ly_error := (case ly_error r of Some e \<Rightarrow> Some e | None \<Rightarrow> step_error out)\<rparr>)"

definition run_layer ::
  "plan_env \<Rightarrow> (nat \<Rightarrow> string list \<Rightarrow> event list) \<Rightarrow> nat \<Rightarrow> string list \<Rightarrow> exec_state
     \<Rightarrow> exec_state \<times> exec_error option" where
  "run_layer env sched k layer st =
     (let events = (if length layer = 1 then [Begin (hd layer), Finish (hd layer)] else sched k layer);
          r = foldl (do_event env k) \<lparr>ly_state = st, ly_pending = Map.empty, ly_error = None\<rparr> events
      in (ly_state r, ly_error r))"

fun run_layers ::
  "plan_env \<Rightarrow> (nat \<Rightarrow> string list \<Rightarrow> event list) \<Rightarrow> nat \<Rightarrow> string list list \<Rightarrow> exec_state
     \<Rightarrow> exec_state \<times> exec_error option" where
  "run_layers env sched k [] st = (st, None)"
| "run_layers env sched k (layer # layers) st =
     (case run_layer env sched k layer st of
        (st', Some e) \<Rightarrow> (st', Some e)
      | (st', None) \<Rightarrow> run_layers env sched (Suc k) layers st')"

section \<open>The plan\<close>

fun layer_traces :: "plan_env \<Rightarrow> exec_state \<Rightarrow> nat \<Rightarrow> string list list \<Rightarrow> StepTrace list" where
  "layer_traces env st k [] = []"
| "layer_traces env st k (layer # layers) =
     map (\<lambda>sid. case es_trace st sid of Some t \<Rightarrow> t | None \<Rightarrow> base_trace env sid k) layer
     @ layer_traces env st (Suc k) layers"

definition buildTrace :: "plan_env \<Rightarrow> exec_state \<Rightarrow> string list list \<Rightarrow> PlanTrace" where
  "buildTrace env st levels =
     \<lparr>pt_steps = layer_traces env st 0 levels, pt_output = pl_output (pe_plan env)\<rparr>"

text \<open>The chain of wrapped errors ends after one step: a \<open>StepError\<close> never wraps a \<open>StepFailure\<close>.\<close>

definition errAs :: "exec_error \<Rightarrow> LakehouseResult option" where
  "errAs e = (case e of StepFailure sid res \<Rightarrow> Some res | _ \<Rightarrow> None)"

definition failureResultWithTrace ::
  "exec_error \<Rightarrow> PlanTrace \<Rightarrow> LakehouseResult \<times> exec_error option" where
  "failureResultWithTrace e trace =
     (case errAs e of
        Some res \<Rightarrow> (res\<lparr>lr_planTrace := Some trace\<rparr>, Some e)
      | None \<Rightarrow> (zero_result\<lparr>lr_planTrace := Some trace\<rparr>, Some e))"

definition start_state :: exec_state where
  "start_state = \<lparr>es_results = Map.empty, es_empty = (\<lambda>_. False), es_trace = Map.empty\<rparr>"

definition plan_output ::
  "plan_env \<Rightarrow> (rows \<Rightarrow> string option) \<Rightarrow> exec_state \<Rightarrow> PlanTrace \<Rightarrow> LakehouseResult \<times> exec_error option" where
  "plan_output env marshal st trace =
     (let out = pl_output (pe_plan env); ok = zero_result\<lparr>lr_executionOK := True, lr_planTrace := Some trace\<rparr> in
      if es_empty st out then (ok\<lparr>lr_resultJSON := ''[]''\<rparr>, None)
      else case marshal (case es_results st out of None \<Rightarrow> None | Some rows \<Rightarrow> rows) of
        None \<Rightarrow> (zero_result\<lparr>lr_planTrace := Some trace\<rparr>, Some EncodeOutput)
      | Some text \<Rightarrow> (ok\<lparr>lr_resultJSON := (if text = ''null'' then ''[]'' else text)\<rparr>, None))"

text \<open>\<open>env\<close> is \<open>None\<close> when the executor has no runner.\<close>

definition Execute ::
  "plan_env option \<Rightarrow> (nat \<Rightarrow> string list \<Rightarrow> event list) \<Rightarrow> (rows \<Rightarrow> string option)
     \<Rightarrow> LakehouseResult \<times> exec_error option" where
  "Execute executor sched marshal =
     (case executor of
        None \<Rightarrow> (zero_result, Some RunnerNil)
      | Some env \<Rightarrow>
          (case TopoLevels (pe_ord env) (pe_plan env) of
             Inl e \<Rightarrow> (zero_result, Some (BadPlan e))
           | Inr levels \<Rightarrow>
               (case run_layers env sched 0 levels start_state of
                  (st, Some e) \<Rightarrow> failureResultWithTrace e (buildTrace env st levels)
                | (st, None) \<Rightarrow> plan_output env marshal st (buildTrace env st levels))))"

end
