(* ===== verification/Plan_Graph_Props.thy ===== *)
theory Plan_Graph_Props
  imports Plan_Graph
begin

text \<open>
  The two topological orders of a plan agree: a plan that \<open>ParsePlan\<close> accepts (depth-first search)
  has dependency layers (Kahn), in which every step stands once, after everything it depends on.
\<close>

section \<open>Dependencies of a plan with unique ids\<close>

definition arranging :: "(string list \<Rightarrow> string list) \<Rightarrow> bool" where
  "arranging ord \<longleftrightarrow> (\<forall>xs. mset (ord xs) = mset xs)"

lemma arranging_set: "arranging ord \<Longrightarrow> set (ord xs) = set xs"
  by (metis arranging_def set_mset_mset)

lemma arranging_distinct: "arranging ord \<Longrightarrow> distinct (ord xs) = distinct xs"
  by (metis arranging_def mset_eq_imp_distinct_iff)

lemma distinct_stepDependencies: "arranging ord \<Longrightarrow> distinct (stepDependencies ord s)"
  by (simp add: stepDependencies_def arranging_distinct)

lemma stepByID_dom: "stepByID p d = None \<longleftrightarrow> d \<notin> ps_id ` set (pl_steps p)"
  by (simp add: stepByID_def map_of_eq_None_iff image_image)

lemma stepByID_id: "stepByID p d = Some s \<Longrightarrow> s \<in> set (pl_steps p) \<and> ps_id s = d"
  unfolding stepByID_def by (drule map_of_SomeD) auto

lemma stepByID_step:
  assumes "distinct (map ps_id (pl_steps p))" "s \<in> set (pl_steps p)"
  shows "stepByID p (ps_id s) = Some s"
proof -
  have "map fst (rev (map (\<lambda>s. (ps_id s, s)) (pl_steps p))) = rev (map ps_id (pl_steps p))"
    by (simp add: rev_map)
  with assms show ?thesis unfolding stepByID_def by (intro map_of_is_SomeI) simp_all
qed

lemma deps_of_step:
  "distinct (map ps_id (pl_steps p)) \<Longrightarrow> s \<in> set (pl_steps p) \<Longrightarrow>
     deps_of ord p (ps_id s) = stepDependencies ord s"
  by (simp add: deps_of_def stepByID_step)

section \<open>Ordered lists of steps\<close>

text \<open>Everything an element depends on stands before it.\<close>

definition ordered_by :: "(string \<Rightarrow> string list) \<Rightarrow> string list \<Rightarrow> bool" where
  "ordered_by deps xs \<longleftrightarrow> (\<forall>i < length xs. set (deps (xs ! i)) \<subseteq> set (take i xs))"

lemma ordered_by_Nil [simp]: "ordered_by deps []"
  by (simp add: ordered_by_def)

lemma ordered_by_append:
  "ordered_by deps (xs @ ys) \<longleftrightarrow>
     ordered_by deps xs \<and> (\<forall>i < length ys. set (deps (ys ! i)) \<subseteq> set xs \<union> set (take i ys))"
proof
  assume all: "ordered_by deps (xs @ ys)"
  have "set (deps (xs ! i)) \<subseteq> set (take i xs)" if "i < length xs" for i
    using all that unfolding ordered_by_def by (auto simp: nth_append dest!: spec [of _ i])
  moreover have "set (deps (ys ! i)) \<subseteq> set xs \<union> set (take i ys)" if "i < length ys" for i
    using all [unfolded ordered_by_def, rule_format, of "length xs + i"] that by simp
  ultimately show "ordered_by deps xs \<and> (\<forall>i < length ys. set (deps (ys ! i)) \<subseteq> set xs \<union> set (take i ys))"
    unfolding ordered_by_def by blast
next
  assume both: "ordered_by deps xs \<and> (\<forall>i < length ys. set (deps (ys ! i)) \<subseteq> set xs \<union> set (take i ys))"
  show "ordered_by deps (xs @ ys)" unfolding ordered_by_def
  proof (intro allI impI)
    fix i assume i: "i < length (xs @ ys)"
    show "set (deps ((xs @ ys) ! i)) \<subseteq> set (take i (xs @ ys))"
    proof (cases "i < length xs")
      case True
      with both show ?thesis by (simp add: ordered_by_def nth_append)
    next
      case False
      with both i have "set (deps (ys ! (i - length xs))) \<subseteq> set xs \<union> set (take (i - length xs) ys)"
        by simp
      with False show ?thesis by (simp add: nth_append)
    qed
  qed
qed

text \<open>An ordered list has no set of elements that all wait for each other.\<close>

lemma ordered_by_no_knot:
  assumes "ordered_by deps xs" "R \<subseteq> set xs" "R \<noteq> {}"
  shows "\<exists>x \<in> R. set (deps x) \<inter> R = {}"
proof -
  define i where "i = (LEAST i. i < length xs \<and> xs ! i \<in> R)"
  from assms(2,3) obtain j where "j < length xs \<and> xs ! j \<in> R" by (metis ex_in_conv in_set_conv_nth subsetD)
  then have i: "i < length xs \<and> xs ! i \<in> R" unfolding i_def by (rule LeastI)
  have "y \<notin> R" if "y \<in> set (take i xs)" for y
  proof -
    from that obtain k where k: "k < i" "y = xs ! k" "k < length xs" by (auto simp: in_set_conv_nth)
    then show ?thesis using not_less_Least [of k "\<lambda>i. i < length xs \<and> xs ! i \<in> R"] i_def by auto
  qed
  with assms(1) i show ?thesis unfolding ordered_by_def by blast
qed

section \<open>The depth-first order\<close>

definition order_ok :: "(string list \<Rightarrow> string list) \<Rightarrow> Plan \<Rightarrow> string list \<Rightarrow> bool" where
  "order_ok ord p order \<longleftrightarrow> distinct order \<and> ordered_by (deps_of ord p) order"

lemma order_ok_snoc:
  "order_ok ord p order \<Longrightarrow> sid \<notin> set order \<Longrightarrow> set (deps_of ord p sid) \<subseteq> set order \<Longrightarrow>
     order_ok ord p (order @ [sid])"
  by (simp add: order_ok_def ordered_by_append)

lemma visit_order:
  "visit_step ord p sid path order = Inr order' \<Longrightarrow> order_ok ord p order \<Longrightarrow>
     set path \<inter> set order = {} \<Longrightarrow>
     order_ok ord p order' \<and> set order \<subseteq> set order' \<and> sid \<in> set order' \<and> set path \<inter> set order' = {}"
  "visit_all ord p sid ds path order = Inr order' \<Longrightarrow> order_ok ord p order \<Longrightarrow>
     set path \<inter> set order = {} \<Longrightarrow>
     order_ok ord p order' \<and> set order \<subseteq> set order' \<and> set ds \<subseteq> set order' \<and> set path \<inter> set order' = {}"
proof (induction ord p sid path order and ord p sid ds path order
    arbitrary: order' and order' rule: visit_step_visit_all.induct)
  case (1 ord p sid path order)
  show ?case
  proof (cases "sid \<in> set order")
    case True
    with 1 show ?thesis by simp
  next
    case False
    with 1(2) obtain o' where o': "sid \<notin> set path" "order' = o' @ [sid]"
      "visit_all ord p sid (deps_of ord p sid) (path @ [sid]) order = Inr o'"
      by (auto split: if_splits sum.splits)
    have "set (path @ [sid]) \<inter> set order = {}" using 1(4) False by auto
    from 1(1) [OF False o'(1) o'(3) 1(3) this] o' show ?thesis
      by (auto intro: order_ok_snoc)
  qed
next
  case (3 ord p sid d ds path order)
  from 3(3) obtain o' where o': "stepByID p d \<noteq> None" "visit_step ord p d path order = Inr o'"
    "visit_all ord p sid ds path o' = Inr order'"
    by (auto split: if_splits sum.splits)
  note first = 3(1) [OF o'(1,2) 3(4,5)]
  from first have "order_ok ord p o'" "set path \<inter> set o' = {}" by auto
  from 3(2) [OF o'(1,2,3) this] first show ?case by auto
qed simp

lemma visit_steps_order:
  "visit_steps ord p ss order = Inr order' \<Longrightarrow> order_ok ord p order \<Longrightarrow>
     order_ok ord p order' \<and> set order \<subseteq> set order' \<and> ps_id ` set ss \<subseteq> set order'"
proof (induction ord p ss order rule: visit_steps.induct)
  case (2 ord p s ss order)
  then obtain o' where o': "visit_step ord p (ps_id s) [] order = Inr o'"
    "visit_steps ord p ss o' = Inr order'"
    by (auto split: sum.splits)
  from visit_order(1) [OF o'(1) 2(3)] 2(1) [OF o'] show ?case by auto
qed simp

lemma TopoOrder_ordered:
  "TopoOrder ord p = Inr order \<Longrightarrow>
     distinct order \<and> ordered_by (deps_of ord p) order \<and> ps_id ` set (pl_steps p) \<subseteq> set order"
  using visit_steps_order [of ord p "pl_steps p" "[]" order]
  by (auto simp: TopoOrder_def order_ok_def)

text \<open>A search that fails has found an unknown dependency, or steps that all wait for each other.\<close>

definition knot :: "(string \<Rightarrow> string list) \<Rightarrow> string set \<Rightarrow> bool" where
  "knot deps R \<longleftrightarrow> R \<noteq> {} \<and> (\<forall>x \<in> R. set (deps x) \<inter> R \<noteq> {})"

definition search_failure :: "(string list \<Rightarrow> string list) \<Rightarrow> Plan \<Rightarrow> plan_error \<Rightarrow> bool" where
  "search_failure ord p e \<longleftrightarrow>
     (\<exists>a d. e = UnknownDependency a d \<and> d \<in> set (deps_of ord p a) \<and> stepByID p d = None)
   \<or> (\<exists>path x. e = OrderCycle path x \<and> (\<exists>R. R \<subseteq> set path \<and> knot (deps_of ord p) R))"

abbreviation dep_chain :: "(string list \<Rightarrow> string list) \<Rightarrow> Plan \<Rightarrow> string list \<Rightarrow> bool" where
  "dep_chain ord p \<equiv> successively (\<lambda>a b. b \<in> set (deps_of ord p a))"

lemma chain_knot:
  assumes "dep_chain ord p (path @ [x])" "x \<in> set path"
  shows "\<exists>R. R \<subseteq> set path \<and> knot (deps_of ord p) R"
proof -
  from assms(2) obtain us vs where path: "path = us @ x # vs" by (meson split_list)
  let ?c = "x # vs"
  from assms(1) have c: "dep_chain ord p (?c @ [x])"
    unfolding path by (simp add: successively_append_iff)
  have "set (deps_of ord p y) \<inter> set ?c \<noteq> {}" if y: "y \<in> set ?c" for y
  proof -
    from y obtain i where i: "i < length ?c" "y = ?c ! i" by (metis in_set_conv_nth)
    then have "Suc i < length (?c @ [x])" "(?c @ [x]) ! i = y"
      using nth_append [of ?c "[x]" i] by auto
    with c have "(?c @ [x]) ! Suc i \<in> set (deps_of ord p y)"
      using successively_conv_nth by fastforce
    moreover have "(?c @ [x]) ! Suc i \<in> set ?c"
    proof (cases "Suc i < length ?c")
      case True
      then show ?thesis by (metis nth_append nth_mem)
    next
      case False
      with i(1) have "Suc i = length ?c" by simp
      then show ?thesis by (simp add: nth_append)
    qed
    ultimately show ?thesis by blast
  qed
  then have "knot (deps_of ord p) (set ?c)" by (auto simp: knot_def)
  moreover have "set ?c \<subseteq> set path" using path by auto
  ultimately show ?thesis by blast
qed

lemma visit_failure:
  "visit_step ord p sid path order = Inl e \<Longrightarrow> dep_chain ord p (path @ [sid]) \<Longrightarrow>
     search_failure ord p e"
  "visit_all ord p sid ds path order = Inl e \<Longrightarrow> dep_chain ord p path \<Longrightarrow> path \<noteq> [] \<Longrightarrow>
     last path = sid \<Longrightarrow> set ds \<subseteq> set (deps_of ord p sid) \<Longrightarrow> search_failure ord p e"
proof (induction ord p sid path order and ord p sid ds path order
    rule: visit_step_visit_all.induct)
  case (1 ord p sid path order)
  show ?case
  proof (cases "sid \<in> set path")
    case True
    with 1(2) have "e = OrderCycle path sid" by (auto split: if_splits)
    with chain_knot [OF 1(3) True] show ?thesis by (simp add: search_failure_def)
  next
    case False
    with 1(2) have "sid \<notin> set order"
      "visit_all ord p sid (deps_of ord p sid) (path @ [sid]) order = Inl e"
      by (auto split: if_splits sum.splits)
    from 1(1) [OF this(1) False this(2) 1(3)] show ?thesis by simp
  qed
next
  case (3 ord p sid d ds path order)
  show ?case
  proof (cases "stepByID p d = None")
    case True
    with 3(3,7) have "e = UnknownDependency sid d \<and> d \<in> set (deps_of ord p sid)" by auto
    with True show ?thesis by (simp add: search_failure_def)
  next
    case known: False
    have chain: "dep_chain ord p (path @ [d])"
      using 3(4-7) by (simp add: successively_append_iff)
    show ?thesis
    proof (cases "visit_step ord p d path order")
      case (Inl e')
      with 3(3) known have "visit_step ord p d path order = Inl e" by simp
      from 3(1) [OF known this chain] show ?thesis .
    next
      case (Inr o')
      with 3(3) known have "visit_all ord p sid ds path o' = Inl e" by simp
      from 3(2) [OF known Inr this 3(4-6)] 3(7) show ?thesis by simp
    qed
  qed
qed simp

lemma TopoOrder_failure:
  "TopoOrder ord p = Inl e \<Longrightarrow> search_failure ord p e"
proof -
  have "visit_steps ord p ss order = Inl e \<Longrightarrow> search_failure ord p e" for ss order
    by (induction ord p ss order rule: visit_steps.induct)
      (auto split: sum.splits intro: visit_failure(1) simp del: visit_step.simps)
  then show "TopoOrder ord p = Inl e \<Longrightarrow> search_failure ord p e" by (simp add: TopoOrder_def)
qed

section \<open>The layers\<close>

definition layered :: "(string \<Rightarrow> string list) \<Rightarrow> string list list \<Rightarrow> bool" where
  "layered deps levels \<longleftrightarrow>
     (\<forall>i < length levels. \<forall>sid \<in> set (levels ! i). set (deps sid) \<subseteq> set (concat (take i levels)))"

lemma layered_snoc:
  "layered deps (levels @ [layer]) \<longleftrightarrow>
     layered deps levels \<and> (\<forall>sid \<in> set layer. set (deps sid) \<subseteq> set (concat levels))"
  by (simp add: layered_def nth_append less_Suc_eq all_conj_distrib imp_conjL conj_commute
      imp_disjL cong: conj_cong imp_cong)

lemma layered_ordered: "layered deps levels \<Longrightarrow> ordered_by deps (concat levels)"
proof (induction levels rule: rev_induct)
  case (snoc layer levels)
  then have o: "ordered_by deps (concat levels)"
    "\<And>sid. sid \<in> set layer \<Longrightarrow> set (deps sid) \<subseteq> set (concat levels)"
    unfolding layered_snoc by auto
  from o(2) have "set (deps (layer ! i)) \<subseteq> set (concat levels)" if "i < length layer" for i
    using that by (meson nth_mem)
  with o(1) show ?case by (auto simp: ordered_by_append)
qed simp

lemma decrement_count: "decrement cs deg c = deg c - int (count_list cs c)"
  by (induction cs arbitrary: deg) (auto simp: decrement_def)

lemma decrement_layer:
  "foldl (\<lambda>g sid. decrement (kids sid) g) deg layer c
     = deg c - int (sum_list (map (\<lambda>sid. count_list (kids sid) c) layer))"
  by (induction layer arbitrary: deg) (auto simp: decrement_count)

definition well_formed :: "(string list \<Rightarrow> string list) \<Rightarrow> Plan \<Rightarrow> bool" where
  "well_formed ord p \<longleftrightarrow>
     arranging ord \<and> distinct (map ps_id (pl_steps p))
   \<and> (\<forall>s \<in> set (pl_steps p). set (stepDependencies ord s) \<subseteq> ps_id ` set (pl_steps p))"

abbreviation ids :: "Plan \<Rightarrow> string set" where
  "ids p \<equiv> ps_id ` set (pl_steps p)"

lemma count_children:
  "distinct (map ps_id ss) \<Longrightarrow> s \<in> set ss \<Longrightarrow>
     count_list (children ord ss d) (ps_id s) = (if d \<in> set (stepDependencies ord s) then 1 else 0)"
proof (induction ss)
  case (Cons t ss)
  have none: "count_list (children ord ss d) c = 0" if "c \<notin> ps_id ` set ss" for c
    using that by (auto simp: children_def count_list_0_iff split: if_splits)
  show ?case
  proof (cases "s = t")
    case True
    with Cons.prems none [of "ps_id s"] show ?thesis by (auto simp: children_def)
  next
    case False
    with Cons.prems have "s \<in> set ss" "ps_id t \<noteq> ps_id s" by auto
    with Cons show ?thesis by (simp add: children_def)
  qed
qed simp

lemma sum_list_indicator:
  "distinct xs \<Longrightarrow> sum_list (map (\<lambda>x. if x \<in> A then 1 else 0) xs) = card (A \<inter> set xs)"
proof (induction xs)
  case (Cons x xs)
  then show ?case by (auto simp: Int_insert_right)
qed simp

lemma in_degree_card:
  assumes "well_formed ord p" "s \<in> set (pl_steps p)"
  shows "in_degree ord (pl_steps p) (ps_id s) = int (card (set (stepDependencies ord s)))"
proof -
  have "in_degree ord ss (ps_id s) = int (length (stepDependencies ord s))"
    if "distinct (map ps_id ss)" "s \<in> set ss" for ss
    using that
  proof (induction ss)
    case (Cons t ss)
    have none: "in_degree ord ss c = 0" if "c \<notin> ps_id ` set ss" for c
      using that by (induction ss) (auto simp: in_degree_def)
    show ?case
    proof (cases "s = t")
      case True
      with Cons.prems none [of "ps_id s"] show ?thesis by (auto simp: in_degree_def)
    next
      case False
      with Cons.prems have "s \<in> set ss" "ps_id t \<noteq> ps_id s" by auto
      with Cons show ?thesis by (simp add: in_degree_def)
    qed
  qed simp
  with assms show ?thesis
    by (simp add: well_formed_def distinct_stepDependencies distinct_card)
qed

lemma count_layer:
  assumes wf: "well_formed ord p" and s: "s \<in> set (pl_steps p)" and layer: "distinct layer"
  shows "sum_list (map (\<lambda>sid. count_list (children ord (pl_steps p) sid) (ps_id s)) layer)
    = card (set (stepDependencies ord s) \<inter> set layer)"
proof -
  have "count_list (children ord (pl_steps p) sid) (ps_id s)
      = (if sid \<in> set (stepDependencies ord s) then 1 else 0)" for sid
    using wf s by (simp add: count_children well_formed_def)
  then show ?thesis using sum_list_indicator [OF layer] by simp
qed

definition levels_ok :: "(string list \<Rightarrow> string list) \<Rightarrow> Plan \<Rightarrow> string list list \<Rightarrow> bool" where
  "levels_ok ord p levels \<longleftrightarrow>
     distinct (concat levels) \<and> layered (deps_of ord p) levels \<and> list_all sorted levels
   \<and> [] \<notin> set levels"

lemma kahn_result:
  assumes "well_formed ord p" and "distinct remaining" and "set remaining \<inter> set (concat levels) = {}"
    and "set (concat levels) \<union> set remaining = ids p" and "levels_ok ord p levels"
    and "\<forall>s \<in> set (pl_steps p). ps_id s \<in> set remaining \<longrightarrow>
      deg (ps_id s) = int (card (set (stepDependencies ord s) \<inter> set remaining))"
  shows "case kahn (children ord (pl_steps p)) deg remaining levels of
      Inl e \<Rightarrow> \<exists>rem. e = LevelCycle rem \<and> set rem \<subseteq> ids p \<and> knot (deps_of ord p) (set rem)
    | Inr res \<Rightarrow> levels_ok ord p res \<and> set (concat res) = ids p"
  using assms(2-)
proof (induction "length remaining" arbitrary: deg remaining levels rule: less_induct)
  case less
  let ?layer = "sort (filter (\<lambda>sid. deg sid = 0) remaining)"
  note wf = assms(1)
  have dist: "distinct (map ps_id (pl_steps p))" using wf by (simp add: well_formed_def)
  have deg: "deg (ps_id s) = int (card (set (stepDependencies ord s) \<inter> set remaining))"
    if "s \<in> set (pl_steps p)" "ps_id s \<in> set remaining" for s
    using less.prems(5) that by blast
  have zero: "deg sid = 0 \<longleftrightarrow> set (deps_of ord p sid) \<inter> set remaining = {}"
    if "sid \<in> set remaining" for sid
  proof -
    from that less.prems(3) obtain s where s: "s \<in> set (pl_steps p)" "sid = ps_id s" by auto
    with deg [of s] that deps_of_step [OF dist s(1)] show ?thesis by (simp add: card_eq_0_iff)
  qed
  consider (fin) "remaining = []" | (stuck) "remaining \<noteq> []" "?layer = []"
    | (layer) "remaining \<noteq> []" "?layer \<noteq> []" by blast
  then show ?case
  proof cases
    case fin
    with less.prems show ?thesis by (simp add: kahn.simps)
  next
    case stuck
    then have empty: "filter (\<lambda>sid. deg sid = 0) remaining = []"
      by (metis length_0_conv length_sort)
    have "knot (deps_of ord p) (set (sort remaining))"
      using stuck(1) zero empty by (auto simp: knot_def filter_empty_conv)
    moreover have "set (sort remaining) \<subseteq> ids p" using less.prems(3) by auto
    ultimately show ?thesis using stuck by (simp add: kahn.simps)
  next
    case layer
    let ?rem = "filter (\<lambda>sid. sid \<notin> set ?layer) remaining"
    let ?deg = "foldl (\<lambda>g sid. decrement (children ord (pl_steps p) sid) g) deg ?layer"
    have sub: "set ?layer \<subseteq> set remaining" and dl: "distinct ?layer"
      using less.prems(1) by auto
    have "hd ?layer \<in> set ?layer" using layer(2) by (rule hd_in_set)
    then have len: "length ?rem < length remaining"
      using sub by (intro length_filter_less [of "hd ?layer"]) auto
    have ready: "set (deps_of ord p sid) \<subseteq> set (concat levels)" if "sid \<in> set ?layer" for sid
    proof -
      from that sub have r: "sid \<in> set remaining" "deg sid = 0" by auto
      with less.prems(3) obtain s where s: "s \<in> set (pl_steps p)" "sid = ps_id s" by auto
      then have "set (deps_of ord p sid) \<subseteq> ids p"
        using wf deps_of_step [OF dist s(1)] by (simp add: well_formed_def)
      with zero [OF r(1)] r(2) less.prems(3) show ?thesis by blast
    qed
    have "case kahn (children ord (pl_steps p)) ?deg ?rem (levels @ [?layer]) of
      Inl e \<Rightarrow> \<exists>rem. e = LevelCycle rem \<and> set rem \<subseteq> ids p \<and> knot (deps_of ord p) (set rem)
    | Inr res \<Rightarrow> levels_ok ord p res \<and> set (concat res) = ids p"
    proof (rule less.hyps [OF len])
      show "distinct ?rem" using less.prems(1) by simp
      show "set ?rem \<inter> set (concat (levels @ [?layer])) = {}" using less.prems(2) by auto
      show "set (concat (levels @ [?layer])) \<union> set ?rem = ids p"
        using less.prems(3) sub by auto
      have "distinct (concat (levels @ [?layer]))"
        using less.prems(2,4) dl sub by (auto simp: levels_ok_def)
      then show "levels_ok ord p (levels @ [?layer])"
        using less.prems(4) ready layer(2) by (simp add: levels_ok_def layered_snoc)
      show "\<forall>s \<in> set (pl_steps p). ps_id s \<in> set ?rem \<longrightarrow>
          ?deg (ps_id s) = int (card (set (stepDependencies ord s) \<inter> set ?rem))"
      proof (intro ballI impI)
        fix s assume s: "s \<in> set (pl_steps p)" "ps_id s \<in> set ?rem"
        let ?d = "set (stepDependencies ord s)"
        have "?d \<inter> set ?rem = ?d \<inter> set remaining - ?d \<inter> set ?layer" by auto
        moreover have "card (?d \<inter> set remaining - ?d \<inter> set ?layer)
            = card (?d \<inter> set remaining) - card (?d \<inter> set ?layer)"
          using sub by (intro card_Diff_subset) auto
        moreover have "card (?d \<inter> set ?layer) \<le> card (?d \<inter> set remaining)"
          using sub by (intro card_mono) auto
        moreover have "?deg (ps_id s) = deg (ps_id s) - int (card (?d \<inter> set ?layer))"
          unfolding decrement_layer count_layer [OF wf s(1) dl] ..
        ultimately show "?deg (ps_id s) = int (card (?d \<inter> set ?rem))"
          using deg [OF s(1)] s(2) by simp
      qed
    qed
    then show ?thesis using layer by (subst kahn.simps) (simp only: Let_def if_False)
  qed
qed

lemma visit_known:
  "visit_step ord p sid path order = Inr order' \<Longrightarrow> set order \<subseteq> ids p \<Longrightarrow> sid \<in> ids p \<Longrightarrow>
     set order' \<subseteq> ids p"
  "visit_all ord p sid ds path order = Inr order' \<Longrightarrow> set order \<subseteq> ids p \<Longrightarrow> set order' \<subseteq> ids p"
proof (induction ord p sid path order and ord p sid ds path order
    arbitrary: order' and order' rule: visit_step_visit_all.induct)
  case (1 ord p sid path order)
  show ?case
  proof (cases "sid \<in> set order")
    case True
    with 1 show ?thesis by simp
  next
    case False
    with 1(2) obtain o' where o': "sid \<notin> set path" "order' = o' @ [sid]"
      "visit_all ord p sid (deps_of ord p sid) (path @ [sid]) order = Inr o'"
      by (auto split: if_splits sum.splits)
    from 1(1) [OF False o'(1) o'(3) 1(3)] o'(2) 1(4) show ?thesis by simp
  qed
next
  case (3 ord p sid d ds path order)
  from 3(3) obtain o' where o': "stepByID p d \<noteq> None" "visit_step ord p d path order = Inr o'"
    "visit_all ord p sid ds path o' = Inr order'"
    by (auto split: if_splits sum.splits)
  from o'(1) have "d \<in> ids p" by (simp add: stepByID_dom)
  from 3(2) [OF o' 3(1) [OF o'(1,2) 3(4) this]] show ?case .
qed simp

lemma TopoOrder_known:
  assumes "TopoOrder ord p = Inr order"
  shows "set order \<subseteq> ids p"
proof -
  have "visit_steps ord p ss order = Inr order' \<Longrightarrow> set order \<subseteq> ids p \<Longrightarrow> ps_id ` set ss \<subseteq> ids p \<Longrightarrow>
      set order' \<subseteq> ids p" for ss order order'
  proof (induction ord p ss order rule: visit_steps.induct)
    case (2 ord p s ss order)
    then obtain o' where o': "visit_step ord p (ps_id s) [] order = Inr o'"
      "visit_steps ord p ss o' = Inr order'"
      by (auto split: sum.splits)
    have "set o' \<subseteq> ids p" using visit_known(1) [OF o'(1) 2(3)] 2(4) by simp
    from 2(1) [OF o' this] 2(4) show ?case by simp
  qed simp
  from this [of "pl_steps p" "[]"] assms show ?thesis by (simp add: TopoOrder_def)
qed

lemma unknown_dep_None:
  "unknown_dep ord p ss = None \<longleftrightarrow> (\<forall>s \<in> set ss. set (stepDependencies ord s) \<subseteq> ids p)"
proof (induction ord p ss rule: unknown_dep.induct)
  case (2 ord p s ss)
  have "find (\<lambda>d. stepByID p d = None) (stepDependencies ord s) = None
      \<longleftrightarrow> set (stepDependencies ord s) \<subseteq> ids p"
    by (auto simp: find_None_iff stepByID_dom)
  with 2 show ?case by (auto split: option.splits)
qed simp

lemma TopoLevels_result:
  assumes "well_formed ord p"
  shows "case TopoLevels ord p of
      Inl e \<Rightarrow> \<exists>rem. e = LevelCycle rem \<and> set rem \<subseteq> ids p \<and> knot (deps_of ord p) (set rem)
    | Inr res \<Rightarrow> levels_ok ord p res \<and> set (concat res) = ids p"
proof -
  have "unknown_dep ord p (pl_steps p) = None"
    using assms by (simp add: unknown_dep_None well_formed_def)
  moreover have "case kahn (children ord (pl_steps p)) (in_degree ord (pl_steps p))
      (remdups (map ps_id (pl_steps p))) [] of
      Inl e \<Rightarrow> \<exists>rem. e = LevelCycle rem \<and> set rem \<subseteq> ids p \<and> knot (deps_of ord p) (set rem)
    | Inr res \<Rightarrow> levels_ok ord p res \<and> set (concat res) = ids p"
  proof (rule kahn_result [OF assms])
    show "\<forall>s \<in> set (pl_steps p). ps_id s \<in> set (remdups (map ps_id (pl_steps p))) \<longrightarrow>
        in_degree ord (pl_steps p) (ps_id s)
          = int (card (set (stepDependencies ord s) \<inter> set (remdups (map ps_id (pl_steps p)))))"
      using assms in_degree_card [OF assms]
      by (auto simp: well_formed_def Int_absorb2)
  qed (simp_all add: levels_ok_def layered_def)
  ultimately show ?thesis by (simp add: TopoLevels_def)
qed

lemma knot_not_ordered:
  "knot deps R \<Longrightarrow> ordered_by deps xs \<Longrightarrow> \<not> R \<subseteq> set xs"
  using ordered_by_no_knot [of deps xs R] unfolding knot_def by blast

lemma TopoOrder_TopoLevels:
  assumes "well_formed ord p" "TopoOrder ord p = Inr order"
  shows "\<exists>levels. TopoLevels ord p = Inr levels \<and> levels_ok ord p levels \<and> set (concat levels) = ids p"
proof (cases "TopoLevels ord p")
  case (Inl e)
  with TopoLevels_result [OF assms(1)] obtain rem where
    "set rem \<subseteq> ids p" "knot (deps_of ord p) (set rem)" by auto
  with TopoOrder_ordered [OF assms(2)] knot_not_ordered [of "deps_of ord p" "set rem" order]
  show ?thesis by auto
next
  case (Inr levels)
  with TopoLevels_result [OF assms(1)] show ?thesis by simp
qed

lemma TopoOrder_well_formed:
  assumes "arranging ord" "distinct (map ps_id (pl_steps p))" "TopoOrder ord p = Inr order"
  shows "well_formed ord p"
proof -
  have "set (stepDependencies ord s) \<subseteq> ids p" if s: "s \<in> set (pl_steps p)" for s
  proof -
    note o = TopoOrder_ordered [OF assms(3)]
    from s o obtain i where i: "i < length order" "order ! i = ps_id s"
      by (metis image_eqI in_set_conv_nth subsetD)
    with o have "set (deps_of ord p (ps_id s)) \<subseteq> set (take i order)"
      unfolding ordered_by_def by (metis (no_types))
    with TopoOrder_known [OF assms(3)] set_take_subset [of i order]
    show ?thesis unfolding deps_of_step [OF assms(2) s] by blast
  qed
  with assms(1,2) show ?thesis by (simp add: well_formed_def)
qed

text \<open>The two topological sorts agree: on a plan with unique step ids, the depth-first search that
  validates the plan succeeds exactly when the layering that runs it succeeds, whatever order the
  dependency sets are iterated in.\<close>

theorem both_orders_agree:
  assumes "arranging ord" "distinct (map ps_id (pl_steps p))"
  shows "(\<exists>order. TopoOrder ord p = Inr order) \<longleftrightarrow> (\<exists>levels. TopoLevels ord p = Inr levels)"
proof
  assume "\<exists>order. TopoOrder ord p = Inr order"
  with TopoOrder_TopoLevels TopoOrder_well_formed [OF assms] show "\<exists>levels. TopoLevels ord p = Inr levels"
    by blast
next
  assume "\<exists>levels. TopoLevels ord p = Inr levels"
  then obtain levels where levels: "TopoLevels ord p = Inr levels" ..
  then have "unknown_dep ord p (pl_steps p) = None" by (auto simp: TopoLevels_def split: option.splits)
  with assms have wf: "well_formed ord p" by (simp add: well_formed_def unknown_dep_None)
  from TopoLevels_result [OF wf] levels
  have ok: "ordered_by (deps_of ord p) (concat levels)" "set (concat levels) = ids p"
    by (auto simp: levels_ok_def intro: layered_ordered)
  have deps: "set (deps_of ord p x) \<subseteq> ids p" for x
  proof (cases "stepByID p x")
    case (Some s)
    from stepByID_id [OF this] wf Some show ?thesis by (auto simp: deps_of_def well_formed_def)
  qed (simp add: deps_of_def)
  show "\<exists>order. TopoOrder ord p = Inr order"
  proof (cases "TopoOrder ord p")
    case (Inl e)
    from TopoOrder_failure [OF this] show ?thesis
      unfolding search_failure_def
    proof (elim disjE exE conjE)
      fix a d assume "d \<in> set (deps_of ord p a)" "stepByID p d = None"
      with deps [of a] show ?thesis by (auto simp: stepByID_dom)
    next
      fix path x R assume R: "knot (deps_of ord p) R"
      let ?R = "R \<inter> ids p"
      have "knot (deps_of ord p) ?R"
        using R deps unfolding knot_def by blast
      from knot_not_ordered [OF this ok(1)] ok(2) show ?thesis by auto
    qed
  qed auto
qed

definition chain_plan :: Plan where
  "chain_plan =
     \<lparr>pl_params = [],
      pl_steps =
        [\<lparr>ps_id = ''b'', ps_od = ''Order'', ps_select = [], ps_metric = ''count'', ps_groupBy = [],
          ps_filters = [\<lparr>psf_prop = ''store'', psf_op = ''in'', psf_value = ''$a.id''\<rparr>]\<rparr>,
         \<lparr>ps_id = ''a'', ps_od = ''Store'', ps_select = [''id''], ps_metric = [], ps_groupBy = [],
          ps_filters = []\<rparr>],
      pl_output = ''b''\<rparr>"

lemma both_orders_agree_witness:
  "(\<exists>order. TopoOrder (\<lambda>xs. xs) chain_plan = Inr order)
     \<longleftrightarrow> (\<exists>levels. TopoLevels (\<lambda>xs. xs) chain_plan = Inr levels)"
  by (rule both_orders_agree) (simp_all add: arranging_def chain_plan_def)

lemma bad_id_None:
  "bad_id ss seen = None \<longleftrightarrow> distinct (map ps_id ss) \<and> [] \<notin> ps_id ` set ss \<and> ps_id ` set ss \<inter> set seen = {}"
  by (induction ss seen rule: bad_id.induct) auto

lemma ParsePlan_ok:
  "ParsePlan ord unmarshal raw = Inr p \<longleftrightarrow>
     unmarshal raw = Some p \<and> pl_steps p \<noteq> [] \<and> pl_output p \<noteq> [] \<and> bad_id (pl_steps p) [] = None
   \<and> pl_output p \<in> ids p \<and> bad_refs p = None \<and> (\<exists>order. TopoOrder ord p = Inr order)"
  by (auto simp: ParsePlan_def split: option.splits sum.splits)

lemma parsed_levels:
  assumes "arranging ord" "ParsePlan ord unmarshal raw = Inr p"
  shows "well_formed ord p
    \<and> (\<exists>levels. TopoLevels ord p = Inr levels \<and> levels_ok ord p levels \<and> set (concat levels) = ids p)"
proof -
  from assms(2) obtain order where ok: "bad_id (pl_steps p) [] = None" "TopoOrder ord p = Inr order"
    unfolding ParsePlan_ok by blast
  from ok(1) have "distinct (map ps_id (pl_steps p))" by (simp add: bad_id_None)
  from TopoOrder_well_formed [OF assms(1) this ok(2)] TopoOrder_TopoLevels ok(2) show ?thesis by blast
qed

text \<open>C37: A plan that ParsePlan accepts can be layered: the layers are non-empty, sorted, contain every
  step exactly once, and everything a step refers to is in an earlier layer.\<close>

theorem parsed_plan_has_layers:
  assumes "arranging ord" "ParsePlan ord unmarshal raw = Inr p"
  shows "\<exists>levels. TopoLevels ord p = Inr levels \<and> [] \<notin> set levels \<and> list_all sorted levels
    \<and> distinct (concat levels) \<and> set (concat levels) = ps_id ` set (pl_steps p)
    \<and> (\<forall>i < length levels. \<forall>sid \<in> set (levels ! i). \<forall>s \<in> set (pl_steps p). ps_id s = sid \<longrightarrow>
         set (stepDependencies ord s) \<subseteq> set (concat (take i levels)))"
proof -
  from parsed_levels [OF assms] obtain levels where wf: "well_formed ord p"
    and l: "TopoLevels ord p = Inr levels" "levels_ok ord p levels" "set (concat levels) = ids p"
    by blast
  have "set (stepDependencies ord s) \<subseteq> set (concat (take i levels))"
    if "i < length levels" "ps_id s \<in> set (levels ! i)" "s \<in> set (pl_steps p)" for i s
  proof -
    have "deps_of ord p (ps_id s) = stepDependencies ord s"
      using wf that(3) by (simp add: well_formed_def deps_of_step)
    moreover have "set (deps_of ord p (ps_id s)) \<subseteq> set (concat (take i levels))"
      using l(2) that(1,2) unfolding levels_ok_def layered_def by blast
    ultimately show ?thesis by simp
  qed
  with l show ?thesis by (auto simp: levels_ok_def)
qed

lemma parsed_plan_has_layers_witness:
  "\<exists>levels. TopoLevels (\<lambda>xs. xs) chain_plan = Inr levels \<and> [] \<notin> set levels"
proof -
  have "ParsePlan (\<lambda>xs. xs) (\<lambda>raw. Some chain_plan) [] = Inr chain_plan" by code_simp
  from parsed_plan_has_layers [OF _ this] show ?thesis by (auto simp: arranging_def)
qed

end
