(* ===== verification/Plan_Executor_Props.thy ===== *)
theory Plan_Executor_Props
  imports Plan_Executor Plan_Graph_Props Query_Normalize
begin

text \<open>
  The execution of a plan does not depend on how the goroutines of a layer interleave, finds the
  results every step refers to, and passes emptiness on to the steps that depend on it.
\<close>

section \<open>Steps that read and write in two phases\<close>

text \<open>
  Steps write disjoint parts of a state, and what a step computes depends only on the parts of the
  steps it reads.
\<close>

locale phased_steps =
  fixes outcome :: "'st \<Rightarrow> string \<Rightarrow> 'out"
    and put :: "string \<Rightarrow> 'out \<Rightarrow> 'st \<Rightarrow> 'st"
    and reads :: "string \<Rightarrow> string set"
  assumes write_commute: "a \<noteq> b \<Longrightarrow> put a x (put b y st) = put b y (put a x st)"
    and outcome_frame: "b \<notin> reads a \<Longrightarrow> outcome (put b y st) a = outcome st a"
begin

definition write_all :: "'st \<Rightarrow> (string \<times> 'out) list \<Rightarrow> 'st" where
  "write_all st ws = foldl (\<lambda>st w. put (fst w) (snd w) st) st ws"

lemma write_all_simps [simp]:
  "write_all st [] = st"
  "write_all st (w # ws) = write_all (put (fst w) (snd w) st) ws"
  "write_all st (ws @ vs) = write_all (write_all st ws) vs"
  by (simp_all add: write_all_def)

lemma outcome_stable:
  "fst ` set ws \<inter> reads a = {} \<Longrightarrow> outcome (write_all st ws) a = outcome st a"
  by (induction ws arbitrary: st) (auto simp: outcome_frame)

lemma write_all_move:
  "fst w \<notin> fst ` set ws \<Longrightarrow> write_all (put (fst w) (snd w) st) ws = put (fst w) (snd w) (write_all st ws)"
proof (induction ws arbitrary: st)
  case (Cons v ws)
  then have "put (fst v) (snd v) (put (fst w) (snd w) st) = put (fst w) (snd w) (put (fst v) (snd v) st)"
    by (intro write_commute) auto
  with Cons show ?case by simp
qed simp

lemma write_all_permute:
  "mset ws = mset vs \<Longrightarrow> distinct (map fst ws) \<Longrightarrow> write_all st ws = write_all st vs"
proof (induction ws arbitrary: vs st)
  case (Cons w ws)
  from Cons.prems(1) obtain us us' where vs: "vs = us @ w # us'"
    by (metis list.set_intros(1) mset_eq_setD split_list)
  with Cons.prems(1) have m: "mset ws = mset (us @ us')" by simp
  then have "fst w \<notin> fst ` set us"
    using Cons.prems(2) mset_eq_setD [OF m] by auto
  then have "write_all st vs = write_all (put (fst w) (snd w) st) (us @ us')"
    by (simp add: vs write_all_move)
  with Cons.IH [OF m, of "put (fst w) (snd w) st"] Cons.prems(2) show ?case by simp
qed simp

end

section \<open>What a step reads\<close>

definition bound_heads :: "(string \<Rightarrow> string option) \<Rightarrow> PlanStepFilter \<Rightarrow> string list" where
  "bound_heads params f =
     (if plan_refs (psf_value f) = [] then []
      else case subst_params params (plan_refs (psf_value f)) (psf_value f) of
        Inl e \<Rightarrow> []
      | Inr v \<Rightarrow> map (\<lambda>(t, h, c). h) (take 1 (plan_refs v)))"

definition reads :: "plan_env \<Rightarrow> string \<Rightarrow> string set" where
  "reads env sid =
     set (stepDependencies (pe_ord env) (step_of env sid))
     \<union> set (concat (map (bound_heads (pe_params env)) (ps_filters (step_of env sid))))"

lemma SubstituteFilter_cong:
  "(\<forall>h \<in> set (bound_heads params f). res h = res' h) \<Longrightarrow>
     SubstituteFilter f params res = SubstituteFilter f params res'"
  by (auto simp: SubstituteFilter_def bound_heads_def Let_def split: sum.splits list.splits)

lemma bind_filters_cong:
  "(\<forall>f \<in> set fs. \<forall>h \<in> set (bound_heads params f). res h = res' h) \<Longrightarrow>
     bind_filters params res fs bound = bind_filters params res' fs bound"
proof (induction params res fs bound rule: bind_filters.induct)
  case (2 params res f fs bound)
  have "SubstituteFilter f params res = SubstituteFilter f params res'"
    using 2(2) by (intro SubstituteFilter_cong) simp
  with 2 show ?case by (auto split: sum.splits)
qed simp

lemma list_ex_cong_set: "(\<forall>x \<in> set xs. P x = Q x) \<Longrightarrow> list_ex P xs = list_ex Q xs"
  by (auto simp: list_ex_iff)

lemma runStep_cong:
  assumes "\<forall>h \<in> reads env sid. res h = res' h \<and> em h = em' h"
  shows "runStep env k sid res em = runStep env k sid res' em'"
proof -
  have "list_ex em (stepDependencies (pe_ord env) (step_of env sid))
      = list_ex em' (stepDependencies (pe_ord env) (step_of env sid))"
    using assms by (intro list_ex_cong_set) (auto simp: reads_def)
  moreover have "bind_filters (pe_params env) res (ps_filters (step_of env sid)) []
      = bind_filters (pe_params env) res' (ps_filters (step_of env sid)) []"
    using assms by (intro bind_filters_cong) (auto simp: reads_def)
  ultimately show ?thesis by (simp add: runStep_def Let_def)
qed

abbreviation outcome_at :: "plan_env \<Rightarrow> nat \<Rightarrow> exec_state \<Rightarrow> string \<Rightarrow> StepTrace \<times> step_effect" where
  "outcome_at env k st sid \<equiv> runStep env k sid (es_results st) (es_empty st)"

lemma write_step_other:
  "a \<noteq> b \<Longrightarrow> es_results (write_step b out st) a = es_results st a"
  "a \<noteq> b \<Longrightarrow> es_empty (write_step b out st) a = es_empty st a"
  "a \<noteq> b \<Longrightarrow> es_trace (write_step b out st) a = es_trace st a"
  by (auto simp: write_step_def Let_def split: prod.splits step_effect.splits)

lemma write_step_commute:
  "a \<noteq> b \<Longrightarrow> write_step a x (write_step b y st) = write_step b y (write_step a x st)"
  by (auto simp: write_step_def Let_def fun_upd_twist split: prod.splits step_effect.splits)

interpretation plan: phased_steps "outcome_at env k" write_step "reads env" for env k
proof
  fix a b x y st
  show "a \<noteq> b \<Longrightarrow> write_step a x (write_step b y st) = write_step b y (write_step a x st)"
    by (rule write_step_commute)
  assume "b \<notin> reads env a"
  then show "outcome_at env k (write_step b y st) a = outcome_at env k st a"
    by (intro runStep_cong ballI conjI write_step_other) auto
qed

section \<open>Schedules of a layer\<close>

fun in_order :: "string list \<Rightarrow> event list \<Rightarrow> bool" where
  "in_order begun [] \<longleftrightarrow> True"
| "in_order begun (Begin sid # es) \<longleftrightarrow> in_order (sid # begun) es"
| "in_order begun (Finish sid # es) \<longleftrightarrow> sid \<in> set begun \<and> in_order begun es"

definition valid_schedule :: "string list \<Rightarrow> event list \<Rightarrow> bool" where
  "valid_schedule layer es \<longleftrightarrow>
     mset es = mset (map Begin layer) + mset (map Finish layer) \<and> in_order [] es"

fun finished :: "event list \<Rightarrow> string list" where
  "finished [] = []"
| "finished (Begin sid # es) = finished es"
| "finished (Finish sid # es) = sid # finished es"

lemma finished_filter: "mset (map Finish (finished es)) = filter_mset (\<lambda>e. \<exists>s. e = Finish s) (mset es)"
  by (induction es rule: finished.induct) auto

lemma finished_valid:
  assumes "valid_schedule layer es"
  shows "mset (finished es) = mset layer"
proof -
  have "mset (map Finish (finished es)) = mset (map Finish layer)"
    using assms unfolding finished_filter valid_schedule_def
    by (auto simp: filter_mset_eq_conv image_mset_filter_mset_swap [symmetric])
  then have "image_mset (\<lambda>e. case e of Finish s \<Rightarrow> s | Begin s \<Rightarrow> s) (mset (map Finish (finished es)))
      = image_mset (\<lambda>e. case e of Finish s \<Rightarrow> s | Begin s \<Rightarrow> s) (mset (map Finish layer))" by simp
  then show ?thesis by (simp add: multiset.map_comp comp_def)
qed

text \<open>Every outcome is the one at the start of the layer, whatever was written meanwhile.\<close>

lemma do_events:
  assumes "in_order begun es" and "\<forall>e \<in> set es. case e of Begin s \<Rightarrow> s \<in> L | Finish s \<Rightarrow> s \<in> L"
    and "\<forall>a \<in> L. reads env a \<inter> L = {}"
    and "ly_state r = plan.write_all st0 ws" and "fst ` set ws \<subseteq> L"
    and "\<forall>s \<in> set begun. ly_pending r s = Some (outcome_at env k st0 s)"
  shows "let r' = foldl (do_event env k) r es; outs = map (\<lambda>s. (s, outcome_at env k st0 s)) (finished es)
    in ly_state r' = plan.write_all st0 (ws @ outs)
     \<and> ly_error r' = first_some (ly_error r # map (step_error \<circ> snd) outs)"
  using assms
proof (induction begun es arbitrary: r ws rule: in_order.induct)
  case (1 begun)
  then show ?case by (cases "ly_error r") simp_all
next
  case (2 begun sid es)
  from 2(3,4) have "reads env sid \<inter> L = {}" by auto
  with 2(6) have "fst ` set ws \<inter> reads env sid = {}" by auto
  then have out: "outcome_at env k (ly_state r) sid = outcome_at env k st0 sid"
    unfolding 2(5) by (rule plan.outcome_stable)
  let ?r = "do_event env k r (Begin sid)"
  have "ly_state ?r = plan.write_all st0 ws" "ly_error ?r = ly_error r"
    "\<forall>s \<in> set (sid # begun). ly_pending ?r s = Some (outcome_at env k st0 s)"
    using 2(5,7) out by auto
  from 2(1) [OF _ _ 2(4) this(1) 2(6) this(3)] 2(2,3) this(2) show ?case by simp
next
  case (3 begun sid es)
  let ?out = "outcome_at env k st0 sid"
  let ?r = "do_event env k r (Finish sid)"
  have p: "ly_pending r sid = Some ?out" using 3(2,7) by simp
  then have st: "ly_state ?r = plan.write_all st0 (ws @ [(sid, ?out)])"
    and pend: "\<forall>s \<in> set begun. ly_pending ?r s = Some (outcome_at env k st0 s)"
    and err: "ly_error ?r = first_some [ly_error r, step_error ?out]"
    using 3(5,7) by (auto split: option.splits) (cases "step_error ?out"; simp)
  have ws: "fst ` set (ws @ [(sid, ?out)]) \<subseteq> L" using 3(3,6) by auto
  have ins: "in_order begun es"
    "\<forall>e \<in> set es. case e of Begin s \<Rightarrow> s \<in> L | Finish s \<Rightarrow> s \<in> L" using 3(2,3) by auto
  from 3(1) [OF ins 3(4) st ws pend] err show ?case
    by (cases "ly_error r"; cases "step_error ?out") (simp_all add: Let_def)
qed

definition fair :: "(nat \<Rightarrow> string list \<Rightarrow> event list) \<Rightarrow> bool" where
  "fair sched \<longleftrightarrow> (\<forall>k layer. valid_schedule layer (sched k layer))"

definition outcomes :: "plan_env \<Rightarrow> nat \<Rightarrow> exec_state \<Rightarrow> string list \<Rightarrow> (string \<times> StepTrace \<times> step_effect) list" where
  "outcomes env k st layer = map (\<lambda>s. (s, outcome_at env k st s)) layer"

lemma run_layer_result:
  assumes layer: "distinct layer" "\<forall>a \<in> set layer. reads env a \<inter> set layer = {}" and "fair sched"
  shows "fst (run_layer env sched k layer st) = plan.write_all st (outcomes env k st layer)"
    and "snd (run_layer env sched k layer st) = None
      \<longleftrightarrow> (\<forall>s \<in> set layer. step_error (outcome_at env k st s) = None)"
    and "snd (run_layer env sched k layer st) = Some e
      \<Longrightarrow> \<exists>s \<in> set layer. step_error (outcome_at env k st s) = Some e"
proof -
  let ?es = "if length layer = 1 then [Begin (hd layer), Finish (hd layer)] else sched k layer"
  let ?init = "\<lparr>ly_state = st, ly_pending = Map.empty, ly_error = None\<rparr>"
  let ?r = "foldl (do_event env k) ?init ?es"
  have valid: "valid_schedule layer ?es"
  proof (cases "length layer = 1")
    case True
    then obtain h where "layer = [h]" by (auto simp: length_Suc_conv)
    then show ?thesis by (simp add: valid_schedule_def)
  next
    case False
    with assms(3) show ?thesis by (simp add: fair_def)
  qed
  have inside: "\<forall>e \<in> set ?es. case e of Begin s \<Rightarrow> s \<in> set layer | Finish s \<Rightarrow> s \<in> set layer"
  proof
    fix e assume "e \<in> set ?es"
    then have "e \<in># mset ?es" by (simp only: set_mset_mset)
    then have "e \<in># mset (map Begin layer) + mset (map Finish layer)"
      using valid unfolding valid_schedule_def by (simp only: )
    then show "case e of Begin s \<Rightarrow> s \<in> set layer | Finish s \<Rightarrow> s \<in> set layer" by auto
  qed
  have fin: "mset (finished ?es) = mset layer" by (rule finished_valid [OF valid])
  let ?outs = "outcomes env k st (finished ?es)"
  have begins: "in_order [] ?es" using valid unfolding valid_schedule_def by blast
  have start: "ly_state ?init = plan.write_all st []" "fst ` set [] \<subseteq> set layer"
    "\<forall>s \<in> set []. ly_pending ?init s = Some (outcome_at env k st s)" by simp_all
  have r: "ly_state ?r = plan.write_all st ?outs"
    "ly_error ?r = first_some (ly_error ?init # map (step_error \<circ> snd) ?outs)"
    using do_events [OF begins inside layer(2) start]
    unfolding outcomes_def Let_def append_Nil by blast+
  have perm: "mset ?outs = mset (outcomes env k st layer)"
    unfolding outcomes_def mset_map fin ..
  have "map fst ?outs = finished ?es" by (simp add: outcomes_def comp_def)
  moreover have "distinct (finished ?es)" using layer(1) mset_eq_imp_distinct_iff [OF fin] by simp
  ultimately have "distinct (map fst ?outs)" by simp
  from plan.write_all_permute [OF perm this] r(1)
  show "fst (run_layer env sched k layer st) = plan.write_all st (outcomes env k st layer)"
    by (simp only: run_layer_def Let_def fst_conv)
  have err: "snd (run_layer env sched k layer st) = first_some (map (step_error \<circ> snd) ?outs)"
    using r(2) by (simp only: run_layer_def Let_def snd_conv) simp
  have sets: "set (map (step_error \<circ> snd) ?outs) = (\<lambda>s. step_error (outcome_at env k st s)) ` set layer"
    using mset_eq_setD [OF fin] by (simp add: outcomes_def image_comp comp_def)
  show "snd (run_layer env sched k layer st) = None
      \<longleftrightarrow> (\<forall>s \<in> set layer. step_error (outcome_at env k st s) = None)"
    unfolding err first_some_None sets by auto
  assume "snd (run_layer env sched k layer st) = Some e"
  then have "Some e \<in> set (map (step_error \<circ> snd) ?outs)"
    unfolding err by (rule first_some_Some)
  then show "\<exists>s \<in> set layer. step_error (outcome_at env k st s) = Some e"
    unfolding sets by (elim imageE) (rule bexI, erule sym)
qed

definition independent :: "plan_env \<Rightarrow> string list \<Rightarrow> bool" where
  "independent env layer \<longleftrightarrow> distinct layer \<and> (\<forall>a \<in> set layer. reads env a \<inter> set layer = {})"

lemma run_layers_schedule:
  assumes "fair sched" "fair sched'" and "list_all (independent env) layers"
  shows "fst (run_layers env sched k layers st) = fst (run_layers env sched' k layers st)"
    and "snd (run_layers env sched k layers st) = None
      \<longleftrightarrow> snd (run_layers env sched' k layers st) = None"
proof -
  have "fst (run_layers env sched k layers st) = fst (run_layers env sched' k layers st)
    \<and> (snd (run_layers env sched k layers st) = None
      \<longleftrightarrow> snd (run_layers env sched' k layers st) = None)"
    using assms(3)
  proof (induction layers arbitrary: k st)
    case (Cons layer layers)
    then have ind: "distinct layer" "\<forall>a \<in> set layer. reads env a \<inter> set layer = {}"
      by (simp_all add: independent_def)
    note a = run_layer_result [OF ind assms(1)] and b = run_layer_result [OF ind assms(2)]
    obtain s e where l: "run_layer env sched k layer st = (s, e)" by fastforce
    obtain s' e' where l': "run_layer env sched' k layer st = (s', e')" by fastforce
    have "s = s'" using a(1) [of k st] b(1) [of k st] l l' by simp
    moreover have "e = None \<longleftrightarrow> e' = None" using a(2) [of k st] b(2) [of k st] l l' by simp
    ultimately show ?case using Cons l l' by (cases e; cases e') simp_all
  qed simp
  then show "fst (run_layers env sched k layers st) = fst (run_layers env sched' k layers st)"
    "snd (run_layers env sched k layers st) = None \<longleftrightarrow> snd (run_layers env sched' k layers st) = None"
    by blast+
qed

section \<open>Plans whose parameters introduce no references\<close>

definition steady :: "plan_env \<Rightarrow> bool" where
  "steady env \<longleftrightarrow>
     list_all (\<lambda>s. list_all (\<lambda>f. list_all (\<lambda>h. h \<in> set (stepDependencies (pe_ord env) s))
       (bound_heads (pe_params env) f)) (ps_filters s)) (pl_steps (pe_plan env))"

lemma steady_reads:
  assumes "steady env" "well_formed (pe_ord env) (pe_plan env)" "sid \<in> ids (pe_plan env)"
  shows "reads env sid = set (deps_of (pe_ord env) (pe_plan env) sid)"
proof -
  from assms(3) obtain s where s: "s \<in> set (pl_steps (pe_plan env))" "sid = ps_id s" by auto
  with assms(2) have by_id: "stepByID (pe_plan env) sid = Some s"
    by (simp add: stepByID_step well_formed_def)
  have "set (concat (map (bound_heads (pe_params env)) (ps_filters s))) \<subseteq> set (stepDependencies (pe_ord env) s)"
    using assms(1) s(1) by (auto simp: steady_def list_all_iff)
  with by_id show ?thesis by (auto simp: reads_def step_of_def deps_of_def)
qed

lemma layered_disjoint:
  assumes "layered deps levels" "distinct (concat levels)" "levels = ls @ layer # ms" "a \<in> set layer"
  shows "set (deps a) \<subseteq> set (concat ls)" "set (concat ls) \<inter> set layer = {}"
proof -
  have "levels ! length ls = layer" "take (length ls) levels = ls" "length ls < length levels"
    using assms(3) by (auto simp: nth_append)
  with assms(1,4) show "set (deps a) \<subseteq> set (concat ls)" unfolding layered_def by metis
  show "set (concat ls) \<inter> set layer = {}" using assms(2,3) by auto
qed

lemma levels_independent:
  assumes "steady env" "well_formed (pe_ord env) (pe_plan env)"
    and "levels_ok (pe_ord env) (pe_plan env) levels" "set (concat levels) = ids (pe_plan env)"
  shows "list_all (independent env) levels"
  unfolding list_all_iff
proof
  fix layer assume "layer \<in> set levels"
  then obtain ls ms where split: "levels = ls @ layer # ms" by (meson split_list)
  have ok: "layered (deps_of (pe_ord env) (pe_plan env)) levels" "distinct (concat levels)"
    using assms(3) by (simp_all add: levels_ok_def)
  have "reads env a \<inter> set layer = {}" if a: "a \<in> set layer" for a
  proof -
    have "a \<in> ids (pe_plan env)" using a split assms(4) by auto
    from steady_reads [OF assms(1,2) this] layered_disjoint [OF ok split a] show ?thesis by blast
  qed
  moreover have "distinct layer" using ok(2) split by auto
  ultimately show "independent env layer" by (simp add: independent_def)
qed

lemma parsed_env:
  assumes "arranging (pe_ord env)" "ParsePlan (pe_ord env) unmarshal raw = Inr (pe_plan env)" "steady env"
  obtains levels where "TopoLevels (pe_ord env) (pe_plan env) = Inr levels"
    "well_formed (pe_ord env) (pe_plan env)" "levels_ok (pe_ord env) (pe_plan env) levels"
    "set (concat levels) = ids (pe_plan env)" "list_all (independent env) levels"
  using parsed_levels [OF assms(1,2)] levels_independent [OF assms(3)] by blast


text \<open>Two schedules: all steps of a layer begin before one finishes, or they run one after the other.\<close>

definition batch :: "nat \<Rightarrow> string list \<Rightarrow> event list" where
  "batch k layer = map Begin layer @ map Finish layer"

definition one_by_one :: "nat \<Rightarrow> string list \<Rightarrow> event list" where
  "one_by_one k layer = concat (map (\<lambda>s. [Begin s, Finish s]) (rev layer))"

lemma fair_batch: "fair batch"
proof -
  have "set layer \<subseteq> set begun \<Longrightarrow> in_order begun (map Finish layer)" for begun layer
    by (induction layer) auto
  moreover have "in_order begun (map Begin layer @ es) = in_order (rev layer @ begun) es" for begun layer es
    by (induction layer arbitrary: begun) auto
  ultimately show ?thesis by (simp add: fair_def valid_schedule_def batch_def)
qed

lemma fair_one_by_one: "fair one_by_one"
proof -
  have "in_order begun (concat (map (\<lambda>s. [Begin s, Finish s]) layer))" for begun layer
    by (induction layer arbitrary: begun) auto
  moreover have "mset (concat (map (\<lambda>s. [Begin s, Finish s]) layer))
      = mset (map Begin layer) + mset (map Finish layer)" for layer
    by (induction layer) auto
  ultimately show ?thesis by (simp add: fair_def valid_schedule_def one_by_one_def)
qed

definition ok_result :: "string \<Rightarrow> LakehouseResult" where
  "ok_result text = zero_result\<lparr>lr_executionOK := True, lr_resultJSON := text\<rparr>"

text \<open>Two stores, whose orders are counted.\<close>

definition chain_env :: plan_env where
  "chain_env =
     \<lparr>pe_run = (\<lambda>sid spec. ok_result sid),
      pe_unmarshal = (\<lambda>text. Some (Some [[(''id'', JStr ''7'')], [(''id'', JStr ''8'')]])),
      pe_plan = chain_plan, pe_params = Map.empty, pe_projectID = [], pe_ord = (\<lambda>xs. xs)\<rparr>"

lemma chain_env_ok:
  "arranging (pe_ord chain_env)"
  "ParsePlan (pe_ord chain_env) (\<lambda>raw. Some chain_plan) [] = Inr (pe_plan chain_env)"
  "steady chain_env"
proof -
  show "arranging (pe_ord chain_env)" by (simp add: arranging_def chain_env_def)
qed code_simp+


section \<open>The state after some layers\<close>

definition step_done :: "plan_env \<Rightarrow> nat \<Rightarrow> exec_state \<Rightarrow> string \<Rightarrow> bool" where
  "step_done env k st sid \<longleftrightarrow>
     es_trace st sid = Some (fst (outcome_at env k st sid))
   \<and> (case snd (outcome_at env k st sid) of
        NoRows \<Rightarrow> es_empty st sid \<and> es_results st sid = Some None
      | Produced r \<Rightarrow> \<not> es_empty st sid \<and> es_results st sid = Some r
      | Broken e \<Rightarrow> False)"

definition progress :: "plan_env \<Rightarrow> string list list \<Rightarrow> exec_state \<Rightarrow> bool" where
  "progress env past st \<longleftrightarrow>
     (\<forall>i < length past. \<forall>sid \<in> set (past ! i). step_done env i st sid)
   \<and> (\<forall>sid. sid \<notin> set (concat past) \<longrightarrow> \<not> es_empty st sid)"

lemma write_all_other:
  "a \<notin> fst ` set ws \<Longrightarrow> es_results (plan.write_all st ws) a = es_results st a
     \<and> es_empty (plan.write_all st ws) a = es_empty st a \<and> es_trace (plan.write_all st ws) a = es_trace st a"
  by (induction ws arbitrary: st) (auto simp: write_step_other)

lemma write_all_own:
  "distinct (map fst ws) \<Longrightarrow> (a, out) \<in> set ws \<Longrightarrow>
     es_results (plan.write_all st ws) a = es_results (write_step a out st) a
     \<and> es_empty (plan.write_all st ws) a = es_empty (write_step a out st) a
     \<and> es_trace (plan.write_all st ws) a = es_trace (write_step a out st) a"
proof (induction ws arbitrary: st)
  case (Cons w ws)
  show ?case
  proof (cases "w = (a, out)")
    case True
    with Cons.prems(1) show ?thesis by (simp add: write_all_other)
  next
    case False
    with Cons.prems(2) have mem: "(a, out) \<in> set ws" by simp
    with Cons.prems(1) have "fst w \<noteq> a" by (auto simp: image_iff)
    then have "write_step a out (write_step (fst w) (snd w) st)
        = write_step (fst w) (snd w) (write_step a out st)" by (simp add: write_step_commute)
    with Cons.IH [OF _ mem, of "write_step (fst w) (snd w) st"] Cons.prems(1) \<open>fst w \<noteq> a\<close>
    show ?thesis by (simp add: write_step_other)
  qed
qed simp

lemma progress_layer:
  assumes prog: "progress env past st" and ind: "independent env layer"
    and before: "\<forall>a \<in> set layer. reads env a \<subseteq> set (concat past)"
    and earlier: "\<forall>a \<in> set (concat past). reads env a \<subseteq> set (concat past)"
    and fresh: "set (concat past) \<inter> set layer = {}"
    and fine: "\<forall>s \<in> set layer. step_error (outcome_at env (length past) st s) = None"
  shows "progress env (past @ [layer]) (plan.write_all st (outcomes env (length past) st layer))"
proof -
  let ?k = "length past"
  let ?ws = "outcomes env ?k st layer"
  let ?st = "plan.write_all st ?ws"
  have fst_ws: "fst ` set ?ws = set layer" by (auto simp: outcomes_def image_comp comp_def)
  have dist: "distinct (map fst ?ws)" using ind by (simp add: outcomes_def comp_def independent_def)
  have stable: "outcome_at env i ?st a = outcome_at env i st a" if "reads env a \<subseteq> set (concat past)" for a i
    using that fresh fst_ws by (intro plan.outcome_stable) blast
  have old: "step_done env i ?st sid" if "i < length past" "sid \<in> set (past ! i)" for i sid
  proof -
    have mem: "sid \<in> set (concat past)" using that nth_mem by fastforce
    with fresh fst_ws have "sid \<notin> fst ` set ?ws" by blast
    note other = write_all_other [OF this, of st]
    have same: "outcome_at env i ?st sid = outcome_at env i st sid"
      using earlier mem by (intro stable) blast
    have "step_done env i st sid" using prog that unfolding progress_def by blast
    then show ?thesis unfolding step_done_def same
      by (cases "snd (outcome_at env i st sid)") (simp_all add: other)
  qed
  have new: "step_done env ?k ?st sid" if "sid \<in> set layer" for sid
  proof -
    let ?out = "outcome_at env ?k st sid"
    have "(sid, ?out) \<in> set ?ws" using that by (simp add: outcomes_def)
    note own = write_all_own [OF dist this, of st]
    have fresh_sid: "\<not> es_empty st sid" using prog that fresh unfolding progress_def by blast
    have same: "outcome_at env ?k ?st sid = ?out" using before that by (intro stable) blast
    obtain t eff where out: "?out = (t, eff)" by fastforce
    with fine that have "step_error (t, eff) = None" by metis
    with own fresh_sid show ?thesis
      unfolding step_done_def same out
      by (cases eff) (simp_all add: write_step_def step_error_def Let_def)
  qed
  have "\<not> es_empty ?st sid" if "sid \<notin> set (concat (past @ [layer]))" for sid
    using write_all_other [of sid ?ws st] fst_ws that prog by (auto simp: progress_def)
  with old new show ?thesis
    by (auto simp: progress_def nth_append less_Suc_eq)
qed

text \<open>After every layer without an error the invariant holds of the layers so far; the first error
  is one of a step in the layer after them.\<close>

definition readable :: "plan_env \<Rightarrow> string list list \<Rightarrow> bool" where
  "readable env levels \<longleftrightarrow>
     list_all (independent env) levels \<and> distinct (concat levels)
   \<and> (\<forall>ls layer ms. levels = ls @ layer # ms \<longrightarrow> (\<forall>a \<in> set layer. reads env a \<subseteq> set (concat ls)))"

definition failed_in :: "plan_env \<Rightarrow> string list list \<Rightarrow> exec_error \<Rightarrow> bool" where
  "failed_in env levels e \<longleftrightarrow>
     (\<exists>ls layer ms st. levels = ls @ layer # ms \<and> progress env ls st
        \<and> (\<exists>s \<in> set layer. step_error (outcome_at env (length ls) st s) = Some e))"

lemma run_layers_progress:
  assumes "fair sched" "readable env (past @ layers)" "progress env past st"
  shows "case run_layers env sched (length past) layers st of
      (st', None) \<Rightarrow> progress env (past @ layers) st'
    | (st', Some e) \<Rightarrow> failed_in env (past @ layers) e"
  using assms(2-)
proof (induction layers arbitrary: past st)
  case (Cons layer layers)
  from Cons.prems(1) have ind: "independent env layer"
    and before: "\<forall>a \<in> set layer. reads env a \<subseteq> set (concat past)"
    and fresh: "set (concat past) \<inter> set layer = {}"
    by (auto simp: readable_def)
  have earlier: "reads env a \<subseteq> set (concat past)" if "a \<in> set (concat past)" for a
  proof -
    from that obtain l where "l \<in> set past" "a \<in> set l" by auto
    then obtain ls ms where "past @ layer # layers = ls @ l # (ms @ layer # layers)" "set (concat ls) \<subseteq> set (concat past)"
      by (metis (no_types) append.assoc append_Cons concat_append set_append sup_ge1 split_list)
    with Cons.prems(1) \<open>a \<in> set l\<close> have "reads env a \<subseteq> set (concat ls)"
      unfolding readable_def by blast
    with \<open>set (concat ls) \<subseteq> set (concat past)\<close> show ?thesis by blast
  qed
  from ind have "distinct layer" "\<forall>a \<in> set layer. reads env a \<inter> set layer = {}"
    by (simp_all add: independent_def)
  note res = run_layer_result [OF this assms(1), of "length past" st]
  obtain st' e where l: "run_layer env sched (length past) layer st = (st', e)" by fastforce
  show ?case
  proof (cases e)
    case (Some f)
    with res(3) l have "\<exists>s \<in> set layer. step_error (outcome_at env (length past) st s) = Some f" by simp
    with Cons.prems(2) have "failed_in env (past @ layer # layers) f"
      unfolding failed_in_def by blast
    with l Some show ?thesis by simp
  next
    case None
    with res(2) l have "\<forall>s \<in> set layer. step_error (outcome_at env (length past) st s) = None" by simp
    moreover have "\<forall>a \<in> set (concat past). reads env a \<subseteq> set (concat past)"
      using earlier by blast
    ultimately have "progress env (past @ [layer]) (plan.write_all st (outcomes env (length past) st layer))"
      using progress_layer [OF Cons.prems(2) ind before _ fresh] by blast
    with res(1) l have "progress env (past @ [layer]) st'" by simp
    from Cons.IH [OF _ this] Cons.prems(1) l None show ?thesis by simp
  qed
qed simp

lemma parsed_readable:
  assumes "arranging (pe_ord env)" "ParsePlan (pe_ord env) unmarshal raw = Inr (pe_plan env)" "steady env"
  obtains levels where "TopoLevels (pe_ord env) (pe_plan env) = Inr levels" "readable env levels"
    "set (concat levels) = ids (pe_plan env)" "well_formed (pe_ord env) (pe_plan env)"
proof -
  from parsed_env [OF assms] obtain levels where l:
    "TopoLevels (pe_ord env) (pe_plan env) = Inr levels" "well_formed (pe_ord env) (pe_plan env)"
    "levels_ok (pe_ord env) (pe_plan env) levels" "set (concat levels) = ids (pe_plan env)"
    "list_all (independent env) levels" by metis
  have ok: "layered (deps_of (pe_ord env) (pe_plan env)) levels" "distinct (concat levels)"
    using l(3) by (simp_all add: levels_ok_def)
  have "reads env a \<subseteq> set (concat ls)" if "levels = ls @ layer # ms" "a \<in> set layer" for ls layer ms a
  proof -
    have "a \<in> ids (pe_plan env)" using that l(4) by auto
    from steady_reads [OF assms(3) l(2) this] layered_disjoint(1) [OF ok that] show ?thesis by simp
  qed
  then have "readable env levels" using l(5) ok(2) by (simp add: readable_def)
  with l that show ?thesis by blast
qed

lemma start_progress: "progress env [] start_state"
  by (simp add: progress_def start_state_def)

section \<open>Results are there when they are read\<close>

lemma SubstituteFilter_missing:
  "SubstituteFilter f params results = Inl (NoResultsYet d) \<Longrightarrow>
     d \<in> set (bound_heads params f) \<and> results d = None"
proof -
  have no: "subst_params params refs v \<noteq> Inl (NoResultsYet d)" for refs v
    by (induction params refs v rule: subst_params.induct) (auto split: option.splits)
  assume "SubstituteFilter f params results = Inl (NoResultsYet d)"
  with no show ?thesis
    by (auto simp: SubstituteFilter_def bound_heads_def Let_def
        split: if_splits sum.splits list.splits option.splits)
qed

lemma bind_filters_missing:
  "bind_filters params results fs bound = Inl (NoResultsYet d) \<Longrightarrow>
     \<exists>f \<in> set fs. d \<in> set (bound_heads params f) \<and> results d = None"
proof (induction params results fs bound rule: bind_filters.induct)
  case (2 params results f fs bound)
  show ?case
  proof (cases "SubstituteFilter f params results")
    case (Inl e)
    with 2(2) SubstituteFilter_missing [of f params results d] show ?thesis by simp
  next
    case (Inr r)
    obtain sub emp where r: "r = (sub, emp)" by fastforce
    with Inr 2(2) have "\<not> emp" by auto
    with 2(1) [OF Inr r [symmetric]] 2(2) Inr r show ?thesis by auto
  qed
qed simp

lemma missing_result_read:
  assumes "step_error (outcome_at env k st s) = Some (StepError t (NoResultsYet d))"
  shows "d \<in> reads env s \<and> es_results st d = None"
proof -
  from assms have "bind_filters (pe_params env) (es_results st) (ps_filters (step_of env s)) []
      = Inl (NoResultsYet d)"
    by (auto simp: runStep_def step_error_def Let_def split: if_splits sum.splits option.splits)
  from bind_filters_missing [OF this] show ?thesis by (auto simp: reads_def)
qed

lemma concat_index: "d \<in> set (concat xss) \<Longrightarrow> \<exists>i < length xss. d \<in> set (xss ! i)"
proof -
  assume "d \<in> set (concat xss)"
  then obtain xs where "xs \<in> set xss" "d \<in> set xs" by auto
  then show ?thesis by (auto simp: in_set_conv_nth [of xs])
qed

lemma progress_results:
  assumes "progress env past st" "d \<in> set (concat past)"
  shows "es_results st d \<noteq> None"
proof -
  from assms(2) obtain i where "i < length past" "d \<in> set (past ! i)"
    using concat_index [OF assms(2)] by (elim exE conjE)
  with assms(1) have "step_done env i st d" by (simp add: progress_def)
  then show ?thesis by (auto simp: step_done_def split: step_effect.splits)
qed

text \<open>A validated plan whose parameter values introduce no references never fails with a missing
  upstream result, whatever the schedule and whatever the query engine answers: when a step reads
  the rows of another one, they are there.\<close>

theorem results_are_there_when_read:
  assumes "arranging (pe_ord env)" "ParsePlan (pe_ord env) unmarshal raw = Inr (pe_plan env)"
    and "steady env" "fair sched"
  shows "snd (Execute (Some env) sched marshal) \<noteq> Some (StepError s (NoResultsYet d))"
proof -
  from parsed_readable [OF assms(1-3)] obtain levels where levels:
    "TopoLevels (pe_ord env) (pe_plan env) = Inr levels" "readable env levels" by metis
  obtain st e where run: "run_layers env sched 0 levels start_state = (st, e)" by fastforce
  have "e \<noteq> Some (StepError s (NoResultsYet d))"
  proof
    assume e: "e = Some (StepError s (NoResultsYet d))"
    from run_layers_progress [OF assms(4), of env "[]" levels start_state] levels(2) start_progress run e
    have "failed_in env levels (StepError s (NoResultsYet d))" by simp
    then obtain ls layer ms st t where "levels = ls @ layer # ms" "progress env ls st" "t \<in> set layer"
      "step_error (outcome_at env (length ls) st t) = Some (StepError s (NoResultsYet d))"
      unfolding failed_in_def by blast
    with missing_result_read [OF this(4)] levels(2) progress_results [of env ls st d]
    show False unfolding readable_def by blast
  qed
  with run levels(1) show ?thesis
    by (cases e) (auto simp: Execute_def failureResultWithTrace_def plan_output_def Let_def
        split: option.splits)
qed

lemma results_are_there_when_read_witness:
  "snd (Execute (Some chain_env) batch (\<lambda>rows. Some [])) \<noteq> Some (StepError ''b'' (NoResultsYet ''a''))"
  by (rule results_are_there_when_read [OF chain_env_ok fair_batch])

section \<open>Empty steps\<close>

abbreviation skipped :: "StepTrace \<Rightarrow> bool" where
  "skipped t \<equiv> st_status t = StepEmpty \<or> st_status t = StepEmptyUpstream"

lemma runStep_trace:
  assumes "runStep env k sid res em = (t, eff)"
  shows "st_id t = sid \<and> st_dependsOn t = stepDependencies (pe_ord env) (step_of env sid)
    \<and> st_isOutput t = (sid = pl_output (pe_plan env))
    \<and> (st_status t = StepEmptyUpstream \<longleftrightarrow> list_ex em (stepDependencies (pe_ord env) (step_of env sid)))
    \<and> (eff = NoRows \<longleftrightarrow> skipped t) \<and> (\<forall>r. eff = Produced r \<longrightarrow> st_status t = StepSuccess)"
  using assms
  by (auto simp: runStep_def base_trace_def Let_def split: if_splits sum.splits option.splits)

lemma layer_traces_done:
  "\<forall>sid \<in> set (concat levels). es_trace st sid \<noteq> None \<Longrightarrow>
     layer_traces env st k levels = map (\<lambda>sid. the (es_trace st sid)) (concat levels)"
proof (induction env st k levels rule: layer_traces.induct)
  case (2 env st k layer layers)
  have "map (\<lambda>sid. case es_trace st sid of None \<Rightarrow> base_trace env sid k | Some t \<Rightarrow> t) layer
      = map (\<lambda>sid. the (es_trace st sid)) layer"
  proof (rule map_cong [OF refl])
    fix sid assume "sid \<in> set layer"
    with 2(2) have "es_trace st sid \<noteq> None" by simp
    then show "(case es_trace st sid of None \<Rightarrow> base_trace env sid k | Some t \<Rightarrow> t) = the (es_trace st sid)"
      by (cases "es_trace st sid") simp_all
  qed
  with 2 show ?case by simp
qed simp

lemma progress_traces:
  assumes prog: "progress env levels st" and known: "sid \<in> set (concat levels)"
  defines "t \<equiv> the (es_trace st sid)"
  shows "es_trace st sid \<noteq> None \<and> st_id t = sid
    \<and> st_dependsOn t = stepDependencies (pe_ord env) (step_of env sid)
    \<and> st_isOutput t = (sid = pl_output (pe_plan env))
    \<and> (st_status t = StepEmptyUpstream \<longleftrightarrow>
         list_ex (es_empty st) (stepDependencies (pe_ord env) (step_of env sid)))
    \<and> (es_empty st sid \<longleftrightarrow> skipped t) \<and> (\<not> skipped t \<longrightarrow> st_status t = StepSuccess)"
proof -
  from known obtain i where "i < length levels" "sid \<in> set (levels ! i)"
    using concat_index [OF known] by (elim exE conjE)
  with prog have dn: "step_done env i st sid" by (simp add: progress_def)
  obtain tr eff where out: "outcome_at env i st sid = (tr, eff)" by fastforce
  with dn have "t = tr" "es_trace st sid \<noteq> None" by (simp_all add: step_done_def t_def)
  from runStep_trace [OF out] dn out show ?thesis
    unfolding \<open>t = tr\<close> by (cases eff) (auto simp: step_done_def)
qed

lemma bex_eq_subset:
  "D \<subseteq> C \<Longrightarrow> (\<And>x. x \<in> C \<Longrightarrow> f x = x) \<Longrightarrow> (\<And>x. x \<in> C \<Longrightarrow> P x \<longleftrightarrow> Q x) \<Longrightarrow>
     (\<exists>x \<in> C. f x \<in> D \<and> P x) \<longleftrightarrow> (\<exists>d \<in> D. Q d)"
  by (metis subsetD)

text \<open>Emptiness is passed on and nothing else: in a successful run of a validated plan every step
  appears once in the trace, either with a successful query or skipped; a step is skipped for its
  upstream exactly when a step it depends on was skipped, and a skipped output step makes the result
  the empty list.\<close>

theorem empty_steps_propagate:
  assumes "arranging (pe_ord env)" "ParsePlan (pe_ord env) unmarshal raw = Inr (pe_plan env)"
    and "steady env" "fair sched" "Execute (Some env) sched marshal = (res, None)"
  shows "\<exists>trace. lr_planTrace res = Some trace
    \<and> mset (map st_id (pt_steps trace)) = mset (map ps_id (pl_steps (pe_plan env)))
    \<and> (\<forall>t \<in> set (pt_steps trace).
         (skipped t \<or> st_status t = StepSuccess)
       \<and> (st_status t = StepEmptyUpstream \<longleftrightarrow>
            (\<exists>u \<in> set (pt_steps trace). st_id u \<in> set (st_dependsOn t) \<and> skipped u))
       \<and> (st_isOutput t \<and> skipped t \<longrightarrow> lr_resultJSON res = ''[]''))"
proof -
  from parsed_readable [OF assms(1-3)] obtain levels where levels:
    "TopoLevels (pe_ord env) (pe_plan env) = Inr levels" "readable env levels"
    "set (concat levels) = ids (pe_plan env)" "well_formed (pe_ord env) (pe_plan env)" by metis
  obtain st e where run: "run_layers env sched 0 levels start_state = (st, e)" by fastforce
  have e: "e = None"
    using assms(5) run levels(1)
    by (cases e) (auto simp: Execute_def failureResultWithTrace_def split: option.splits)
  let ?trace = "buildTrace env st levels"
  let ?tr = "\<lambda>sid. the (es_trace st sid)"
  have prog: "progress env levels st"
    using run_layers_progress [OF assms(4), of env "[]" levels start_state] levels(2) start_progress run e
    by simp
  note tr = progress_traces [OF prog]
  have steps: "pt_steps ?trace = map ?tr (concat levels)"
    using tr by (simp add: buildTrace_def layer_traces_done)
  have out: "plan_output env marshal st ?trace = (res, None)"
    using assms(5) run e levels(1) by (simp add: Execute_def)
  then have "lr_planTrace res = Some ?trace"
    by (auto simp: plan_output_def Let_def split: if_splits option.splits)
  moreover have "mset (map st_id (pt_steps ?trace)) = mset (map ps_id (pl_steps (pe_plan env)))"
  proof -
    have "map st_id (pt_steps ?trace) = concat levels"
      unfolding steps map_map by (intro map_idI) (use tr in simp)
    moreover have "distinct (concat levels)" using levels(2) by (simp add: readable_def)
    moreover have "distinct (map ps_id (pl_steps (pe_plan env)))"
      using levels(4) by (simp add: well_formed_def)
    ultimately show ?thesis
      using levels(3) set_eq_iff_mset_eq_distinct [of "concat levels" "map ps_id (pl_steps (pe_plan env))"]
      unfolding set_map by metis
  qed
  moreover have "(skipped t \<or> st_status t = StepSuccess)
       \<and> (st_status t = StepEmptyUpstream \<longleftrightarrow>
            (\<exists>u \<in> set (pt_steps ?trace). st_id u \<in> set (st_dependsOn t) \<and> skipped u))
       \<and> (st_isOutput t \<and> skipped t \<longrightarrow> lr_resultJSON res = ''[]'')"
    if "t \<in> set (pt_steps ?trace)" for t
  proof -
    from that steps obtain sid where sid: "sid \<in> set (concat levels)" "t = ?tr sid" by auto
    note t = tr [OF sid(1), folded sid(2)]
    have "set (st_dependsOn t) \<subseteq> set (concat levels)"
    proof -
      from sid(1) levels(3) obtain s where s: "s \<in> set (pl_steps (pe_plan env))" "sid = ps_id s" by auto
      with levels(4) have "step_of env sid = s" by (simp add: step_of_def stepByID_step well_formed_def)
      with t levels(3,4) s(1) show ?thesis by (simp add: well_formed_def)
    qed
    then have dep: "(\<exists>u \<in> set (pt_steps ?trace). st_id u \<in> set (st_dependsOn t) \<and> skipped u)
        \<longleftrightarrow> (\<exists>d \<in> set (st_dependsOn t). es_empty st d)"
      unfolding steps set_map bex_simps(7)
    proof (rule bex_eq_subset)
      fix x assume "x \<in> set (concat levels)"
      from tr [OF this] show "st_id (?tr x) = x" "skipped (?tr x) \<longleftrightarrow> es_empty st x" by simp_all
    qed
    have "lr_resultJSON res = ''[]''" if "st_isOutput t" "skipped t"
      using that t out by (auto simp: plan_output_def Let_def split: if_splits option.splits)
    moreover have "st_status t = StepEmptyUpstream \<longleftrightarrow> (\<exists>d \<in> set (st_dependsOn t). es_empty st d)"
      using t unfolding list_ex_iff by simp
    ultimately show ?thesis using t dep by blast
  qed
  ultimately show ?thesis by (intro exI [of _ ?trace]) blast
qed

text \<open>No store matches: the orders are not queried and the result is the empty list.\<close>

definition no_store_env :: plan_env where
  "no_store_env = chain_env\<lparr>pe_run := (\<lambda>sid spec. ok_result ''null'')\<rparr>"

lemma empty_steps_propagate_witness:
  "\<exists>trace. lr_planTrace (fst (Execute (Some no_store_env) batch (\<lambda>rows. Some ''x''))) = Some trace
    \<and> mset (map st_id (pt_steps trace)) = {#''a'', ''b''#}
    \<and> lr_resultJSON (fst (Execute (Some no_store_env) batch (\<lambda>rows. Some ''x''))) = ''[]''"
proof -
  have env: "arranging (pe_ord no_store_env)"
    "ParsePlan (pe_ord no_store_env) (\<lambda>raw. Some chain_plan) [] = Inr (pe_plan no_store_env)"
    "steady no_store_env"
    using chain_env_ok by (simp_all add: no_store_env_def steady_def)
  have "snd (Execute (Some no_store_env) batch (\<lambda>rows. Some ''x'')) = None" by code_simp
  then have run: "Execute (Some no_store_env) batch (\<lambda>rows. Some ''x'')
      = (fst (Execute (Some no_store_env) batch (\<lambda>rows. Some ''x'')), None)" by (metis prod.collapse)
  have ids: "mset (map ps_id (pl_steps (pe_plan no_store_env))) = {#''a'', ''b''#}"
    by (simp add: no_store_env_def chain_env_def chain_plan_def)
  have empty: "lr_resultJSON (fst (Execute (Some no_store_env) batch (\<lambda>rows. Some ''x''))) = ''[]''"
    by code_simp
  from empty_steps_propagate [OF env fair_batch run] obtain trace where
    "lr_planTrace (fst (Execute (Some no_store_env) batch (\<lambda>rows. Some ''x''))) = Some trace"
    "mset (map st_id (pt_steps trace)) = mset (map ps_id (pl_steps (pe_plan no_store_env)))"
    by (elim exE conjE)
  then show ?thesis unfolding ids using empty by (intro exI [of _ trace] conjI)
qed

text \<open>
  A parameter value can introduce a reference: the step then reads the rows of a step it does not
  depend on, if that one happens to have run.
\<close>

lemma parameter_introduces_reference:
  "bound_heads [''x'' \<mapsto> ''$a.id''] \<lparr>psf_prop = ''store'', psf_op = ''in'', psf_value = ''$param.x''\<rparr> = [''a'']"
  by code_simp

text \<open>The token of one parameter can be the beginning of the token of another one.\<close>

lemma parameter_prefix_clash:
  "subst_params [''a'' \<mapsto> ''1'', ''ab'' \<mapsto> ''2''] (plan_refs ''$param.a-$param.ab'') ''$param.a-$param.ab''
     = Inr ''1-1b''"
  by code_simp

text \<open>Identifiers of a million and more get an exponent on their way into the list of values.\<close>

lemma large_ids_in_exponent_form:
  assumes "1000000 \<le> r"
  shows "\<exists>s. column_values col [[(col, JNum r)]] [] = [s] \<and> CHR ''e'' \<in> set s"
proof -
  have e: "CHR ''e'' \<in> set (show_g r)" using assms by (intro show_g_exponent) auto
  then have "show_g r \<noteq> []" by auto
  with e show ?thesis by (simp add: stringify_def Let_def)
qed

end
