(* ===== verification/Result.thy ===== *)
theory Result
  imports Main
begin

text \<open>
  Results of fallible operations: \<open>Inl\<close> carries the error, \<open>Inr\<close> the value. \<open>bind\<close> is the early
  return of an error, \<open>fold_steps\<close> a loop that threads a state and stops at the first error. The
  collection \<open>result_iff\<close> turns "this computation returned a value" into the conditions of its steps.
\<close>

named_theorems result_iff "when a computation returns a value"

definition bind :: "'e + 'a \<Rightarrow> ('a \<Rightarrow> 'e + 'b) \<Rightarrow> 'e + 'b" where
  "bind r f = (case r of Inl e \<Rightarrow> Inl e | Inr a \<Rightarrow> f a)"

lemma bind_simps [simp]: "bind (Inl e) f = Inl e" "bind (Inr a) f = f a"
  by (simp_all add: bind_def)

lemma bind_Inr [result_iff]: "bind r f = Inr b \<longleftrightarrow> (\<exists>a. r = Inr a \<and> f a = Inr b)"
  by (cases r) simp_all

lemma bind_Inl: "bind r f = Inl e \<longleftrightarrow> r = Inl e \<or> (\<exists>a. r = Inr a \<and> f a = Inl e)"
  by (cases r) simp_all

lemma bind_cong [fundef_cong]: "r = s \<Longrightarrow> (\<And>a. s = Inr a \<Longrightarrow> f a = g a) \<Longrightarrow> bind r f = bind s g"
  by (cases s) simp_all

text \<open>An error unless the condition holds.\<close>

definition ensure :: "bool \<Rightarrow> 'e \<Rightarrow> 'a \<Rightarrow> 'e + 'a" where
  "ensure c e a = (if c then Inr a else Inl e)"

lemma ensure_Inr [result_iff]: "ensure c e a = Inr b \<longleftrightarrow> c \<and> a = b"
  by (simp add: ensure_def)

text \<open>A loop over a list whose body may fail.\<close>

primrec fold_steps :: "('x \<Rightarrow> 's \<Rightarrow> 'e + 's) \<Rightarrow> 'x list \<Rightarrow> 's \<Rightarrow> 'e + 's" where
  "fold_steps f [] s = Inr s"
| "fold_steps f (x # xs) s = bind (f x s) (fold_steps f xs)"

text \<open>An invariant of the body is one of the loop; a relation of the body that is a preorder holds
  between the states before and after the loop.\<close>

lemma fold_steps_invariant:
  assumes "fold_steps f xs s = Inr t" "I s"
    and "\<And>x s t. x \<in> set xs \<Longrightarrow> I s \<Longrightarrow> f x s = Inr t \<Longrightarrow> I t"
  shows "I t"
  using assms by (induction xs arbitrary: s) (auto simp: result_iff)

lemma fold_steps_related:
  assumes "fold_steps f xs s = Inr t" "\<And>s. R s s" "\<And>a b c. R a b \<Longrightarrow> R b c \<Longrightarrow> R a c"
    and "\<And>x s t. x \<in> set xs \<Longrightarrow> f x s = Inr t \<Longrightarrow> R s t"
  shows "R s t"
proof -
  have "fold_steps f ys u = Inr t \<Longrightarrow> set ys \<subseteq> set xs \<Longrightarrow> R u t" for ys u
  proof (induction ys arbitrary: u)
    case (Cons y ys)
    then obtain v where "f y u = Inr v" "fold_steps f ys v = Inr t" by (auto simp: result_iff)
    with Cons assms(3,4) show ?case by (meson list.set_intros(1) set_subset_Cons subset_code(1))
  qed (use assms(2) in simp)
  with assms(1) show ?thesis by simp
qed

text \<open>Each element was processed: its step ran from some state the loop reached.\<close>

lemma fold_steps_each:
  assumes "fold_steps f xs s = Inr t" "x \<in> set xs"
  shows "\<exists>u v ys zs. xs = ys @ x # zs \<and> fold_steps f ys s = Inr u \<and> f x u = Inr v \<and> fold_steps f zs v = Inr t"
  using assms
proof (induction xs arbitrary: s)
  case (Cons y xs)
  then obtain w where w: "f y s = Inr w" "fold_steps f xs w = Inr t" by (auto simp: result_iff)
  show ?case
  proof (cases "x = y")
    case True
    with w have "y # xs = [] @ x # xs \<and> fold_steps f [] s = Inr s \<and> f x s = Inr w \<and> fold_steps f xs w = Inr t"
      by simp
    then show ?thesis by blast
  next
    case False
    with Cons.prems have "x \<in> set xs" by simp
    then obtain u v ys zs where "xs = ys @ x # zs" "fold_steps f ys w = Inr u" "f x u = Inr v" "fold_steps f zs v = Inr t"
      using Cons.IH [OF w(2)] by blast
    with w have "y # xs = (y # ys) @ x # zs \<and> fold_steps f (y # ys) s = Inr u \<and> f x u = Inr v \<and> fold_steps f zs v = Inr t"
      by simp
    then show ?thesis by blast
  qed
qed simp

end
