(* ===== verification/Column_Align.thy ===== *)
theory Column_Align
  imports Sql_Types
begin

text \<open>
  Alignment of a canonical query with the property names of its object (\<open>lakehouse/column_probe.go\<close>):
  the query is wrapped so that its output columns carry the names the builders refer to. The probe of
  the database for the real columns is a parameter; its process-wide cache only repeats an answer and
  is not modelled.
\<close>

section \<open>Cleaning the query\<close>

lemma length_trim_space: "length (trim_space s) \<le> length s"
  by (metis dual_order.trans length_dropWhile_le length_rev trim_left_def trim_right_def trim_space_def)

function strip_semicolons :: "string \<Rightarrow> string" where
  "strip_semicolons s =
     (if has_suffix s '';'' then strip_semicolons (trim_space (butlast s)) else s)"
  by pat_completeness auto

termination
proof (relation "measure length")
  fix s assume "has_suffix s '';''"
  then have "s \<noteq> []" by (auto simp: has_suffix_def)
  then have "length (butlast s) < length s" by (cases s) auto
  with length_trim_space [of "butlast s"] show "(trim_space (butlast s), s) \<in> measure length"
    by (simp only: in_measure)
qed simp

declare strip_semicolons.simps [simp del]

definition cleanCanonicalForProbe :: "string \<Rightarrow> string" where
  "cleanCanonicalForProbe s = strip_semicolons (trim_space s)"

section \<open>Keys of columns\<close>

definition is_sep :: "char \<Rightarrow> bool" where
  "is_sep c \<longleftrightarrow> c \<in> set [CHR '' '', CHR 0x09, CHR 0x0A, CHR 0x0D, CHR ''_'']"

fun fold_seps :: "bool \<Rightarrow> string \<Rightarrow> string" where
  "fold_seps prev [] = []"
| "fold_seps prev (c # s) =
     (if is_sep c then (if prev then fold_seps True s else CHR ''_'' # fold_seps True s)
      else c # fold_seps False s)"

definition trim_underscores :: "string \<Rightarrow> string" where
  "trim_underscores s = trim_right (\<lambda>c. c = CHR ''_'') (trim_left (\<lambda>c. c = CHR ''_'') s)"

definition normalizeColKey :: "string \<Rightarrow> string" where
  "normalizeColKey s = to_upper (trim_underscores (fold_seps False (trim_space s)))"

section \<open>The wrapped query\<close>

text \<open>The first column with a key wins.\<close>

definition realByKey :: "string list \<Rightarrow> string \<Rightarrow> string option" where
  "realByKey cols k = find (\<lambda>c. normalizeColKey c = k) cols"

text \<open>The loop over the property names: the pairs of a real column and a property, and the names
  without a column.\<close>

fun align_loop ::
  "string list \<Rightarrow> string list \<Rightarrow> string list \<Rightarrow> (string \<times> string) list \<times> string list" where
  "align_loop cols [] seen = ([], [])"
| "align_loop cols (p # ps) seen =
     (if p = [] \<or> p \<in> set seen then align_loop cols ps seen
      else case align_loop cols ps (p # seen) of
        (pairs, unmatched) \<Rightarrow>
          (case realByKey cols (normalizeColKey p) of
             None \<Rightarrow> (pairs, p # unmatched)
           | Some r \<Rightarrow> ((r, p) # pairs, unmatched)))"

definition alias_part :: "string \<times> string \<Rightarrow> string" where
  "alias_part rp =
     (case rp of (r, p) \<Rightarrow> if r = p then quoteIdent r else quoteIdent r @ '' AS '' @ quoteIdent p)"

definition aligned_sql :: "(string \<times> string) list \<Rightarrow> string \<Rightarrow> string" where
  "aligned_sql pairs trimmed =
     ''SELECT '' @ join_str '', '' (map alias_part (sort_key snd pairs)) @ '' FROM ('' @ trimmed
     @ '') __aligned''"

definition alignCanonicalQuery :: "string \<Rightarrow> string list \<Rightarrow> string list \<Rightarrow> string \<times> string list" where
  "alignCanonicalQuery canonical propNames actualCols =
     (let trimmed = cleanCanonicalForProbe canonical in
      if trimmed = [] \<or> actualCols = [] \<or> propNames = [] then (canonical, [])
      else case align_loop actualCols propNames [] of
        (pairs, unmatched) \<Rightarrow>
          if list_all (\<lambda>(r, p). r = p) pairs then (canonical, unmatched)
          else (aligned_sql pairs trimmed, unmatched))"

text \<open>\<open>probe\<close> runs the cleaned query with LIMIT 0 and returns its columns, or fails.\<close>

definition probeCanonicalColumns ::
  "(string \<Rightarrow> string list option) \<Rightarrow> string \<Rightarrow> string list option" where
  "probeCanonicalColumns probe canonicalQuery =
     (let q = cleanCanonicalForProbe canonicalQuery in
      if q = [] then Some [] else probe (''SELECT * FROM ('' @ q @ '') __probe LIMIT 0''))"

definition applyCanonicalAlignment ::
  "(string \<Rightarrow> string list option) \<Rightarrow> ObjectInfo \<Rightarrow> ObjectInfo" where
  "applyCanonicalAlignment probe obj =
     (if oi_canonicalQuery obj = [] \<or> oi_props obj = [] then obj
      else case probeCanonicalColumns probe (oi_canonicalQuery obj) of
        None \<Rightarrow> obj
      | Some cols \<Rightarrow>
          if cols = [] then obj
          else case alignCanonicalQuery (oi_canonicalQuery obj) (map pi_name (oi_props obj)) cols of
            (rewritten, unmatched) \<Rightarrow>
              obj\<lparr>oi_canonicalQuery := rewritten, oi_actualColumns := cols, oi_unmatchedProps := unmatched\<rparr>)"

section \<open>What the alignment delivers\<close>

definition has_column :: "string list \<Rightarrow> string \<Rightarrow> bool" where
  "has_column cols p \<longleftrightarrow> list_ex (\<lambda>c. normalizeColKey c = normalizeColKey p) cols"

lemma realByKey_cases:
  "case realByKey cols (normalizeColKey p) of
     None \<Rightarrow> \<not> has_column cols p
   | Some r \<Rightarrow> has_column cols p \<and> r \<in> set cols \<and> normalizeColKey r = normalizeColKey p"
  by (auto simp: realByKey_def has_column_def list_ex_iff find_None_iff find_Some_iff
      split: option.splits)

lemma align_loop_result:
  assumes "align_loop cols ps seen = (pairs, unmatched)"
  shows "set unmatched = {p \<in> set ps - set seen. p \<noteq> [] \<and> \<not> has_column cols p}"
    and "snd ` set pairs = {p \<in> set ps - set seen. p \<noteq> [] \<and> has_column cols p}"
    and "distinct (map snd pairs)" and "distinct unmatched"
    and "\<forall>(r, p) \<in> set pairs. r \<in> set cols \<and> normalizeColKey r = normalizeColKey p"
proof -
  have "set unmatched = {p \<in> set ps - set seen. p \<noteq> [] \<and> \<not> has_column cols p}
    \<and> snd ` set pairs = {p \<in> set ps - set seen. p \<noteq> [] \<and> has_column cols p}
    \<and> distinct (map snd pairs) \<and> distinct unmatched
    \<and> (\<forall>(r, p) \<in> set pairs. r \<in> set cols \<and> normalizeColKey r = normalizeColKey p)"
    using assms
  proof (induction cols ps seen arbitrary: pairs unmatched rule: align_loop.induct)
    case (2 cols p ps seen)
    show ?case
    proof (cases "p = [] \<or> p \<in> set seen")
      case True
      with 2(1) 2(3) show ?thesis by auto
    next
      case False
      obtain pairs' un' where rec: "align_loop cols ps (p # seen) = (pairs', un')" by fastforce
      note IH = 2(2) [OF False rec]
      show ?thesis
      proof (cases "realByKey cols (normalizeColKey p)")
        case None
        then have "pairs = pairs'" "unmatched = p # un'" "\<not> has_column cols p"
          using 2(3) False rec realByKey_cases [of cols p] by simp_all
        with IH False show ?thesis by (simp only: list.set(2) distinct.simps(2)) blast
      next
        case (Some r)
        then have "pairs = (r, p) # pairs'" "unmatched = un'" "has_column cols p" "r \<in> set cols"
          "normalizeColKey r = normalizeColKey p"
          using 2(3) False rec realByKey_cases [of cols p] by simp_all
        with IH False show ?thesis
          by (simp only: list.set(2) list.map(2) distinct.simps(2) set_map image_insert snd_conv) blast
      qed
    qed
  qed simp
  then show "set unmatched = {p \<in> set ps - set seen. p \<noteq> [] \<and> \<not> has_column cols p}"
    "snd ` set pairs = {p \<in> set ps - set seen. p \<noteq> [] \<and> has_column cols p}"
    "distinct (map snd pairs)" "distinct unmatched"
    "\<forall>(r, p) \<in> set pairs. r \<in> set cols \<and> normalizeColKey r = normalizeColKey p"
    by blast+
qed

lemma is_space_char_d: "\<not> is_space_char CHR ''d''"
  by simp

lemma aligned_ends:
  "aligned_sql pairs t = CHR ''S'' # drop 1 (aligned_sql pairs t)" "last (aligned_sql pairs t) = CHR ''d''"
  "length t < length (aligned_sql pairs t)"
  by (simp_all add: aligned_sql_def)

lemma clean_aligned: "cleanCanonicalForProbe (aligned_sql pairs t) = aligned_sql pairs t"
proof -
  let ?s = "aligned_sql pairs t"
  have ne: "?s \<noteq> []" using aligned_ends(3) [of t pairs] by auto
  have hd: "hd ?s = CHR ''S''" using aligned_ends(1) [of pairs t] by (metis list.sel(1))
  have first: "trim_left is_space_char ?s = ?s"
    using ne hd unfolding trim_left_def by (cases "?s") simp_all
  have "rev ?s = CHR ''d'' # tl (rev ?s)"
    using ne aligned_ends(2) [of pairs t] by (metis hd_rev list.collapse rev_is_Nil_conv)
  then have "dropWhile is_space_char (rev ?s) = rev ?s"
    by (metis (no_types) dropWhile.simps(2) is_space_char_d)
  then have "trim_space ?s = ?s" by (simp add: trim_space_def trim_right_def first)
  moreover have "\<not> has_suffix ?s '';''"
    using ne aligned_ends(2) [of pairs t] by (auto simp: has_suffix_iff)
  ultimately show ?thesis by (simp add: cleanCanonicalForProbe_def strip_semicolons.simps)
qed

lemma aligned_differs: "aligned_sql pairs (cleanCanonicalForProbe q) \<noteq> q"
proof
  assume q: "aligned_sql pairs (cleanCanonicalForProbe q) = q"
  then have "cleanCanonicalForProbe q = q" using clean_aligned by metis
  with q aligned_ends(3) [of "cleanCanonicalForProbe q" pairs] show False by simp
qed

text \<open>Alignment is complete and honest: the properties reported as unmatched are exactly those no
  real column has the key of; for every other one the query exposes a column of that name, which is
  the real column itself when the query is left alone, and otherwise an entry of the outer SELECT list
  that takes it from a real column with the same key. No name is exposed twice.\<close>

theorem alignment_exposes_properties:
  assumes "cleanCanonicalForProbe q \<noteq> []" "cols \<noteq> []" "props \<noteq> []"
  shows "case alignCanonicalQuery q props cols of
      (rewritten, unmatched) \<Rightarrow>
        set unmatched = {p \<in> set props. p \<noteq> [] \<and> \<not> has_column cols p}
      \<and> (if rewritten = q
         then {p \<in> set props. p \<noteq> [] \<and> has_column cols p} \<subseteq> set cols
         else \<exists>pairs. rewritten = aligned_sql pairs (cleanCanonicalForProbe q)
           \<and> distinct (map snd pairs)
           \<and> snd ` set pairs = {p \<in> set props. p \<noteq> [] \<and> has_column cols p}
           \<and> (\<forall>(r, p) \<in> set pairs. r \<in> set cols \<and> normalizeColKey r = normalizeColKey p))"
proof -
  obtain pairs un where l: "align_loop cols props [] = (pairs, un)" by fastforce
  note res = align_loop_result [OF l, simplified]
  show ?thesis
  proof (cases "list_all (\<lambda>(r, p). r = p) pairs")
    case True
    then have "snd ` set pairs \<subseteq> set cols" using res(5) by (force simp: list_all_iff)
    with True l res(1,2) assms show ?thesis by (simp add: alignCanonicalQuery_def Let_def)
  next
    case False
    with l res assms aligned_differs [of pairs q] show ?thesis
      by (auto simp: alignCanonicalQuery_def Let_def)
  qed
qed

lemma alignment_exposes_properties_witness:
  "alignCanonicalQuery ''select * from t;'' [''Product_Name'', ''Qty''] [''Product Name'']
     = (''SELECT '' @ quoteIdent ''Product Name'' @ '' AS '' @ quoteIdent ''Product_Name''
          @ '' FROM (select * from t) __aligned'', [''Qty''])
   \<and> set (snd (alignCanonicalQuery ''select * from t;'' [''Product_Name'', ''Qty''] [''Product Name'']))
     = {p \<in> set [''Product_Name'', ''Qty'']. p \<noteq> [] \<and> \<not> has_column [''Product Name''] p}"
proof
  have "cleanCanonicalForProbe ''select * from t;'' \<noteq> []" by code_simp
  note th = alignment_exposes_properties [OF this, of "[''Product Name'']" "[''Product_Name'', ''Qty'']"]
  obtain rw un where eq:
    "alignCanonicalQuery ''select * from t;'' [''Product_Name'', ''Qty''] [''Product Name''] = (rw, un)"
    by (rule prod.exhaust)
  have "set un = {p \<in> set [''Product_Name'', ''Qty'']. p \<noteq> [] \<and> \<not> has_column [''Product Name''] p}"
    using th unfolding eq prod.case by blast
  then show "set (snd (alignCanonicalQuery ''select * from t;'' [''Product_Name'', ''Qty''] [''Product Name'']))
     = {p \<in> set [''Product_Name'', ''Qty'']. p \<noteq> [] \<and> \<not> has_column [''Product Name''] p}"
    unfolding eq snd_conv .
qed code_simp

end
