(* ===== verification/Period.thy ===== *)
theory Period
  imports Regex Go_Format
begin

text \<open>
  Period expressions (\<open>lakehouse/period.go\<close>): "2025-12", "2025 Q4", "this month" and their Chinese
  forms become half-open ranges of dates. The Chinese characters of the source are given by their
  UTF-8 bytes. The current year and month are parameters of \<open>normalizePeriod\<close>.
\<close>

section \<open>Dates\<close>

text \<open>\<open>time.Date\<close>, \<open>AddDate\<close> and \<open>Format\<close> on dates: a month beyond December and a day beyond the end
  of the month roll over.\<close>

record date =
  d_year :: int
  d_month :: nat
  d_day :: nat

definition leap :: "int \<Rightarrow> bool" where
  "leap y \<longleftrightarrow> (4 dvd y \<and> \<not> 100 dvd y) \<or> 400 dvd y"

definition days_in :: "int \<Rightarrow> nat \<Rightarrow> nat" where
  "days_in y m =
     (if m = 2 then (if leap y then 29 else 28) else if m \<in> {4, 6, 9, 11} then 30 else 31)"

definition roll_month :: "int \<Rightarrow> nat \<Rightarrow> int \<times> nat" where
  "roll_month y m = (if m = 0 then (y - 1, 12) else (y + int ((m - 1) div 12), (m - 1) mod 12 + 1))"

lemma days_in_bounds: "28 \<le> days_in y m" "days_in y m \<le> 31"
  by (simp_all add: days_in_def)

function roll_day :: "int \<Rightarrow> nat \<Rightarrow> nat \<Rightarrow> date" where
  "roll_day y m d =
     (if d \<le> days_in y m then \<lparr>d_year = y, d_month = m, d_day = d\<rparr>
      else case roll_month y (m + 1) of (y', m') \<Rightarrow> roll_day y' m' (d - days_in y m))"
  by pat_completeness auto

termination
proof (relation "measure (\<lambda>(y, m, d). d)")
  fix y m d x y' m'
  assume "\<not> d \<le> days_in y m"
  with days_in_bounds(1) [of y m]
  show "((y', m', d - days_in y m), y, m, d) \<in> measure (\<lambda>(y, m, d). d)" by simp
qed simp

declare roll_day.simps [simp del]

definition go_date :: "int \<Rightarrow> nat \<Rightarrow> nat \<Rightarrow> date" where
  "go_date y m d = (case roll_month y m of (y', m') \<Rightarrow> roll_day y' m' d)"

definition add_date :: "date \<Rightarrow> nat \<Rightarrow> nat \<Rightarrow> nat \<Rightarrow> date" where
  "add_date t years months days = go_date (d_year t + int years) (d_month t + months) (d_day t + days)"

definition pad :: "nat \<Rightarrow> nat \<Rightarrow> string" where
  "pad w n = replicate (w - length (show_nat n)) (CHR ''0'') @ show_nat n"

text \<open>The layout 2006-01-02, for years that are not negative.\<close>

definition format_date :: "date \<Rightarrow> string" where
  "format_date t = pad 4 (nat (d_year t)) @ ''-'' @ pad 2 (d_month t) @ ''-'' @ pad 2 (d_day t)"

section \<open>Ranges\<close>

type_synonym period = "(string \<times> string) option"

definition range_from :: "date \<Rightarrow> nat \<Rightarrow> nat \<Rightarrow> nat \<Rightarrow> period" where
  "range_from st years months days =
     Some (format_date st, format_date (add_date st years months days))"

definition monthRange :: "int \<Rightarrow> nat \<Rightarrow> period" where
  "monthRange y m = (if m < 1 \<or> 12 < m then None else range_from (go_date y m 1) 0 1 0)"

definition yearRange :: "int \<Rightarrow> period" where
  "yearRange y = range_from (go_date y 1 1) 1 0 0"

definition quarterRange :: "int \<Rightarrow> nat \<Rightarrow> period" where
  "quarterRange y q = (if q < 1 \<or> 4 < q then None else range_from (go_date y ((q - 1) * 3 + 1) 1) 0 3 0)"

section \<open>Expressions\<close>

definition digits :: "nat \<Rightarrow> regex" where
  "digits n = RSeqs (replicate n (RCls is_digit))"

definition one_or_two :: regex where
  "one_or_two = RSeq (RCls is_digit) (ROpt (RCls is_digit))"

definition date_sep :: regex where
  "date_sep = RCls (\<lambda>c. c = CHR ''-'' \<or> c = CHR ''/'' \<or> c = CHR ''.'')"

definition nian :: string where
  "nian = utf8 [229, 185, 180]"

definition yue :: string where
  "yue = utf8 [230, 156, 136]"

definition ri :: string where
  "ri = utf8 [230, 151, 165]"

definition di :: string where
  "di = utf8 [231, 172, 172]"

definition ji :: string where
  "ji = utf8 [229, 173, 163]"

definition du :: string where
  "du = utf8 [229, 186, 166]"

definition wide_q :: string where
  "wide_q = utf8 [239, 188, 177]"

definition reMonth :: regex where
  "reMonth = RSeqs [RBegin, RGrp 1 (digits 4), RAlt date_sep (RLit nian), RGrp 2 one_or_two,
     ROpt (RLit yue), REnd]"

definition reDay :: regex where
  "reDay = RSeqs [RBegin, RGrp 1 (digits 4), RAlt date_sep (RLit nian), RGrp 2 one_or_two,
     RAlt date_sep (RLit yue), RGrp 3 one_or_two, ROpt (RLit ri), REnd]"

definition reYear :: regex where
  "reYear = RSeqs [RBegin, RGrp 1 (digits 4), ROpt (RLit nian), REnd]"

definition reQuarter :: regex where
  "reQuarter = RSeqs [RBegin, RGrp 1 (digits 4), ROpt (RAlt date_sep (RLit nian)), ROpt (RLit di),
     RGrp 2 (RCls (\<lambda>c. c \<in> set ''1234'')), RLit ji, ROpt (RLit du), REnd]"

definition reQuarterQ :: regex where
  "reQuarterQ = RSeqs [RBegin, RGrp 1 (digits 4), ROpt date_sep,
     RAlt (RCls (\<lambda>c. c \<in> set ''Qq'')) (RLit wide_q), RGrp 2 (RCls (\<lambda>c. c \<in> set ''1234'')), REnd]"

definition cnQuarter :: "(string \<times> nat) list" where
  "cnQuarter = [(utf8 [228, 184, 128], 1), (utf8 [228, 186, 140], 2), (utf8 [228, 184, 137], 3), (utf8 [229, 155, 155], 4)]"

definition reQuarterCn :: regex where
  "reQuarterCn = RSeqs [RBegin, RGrp 1 (digits 4), RLit nian, ROpt (RLit di),
     RGrp 2 (RAlts (map (RLit \<circ> fst) cnQuarter)), RLit ji, ROpt (RLit du), REnd]"

definition find_submatch :: "regex \<Rightarrow> string \<Rightarrow> groups option" where
  "find_submatch r s = map_option (\<lambda>(pre, m, rest, g). g) (find_match r [] s)"

text \<open>The replacer drops spaces and ideographic spaces in one pass.\<close>

definition wide_space :: string where
  "wide_space = utf8 [227, 128, 128]"

fun drop_spaces :: "string \<Rightarrow> string" where
  "drop_spaces [] = []"
| "drop_spaces (c # s) =
     (if c = CHR '' '' then drop_spaces s
      else if has_prefix (c # s) wide_space
      then (case s of _ # _ # s' \<Rightarrow> drop_spaces s' | _ \<Rightarrow> [])
      else c # drop_spaces s)"

definition this_month :: "string list" where
  "this_month = [utf8 [230, 156, 172, 230, 156, 136],
     utf8 [232, 191, 153, 228, 184, 170, 230, 156, 136],
     utf8 [229, 189, 147, 230, 156, 136],
     utf8 [230, 156, 172, 230, 156, 136, 228, 187, 189]]"

definition last_month :: "string list" where
  "last_month = [utf8 [228, 184, 138, 230, 156, 136],
     utf8 [228, 184, 138, 228, 184, 170, 230, 156, 136],
     utf8 [228, 184, 138, 228, 184, 128, 228, 184, 170, 230, 156, 136],
     utf8 [229, 137, 141, 228, 184, 128, 228, 184, 170, 230, 156, 136]]"

definition this_year :: "string list" where
  "this_year = [utf8 [228, 187, 138, 229, 185, 180],
     utf8 [230, 156, 172, 229, 185, 180],
     utf8 [230, 156, 172, 229, 185, 180, 229, 186, 166]]"

definition last_year :: "string list" where
  "last_year = [utf8 [229, 142, 187, 229, 185, 180],
     utf8 [228, 184, 138, 228, 184, 128, 229, 185, 180],
     utf8 [228, 184, 138, 229, 185, 180]]"

definition num :: "groups \<Rightarrow> nat \<Rightarrow> nat" where
  "num g n = nat (digits_val (group g n))"

text \<open>The dated expressions, tried in the order of the source.\<close>

definition dated_period :: "string \<Rightarrow> period" where
  "dated_period s =
     (case find_submatch reQuarterCn s of
        Some g \<Rightarrow> quarterRange (int (num g 1))
          (case map_of cnQuarter (group g 2) of Some q \<Rightarrow> q | None \<Rightarrow> 0)
      | None \<Rightarrow>
     (case find_submatch reQuarter s of
        Some g \<Rightarrow> quarterRange (int (num g 1)) (num g 2)
      | None \<Rightarrow>
     (case find_submatch reQuarterQ s of
        Some g \<Rightarrow> quarterRange (int (num g 1)) (num g 2)
      | None \<Rightarrow>
     (case find_submatch reDay s of
        Some g \<Rightarrow>
          if 1 \<le> num g 2 \<and> num g 2 \<le> 12 \<and> 1 \<le> num g 3 \<and> num g 3 \<le> 31
          then range_from (go_date (int (num g 1)) (num g 2) (num g 3)) 0 0 1
          else None
      | None \<Rightarrow>
     (case find_submatch reMonth s of
        Some g \<Rightarrow> monthRange (int (num g 1)) (num g 2)
      | None \<Rightarrow>
     (case find_submatch reYear s of
        Some g \<Rightarrow> yearRange (int (num g 1))
      | None \<Rightarrow> None))))))"

definition normalizePeriod :: "int \<Rightarrow> nat \<Rightarrow> string \<Rightarrow> period" where
  "normalizePeriod year month raw =
     (let s = drop_spaces (trim_space raw) in
      if s = [] then None
      else if s \<in> set this_month then monthRange year month
      else if s \<in> set last_month then
        (if month - 1 = 0 then monthRange (year - 1) 12 else monthRange year (month - 1))
      else if s \<in> set this_year then yearRange year
      else if s \<in> set last_year then yearRange (year - 1)
      else dated_period s)"

section \<open>What a range is\<close>

definition valid_date :: "date \<Rightarrow> bool" where
  "valid_date t \<longleftrightarrow> 1 \<le> d_month t \<and> d_month t \<le> 12 \<and> 1 \<le> d_day t \<and> d_day t \<le> days_in (d_year t) (d_month t)"

definition before :: "date \<Rightarrow> date \<Rightarrow> bool" where
  "before s t \<longleftrightarrow> d_year s < d_year t \<or> d_year s = d_year t \<and>
     (d_month s < d_month t \<or> d_month s = d_month t \<and> d_day s < d_day t)"

lemma roll_month_valid: "roll_month y m = (y', m') \<Longrightarrow> 1 \<le> m' \<and> m' \<le> 12"
  by (auto simp: roll_month_def split: if_splits)

lemma roll_day_valid: "1 \<le> m \<Longrightarrow> m \<le> 12 \<Longrightarrow> 1 \<le> d \<Longrightarrow> valid_date (roll_day y m d)"
proof (induction y m d rule: roll_day.induct)
  case (1 y m d)
  show ?case
  proof (cases "d \<le> days_in y m")
    case True
    with 1(2-4) show ?thesis by (simp add: roll_day.simps valid_date_def)
  next
    case False
    obtain y' m' where r: "roll_month y (m + 1) = (y', m')" by fastforce
    from 1(1) [OF False r [symmetric]] roll_month_valid [OF r] False
    have "valid_date (roll_day y' m' (d - days_in y m))" by simp
    with False r show ?thesis by (simp add: roll_day.simps [of y m d])
  qed
qed

lemma go_date_valid: "1 \<le> d \<Longrightarrow> valid_date (go_date y m d)"
  by (auto simp: go_date_def split: prod.split intro: roll_day_valid dest: roll_month_valid)

lemma go_date_month:
  "1 \<le> m \<Longrightarrow> go_date y m 1 =
     \<lparr>d_year = y + int ((m - 1) div 12), d_month = (m - 1) mod 12 + 1, d_day = 1\<rparr>"
  using days_in_bounds(1) [of "y + int ((m - 1) div 12)" "(m - 1) mod 12 + 1"]
  by (simp add: go_date_def roll_month_def roll_day.simps [of _ _ "Suc 0"])

lemma roll_month_same [simp]: "1 \<le> m \<Longrightarrow> m \<le> 12 \<Longrightarrow> roll_month y m = (y, m)"
  by (auto simp: roll_month_def)

lemma go_date_first:
  "1 \<le> m \<Longrightarrow> m \<le> 12 \<Longrightarrow> go_date y m 1 = \<lparr>d_year = y, d_month = m, d_day = 1\<rparr>"
  using days_in_bounds(1) [of y m] by (simp add: go_date_def roll_day.simps [of _ _ "Suc 0"])

lemma next_day_later:
  assumes "valid_date t"
  shows "before t (add_date t 0 0 1)"
proof (cases "d_day t + 1 \<le> days_in (d_year t) (d_month t)")
  case True
  then have "add_date t 0 0 1 = t\<lparr>d_day := d_day t + 1\<rparr>"
    using assms
    by (simp add: add_date_def go_date_def roll_day.simps [of "d_year t"] valid_date_def)
  then show ?thesis by (simp add: before_def)
next
  case False
  let ?y = "d_year t" and ?m = "d_month t"
  have end_day: "d_day t = days_in ?y ?m" and m: "1 \<le> ?m" "?m \<le> 12"
    using False assms by (simp_all add: valid_date_def)
  obtain y' m' where r: "roll_month ?y (?m + 1) = (y', m')" by fastforce
  have "1 \<le> days_in y' m'" using days_in_bounds(1) [of y' m'] by simp
  then have "add_date t 0 0 1 = \<lparr>d_year = y', d_month = m', d_day = 1\<rparr>"
    using end_day m r
    by (simp add: add_date_def go_date_def roll_day.simps [of ?y ?m] roll_day.simps [of y' m'])
  moreover have "?y < y' \<or> ?y = y' \<and> ?m < m'"
    using r m by (cases "?m = 12") (auto simp: roll_month_def)
  ultimately show ?thesis by (auto simp: before_def)
qed

lemma later_month_later:
  assumes "1 \<le> m" "m \<le> 12" "1 \<le> k" "k \<le> 12"
  shows "before (go_date y m 1) (add_date (go_date y m 1) 0 k 0)"
proof -
  have "go_date y m 1 = \<lparr>d_year = y, d_month = m, d_day = 1\<rparr>"
    using assms(1,2) by (rule go_date_first)
  moreover have "add_date \<lparr>d_year = y, d_month = m, d_day = 1\<rparr> 0 k 0 = go_date y (m + k) 1"
    by (simp add: add_date_def)
  moreover have "go_date y (m + k) 1 = \<lparr>d_year = y + int ((m + k - 1) div 12),
      d_month = (m + k - 1) mod 12 + 1, d_day = 1\<rparr>"
    using assms by (intro go_date_month) simp
  moreover have "m + k - 1 < 12 \<or> 1 \<le> (m + k - 1) div 12"
    by (auto simp add: Suc_le_eq div_greater_zero_iff)
  ultimately show ?thesis
    using assms by (auto simp: before_def)
qed

lemma add_months: "d_day t = 1 \<Longrightarrow> add_date t a k 0 = go_date (d_year t + int a) (d_month t + k) 1"
  by (simp add: add_date_def)

lemma next_year_later: "before (go_date y 1 1) (add_date (go_date y 1 1) 1 0 0)"
  using go_date_first [of 1 y] go_date_first [of 1 "y + 1"] by (simp add: add_date_def before_def)

text \<open>The ranges a period can be: one day, or one, three or twelve months from the first of a month.\<close>

definition proper_range :: "string \<times> string \<Rightarrow> bool" where
  "proper_range r \<longleftrightarrow> (\<exists>st years months days.
     valid_date st \<and> before st (add_date st years months days)
     \<and> r = (format_date st, format_date (add_date st years months days))
     \<and> ((years, months, days) = (0, 0, 1)
        \<or> d_day st = 1 \<and> (years, months, days) \<in> {(0, 1, 0), (0, 3, 0), (1, 0, 0)}))"

lemma proper_rangeI:
  assumes "range_from st a m d = Some r" "valid_date st" "before st (add_date st a m d)"
    and "(a, m, d) = (0, 0, 1) \<or> d_day st = 1 \<and> (a, m, d) \<in> {(0, 1, 0), (0, 3, 0), (1, 0, 0)}"
  shows "proper_range r"
proof -
  have "r = (format_date st, format_date (add_date st a m d))"
    using assms(1) by (simp add: range_from_def)
  then show ?thesis unfolding proper_range_def using assms(2-4) by blast
qed

lemma month_is_proper: "monthRange y m = Some r \<Longrightarrow> proper_range r"
  by (auto simp: monthRange_def go_date_first simp del: One_nat_def split: if_splits
      intro!: proper_rangeI [of "go_date y m 1" 0 1 0] go_date_valid later_month_later)

lemma quarter_is_proper: "quarterRange y q = Some r \<Longrightarrow> proper_range r"
  by (auto simp: quarterRange_def go_date_first simp del: One_nat_def split: if_splits
      intro!: proper_rangeI [of "go_date y ((q - 1) * 3 + 1) 1" 0 3 0] go_date_valid later_month_later)

lemma year_is_proper: "yearRange y = Some r \<Longrightarrow> proper_range r"
  by (auto simp: yearRange_def go_date_first simp del: One_nat_def
      intro!: proper_rangeI [of "go_date y 1 1" 1 0 0] go_date_valid next_year_later)

lemma day_is_proper: "1 \<le> d \<Longrightarrow> range_from (go_date y m d) 0 0 1 = Some r \<Longrightarrow> proper_range r"
  by (rule proper_rangeI) (auto simp del: One_nat_def intro: go_date_valid next_day_later)

lemmas ranges_are_proper = month_is_proper quarter_is_proper year_is_proper day_is_proper

lemma dated_is_proper: "dated_period s = Some r \<Longrightarrow> proper_range r"
  by (auto simp: dated_period_def simp del: One_nat_def split: option.splits if_splits elim: ranges_are_proper)

text \<open>A day expression, given what the matcher finds in it.\<close>

lemma normalize_day:
  assumes "drop_spaces (trim_space raw) = s"
    and "s \<notin> set ([] # this_month @ last_month @ this_year @ last_year)"
    and "find_submatch reQuarterCn s = None" "find_submatch reQuarter s = None" "find_submatch reQuarterQ s = None"
    and "find_submatch reDay s = Some [1 \<mapsto> ys, 2 \<mapsto> ms, 3 \<mapsto> ds]"
    and "nat (digits_val ys) = y" "nat (digits_val ms) = m" "nat (digits_val ds) = d"
    and "1 \<le> m \<and> m \<le> 12 \<and> 1 \<le> d \<and> d \<le> 31"
  shows "normalizePeriod year month raw = range_from (go_date (int y) m d) 0 0 1"
  using assms by (auto simp: normalizePeriod_def Let_def dated_period_def num_def group_def)

lemma digits_4: "digits 4 = RSeqs [RCls is_digit, RCls is_digit, RCls is_digit, RCls is_digit]"
  by (simp add: digits_def numeral_eq_Suc)

lemma wide_space_bytes: "wide_space = [CHR 0xE3, CHR 0x80, CHR 0x80]"
  by (simp add: wide_space_def utf8_def char_of_def bit_0)

lemmas period_patterns = find_submatch_def reDay_def reQuarter_def reQuarterQ_def reQuarterCn_def digits_4
  date_sep_def one_or_two_def ROpt_def cnQuarter_def nian_def yue_def ri_def di_def ji_def du_def wide_q_def
  utf8_def is_digit_def

text \<open>A day beyond the end of its month is accepted and rolls over into the next month.\<close>

lemma impossible_day_rolls_over:
  "normalizePeriod 2026 5 ''2025-02-31'' = Some (''2025-03-03'', ''2025-03-04'')"
proof -
  let ?s = "''2025-02-31''"
  have "normalizePeriod 2026 5 ?s = range_from (go_date (int 2025) 2 31) 0 0 1"
  proof (rule normalize_day)
    have "trim_space ?s = ?s" by code_simp
    then show "drop_spaces (trim_space ?s) = ?s"
      by (simp add: wide_space_bytes has_prefix_def)
    show "?s \<notin> set ([] # this_month @ last_month @ this_year @ last_year)"
      by (simp add: this_month_def last_month_def this_year_def last_year_def utf8_def)
    show "find_submatch reQuarterCn ?s = None" by (simp add: period_patterns)
    show "find_submatch reQuarter ?s = None" by (simp add: period_patterns)
    show "find_submatch reQuarterQ ?s = None" by (simp add: period_patterns)
    show "find_submatch reDay ?s = Some [1 \<mapsto> ''2025'', 2 \<mapsto> ''02'', 3 \<mapsto> ''31'']"
      by (simp add: period_patterns)
  qed (code_simp+)
  also have "go_date (int 2025) 2 31 = \<lparr>d_year = 2025, d_month = 3, d_day = 3\<rparr>"
    by (simp add: go_date_def roll_day.simps days_in_def leap_def roll_month_def)
  also have "range_from \<dots> 0 0 1 = Some (''2025-03-03'', ''2025-03-04'')"
    by (simp add: range_from_def add_date_def go_date_def roll_day.simps days_in_def format_date_def pad_def show_nat.simps)
  finally show ?thesis .
qed

text \<open>Whatever text normalizePeriod recognises, the answer is a non-empty half-open range of
  calendar dates: its start is a valid date that lies before its end, and the range is one day, or
  one, three or twelve months that begin on the first of a month.\<close>

theorem period_is_half_open:
  "normalizePeriod year month raw = Some r \<Longrightarrow> proper_range r"
  by (auto simp: normalizePeriod_def Let_def split: if_splits elim: ranges_are_proper dated_is_proper)

lemma period_is_half_open_witness:
  "proper_range (''2025-03-03'', ''2025-03-04'')"
  by (rule period_is_half_open) (rule impossible_day_rolls_over)

text \<open>Months tile quarters and quarters tile years: each range ends where the next one starts, so
  a row is counted in exactly one month of its quarter and in exactly one quarter of its year.\<close>

theorem periods_tile:
  "(\<forall>q. if 1 \<le> q \<and> q \<le> 4 then
      (\<exists>a b c d. monthRange y (3 * q - 2) = Some (a, b) \<and> monthRange y (3 * q - 1) = Some (b, c)
        \<and> monthRange y (3 * q) = Some (c, d) \<and> quarterRange y q = Some (a, d))
    else quarterRange y q = None)
   \<and> (\<exists>a b c d e. quarterRange y 1 = Some (a, b) \<and> quarterRange y 2 = Some (b, c)
        \<and> quarterRange y 3 = Some (c, d) \<and> quarterRange y 4 = Some (d, e) \<and> yearRange y = Some (a, e))"
proof (intro conjI allI)
  have m: "monthRange y k = Some (format_date (go_date y k 1), format_date (go_date y (k + 1) 1))"
    if "1 \<le> k" "k \<le> 12" for k
    using that go_date_first [of k y] by (simp add: monthRange_def range_from_def add_months)
  have q: "quarterRange y k = Some (format_date (go_date y (3 * k - 2) 1), format_date (go_date y (3 * k + 1) 1))"
    if "1 \<le> k" "k \<le> 4" for k
  proof -
    have k: "(k - 1) * 3 + 1 = 3 * k - 2" "3 * k - 2 + 3 = 3 * k + 1" "1 \<le> 3 * k - 2" "3 * k - 2 \<le> 12"
      using that by auto
    then show ?thesis
      using that go_date_first [OF k(3,4), of y] unfolding quarterRange_def k(1)
      by (simp add: range_from_def add_months k(2) del: One_nat_def)
  qed
  fix k :: nat
  have e: "3 * k - 2 + 1 = 3 * k - 1 \<and> 3 * k - 1 + 1 = 3 * k" if "1 \<le> k" using that by auto
  show "if 1 \<le> k \<and> k \<le> 4 then
      (\<exists>a b c d. monthRange y (3 * k - 2) = Some (a, b) \<and> monthRange y (3 * k - 1) = Some (b, c)
        \<and> monthRange y (3 * k) = Some (c, d) \<and> quarterRange y k = Some (a, d))
    else quarterRange y k = None"
  proof (cases "1 \<le> k \<and> k \<le> 4")
    case True
    then show ?thesis using m [of "3 * k - 2"] m [of "3 * k - 1"] m [of "3 * k"] q [of k] e by auto
  qed (auto simp: quarterRange_def)
  have "yearRange y = Some (format_date (go_date y 1 1), format_date (go_date y 13 1))"
    using go_date_month [of 1 y] go_date_month [of 13 y] go_date_month [of 1 "y + 1"]
    by (simp add: yearRange_def range_from_def add_date_def)
  then show "\<exists>a b c d e. quarterRange y 1 = Some (a, b) \<and> quarterRange y 2 = Some (b, c)
        \<and> quarterRange y 3 = Some (c, d) \<and> quarterRange y 4 = Some (d, e) \<and> yearRange y = Some (a, e)"
    using q [of 1] q [of 2] q [of 3] q [of 4] by simp
qed

end
