(* ===== verification/Resolve.thy ===== *)
theory Resolve
  imports Result Column_Align Period
begin

text \<open>
  Resolution of a query specification against the ontology (\<open>lakehouse/resolve.go\<close>,
  \<open>lakehouse/correction.go\<close>): the names of a \<open>QuerySpec\<close> become objects, properties, aggregates,
  filters and order columns of a \<open>ResolvedLakehouseQuery\<close>. The answers of the database and of the
  embedding service are the fields of a \<open>catalog\<close> and a \<open>keyword_tables\<close> record, one field per
  query of the source; \<open>None\<close> stands for no row (and for an error the source ignores).
\<close>

section \<open>The answers of the database\<close>

text \<open>A row of a property query: object id, object name, property name, data type.\<close>

type_synonym property_row = "string \<times> string \<times> string \<times> string"

text \<open>
  The first argument is the project. \<open>ct_object\<close> and \<open>ct_object_like\<close> give id and canonical query;
  \<open>ct_properties\<close> takes the id of an object and gives names and types, or the error of the query;
  \<open>ct_metric\<close> takes an object id and a name and gives aggregation, target property and SQL expression.
\<close>

record catalog =
  ct_object :: "string \<Rightarrow> string \<Rightarrow> (string \<times> string) option"
  ct_object_like :: "string \<Rightarrow> string \<Rightarrow> (string \<times> string) option"
  ct_properties :: "string \<Rightarrow> string + (string \<times> string) list"
  ct_probe :: "string \<Rightarrow> string list option"
  ct_property_in :: "string \<Rightarrow> string \<Rightarrow> string \<Rightarrow> property_row option"
  ct_property :: "string \<Rightarrow> string \<Rightarrow> property_row option"
  ct_property_like :: "string \<Rightarrow> string \<Rightarrow> property_row option"
  ct_metric :: "string \<Rightarrow> string \<Rightarrow> (string \<times> string \<times> string) option"
  ct_year :: int
  ct_month :: nat

record keyword_tables =
  kw_machine_code :: "string \<Rightarrow> PropertyInfo \<Rightarrow> bool"
  kw_exact :: "string \<Rightarrow> PropertyInfo \<Rightarrow> string \<Rightarrow> string"
  kw_fuzzy :: "string \<Rightarrow> PropertyInfo \<Rightarrow> string \<Rightarrow> string"
  kw_project :: "string \<Rightarrow> string \<Rightarrow> string"
  kw_vector :: "PropertyInfo \<Rightarrow> string \<Rightarrow> string \<times> string"

text \<open>The resolve errors, with the values of their details; \<open>QueryFailed\<close> is an error of the database.\<close>

datatype resolve_error =
    ObjectNotFound "string list"
  | NoCanonicalQuery string
  | PropertyNotFound string "string list"
  | MetricNotFound string "string list"
  | MetricAsGroupBy string PropertyInfo
  | InvalidFilterOp string string
  | MalformedFilterValue string string
  | ColumnNotInCanonical string string "string list"
  | IntermediateNotFound string
  | QueryFailed string

section \<open>Keyword correction\<close>

text \<open>\<open>kw_vector\<close> answers with the keyword and the similarity printed with two decimals.\<close>

definition Correct :: "keyword_tables \<Rightarrow> string \<Rightarrow> PropertyInfo \<Rightarrow> string \<Rightarrow> string \<times> string" where
  "Correct kw project prop userValue =
     (if kw_machine_code kw project prop then (userValue, ''machineCode_passthrough'')
      else if kw_exact kw project prop userValue \<noteq> [] then (kw_exact kw project prop userValue, ''matched'')
      else if kw_fuzzy kw project prop userValue \<noteq> [] then (kw_fuzzy kw project prop userValue, ''fuzzy'')
      else if kw_project kw project userValue \<noteq> [] then (kw_project kw project userValue, ''project_matched'')
      else case kw_vector kw prop userValue of (w, sim) \<Rightarrow>
        if w \<noteq> [] then (w, ''vector_matched('' @ sim @ '')'') else (userValue, ''no_match''))"

section \<open>Metric expressions\<close>

definition RIdentQuoted :: regex where
  "RIdentQuoted = RSeqs [ROpt (RLit dq), RIdent, ROpt (RLit dq)]"

definition aliasTailReTight :: regex where
  "aliasTailReTight = RSeqs [RBegin,
     RGrp 1 (RSeq (RPlusLazy RAny) (RCls (\<lambda>c. c = CHR '')'' \<or> c = CHR 0x22))),
     RStar RSpace, RLitI ''as'', RPlus RSpace, RGrp 2 RIdentQuoted, RStar RSpace, REnd]"

definition aliasTailReLoose :: regex where
  "aliasTailReLoose = RSeqs [RBegin, RGrp 1 (RPlusLazy RAny), RPlus RSpace, RLitI ''as'', RPlus RSpace,
     RGrp 2 RIdentQuoted, RStar RSpace, REnd]"

definition trim_quotes :: "string \<Rightarrow> string" where
  "trim_quotes s = trim_right (\<lambda>c. c = CHR 0x22) (trim_left (\<lambda>c. c = CHR 0x22) s)"

definition stripMetricAlias :: "string \<Rightarrow> string \<times> string" where
  "stripMetricAlias raw =
     (let s = trim_space raw in
      case find_submatch aliasTailReTight s of
        Some g \<Rightarrow> (trim_space (group g 1), trim_quotes (group g 2))
      | None \<Rightarrow>
          (case find_submatch aliasTailReLoose s of
             Some g \<Rightarrow> (trim_space (group g 1), trim_quotes (group g 2))
           | None \<Rightarrow> (s, [])))"

definition metricLabel :: "string \<Rightarrow> string \<Rightarrow> string" where
  "metricLabel authorAlias propName =
     (if trim_space authorAlias \<noteq> [] then trim_space authorAlias else ''Total_'' @ propName)"

definition countRowsKeywords :: "string list" where
  "countRowsKeywords = [''count'', ''countrows'', ''cnt'',
     utf8 [230, 149, 176, 233, 135, 143],
     utf8 [232, 174, 162, 229, 141, 149, 230, 149, 176]]"

definition agg_wrapper_funcs :: "(string \<times> string) list" where
  "agg_wrapper_funcs = [(''sum('', ''SUM''), (''count('', ''COUNT''), (''avg('', ''AVG''), (''average('', ''AVG''),
     (''max('', ''MAX''), (''min('', ''MIN''), (''distinctcount('', ''DISTINCTCOUNT'')]"

definition stripAggWrapperWithFunc :: "string \<Rightarrow> string \<times> string" where
  "stripAggWrapperWithFunc raw =
     (let s = trim_space raw in
      case find (\<lambda>(p, fn). has_prefix (to_lower s) p \<and> has_suffix s '')'') agg_wrapper_funcs of
        Some (p, fn) \<Rightarrow> (trim_space (drop (length p) (take (length s - 1) s)), fn)
      | None \<Rightarrow> (s, []))"

definition splitCommaMetric :: "string \<Rightarrow> string list" where
  "splitCommaMetric metric = filter (\<lambda>p. p \<noteq> []) (map trim_space (split_on CHR '','' metric))"

section \<open>Objects\<close>

text \<open>One reference (the local function \<open>consider\<close>) of \<open>augmentObjectsFromRefs\<close>; the keys seen so far are those of the list.\<close>

definition object_key :: "string \<Rightarrow> string" where
  "object_key o' = to_lower (trim_space o')"

definition consider_ref :: "string list \<Rightarrow> string \<Rightarrow> string list" where
  "consider_ref objects prop =
     (let od = trim_space (fst (stripObjectPrefix prop)) in
      if od = [] then objects
      else if to_lower od \<in> set (map object_key objects) then objects
      else objects @ [od])"

definition augmentObjectsFromRefs ::
  "string list \<Rightarrow> FilterItem list \<Rightarrow> OrderByItem list \<Rightarrow> string list \<Rightarrow> string list" where
  "augmentObjectsFromRefs objects filters orderBy groupBy =
     foldl consider_ref objects (map fi_prop filters @ map ob_prop orderBy @ groupBy)"

text \<open>The id and canonical query of a row, empty without one.\<close>

definition row_or_empty :: "(string \<times> string) option \<Rightarrow> string \<times> string" where
  "row_or_empty r = (case r of None \<Rightarrow> ([], []) | Some x \<Rightarrow> x)"

definition loaded_property :: "string \<Rightarrow> string \<Rightarrow> string \<times> string \<Rightarrow> PropertyInfo" where
  "loaded_property objName objID row =
     (case row of (n, dt) \<Rightarrow>
       \<lparr>pi_name = n, pi_dataType = dt, pi_tableName = objName, pi_columnName = n, pi_objectName = objName,
        pi_objectID = objID\<rparr>)"

text \<open>The object of a found row, with its properties and its query aligned.\<close>

definition load_object :: "catalog \<Rightarrow> string \<Rightarrow> string \<Rightarrow> string \<Rightarrow> resolve_error + ObjectInfo" where
  "load_object cat objName objID canonicalQuery =
     (case ct_properties cat objID of
        Inl e \<Rightarrow> Inl (QueryFailed e)
      | Inr rows \<Rightarrow>
          Inr (applyCanonicalAlignment (ct_probe cat)
            \<lparr>oi_id = objID, oi_name = objName, oi_canonicalQuery = canonicalQuery,
             oi_props = map (loaded_property objName objID) rows,
             oi_actualColumns = [], oi_unmatchedProps = []\<rparr>))"

definition load_step ::
  "catalog \<Rightarrow> string \<Rightarrow> string \<Rightarrow> ObjectInfo list \<times> PropertyInfo list
     \<Rightarrow> resolve_error + ObjectInfo list \<times> PropertyInfo list" where
  "load_step cat project objName st =
     (let exact = row_or_empty (ct_object cat project objName);
          (objID, canonicalQuery) =
            (if fst exact = [] then row_or_empty (ct_object_like cat project objName) else exact)
      in if objID = [] then Inr st
         else bind (load_object cat objName objID canonicalQuery) (\<lambda>obj.
           Inr (fst st @ [obj], snd st @ oi_props obj)))"

definition loadLakehouseObjects ::
  "catalog \<Rightarrow> string \<Rightarrow> string list \<Rightarrow> resolve_error + ObjectInfo list \<times> PropertyInfo list" where
  "loadLakehouseObjects cat project objectNames = fold_steps (load_step cat project) objectNames ([], [])"

definition LoadSingleObject :: "catalog \<Rightarrow> string \<Rightarrow> string \<Rightarrow> resolve_error + ObjectInfo" where
  "LoadSingleObject cat project objName =
     (case row_or_empty (ct_object cat project objName) of (objID, canonicalQuery) \<Rightarrow>
       if objID = [] then Inl (IntermediateNotFound objName)
       else load_object cat objName objID canonicalQuery)"

section \<open>Properties\<close>

definition found_property :: "property_row \<Rightarrow> PropertyInfo" where
  "found_property row =
     (case row of (oID, oName, pName, pDT) \<Rightarrow>
       \<lparr>pi_name = pName, pi_dataType = pDT, pi_tableName = oName, pi_columnName = pName,
        pi_objectName = oName, pi_objectID = oID\<rparr>)"

definition resolvePropertyInOD ::
  "catalog \<Rightarrow> string \<Rightarrow> string \<Rightarrow> string \<Rightarrow> PropertyInfo list \<Rightarrow> PropertyInfo option" where
  "resolvePropertyInOD cat project odName propName localProps =
     (case find (\<lambda>p. equal_fold (pi_objectName p) odName \<and> equal_fold (pi_name p) propName) localProps of
        Some p \<Rightarrow> Some p
      | None \<Rightarrow> map_option found_property (ct_property_in cat project odName propName))"

text \<open>The number of runes of a text in UTF-8: its bytes that do not continue a rune.\<close>

definition rune_len :: "string \<Rightarrow> nat" where
  "rune_len s = length (filter (\<lambda>c. \<not> (128 \<le> (of_char c :: nat) \<and> (of_char c :: nat) < 192)) s)"

definition similar_names :: "string \<Rightarrow> string \<Rightarrow> bool" where
  "similar_names name pname \<longleftrightarrow>
     (contains_str (to_lower name) (to_lower pname) \<or> contains_str (to_lower pname) (to_lower name))
     \<and> rune_len pname \<le> rune_len name * 3 div 2 + 1 \<and> rune_len name \<le> rune_len pname * 3 div 2 + 1"

definition resolvePropertyLakehouse ::
  "catalog \<Rightarrow> string \<Rightarrow> string \<Rightarrow> PropertyInfo list \<Rightarrow> resolve_error + PropertyInfo" where
  "resolvePropertyLakehouse cat project name localProps =
     (case find (\<lambda>p. equal_fold (pi_name p) name) localProps of
        Some p \<Rightarrow> Inr p
      | None \<Rightarrow>
     (case ct_property cat project name of
        Some row \<Rightarrow> Inr (found_property row)
      | None \<Rightarrow>
     (case find (\<lambda>p. similar_names name (pi_name p)) localProps of
        Some p \<Rightarrow> Inr p
      | None \<Rightarrow>
     (case ct_property_like cat project name of
        Some row \<Rightarrow> Inr (found_property row)
      | None \<Rightarrow>
          Inl (PropertyNotFound name (map (\<lambda>p. pi_objectName p @ ''.'' @ pi_name p) localProps))))))"

section \<open>Metrics\<close>

definition no_aggregate :: ResolvedAggregate where
  "no_aggregate = \<lparr>ag_kind = AggStandard, ag_prop = None, ag_func = [], ag_label = [], ag_expr = [], ag_table = []\<rparr>"

definition count_rows :: ResolvedAggregate where
  "count_rows = no_aggregate\<lparr>ag_kind := AggCountRows, ag_label := ''Count''\<rparr>"

definition standard_aggregate :: "PropertyInfo \<Rightarrow> string \<Rightarrow> string \<Rightarrow> ResolvedAggregate" where
  "standard_aggregate p fn label =
     no_aggregate\<lparr>ag_prop := Some p, ag_func := fn, ag_label := label\<rparr>"

text \<open>Step 2: the predefined metric of the first object that has a usable one.\<close>

fun predefined_metric ::
  "catalog \<Rightarrow> string \<Rightarrow> string \<Rightarrow> string \<Rightarrow> PropertyInfo list \<Rightarrow> string list \<Rightarrow> ResolvedAggregate option" where
  "predefined_metric cat project metricName authorAlias allProps [] = None"
| "predefined_metric cat project metricName authorAlias allProps (objName # objs) =
     (let objID = fst (row_or_empty (ct_object cat project objName));
          next = predefined_metric cat project metricName authorAlias allProps objs
      in if objID = [] then next
         else case (case ct_metric cat objID metricName of Some m \<Rightarrow> m | None \<Rightarrow> ([], [], [])) of
           (mAgg, mTargetProp, mSQLExpr) \<Rightarrow>
             if mSQLExpr \<noteq> []
             then Some (no_aggregate\<lparr>ag_kind := AggCustomSQL, ag_label := metricName, ag_expr := mSQLExpr\<rparr>)
             else if mTargetProp \<noteq> []
             then (case find (\<lambda>p. equal_fold (pi_name p) mTargetProp \<and> isNumericType (pi_dataType p)) allProps of
                     Some p \<Rightarrow> Some (standard_aggregate p (to_upper mAgg) (metricLabel authorAlias (pi_name p)))
                   | None \<Rightarrow> next)
             else next)"

text \<open>Steps 3 to 5: a property of that name, a similar one, or an error.\<close>

definition property_tag :: "PropertyInfo \<Rightarrow> string" where
  "property_tag p = pi_objectName p @ ''.'' @ pi_name p
     @ (if pi_dataType p \<noteq> [] then ''('' @ pi_dataType p @ '')'' else [])"

definition property_metric ::
  "string \<Rightarrow> string \<Rightarrow> string \<Rightarrow> string \<Rightarrow> PropertyInfo list \<Rightarrow> resolve_error + ResolvedAggregate" where
  "property_metric metricPart metricName detectedFunc authorAlias allProps =
     (case find (\<lambda>p. equal_fold (pi_name p) metricName) allProps of
        Some p \<Rightarrow>
          if detectedFunc \<noteq> [] then Inr (standard_aggregate p detectedFunc (metricLabel authorAlias (pi_name p)))
          else if isNumericType (pi_dataType p)
          then Inr (standard_aggregate p ''SUM'' (metricLabel authorAlias (pi_name p)))
          else Inl (MetricAsGroupBy metricName p)
      | None \<Rightarrow>
     (case find (\<lambda>p. similar_names metricName (pi_name p)
                   \<and> (detectedFunc \<noteq> [] \<or> isNumericType (pi_dataType p))) allProps of
        Some p \<Rightarrow>
          Inr (standard_aggregate p (if detectedFunc \<noteq> [] then detectedFunc else ''SUM'')
            (metricLabel authorAlias (pi_name p)))
      | None \<Rightarrow> Inl (MetricNotFound metricPart (map property_tag allProps))))"

definition resolveMetricLakehouse ::
  "catalog \<Rightarrow> string \<Rightarrow> string \<Rightarrow> PropertyInfo list \<Rightarrow> string list
     \<Rightarrow> resolve_error + ResolvedAggregate list" where
  "resolveMetricLakehouse cat project part allProps objectNames =
     (let (metricPart, authorAlias) = stripMetricAlias part;
          (innerName, detectedFunc) = stripAggWrapperWithFunc metricPart in
      if innerName = [] then Inr []
      else
        let (objPrefix, name) = stripObjectPrefix innerName;
            metricName = (if name = [] then innerName else name) in
        if to_lower (trim_space metricName) \<in> set countRowsKeywords then Inr [count_rows]
        else case predefined_metric cat project metricName authorAlias allProps
                    (if objPrefix \<noteq> [] then [objPrefix] else objectNames) of
          Some a \<Rightarrow> Inr [a]
        | None \<Rightarrow> bind (property_metric metricPart metricName detectedFunc authorAlias allProps) (\<lambda>a. Inr [a]))"

section \<open>Order columns\<close>

definition label_key :: "string \<Rightarrow> string" where
  "label_key s = to_lower (replace_char CHR '' '' ''_'' s)"

definition label_matches :: "string \<Rightarrow> ResolvedAggregate \<Rightarrow> bool" where
  "label_matches propName agg \<longleftrightarrow>
     label_key propName = label_key (ag_label agg)
     \<or> (case ag_prop agg of Some p \<Rightarrow> label_key propName = label_key (pi_name p) | None \<Rightarrow> False)
     \<or> equal_fold propName ''count'' \<and> ag_kind agg = AggCountRows"

definition matchAggregateLabel :: "string \<Rightarrow> ResolvedAggregate list \<Rightarrow> nat option" where
  "matchAggregateLabel propName aggregates = find_index (label_matches propName) aggregates"


section \<open>Resolving the parts of a specification\<close>

text \<open>The verb \<open>%q\<close> for printable text: a quoted string with escapes.\<close>

definition quote_char :: "char \<Rightarrow> string" where
  "quote_char c =
     (if c = CHR 0x22 \<or> c = CHR 0x5C then [CHR 0x5C, c]
      else if c = CHR 0x0A then [CHR 0x5C, CHR ''n'']
      else if c = CHR 0x0D then [CHR 0x5C, CHR ''r'']
      else if c = CHR 0x09 then [CHR 0x5C, CHR ''t'']
      else [c])"

definition go_q :: "string \<Rightarrow> string" where
  "go_q s = dq @ concat (map quote_char s) @ dq"

definition arrow :: string where
  "arrow = utf8 [32, 226, 134, 146, 32]"

definition keyword_warning :: "string \<Rightarrow> string \<Rightarrow> string \<Rightarrow> string \<Rightarrow> string" where
  "keyword_warning prop value db status =
     ''keyword correction: '' @ prop @ '' '' @ go_q value @ arrow @ go_q db @ '' ('' @ status @ '')''"

definition period_warning :: "string \<Rightarrow> string \<Rightarrow> string \<Rightarrow> string \<Rightarrow> string" where
  "period_warning prop value st en =
     ''period normalized: '' @ prop @ '' '' @ go_q value @ arrow @ ''['' @ st @ '', '' @ en @ '')''"

text \<open>The text of the error a property lookup can end in.\<close>

definition not_found_text :: "resolve_error \<Rightarrow> string" where
  "not_found_text e =
     (case e of
        PropertyNotFound name available \<Rightarrow>
          utf8 [229, 177, 158, 230, 128, 167, 32] @ go_q name
          @ utf8 [32, 230, 156, 170, 230, 137, 190, 229, 136, 176, 227, 128, 130, 229, 143, 175, 231, 148, 168, 229, 177, 158, 230, 128, 167, 58, 32]
          @ ''['' @ join_str '' '' available @ '']''
      | _ \<Rightarrow> [])"

definition order_warning :: "string \<Rightarrow> resolve_error \<Rightarrow> string" where
  "order_warning prop e =
     ''orderBy '' @ go_q prop @ '': '' @ not_found_text e
     @ utf8 [44, 32, 229, 183, 178, 232, 183, 179, 232, 191, 135]"

subsection \<open>Metrics\<close>

definition grouped_already :: "QuerySpec \<Rightarrow> PropertyInfo \<Rightarrow> bool" where
  "grouped_already spec pr =
     list_ex (\<lambda>g. equal_fold (fst (stripDateGranularity (snd (stripObjectPrefix g)))) (pi_name pr)) (q_groupBy spec)"

definition add_group :: "PropertyInfo \<Rightarrow> string \<Rightarrow> string \<Rightarrow> string \<Rightarrow> ResolvedLakehouseQuery \<Rightarrow> ResolvedLakehouseQuery" where
  "add_group pr granularity label token rq =
     rq\<lparr>rq_groupByCols := rq_groupByCols rq
       @ [\<lparr>gb_prop = pr, gb_granularity = granularity, gb_outputLabel = label, gb_originalToken = token\<rparr>]\<rparr>"

definition resolve_metric_part ::
  "catalog \<Rightarrow> QuerySpec \<Rightarrow> PropertyInfo list \<Rightarrow> string \<Rightarrow> ResolvedLakehouseQuery
     \<Rightarrow> resolve_error + ResolvedLakehouseQuery" where
  "resolve_metric_part cat spec allProps part rq =
     (case resolveMetricLakehouse cat (q_projectID spec) part allProps (q_objects spec) of
        Inr aggs \<Rightarrow> Inr (rq\<lparr>rq_aggregates := rq_aggregates rq @ aggs\<rparr>)
      | Inl (MetricAsGroupBy propName pr) \<Rightarrow>
          (case stripDateGranularity propName of (_, granularity, outputLabel) \<Rightarrow>
            if grouped_already spec pr then Inr rq else Inr (add_group pr granularity outputLabel propName rq))
      | Inl e \<Rightarrow> Inl e)"

definition resolve_metric ::
  "catalog \<Rightarrow> QuerySpec \<Rightarrow> PropertyInfo list \<Rightarrow> ResolvedLakehouseQuery
     \<Rightarrow> resolve_error + ResolvedLakehouseQuery" where
  "resolve_metric cat spec allProps rq =
     (if q_metric spec = [] then Inr rq
      else fold_steps (resolve_metric_part cat spec allProps) (splitCommaMetric (q_metric spec)) rq)"

subsection \<open>Groups\<close>

definition token_parts :: "string \<Rightarrow> string \<times> string" where
  "token_parts token =
     (case stripObjectPrefix token of (od, propName) \<Rightarrow> (od, if propName = [] then token else propName))"

definition resolve_groupBy ::
  "catalog \<Rightarrow> string \<Rightarrow> PropertyInfo list \<Rightarrow> string \<Rightarrow> ResolvedLakehouseQuery
     \<Rightarrow> resolve_error + ResolvedLakehouseQuery" where
  "resolve_groupBy cat project allProps g rq =
     (case token_parts g of (odName, propName) \<Rightarrow>
       (case (if odName \<noteq> [] then resolvePropertyInOD cat project odName propName allProps else None) of
          Some pr \<Rightarrow> Inr (add_group pr [] (pi_name pr) g rq)
        | None \<Rightarrow>
       (case resolvePropertyLakehouse cat project propName allProps of
          Inr pr \<Rightarrow> Inr (add_group pr [] (pi_name pr) g rq)
        | Inl _ \<Rightarrow>
            (case stripDateGranularity propName of (cleanName, granularity, outputLabel) \<Rightarrow>
              bind (resolvePropertyLakehouse cat project cleanName allProps) (\<lambda>pr.
                Inr (add_group pr granularity outputLabel g rq))))))"

subsection \<open>Filters\<close>

definition between_ok :: "string \<Rightarrow> bool" where
  "between_ok value =
     (case split_first CHR '','' value of
        None \<Rightarrow> False
      | Some (lo, hi) \<Rightarrow> trim_space lo \<noteq> [] \<and> trim_space hi \<noteq> [])"

definition resolve_filter_prop ::
  "catalog \<Rightarrow> string \<Rightarrow> PropertyInfo list \<Rightarrow> string \<Rightarrow> resolve_error + PropertyInfo" where
  "resolve_filter_prop cat project allProps token =
     (case token_parts token of (odName, propName) \<Rightarrow>
       (case (if odName \<noteq> [] then resolvePropertyInOD cat project odName propName allProps else None) of
          Some pr \<Rightarrow> Inr pr
        | None \<Rightarrow> resolvePropertyLakehouse cat project propName allProps))"

text \<open>The correction of an equality filter: the value to use, the fuzzy flag, the record of it, and
  the warnings.\<close>

definition correct_filter ::
  "keyword_tables option \<Rightarrow> string \<Rightarrow> PropertyInfo \<Rightarrow> FilterItem
     \<Rightarrow> string \<times> bool \<times> KeywordCorrection list \<times> string list" where
  "correct_filter corrector project pr f =
     (case corrector of
        Some kw \<Rightarrow>
          if fi_op f = ''='' \<and> \<not> fi_fuzzy f \<and> \<not> isNumericType (pi_dataType pr) \<and> \<not> isDateType (pi_dataType pr)
          then case Correct kw project pr (fi_value f) of (correctedVal, status) \<Rightarrow>
            (let code = status \<in> {''machineCode_passthrough'', ''machineCode_fuzzy''};
                 db = (if code then fi_value f else correctedVal);
                 value = (if \<not> code \<and> correctedVal \<noteq> [] \<and> \<not> equal_fold correctedVal (fi_value f)
                          then correctedVal else fi_value f)
             in (value, code,
                 [\<lparr>kc_prop = fi_prop f, kc_userValue = fi_value f, kc_dbValue = db, kc_status = status\<rparr>],
                 if status \<noteq> ''matched'' \<and> status \<noteq> ''no_match''
                 then [keyword_warning (fi_prop f) (fi_value f) db status] else []))
          else (fi_value f, fi_fuzzy f, [], [])
      | None \<Rightarrow> (fi_value f, fi_fuzzy f, [], []))"

definition add_filters ::
  "ResolvedFilter list \<Rightarrow> KeywordCorrection list \<Rightarrow> string list \<Rightarrow> ResolvedLakehouseQuery \<Rightarrow> ResolvedLakehouseQuery" where
  "add_filters fs kcs ws rq =
     rq\<lparr>rq_filterItems := rq_filterItems rq @ fs, rq_keywordCorrections := rq_keywordCorrections rq @ kcs,
        rq_warnings := rq_warnings rq @ ws\<rparr>"

definition resolve_filter ::
  "catalog \<Rightarrow> keyword_tables option \<Rightarrow> string \<Rightarrow> PropertyInfo list \<Rightarrow> FilterItem \<Rightarrow> ResolvedLakehouseQuery
     \<Rightarrow> resolve_error + ResolvedLakehouseQuery" where
  "resolve_filter cat corrector project allProps f rq =
     bind (resolve_filter_prop cat project allProps (fi_prop f)) (\<lambda>pr.
       if fi_op f \<noteq> [] \<and> \<not> isValidFilterOp (fi_op f) then Inl (InvalidFilterOp (fi_prop f) (fi_op f))
       else if equal_fold (trim_space (fi_op f)) ''between'' \<and> \<not> between_ok (fi_value f)
       then Inl (MalformedFilterValue (fi_prop f) (fi_value f))
       else case correct_filter corrector project pr f of (corrected, fuzzy, kcs, ws) \<Rightarrow>
         (case (if isDateType (pi_dataType pr) \<and> to_lower (trim_space (fi_op f)) \<in> {[], ''='', ''starts with''}
                then normalizePeriod (ct_year cat) (ct_month cat) (fi_value f) else None) of
            Some (st, en) \<Rightarrow>
              Inr (add_filters
                [\<lparr>rf_prop = pr, rf_op = ''>='', rf_value = st, rf_originalValue = fi_value f, rf_fuzzy = False\<rparr>,
                 \<lparr>rf_prop = pr, rf_op = ''<'', rf_value = en, rf_originalValue = fi_value f, rf_fuzzy = False\<rparr>]
                kcs (ws @ [period_warning (fi_prop f) (fi_value f) st en]) rq)
          | None \<Rightarrow>
              Inr (add_filters
                [\<lparr>rf_prop = pr, rf_op = fi_op f, rf_value = corrected, rf_originalValue = fi_value f,
                  rf_fuzzy = fuzzy\<rparr>] kcs ws rq)))"

subsection \<open>Order columns\<close>

definition order_dir :: "string \<Rightarrow> string" where
  "order_dir d = (let u = to_upper d in if u \<noteq> ''ASC'' \<and> u \<noteq> ''DESC'' then ''DESC'' else u)"

definition order_prop :: "string \<Rightarrow> string" where
  "order_prop raw =
     (let propName = snd (stripObjectPrefix (stripAggWrapper raw)) in if propName = [] then raw else propName)"

definition prefix_matches :: "string \<Rightarrow> ObjectInfo \<Rightarrow> bool" where
  "prefix_matches propName obj \<longleftrightarrow>
     (let pre = oi_name obj @ ''_'' in
      length pre < length propName \<and> equal_fold (take (length pre) propName) pre)"

text \<open>The aggregate a name refers to, and the name after the prefix of an object was dropped.\<close>

definition order_aggregate ::
  "ObjectInfo list \<Rightarrow> ResolvedAggregate list \<Rightarrow> string \<Rightarrow> nat option \<times> string" where
  "order_aggregate objects aggs propName =
     (case matchAggregateLabel propName aggs of
        Some i \<Rightarrow> (Some i, propName)
      | None \<Rightarrow>
          (case find (prefix_matches propName) objects of
             None \<Rightarrow> (None, propName)
           | Some obj \<Rightarrow>
               (let candidate = drop (length (oi_name obj) + 1) propName in
                case matchAggregateLabel candidate aggs of
                  Some i \<Rightarrow> (Some i, candidate)
                | None \<Rightarrow> (None, propName))))"

definition group_matches :: "string \<Rightarrow> ResolvedGroupBy \<Rightarrow> bool" where
  "group_matches propName gb \<longleftrightarrow>
     equal_fold (fst (stripDateGranularity propName)) (pi_name (gb_prop gb))
     \<or> equal_fold propName (gb_originalToken gb)"

definition add_order :: "OrderByKind \<Rightarrow> PropertyInfo option \<Rightarrow> int \<Rightarrow> string \<Rightarrow> string
    \<Rightarrow> ResolvedLakehouseQuery \<Rightarrow> ResolvedLakehouseQuery" where
  "add_order kind prop idx label dir rq =
     rq\<lparr>rq_orderByCols := rq_orderByCols rq
       @ [\<lparr>or_kind = kind, or_prop = prop, or_aggIndex = idx, or_label = label, or_dir = dir\<rparr>]\<rparr>"

definition resolve_orderBy ::
  "catalog \<Rightarrow> string \<Rightarrow> PropertyInfo list \<Rightarrow> OrderByItem \<Rightarrow> ResolvedLakehouseQuery \<Rightarrow> ResolvedLakehouseQuery" where
  "resolve_orderBy cat project allProps ob rq =
     (let dir = order_dir (ob_dir ob) in
      case order_aggregate (rq_objects rq) (rq_aggregates rq) (order_prop (ob_prop ob)) of
        (Some i, _) \<Rightarrow> add_order OrderByAggregate None (int i) [] dir rq
      | (None, propName) \<Rightarrow>
          (case find (group_matches propName) (rq_groupByCols rq) of
             Some gb \<Rightarrow>
               add_order OrderByCustomLabel None 0
                 (if gb_outputLabel gb = [] then pi_name (gb_prop gb) else gb_outputLabel gb) dir rq
           | None \<Rightarrow>
               (case resolvePropertyLakehouse cat project propName allProps of
                  Inr pr \<Rightarrow> add_order OrderByProp (Some pr) 0 [] dir rq
                | Inl e \<Rightarrow>
                    if length (rq_aggregates rq) = 1 then add_order OrderByAggregate None 0 [] dir rq
                    else rq\<lparr>rq_warnings := rq_warnings rq @ [order_warning (ob_prop ob) e]\<rparr>)))"

subsection \<open>The final gate\<close>

text \<open>The map from object names to unmatched properties: a later object of the same name with
  unmatched properties wins.\<close>

definition unmatchedByOd :: "ObjectInfo list \<Rightarrow> string \<Rightarrow> string list" where
  "unmatchedByOd objects name =
     (case find (\<lambda>ob. oi_name ob = name \<and> oi_unmatchedProps ob \<noteq> []) (rev objects) of
        Some ob \<Rightarrow> oi_unmatchedProps ob | None \<Rightarrow> [])"

definition actualByOd :: "ObjectInfo list \<Rightarrow> string \<Rightarrow> string list" where
  "actualByOd objects name =
     (case find (\<lambda>ob. oi_name ob = name \<and> oi_actualColumns ob \<noteq> []) (rev objects) of
        Some ob \<Rightarrow> oi_actualColumns ob | None \<Rightarrow> [])"

definition check_mapped :: "ObjectInfo list \<Rightarrow> PropertyInfo \<Rightarrow> unit \<Rightarrow> resolve_error + unit" where
  "check_mapped objects pr u =
     (if pi_name pr = [] \<or> pi_objectName pr = [] \<or> pi_name pr \<notin> set (unmatchedByOd objects (pi_objectName pr))
      then Inr ()
      else Inl (ColumnNotInCanonical (pi_objectName pr) (pi_name pr) (actualByOd objects (pi_objectName pr))))"

text \<open>The properties a resolved query refers to, in the order they are checked.\<close>

definition referenced_props :: "ResolvedLakehouseQuery \<Rightarrow> PropertyInfo list" where
  "referenced_props rq =
     map rf_prop (rq_filterItems rq) @ map gb_prop (rq_groupByCols rq)
     @ List.map_filter ag_prop (rq_aggregates rq) @ List.map_filter or_prop (rq_orderByCols rq)"

definition validateAllPropsMapped :: "ResolvedLakehouseQuery \<Rightarrow> resolve_error + unit" where
  "validateAllPropsMapped rq = fold_steps (check_mapped (rq_objects rq)) (referenced_props rq) ()"

subsection \<open>The whole resolution\<close>

definition initial_query :: "QuerySpec \<Rightarrow> ResolvedLakehouseQuery" where
  "initial_query spec =
     \<lparr>rq_projectID = q_projectID spec, rq_objects = [], rq_allProps = [], rq_groupByCols = [],
      rq_filterItems = [], rq_aggregates = [], rq_orderByCols = [], rq_derived = q_derived spec,
      rq_metricFilter = q_metricFilter spec, rq_keywordCorrections = [],
      rq_limit = (if q_limit spec \<le> 0 then 1000 else q_limit spec), rq_warnings = [],
      rq_denseGroups = q_denseGroups spec, rq_addShareColumn = q_addShareColumn spec,
      rq_shareLabel = q_shareLabel spec\<rparr>"

definition with_count :: "ResolvedLakehouseQuery \<Rightarrow> ResolvedLakehouseQuery" where
  "with_count rq =
     (if rq_aggregates rq = [] \<and> rq_groupByCols rq \<noteq> [] then rq\<lparr>rq_aggregates := [count_rows]\<rparr> else rq)"

text \<open>Everything after the objects are loaded: metric, groups, filters, order, count, final gate.\<close>

definition resolve_parts ::
  "catalog \<Rightarrow> keyword_tables option \<Rightarrow> QuerySpec \<Rightarrow> PropertyInfo list \<Rightarrow> ResolvedLakehouseQuery
     \<Rightarrow> resolve_error + ResolvedLakehouseQuery" where
  "resolve_parts cat corrector spec allProps rq =
     bind (resolve_metric cat spec allProps rq) (\<lambda>rq.
     bind (fold_steps (resolve_groupBy cat (q_projectID spec) allProps) (q_groupBy spec) rq) (\<lambda>rq.
     bind (fold_steps (resolve_filter cat corrector (q_projectID spec) allProps) (q_filters spec) rq) (\<lambda>rq.
       let rq = with_count (fold (resolve_orderBy cat (q_projectID spec) allProps) (q_orderBy spec) rq)
       in bind (validateAllPropsMapped rq) (\<lambda>_. Inr rq))))"

definition ResolveQuery ::
  "catalog \<Rightarrow> keyword_tables option \<Rightarrow> QuerySpec \<Rightarrow> resolve_error + ResolvedLakehouseQuery" where
  "ResolveQuery cat corrector spec0 =
     (let spec = spec0\<lparr>q_objects := augmentObjectsFromRefs (q_objects spec0) (q_filters spec0)
                        (q_orderBy spec0) (q_groupBy spec0)\<rparr> in
      bind (loadLakehouseObjects cat (q_projectID spec) (q_objects spec)) (\<lambda>(objects, allProps).
        if objects = [] then Inl (ObjectNotFound (q_objects spec))
        else case find (\<lambda>ob. oi_canonicalQuery ob = []) objects of
          Some ob \<Rightarrow> Inl (NoCanonicalQuery (oi_name ob))
        | None \<Rightarrow>
            resolve_parts cat corrector spec allProps
              ((initial_query spec)\<lparr>rq_objects := objects, rq_allProps := allProps\<rparr>)))"

end
