(* ===== verification/Sql_V2.thy ===== *)
theory Sql_V2
  imports Sql_Dense
begin

text \<open>
  The expression-tree builder (\<open>lakehouse/sql_builder_v2.go\<close>). The calls to the query library goqu
  build a dataset; here they build a value of \<open>dataset\<close>, one constructor per call, and the rendering
  of a dataset (\<open>ToSQL\<close>, code of the library) is a parameter. \<open>GLit\<close> is \<open>goqu.L\<close>, the only
  constructor whose text reaches the SQL unescaped; a value of the user in \<open>GVal\<close> is rendered as a
  literal, a name in \<open>GIdent\<close> as a quoted identifier.
\<close>

section \<open>Expressions and datasets\<close>

datatype gexp =
    GIdent string
  | GTable string
  | GLit string "gexp list"
  | GVal string
  | GCast gexp string
  | GFunc string "gexp list"
  | GAs gexp gexp
  | GCompare string gexp gexp
  | GIn gexp "gexp list"
  | GNotIn gexp "gexp list"
  | GBetween gexp gexp gexp
  | GIsNull gexp
  | GIsNotNull gexp
  | GAnd "gexp list"
  | GOr "gexp list"
  | GDesc gexp
  | GAsc gexp

record dataset =
  gd_from :: gexp
  gd_joins :: "(gexp \<times> gexp) list"
  gd_select :: "gexp list"
  gd_where :: "gexp option"
  gd_groupBy :: "gexp list"
  gd_having :: "gexp option"
  gd_order :: "gexp list"
  gd_limit :: "nat option"

datatype BuildMode = BuildPhysical | BuildOntology

section \<open>Sources and columns\<close>

definition fromSource :: "ObjectInfo \<Rightarrow> BuildMode \<Rightarrow> gexp" where
  "fromSource obj mode =
     (case mode of
        BuildOntology \<Rightarrow> GTable (oi_name obj)
      | BuildPhysical \<Rightarrow> GLit (''('' @ oi_canonicalQuery obj @ '') AS '' @ quoteIdent (oi_name obj)) [])"

definition odCol :: "string \<Rightarrow> string \<Rightarrow> gexp" where
  "odCol alias col = GIdent (alias @ ''.'' @ col)"

definition propCol :: "PropertyInfo \<Rightarrow> string \<Rightarrow> bool \<Rightarrow> gexp" where
  "propCol p alias multi = odCol (if multi then pi_objectName p else alias) (pi_columnName p)"

definition dateGranExpr :: "gexp \<Rightarrow> string \<Rightarrow> gexp" where
  "dateGranExpr col format = GLit ''TO_CHAR(? :: timestamp, ?)'' [col, GVal format]"

definition star :: gexp where
  "star = GLit ''*'' []"

section \<open>SELECT and GROUP BY\<close>

definition label_count :: "ResolvedLakehouseQuery \<Rightarrow> string \<Rightarrow> nat" where
  "label_count rq l =
     length (filter (\<lambda>gb. gb_granularity gb = [] \<and> pi_name (gb_prop gb) = l) (rq_groupByCols rq))"

definition select_label :: "ResolvedLakehouseQuery \<Rightarrow> PropertyInfo \<Rightarrow> string" where
  "select_label rq p =
     (if 1 < label_count rq (pi_name p) \<and> pi_objectName p \<noteq> []
      then pi_objectName p @ ''.'' @ pi_name p else pi_name p)"

definition select_group :: "ResolvedLakehouseQuery \<Rightarrow> string \<Rightarrow> bool \<Rightarrow> ResolvedGroupBy \<Rightarrow> gexp" where
  "select_group rq alias multi gb =
     (let col = propCol (gb_prop gb) alias multi in
      if gb_granularity gb \<noteq> []
      then GAs (dateGranExpr col (gb_granularity gb)) (GIdent (gb_outputLabel gb))
      else GAs col (GIdent (select_label rq (gb_prop gb))))"

text \<open>The aggregate function a name stands for, applied to \<open>arg\<close> (the cast column, where the source
  casts) or to the column.\<close>

definition agg_call :: "string \<Rightarrow> gexp \<Rightarrow> gexp \<Rightarrow> gexp" where
  "agg_call fn arg col =
     (if fn = ''SUM'' then GFunc ''SUM'' [arg]
      else if fn = ''AVG'' \<or> fn = ''AVERAGE'' then GFunc ''AVG'' [arg]
      else if fn = ''MIN'' then GFunc ''MIN'' [arg]
      else if fn = ''MAX'' then GFunc ''MAX'' [arg]
      else if fn = ''COUNT'' then GFunc ''COUNT'' [col]
      else if fn = ''DISTINCTCOUNT'' then GFunc ''COUNT'' [GLit ''DISTINCT ?'' [col]]
      else GFunc ''SUM'' [arg])"

definition aggExprV2 :: "ResolvedAggregate \<Rightarrow> string \<Rightarrow> bool \<Rightarrow> gexp" where
  "aggExprV2 agg alias multi =
     (case ag_kind agg of
        AggCountRows \<Rightarrow>
          GAs (GFunc ''COUNT'' [star]) (GIdent (if ag_label agg = [] then ''Count'' else ag_label agg))
      | AggCustomSQL \<Rightarrow> GAs (GLit (''('' @ ag_expr agg @ '')'') []) (GIdent (ag_label agg))
      | AggStandard \<Rightarrow>
          (case ag_prop agg of
             None \<Rightarrow> GAs (GFunc ''COUNT'' [star]) (GIdent ''Count'')
           | Some p \<Rightarrow>
               let col = propCol p alias multi;
                   fn = to_upper (ag_func agg);
                   label = (if ag_label agg = [] then ''Total_'' @ pi_name p else ag_label agg);
                   aggCol = (if fn \<in> set [''SUM'', ''AVG'', ''AVERAGE'', ''MIN'', ''MAX'']
                               \<and> isNumericType (pi_dataType p)
                             then GCast col ''numeric'' else col)
               in GAs (agg_call fn aggCol col) (GIdent label))
      | AggDerivedRef \<Rightarrow> GAs (GFunc ''COUNT'' [star]) (GIdent ''Count''))"

definition selectExprsV2 :: "ResolvedLakehouseQuery \<Rightarrow> string \<Rightarrow> bool \<Rightarrow> gexp list" where
  "selectExprsV2 rq alias multi =
     map (select_group rq alias multi) (rq_groupByCols rq)
     @ map (\<lambda>agg. aggExprV2 agg alias multi) (rq_aggregates rq)"

definition groupByExprsV2 :: "ResolvedLakehouseQuery \<Rightarrow> string \<Rightarrow> bool \<Rightarrow> gexp list" where
  "groupByExprsV2 rq alias multi =
     map (\<lambda>gb. let col = propCol (gb_prop gb) alias multi in
            if gb_granularity gb \<noteq> [] then dateGranExpr col (gb_granularity gb) else col)
       (rq_groupByCols rq)"

section \<open>HAVING\<close>

text \<open>The comparisons of goqu; identifiers, functions and literals all implement them, so the fallback
  of the source for other expressions does not occur.\<close>

definition compareExpr :: "gexp \<Rightarrow> string \<Rightarrow> string \<Rightarrow> bool \<Rightarrow> gexp" where
  "compareExpr left op value num =
     (let right = (if num then GLit value [] else GVal value) in
      if op \<in> set [''>'', ''>='', ''<'', ''<=''] then GCompare op left right
      else if op \<in> set [''<>'', ''!=''] then GCompare ''<>'' left right
      else GCompare ''='' left right)"

definition aggExprNoAlias :: "ResolvedAggregate \<Rightarrow> gexp option" where
  "aggExprNoAlias agg =
     (case ag_kind agg of
        AggCountRows \<Rightarrow> Some (GFunc ''COUNT'' [star])
      | AggCustomSQL \<Rightarrow> Some (GLit (''('' @ ag_expr agg @ '')'') [])
      | AggStandard \<Rightarrow>
          (case ag_prop agg of
             None \<Rightarrow> Some (GFunc ''COUNT'' [star])
           | Some p \<Rightarrow>
               let col = odCol (pi_objectName p) (pi_columnName p)
               in Some (agg_call (to_upper (ag_func agg)) col col))
      | AggDerivedRef \<Rightarrow> None)"

definition havingExprV2 :: "ResolvedLakehouseQuery \<Rightarrow> gexp option" where
  "havingExprV2 rq =
     (case rq_metricFilter rq of
        None \<Rightarrow> None
      | Some mf \<Rightarrow>
          if mf_op mf = [] \<or> mf_value mf = [] \<or> rq_aggregates rq = [] then None
          else map_option (\<lambda>e. compareExpr e (mf_op mf) (mf_value mf) True)
                 (aggExprNoAlias (hd (rq_aggregates rq))))"

section \<open>ORDER BY\<close>

definition orderByRefV2 :: "ResolvedOrderBy \<Rightarrow> ResolvedLakehouseQuery \<Rightarrow> string \<Rightarrow> bool \<Rightarrow> gexp" where
  "orderByRefV2 ob rq alias multi =
     (case or_kind ob of
        OrderByProp \<Rightarrow>
          (case or_prop ob of Some p \<Rightarrow> propCol p alias multi | None \<Rightarrow> GIdent (or_label ob))
      | OrderByAggregate \<Rightarrow>
          (case agg_at rq (or_aggIndex ob) of Some agg \<Rightarrow> GIdent (ag_label agg) | None \<Rightarrow> GIdent ''Count'')
      | OrderByCustomLabel \<Rightarrow> GIdent (or_label ob))"

definition orderByExprsV2 :: "ResolvedLakehouseQuery \<Rightarrow> string \<Rightarrow> bool \<Rightarrow> gexp list" where
  "orderByExprsV2 rq alias multi =
     map (\<lambda>ob. let ref = orderByRefV2 ob rq alias multi in
            if equal_fold (or_dir ob) ''DESC'' then GDesc ref else GAsc ref) (rq_orderByCols rq)"

section \<open>WHERE\<close>

definition bug_marker_v2 :: string where
  "bug_marker_v2 = ''FALSE /* SMARTQUERY-BUG: unhandled filter operator reached filterCondExprV2 default ''
     @ [CHR 0xE2, CHR 0x80, CHR 0x94] @ '' sync isValidFilterOp() with this switch */''"

definition list_items :: "string \<Rightarrow> gexp list" where
  "list_items v = map (GVal \<circ> trim_space) (split_on CHR '','' v)"

definition filterCondExprV2 :: "gexp \<Rightarrow> ResolvedFilter \<Rightarrow> gexp option" where
  "filterCondExprV2 col f =
     (let op0 = to_lower (trim_space (rf_op f));
          op = (if op0 = [] then ''='' else op0);
          textCol = GCast col ''TEXT'';
          v = rf_value f
      in
      if op = ''='' then Some
        (if rf_fuzzy f then GCompare ''ILIKE'' textCol (GVal (''%'' @ v @ ''%''))
         else if \<not> numeric f then GCompare ''ILIKE'' textCol (GVal v)
         else GCompare ''='' col (GVal v))
      else if op = ''<>'' \<or> op = ''!='' then Some
        (if \<not> numeric f then GCompare ''NOT ILIKE'' textCol (GVal v) else GCompare ''<>'' col (GVal v))
      else if op \<in> set [''>'', ''>='', ''<'', ''<=''] then Some (compareExpr col op v (numeric f))
      else if op = ''contains'' then Some (GCompare ''ILIKE'' textCol (GVal (''%'' @ v @ ''%'')))
      else if op = ''not contains'' then Some (GCompare ''NOT ILIKE'' textCol (GVal (''%'' @ v @ ''%'')))
      else if op = ''starts with'' then Some (GCompare ''ILIKE'' textCol (GVal (v @ ''%'')))
      else if op = ''ends with'' then Some (GCompare ''ILIKE'' textCol (GVal (''%'' @ v)))
      else if op = ''like'' then Some (GCompare ''ILIKE'' textCol (GVal v))
      else if op = ''not like'' then Some (GCompare ''NOT ILIKE'' textCol (GVal v))
      else if op = ''is blank'' then Some (GOr [GIsNull col, GCompare ''='' textCol (GVal [])])
      else if op = ''is not blank'' then Some (GAnd [GIsNotNull col, GCompare ''<>'' textCol (GVal [])])
      else if op = ''between'' then
        (case split_first CHR '','' v of
           None \<Rightarrow> None
         | Some (lo, hi) \<Rightarrow>
             if numeric f then Some (GBetween col (GLit (trim_space lo) []) (GLit (trim_space hi) []))
             else Some (GBetween col (GVal (trim_space lo)) (GVal (trim_space hi))))
      else if op = ''in'' then Some (GIn col (list_items v))
      else if op = ''not in'' then Some (GNotIn col (list_items v))
      else Some (GLit bug_marker_v2 []))"

text \<open>A conjunction of the conditions there are.\<close>

definition conjunction :: "gexp list \<Rightarrow> gexp option" where
  "conjunction es = (case es of [] \<Rightarrow> None | [e] \<Rightarrow> Some e | _ \<Rightarrow> Some (GAnd es))"

definition filterGroupExprV2 :: "gexp \<Rightarrow> ResolvedFilter list \<Rightarrow> gexp option" where
  "filterGroupExprV2 col filters =
     (case filters of
        [] \<Rightarrow> None
      | [f] \<Rightarrow> filterCondExprV2 col f
      | f # _ \<Rightarrow>
          if list_all (\<lambda>g. rf_op g = ''='') filters \<and> \<not> rf_fuzzy f
          then Some (if \<not> numeric f
            then GIn (GFunc ''LOWER'' [GCast col ''TEXT'']) (map (\<lambda>g. GFunc ''LOWER'' [GVal (rf_value g)]) filters)
            else GIn col (map (GVal \<circ> rf_value) filters))
          else conjunction (List.map_filter (filterCondExprV2 col) filters))"

definition whereExprV2 :: "ResolvedFilter list \<Rightarrow> string \<Rightarrow> bool \<Rightarrow> gexp option" where
  "whereExprV2 filters alias multi =
     conjunction (List.map_filter (\<lambda>g. filterGroupExprV2 (propCol (fg_prop g) alias multi) (fg_filters g))
       (groupFilters filters))"

section \<open>Datasets\<close>

text \<open>Every clause but the source is the same for one object and for several.\<close>

definition with_clauses ::
  "gexp \<Rightarrow> (gexp \<times> gexp) list \<Rightarrow> ResolvedLakehouseQuery \<Rightarrow> string \<Rightarrow> bool \<Rightarrow> dataset" where
  "with_clauses src joins rq alias multi =
     \<lparr>gd_from = src, gd_joins = joins,
      gd_select = (let sel = selectExprsV2 rq alias multi in if sel = [] then [star] else sel),
      gd_where = whereExprV2 (rq_filterItems rq) alias multi,
      gd_groupBy = groupByExprsV2 rq alias multi,
      gd_having = havingExprV2 rq,
      gd_order = orderByExprsV2 rq alias multi,
      gd_limit = (if 0 < rq_limit rq then Some (nat (rq_limit rq)) else None)\<rparr>"

type_synonym renderer = "dataset \<Rightarrow> ResolveError + string"

definition wrapShareColumnV2 :: "string \<Rightarrow> ResolvedLakehouseQuery \<Rightarrow> string" where
  "wrapShareColumnV2 innerSQL rq =
     share_select (ag_label (hd (rq_aggregates rq))) (share_label rq) innerSQL"

definition render_query :: "renderer \<Rightarrow> ResolvedLakehouseQuery \<Rightarrow> dataset \<Rightarrow> ResolveError + string" where
  "render_query ToSQL rq ds =
     (case ToSQL ds of
        Inl e \<Rightarrow> Inl e
      | Inr sql \<Rightarrow>
          Inr (if rq_addShareColumn rq \<and> rq_aggregates rq \<noteq> [] then wrapShareColumnV2 sql rq else sql))"

definition single_dataset :: "ResolvedLakehouseQuery \<Rightarrow> BuildMode \<Rightarrow> dataset" where
  "single_dataset rq mode =
     (let obj = hd (rq_objects rq)
      in with_clauses (fromSource obj mode) [] rq (oi_name obj) False)"

definition buildSingleOdV2 :: "renderer \<Rightarrow> ResolvedLakehouseQuery \<Rightarrow> BuildMode \<Rightarrow> ResolveError + string" where
  "buildSingleOdV2 ToSQL rq mode = render_query ToSQL rq (single_dataset rq mode)"

text \<open>The joins, with the object each of them adds. The objects joined so far are a set in the source.\<close>

fun join_loop ::
  "(string \<Rightarrow> ObjectInfo option) \<Rightarrow> JoinEdge list \<Rightarrow> string list
     \<Rightarrow> ResolveError + (ObjectInfo \<times> gexp) list" where
  "join_loop objMap [] joined = Inr []"
| "join_loop objMap (edge # es) joined =
     (case (if je_fromOd edge \<in> set joined \<and> je_toOd edge \<notin> set joined
            then Some (je_fromOd edge, je_fromProp edge, je_toOd edge, je_toProp edge)
            else if je_toOd edge \<in> set joined \<and> je_fromOd edge \<notin> set joined
            then Some (je_toOd edge, je_toProp edge, je_fromOd edge, je_fromProp edge)
            else None) of
        None \<Rightarrow> join_loop objMap es joined
      | Some (existingOd, existingProp, newOd, newProp) \<Rightarrow>
          (case objMap newOd of
             None \<Rightarrow> Inl (resolve_error ''INTERMEDIATE_OD_MISSING'' newOd)
           | Some newObj \<Rightarrow>
               (case join_loop objMap es (newOd # joined) of
                  Inl e \<Rightarrow> Inl e
                | Inr js \<Rightarrow>
                    Inr ((newObj, GCompare ''='' (odCol existingOd existingProp) (odCol newOd newProp)) # js))))"

definition multi_dataset ::
  "ResolvedLakehouseQuery \<Rightarrow> JoinEdge list \<Rightarrow> BuildMode \<Rightarrow> ResolveError + dataset" where
  "multi_dataset rq joinPath mode =
     (let firstObj = hd (rq_objects rq) in
      case join_loop (odByName rq) joinPath [oi_name firstObj] of
        Inl e \<Rightarrow> Inl e
      | Inr js \<Rightarrow>
          Inr (with_clauses (fromSource firstObj mode) (map (\<lambda>(ob, on). (fromSource ob mode, on)) js) rq [] True))"

definition buildMultiOdV2 ::
  "renderer \<Rightarrow> ResolvedLakehouseQuery \<Rightarrow> JoinEdge list \<Rightarrow> BuildMode \<Rightarrow> ResolveError + string" where
  "buildMultiOdV2 ToSQL rq joinPath mode =
     (case multi_dataset rq joinPath mode of
        Inl e \<Rightarrow> Inl e
      | Inr ds \<Rightarrow> render_query ToSQL rq ds)"

section \<open>Dispatch\<close>

text \<open>The text of the dense builder's error, which the warning quotes, and the order in which Go
  iterates a map of labels are parameters.\<close>

definition dense_warning :: "(ResolveError \<Rightarrow> string) \<Rightarrow> ResolveError \<Rightarrow> string" where
  "dense_warning error_text e = ''dense GROUP BY mode ''
     @ [CHR 0xE6, CHR 0x9C, CHR 0xAA, CHR 0xE5, CHR 0x90, CHR 0xAF, CHR 0xE7, CHR 0x94, CHR 0xA8,
        CHR 0xEF, CHR 0xBC, CHR 0x88, CHR 0xE5, CHR 0x9B, CHR 0x9E, CHR 0xE8, CHR 0x90, CHR 0xBD,
        CHR 0xE5, CHR 0x88, CHR 0xB0, CHR 0xE5, CHR 0xB8, CHR 0xB8, CHR 0xE8, CHR 0xA7, CHR 0x84]
     @ '' SQL'' @ [CHR 0xEF, CHR 0xBC, CHR 0x89] @ '': '' @ error_text e"

record builder =
  b_ToSQL :: renderer
  b_error_text :: "ResolveError \<Rightarrow> string"
  b_map_order :: "label_set \<Rightarrow> label_set"

text \<open>The result, and the query with the warnings the builder may have added to it.\<close>

definition BuildLayerV2 ::
  "builder \<Rightarrow> ResolvedLakehouseQuery \<Rightarrow> JoinEdge list \<Rightarrow> BuildMode
     \<Rightarrow> (ResolveError + string) \<times> ResolvedLakehouseQuery" where
  "BuildLayerV2 b rq joinPath mode =
     (if rq_objects rq = [] then (Inl (resolve_error ''OBJECT_NOT_FOUND'' []), rq)
      else
        let plain = (\<lambda>rq. if length (rq_objects rq) = 1 then buildSingleOdV2 (b_ToSQL b) rq mode
                          else buildMultiOdV2 (b_ToSQL b) rq joinPath mode)
        in if isDenseApplicable rq
           then (case buildDenseSQL rq joinPath (mode = BuildOntology) of
                   Inr sql \<Rightarrow> (Inr sql, rq)
                 | Inl e \<Rightarrow>
                     let rq = (if mode = BuildPhysical
                               then rq\<lparr>rq_warnings := rq_warnings rq @ [dense_warning (b_error_text b) e]\<rparr>
                               else rq)
                     in (plain rq, rq))
           else (plain rq, rq))"

definition BuildSQLV2 ::
  "builder \<Rightarrow> ResolvedLakehouseQuery \<Rightarrow> JoinEdge list \<Rightarrow> (ResolveError + string) \<times> ResolvedLakehouseQuery" where
  "BuildSQLV2 b rq joinPath = BuildLayerV2 b rq joinPath BuildPhysical"

definition BuildOntologySQLV2 ::
  "builder \<Rightarrow> ResolvedLakehouseQuery \<Rightarrow> JoinEdge list \<Rightarrow> (ResolveError + string) \<times> ResolvedLakehouseQuery" where
  "BuildOntologySQLV2 b rq joinPath = BuildLayerV2 b rq joinPath BuildOntology"

definition wrapDerivedV2 ::
  "(label_set \<Rightarrow> label_set) \<Rightarrow> string \<Rightarrow> ResolvedLakehouseQuery \<Rightarrow> string" where
  "wrapDerivedV2 ord innerSQL rq =
     ''SELECT sub.*''
     @ concat (map (\<lambda>d. '','' @ line_feed @ ''  ''
         @ wrapDivisionSafety (dm_expression d) (ord (labelSet (rq_aggregates rq)))
         @ '' AS '' @ quoteIdent (dm_name d)) (rq_derived rq))
     @ line_feed @ ''FROM ('' @ line_feed @ innerSQL @ line_feed @ '') sub''
     @ (if rq_orderByCols rq \<noteq> []
        then line_feed @ ''ORDER BY ''
          @ join_str '', '' (map (\<lambda>ob. orderByRefDerived ob rq @ '' '' @ or_dir ob) (rq_orderByCols rq))
        else [])
     @ limit_clause (rq_limit rq)"

definition BuildWithDerivedV2 ::
  "builder \<Rightarrow> ResolvedLakehouseQuery \<Rightarrow> JoinEdge list \<Rightarrow> (ResolveError + string) \<times> ResolvedLakehouseQuery" where
  "BuildWithDerivedV2 b rq joinPath =
     (if rq_derived rq = [] then BuildSQLV2 b rq joinPath
      else case BuildSQLV2 b (rq\<lparr>rq_limit := 0, rq_orderByCols := []\<rparr>) joinPath of
        (res, rq') \<Rightarrow>
          let rq'' = rq'\<lparr>rq_limit := rq_limit rq, rq_orderByCols := rq_orderByCols rq\<rparr> in
          ((case res of Inl e \<Rightarrow> Inl e | Inr innerSQL \<Rightarrow> Inr (wrapDerivedV2 (b_map_order b) innerSQL rq'')), rq''))"

end
