(* ===== verification/Sql_Executor.thy ===== *)
theory Sql_Executor
  imports Prelude
begin

text \<open>
  Running a query (\<open>lakehouse/executor.go\<close>): the transaction with its session settings, the query, and
  the conversion of the rows. The database is a parameter; it answers a statement knowing the
  statements of the transaction so far. Durations are not modelled, nor is the log line for a row that
  cannot be scanned.
\<close>

section \<open>Statements and the database\<close>

datatype sql_value = VBytes string | VOther json

text \<open>An argument is a scalar, a list of strings, or such a list wrapped for the driver.\<close>

datatype sql_arg = ArgScalar json | ArgStrings "string list" | ArgArray "string list"

datatype statement = StBegin | StExec string | StQuery string "sql_arg list" | StRollback

record database =
  db_schema :: "string \<Rightarrow> string + string"
  db_begin :: "string option"
  db_exec :: "statement list \<Rightarrow> string \<Rightarrow> string option"
  db_query :: "statement list \<Rightarrow> string \<Rightarrow> sql_arg list \<Rightarrow> string + (string + string list) \<times> sql_value list option list"
  db_marshal :: "(string \<times> json) list list \<Rightarrow> string + string"
  db_quote :: "string \<Rightarrow> string"

datatype sql_failure =
    ProjectNotFound string
  | SchemaMissing
  | BeginFailed string
  | SearchPathFailed string
  | ReadOnlyFailed string
  | QueryRejected string
  | ColumnsFailed string
  | MarshalFailed string

section \<open>Guards\<close>

definition readOnlyStatementTimeoutMs :: nat where
  "readOnlyStatementTimeoutMs = 30000"

definition read_only_stmt :: string where
  "read_only_stmt = ''SET LOCAL transaction_read_only = on''"

definition timeout_stmt :: "nat \<Rightarrow> string" where
  "timeout_stmt ms = ''SET LOCAL statement_timeout = '' @ show_nat ms"

text \<open>The error, if any, and the statements of the transaction afterwards.\<close>

definition applyReadOnlyGuards :: "database \<Rightarrow> nat \<Rightarrow> statement list \<Rightarrow> string option \<times> statement list" where
  "applyReadOnlyGuards db timeoutMs hist =
     (let hist1 = hist @ [StExec read_only_stmt] in
      case db_exec db hist read_only_stmt of
        Some e \<Rightarrow> (Some (''set read-only: '' @ e), hist1)
      | None \<Rightarrow>
          (let hist2 = hist1 @ [StExec (timeout_stmt timeoutMs)] in
           case db_exec db hist1 (timeout_stmt timeoutMs) of
             Some e \<Rightarrow> (Some (''set statement_timeout: '' @ e), hist2)
           | None \<Rightarrow> (None, hist2)))"

section \<open>Rows\<close>

definition json_value :: "sql_value \<Rightarrow> json" where
  "json_value v = (case v of VBytes b \<Rightarrow> JStr b | VOther j \<Rightarrow> j)"

text \<open>A row becomes a map from column names; of equal names the last one counts.\<close>

definition row_map :: "string list \<Rightarrow> sql_value list \<Rightarrow> (string \<times> json) list" where
  "row_map cols vals = foldl (\<lambda>m (c, v). AList.update c (json_value v) m) [] (zip cols vals)"

text \<open>Rows that cannot be scanned (\<open>None\<close>) are left out.\<close>

definition scan_rows :: "string list \<Rightarrow> sql_value list option list \<Rightarrow> (string \<times> json) list list" where
  "scan_rows cols rows = List.map_filter (map_option (row_map cols)) rows"

section \<open>The two entry points\<close>

definition search_path_stmt :: "database \<Rightarrow> string \<Rightarrow> string" where
  "search_path_stmt db schema = ''SET LOCAL search_path TO '' @ db_quote db schema @ '', public''"

text \<open>The query and its rows, with the history of the transaction before the final rollback.\<close>

definition run_query :: "database \<Rightarrow> string \<Rightarrow> sql_arg list \<Rightarrow> statement list \<Rightarrow> sql_failure + string" where
  "run_query db sqlQuery args hist =
     (case db_query db hist sqlQuery args of
        Inl e \<Rightarrow> Inl (QueryRejected e)
      | Inr (Inl e, rows) \<Rightarrow> Inl (ColumnsFailed e)
      | Inr (Inr cols, rows) \<Rightarrow>
          (case db_marshal db (scan_rows cols rows) of Inl e \<Rightarrow> Inl (MarshalFailed e) | Inr b \<Rightarrow> Inr b))"

text \<open>The result, and everything that was sent to the database. The rollback is deferred.\<close>

definition sandboxed ::
  "database \<Rightarrow> string \<Rightarrow> string \<Rightarrow> sql_arg list \<Rightarrow> (sql_failure + string) \<times> statement list" where
  "sandboxed db projectID sqlQuery args =
     (case db_schema db projectID of
        Inl e \<Rightarrow> (Inl (ProjectNotFound e), [])
      | Inr schema \<Rightarrow>
          if schema = [] then (Inl SchemaMissing, [])
          else case db_begin db of
            Some e \<Rightarrow> (Inl (BeginFailed e), [])
          | None \<Rightarrow>
              (let path = search_path_stmt db schema; hist = [StBegin, StExec path] in
               case db_exec db [StBegin] path of
                 Some e \<Rightarrow> (Inl (SearchPathFailed e), hist @ [StRollback])
               | None \<Rightarrow>
                   (case applyReadOnlyGuards db readOnlyStatementTimeoutMs hist of
                      (Some e, hist') \<Rightarrow> (Inl (ReadOnlyFailed e), hist' @ [StRollback])
                    | (None, hist') \<Rightarrow>
                        (run_query db sqlQuery args hist', hist' @ [StQuery sqlQuery args, StRollback]))))"

definition ExecuteSQL :: "database \<Rightarrow> string \<Rightarrow> string \<Rightarrow> (sql_failure + string) \<times> statement list" where
  "ExecuteSQL db projectID sqlQuery = sandboxed db projectID sqlQuery []"

text \<open>A list of strings is wrapped into an array of the driver before it is bound.\<close>

fun wrap_arg :: "sql_arg \<Rightarrow> sql_arg" where
  "wrap_arg (ArgStrings s) = ArgArray s"
| "wrap_arg (ArgScalar j) = ArgScalar j"
| "wrap_arg (ArgArray s) = ArgArray s"

definition ExecuteSQLParams ::
  "database \<Rightarrow> string \<Rightarrow> string \<Rightarrow> sql_arg list \<Rightarrow> (sql_failure + string) \<times> statement list" where
  "ExecuteSQLParams db projectID sqlQuery args = sandboxed db projectID sqlQuery (map wrap_arg args)"

section \<open>The sandbox\<close>

text \<open>What a transaction of the executor looks like: a prefix of the settings in their order, each of
  which succeeded before the next one, and the query only after all of them.\<close>

definition settings :: "database \<Rightarrow> string \<Rightarrow> statement list" where
  "settings db schema = [StExec (search_path_stmt db schema), StExec read_only_stmt,
     StExec (timeout_stmt readOnlyStatementTimeoutMs)]"

definition accepted :: "database \<Rightarrow> statement list \<Rightarrow> bool" where
  "accepted db hist \<longleftrightarrow>
     (\<forall>i < length hist. case hist ! i of StExec s \<Rightarrow> db_exec db (take i hist) s = None | _ \<Rightarrow> True)"

lemma accepted_settings:
  "db_exec db [StBegin] a = None \<Longrightarrow> db_exec db [StBegin, StExec a] b = None \<Longrightarrow>
     db_exec db [StBegin, StExec a, StExec b] c = None \<Longrightarrow> accepted db [StBegin, StExec a, StExec b, StExec c]"
  by (auto simp: accepted_def less_Suc_eq numeral_eq_Suc nth_Cons')

lemma sandboxed_cases:
  obtains (nothing) f where "sandboxed db project q args = (Inl f, [])"
  | (stopped) f schema n where
      "sandboxed db project q args = (Inl f, StBegin # take n (settings db schema) @ [StRollback])"
      "db_schema db project = Inr schema" "schema \<noteq> []"
  | (ran) r schema where
      "sandboxed db project q args = (r, StBegin # settings db schema @ [StQuery q args, StRollback])"
      "db_schema db project = Inr schema" "schema \<noteq> []" "accepted db (StBegin # settings db schema)"
proof (cases "db_schema db project")
  case (Inl e)
  show ?thesis by (rule nothing [of "ProjectNotFound e"]) (simp add: sandboxed_def Inl)
next
  case (Inr schema)
  show ?thesis
  proof (cases "schema = [] \<or> db_begin db \<noteq> None")
    case True
    then have "\<exists>f. sandboxed db project q args = (Inl f, [])" by (auto simp: sandboxed_def Inr)
    then show ?thesis by (elim exE) (rule nothing)
  next
    case False
    let ?p = "search_path_stmt db schema" and ?t = "timeout_stmt readOnlyStatementTimeoutMs"
    show ?thesis
    proof (cases "db_exec db [StBegin] ?p")
      case (Some e)
      with Inr False stopped [of "SearchPathFailed e" 1 schema] show ?thesis
        by (auto simp: sandboxed_def Let_def settings_def)
    next
      case path: None
      show ?thesis
      proof (cases "db_exec db [StBegin, StExec ?p] read_only_stmt")
        case (Some e)
        with Inr False path stopped [of "ReadOnlyFailed (''set read-only: '' @ e)" 2 schema] show ?thesis
          by (auto simp: sandboxed_def applyReadOnlyGuards_def Let_def settings_def)
      next
        case ro: None
        show ?thesis
        proof (cases "db_exec db [StBegin, StExec ?p, StExec read_only_stmt] ?t")
          case (Some e)
          with Inr False path ro stopped [of "ReadOnlyFailed (''set statement_timeout: '' @ e)" 3 schema]
          show ?thesis by (auto simp: sandboxed_def applyReadOnlyGuards_def Let_def settings_def)
        next
          case None
          with Inr False path ro accepted_settings [OF path ro None] ran show ?thesis
            by (auto simp: sandboxed_def applyReadOnlyGuards_def Let_def settings_def)
        qed
      qed
    qed
  qed
qed


text \<open>C20: A query of a model or a user never reaches the database outside the sandbox: if any query was
  sent, it is the given one with the given arguments, it was sent once, as the last statement before
  the rollback, and after the search path of the project, the read-only mode and the time limit were
  set in the same transaction, each of them with success. Every transaction ends with the rollback.\<close>

theorem untrusted_sql_is_sandboxed:
  assumes "ExecuteSQLParams db project q args = (r, sent)"
  shows "(if sent = [] then True else hd sent = StBegin \<and> last sent = StRollback)
    \<and> (if list_ex (\<lambda>s. case s of StQuery _ _ \<Rightarrow> True | _ \<Rightarrow> False) sent
       then \<exists>schema. schema \<noteq> [] \<and> db_schema db project = Inr schema
         \<and> sent = StBegin # settings db schema @ [StQuery q (map wrap_arg args), StRollback]
         \<and> accepted db (StBegin # settings db schema)
       else \<exists>f. r = Inl f)"
proof -
  have e: "sandboxed db project q (map wrap_arg args) = (r, sent)"
    using assms by (simp add: ExecuteSQLParams_def)
  show ?thesis
  proof (cases rule: sandboxed_cases [of db project q "map wrap_arg args"])
    case (nothing f)
    with e show ?thesis by auto
  next
    case (stopped f schema n)
    have "\<not> list_ex (\<lambda>s. case s of StQuery _ _ \<Rightarrow> True | _ \<Rightarrow> False) (take n (settings db schema))"
      using set_take_subset [of n "settings db schema"] by (auto simp: list_ex_iff settings_def)
    with stopped(1) e show ?thesis by auto
  next
    case (ran r' schema)
    with e show ?thesis by (auto simp: settings_def)
  qed
qed

definition demo_db :: database where
  "demo_db = \<lparr>db_schema = (\<lambda>_. Inr ''lake''), db_begin = None, db_exec = (\<lambda>_ _. None),
     db_query = (\<lambda>_ _ _. Inr (Inr [''n''], [Some [VBytes ''x''], None])), db_marshal = (\<lambda>_. Inr ''[]''),
     db_quote = (\<lambda>s. s)\<rparr>"

lemma untrusted_sql_is_sandboxed_witness:
  "\<exists>schema. snd (ExecuteSQLParams demo_db ''p'' ''select 1'' [])
     = StBegin # settings demo_db schema @ [StQuery ''select 1'' [], StRollback]"
proof -
  obtain r sent where e: "ExecuteSQLParams demo_db ''p'' ''select 1'' [] = (r, sent)" by fastforce
  have q: "list_ex (\<lambda>s. case s of StQuery _ _ \<Rightarrow> True | _ \<Rightarrow> False) (snd (ExecuteSQLParams demo_db ''p'' ''select 1'' []))"
    by (simp add: ExecuteSQLParams_def sandboxed_def demo_db_def Let_def applyReadOnlyGuards_def)
  from untrusted_sql_is_sandboxed [OF e] q e show ?thesis by auto
qed

end
