(* ===== verification/Engine.thy ===== *)
theory Engine
  imports Resolve Join_Resolver Sql_V2 Sql_Executor Plan_Executor Query_Params
begin

text \<open>
  The engine (\<open>lakehouse/engine.go\<close>): the composition of the pipeline, the resolution, the join path
  with its intermediate objects, the builders and the executor. The parts of the environment that are
  outside the code - database, library, order of map iteration, texts of errors - are the fields of
  an \<open>engine\<close> record. Durations and spans are not modelled.
\<close>

section \<open>Environment and errors\<close>

datatype engine_error =
    PipelineFailed pipeline_error
  | ResolveFailed Resolve.resolve_error
  | EdgesFailed string
  | JoinFailed join_error
  | IntermediateUnconfigured string
  | LoadFailed Resolve.resolve_error
  | BuildFailed ResolveError
  | EmptySql "string list" string

text \<open>\<open>e_edges\<close> is \<open>loadJoinEdges\<close>; \<open>e_message\<close> and \<open>e_failure\<close> give the texts of errors.\<close>

record engine =
  e_catalog :: catalog
  e_keywords :: keyword_tables
  e_edges :: "string \<Rightarrow> string + JoinEdge list"
  e_order :: "nat \<Rightarrow> string list \<Rightarrow> string list"
  e_builder :: builder
  e_db :: database
  e_message :: "engine_error \<Rightarrow> string"
  e_failure :: "sql_failure \<Rightarrow> string"

section \<open>The stages\<close>

definition join_stage :: "engine \<Rightarrow> string \<Rightarrow> ObjectInfo list \<Rightarrow> engine_error + JoinEdge list" where
  "join_stage eng project objects =
     (if 1 < length objects
      then case e_edges eng project of
          Inl e \<Rightarrow> Inl (EdgesFailed e)
        | Inr edges \<Rightarrow>
            (case ResolveJoinPath (e_order eng) edges (map oi_name objects) of
               Inl e \<Rightarrow> Inl (JoinFailed e)
             | Inr path \<Rightarrow> Inr path)
      else Inr [])"

definition path_ends :: "JoinEdge list \<Rightarrow> string list" where
  "path_ends path = concat (map (\<lambda>e. [je_fromOd e, je_toOd e]) path)"

definition add_object :: "ObjectInfo \<Rightarrow> ResolvedLakehouseQuery \<Rightarrow> ResolvedLakehouseQuery" where
  "add_object obj rq =
     rq\<lparr>rq_objects := rq_objects rq @ [obj], rq_allProps := rq_allProps rq @ oi_props obj\<rparr>"

text \<open>Loading the objects of the path that are not in the query. Only \<open>Execute\<close> checks (\<open>check\<close>) that
  they have a canonical query. The query is returned with what was loaded before an error.\<close>

fun preload ::
  "engine \<Rightarrow> bool \<Rightarrow> string \<Rightarrow> string list \<Rightarrow> ResolvedLakehouseQuery
     \<Rightarrow> ResolvedLakehouseQuery \<times> engine_error option" where
  "preload eng check project [] rq = (rq, None)"
| "preload eng check project (od # ods) rq =
     (if HasObject rq od then preload eng check project ods rq
      else case LoadSingleObject (e_catalog eng) project od of
          Inl e \<Rightarrow> (rq, Some (if check then IntermediateUnconfigured od else LoadFailed e))
        | Inr obj \<Rightarrow>
            if check \<and> oi_canonicalQuery obj = [] then (rq, Some (IntermediateUnconfigured od))
            else preload eng check project ods (add_object obj rq))"

definition build_stage ::
  "engine \<Rightarrow> ResolvedLakehouseQuery \<Rightarrow> JoinEdge list \<Rightarrow> (ResolveError + string) \<times> ResolvedLakehouseQuery" where
  "build_stage eng rq path =
     (if rq_derived rq \<noteq> [] then BuildWithDerivedV2 (e_builder eng) rq path
      else BuildSQLV2 (e_builder eng) rq path)"

section \<open>Execute\<close>

definition no_debug :: LakehouseDebugInfo where
  "no_debug = \<lparr>di_resolvedProps = [], di_joinPath = [], di_keywordCorrections = [], di_warnings = []\<rparr>"

definition debug_of :: "ResolvedLakehouseQuery \<Rightarrow> JoinEdge list \<Rightarrow> string list \<Rightarrow> LakehouseDebugInfo" where
  "debug_of rq path warnings =
     \<lparr>di_resolvedProps = rq_allProps rq, di_joinPath = path,
      di_keywordCorrections = rq_keywordCorrections rq, di_warnings = warnings\<rparr>"

definition failed :: "string \<Rightarrow> LakehouseDebugInfo \<Rightarrow> LakehouseResult" where
  "failed msg debug =
     \<lparr>lr_ontologySQL = [], lr_sql = [], lr_executionOK = False, lr_resultJSON = [], lr_errorMessage = msg,
      lr_debugInfo = debug, lr_planTrace = None\<rparr>"

text \<open>From the prepared query on: the preview, the SQL and its execution.\<close>

definition build_and_run ::
  "engine \<Rightarrow> QuerySpec \<Rightarrow> ResolvedLakehouseQuery \<Rightarrow> JoinEdge list \<Rightarrow> LakehouseResult \<times> statement list" where
  "build_and_run eng spec rq path =
     (let ontologySQL = (case fst (BuildOntologySQLV2 (e_builder eng) rq path) of Inl _ \<Rightarrow> [] | Inr s \<Rightarrow> s) in
      case build_stage eng rq path of
        (Inl e, rq') \<Rightarrow> (failed (e_message eng (BuildFailed e)) (debug_of rq' path (rq_warnings rq')), [])
      | (Inr sqlStr, rq') \<Rightarrow>
          if sqlStr = []
          then (failed (e_message eng (EmptySql (q_objects spec) (q_metric spec)))
                  (debug_of rq' path (rq_warnings rq')), [])
          else case ExecuteSQL (e_db eng) (q_projectID spec) sqlStr of
            (res, sent) \<Rightarrow>
              (\<lparr>lr_ontologySQL = ontologySQL, lr_sql = sqlStr,
                lr_executionOK = (case res of Inl _ \<Rightarrow> False | Inr _ \<Rightarrow> True),
                lr_resultJSON = (case res of Inl _ \<Rightarrow> [] | Inr b \<Rightarrow> b),
                lr_errorMessage = (case res of Inl f \<Rightarrow> e_failure eng f | Inr _ \<Rightarrow> []),
                lr_debugInfo = debug_of rq' path (rq_warnings rq'), lr_planTrace = None\<rparr>, sent))"

definition Execute :: "engine \<Rightarrow> QuerySpec \<Rightarrow> LakehouseResult \<times> statement list" where
  "Execute eng spec0 =
     (case Run DefaultPipeline spec0 of
        (spec, Some e) \<Rightarrow>
          (let msg = e_message eng (PipelineFailed e) in (failed msg (no_debug\<lparr>di_warnings := [msg]\<rparr>), []))
      | (spec, None) \<Rightarrow>
          (case ResolveQuery (e_catalog eng) (Some (e_keywords eng)) spec of
             Inl e \<Rightarrow>
               (let msg = e_message eng (ResolveFailed e) in (failed msg (no_debug\<lparr>di_warnings := [msg]\<rparr>), []))
           | Inr rq \<Rightarrow>
               (case join_stage eng (q_projectID spec) (rq_objects rq) of
                  Inl e \<Rightarrow>
                    (let msg = e_message eng e in (failed msg (debug_of rq [] (rq_warnings rq @ [msg])), []))
                | Inr path \<Rightarrow>
                    (case preload eng True (q_projectID spec) (path_ends path) rq of
                       (rq', Some e) \<Rightarrow>
                         (let msg = e_message eng e in (failed msg (debug_of rq' path (rq_warnings rq' @ [msg])), []))
                     | (rq', None) \<Rightarrow> build_and_run eng spec rq' path))))"

section \<open>GenerateSQL\<close>

definition GenerateSQL :: "engine \<Rightarrow> QuerySpec \<Rightarrow> string \<times> LakehouseDebugInfo \<times> engine_error option" where
  "GenerateSQL eng spec0 =
     (case Run DefaultPipeline spec0 of
        (spec, Some e) \<Rightarrow> ([], no_debug, Some (PipelineFailed e))
      | (spec, None) \<Rightarrow>
          (case ResolveQuery (e_catalog eng) (Some (e_keywords eng)) spec of
             Inl e \<Rightarrow> ([], no_debug, Some (ResolveFailed e))
           | Inr rq \<Rightarrow>
               (case join_stage eng (q_projectID spec) (rq_objects rq) of
                  Inl e \<Rightarrow> ([], debug_of rq [] [], Some e)
                | Inr path \<Rightarrow>
                    (case preload eng False (q_projectID spec) (path_ends path) rq of
                       (rq', Some e) \<Rightarrow> ([], debug_of rq' path [], Some e)
                     | (rq', None) \<Rightarrow>
                         (case build_stage eng rq' path of
                            (Inl e, rq'') \<Rightarrow> ([], debug_of rq'' path [], Some (BuildFailed e))
                          | (Inr sqlStr, rq'') \<Rightarrow> (sqlStr, debug_of rq'' path (rq_warnings rq''), None))))))"

end
