(* ===== verification/Resolve_Props.thy ===== *)
theory Resolve_Props
  imports Resolve
begin

text \<open>
  What a resolved query guarantees to the builders, and where its names come from.
\<close>

section \<open>Objects\<close>

lemma find_SomeD: "find P xs = Some x \<Longrightarrow> P x \<and> x \<in> set xs"
  by (induction xs) (auto split: if_splits)

interpretation refs: keyed_add object_key "\<lambda>t. trim_space (fst (stripObjectPrefix t))"
  "\<lambda>t. trim_space (fst (stripObjectPrefix t)) \<noteq> []" consider_ref
  by unfold_locales (auto simp: consider_ref_def object_key_def Let_def)

lemma load_object_Inr:
  "load_object cat n i q = Inr ob \<longleftrightarrow>
     (\<exists>rows. ct_properties cat i = Inr rows \<and> ob = applyCanonicalAlignment (ct_probe cat)
        \<lparr>oi_id = i, oi_name = n, oi_canonicalQuery = q, oi_props = map (loaded_property n i) rows,
         oi_actualColumns = [], oi_unmatchedProps = []\<rparr>)"
  by (auto simp: load_object_def split: sum.split)

lemma alignment_frame [simp]:
  "oi_id (applyCanonicalAlignment probe ob) = oi_id ob"
  "oi_name (applyCanonicalAlignment probe ob) = oi_name ob"
  "oi_props (applyCanonicalAlignment probe ob) = oi_props ob"
  by (simp_all add: applyCanonicalAlignment_def split: option.split prod.split)

lemma load_step_cases:
  assumes "load_step cat project n (obs, ps) = Inr (obs', ps')"
  obtains (skipped) "obs' = obs" "ps' = ps"
      "fst (row_or_empty (ct_object cat project n)) = []"
  | (loaded) ob q where "obs' = obs @ [ob]" "ps' = ps @ oi_props ob" "oi_name ob = n" "oi_id ob \<noteq> []"
      "load_object cat n (oi_id ob) q = Inr ob"
      "fst (row_or_empty (ct_object cat project n)) \<noteq> [] \<longrightarrow> row_or_empty (ct_object cat project n) = (oi_id ob, q)"
proof -
  obtain i q where r: "(if fst (row_or_empty (ct_object cat project n)) = []
      then row_or_empty (ct_object_like cat project n) else row_or_empty (ct_object cat project n)) = (i, q)"
    by fastforce
  show thesis
  proof (cases "i = []")
    case True
    with assms r skipped show ?thesis
      by (auto simp: load_step_def Let_def split: if_splits)
  next
    case False
    with assms r obtain ob where ob: "load_object cat n i q = Inr ob" "obs' = obs @ [ob]" "ps' = ps @ oi_props ob"
      by (auto simp: load_step_def result_iff)
    then have "oi_id ob = i" "oi_name ob = n" by (auto simp: load_object_Inr)
    with ob False r loaded [of ob q] show ?thesis by (auto split: if_splits)
  qed
qed

text \<open>Loading: the properties are those of the objects, in order, each tagged with the name its
  object was asked for.\<close>

lemma loaded_invariant:
  assumes "loadLakehouseObjects cat project names = Inr (obs, ps)"
  shows "ps = concat (map oi_props obs)
    \<and> (\<forall>ob \<in> set obs. oi_name ob \<in> set names \<and> oi_id ob \<noteq> [] \<and> (\<exists>q. load_object cat (oi_name ob) (oi_id ob) q = Inr ob))"
proof -
  let ?I = "\<lambda>(obs, ps). ps = concat (map oi_props obs)
    \<and> (\<forall>ob \<in> set obs. oi_name ob \<in> set names \<and> oi_id ob \<noteq> [] \<and> (\<exists>q. load_object cat (oi_name ob) (oi_id ob) q = Inr ob))"
  have "?I (obs, ps)"
  proof (rule fold_steps_invariant [OF assms [unfolded loadLakehouseObjects_def]])
    fix n and s t :: "ObjectInfo list \<times> PropertyInfo list"
    assume n: "n \<in> set names" and I: "?I s" and step: "load_step cat project n s = Inr t"
    obtain obs1 ps1 obs2 ps2 where st: "s = (obs1, ps1)" "t = (obs2, ps2)" by (meson surj_pair)
    from step [unfolded st] show "?I t"
      by (cases rule: load_step_cases) (use I n st in auto)
  qed simp
  then show ?thesis by simp
qed

lemma loaded_props:
  assumes "load_object cat n i q = Inr ob" "p \<in> set (oi_props ob)"
  shows "pi_objectName p = n \<and> pi_objectID p = i \<and> pi_columnName p = pi_name p"
  using assms by (auto simp: load_object_Inr loaded_property_def split: prod.splits)

lemma load_monotone:
  assumes "fold_steps (load_step cat project) names s = Inr t"
  shows "set (fst s) \<subseteq> set (fst t)"
  using assms
proof (rule fold_steps_related)
  fix n and s t :: "ObjectInfo list \<times> PropertyInfo list"
  assume step: "load_step cat project n s = Inr t"
  obtain obs1 ps1 obs2 ps2 where st: "s = (obs1, ps1)" "t = (obs2, ps2)" by (meson surj_pair)
  from step [unfolded st] show "set (fst s) \<subseteq> set (fst t)"
    by (cases rule: load_step_cases) (use st in auto)
qed auto

lemma known_object_is_loaded:
  assumes "loadLakehouseObjects cat project names = Inr (obs, ps)" "n \<in> set names"
    and "ct_object cat project n = Some (i, q)" "i \<noteq> []"
  obtains ob where "ob \<in> set obs" "load_object cat n i q = Inr ob" "oi_name ob = n"
proof -
  from fold_steps_each [OF assms(1) [unfolded loadLakehouseObjects_def] assms(2)]
  obtain u v ns where v: "load_step cat project n u = Inr v" "fold_steps (load_step cat project) ns v = Inr (obs, ps)"
    by blast
  obtain obs1 ps1 obs2 ps2 where uv: "u = (obs1, ps1)" "v = (obs2, ps2)" by (meson surj_pair)
  have row: "row_or_empty (ct_object cat project n) = (i, q)" using assms(3) by (simp add: row_or_empty_def)
  from v(1) [unfolded uv] show thesis
  proof (cases rule: load_step_cases)
    case skipped
    with row assms(4) show ?thesis by simp
  next
    case (loaded ob q')
    then have ob: "load_object cat n i q = Inr ob" "ob \<in> set (fst v)" using row assms(4) uv by auto
    with load_monotone [OF v(2)] that [of ob] loaded(3) show ?thesis by auto
  qed
qed

section \<open>The shape of a resolved query\<close>

definition aggregate_ok :: "ResolvedAggregate \<Rightarrow> bool" where
  "aggregate_ok a =
     (case ag_kind a of
        AggStandard \<Rightarrow> ag_prop a \<noteq> None \<and> ag_label a \<noteq> []
      | AggCustomSQL \<Rightarrow> ag_prop a = None \<and> ag_expr a \<noteq> []
      | AggCountRows \<Rightarrow> a = count_rows
      | AggDerivedRef \<Rightarrow> False)"

definition filter_ok :: "catalog \<Rightarrow> ResolvedFilter \<Rightarrow> bool" where
  "filter_ok cat f \<longleftrightarrow>
     (rf_op f = [] \<or> isValidFilterOp (rf_op f))
     \<and> (if equal_fold (trim_space (rf_op f)) ''between'' then between_ok (rf_value f) else True)
     \<and> (if isDateType (pi_dataType (rf_prop f)) \<and> to_lower (trim_space (rf_op f)) \<in> {[], ''='', ''starts with''}
        then normalizePeriod (ct_year cat) (ct_month cat) (rf_originalValue f) = None else True)"

definition group_label :: "ResolvedGroupBy \<Rightarrow> string" where
  "group_label gb = (if gb_outputLabel gb = [] then pi_name (gb_prop gb) else gb_outputLabel gb)"

definition order_ok :: "ResolvedLakehouseQuery \<Rightarrow> ResolvedOrderBy \<Rightarrow> bool" where
  "order_ok rq ob \<longleftrightarrow> or_dir ob \<in> {''ASC'', ''DESC''} \<and>
     (case or_kind ob of
        OrderByAggregate \<Rightarrow> 0 \<le> or_aggIndex ob \<and> or_aggIndex ob < int (length (rq_aggregates rq))
      | OrderByCustomLabel \<Rightarrow>
          list_ex (\<lambda>gb. or_label ob = group_label gb) (rq_groupByCols rq)
      | OrderByProp \<Rightarrow> or_prop ob \<noteq> None)"

lemma metricLabel_not_Nil [simp]: "metricLabel a n \<noteq> []"
  by (simp add: metricLabel_def)


lemma standard_aggregate_ok [simp]: "aggregate_ok (standard_aggregate p fn (metricLabel a n))"
  by (simp add: aggregate_ok_def standard_aggregate_def no_aggregate_def)

lemma count_rows_ok [simp]: "aggregate_ok count_rows"
  by (simp add: aggregate_ok_def count_rows_def no_aggregate_def)

lemma predefined_metric_ok:
  "predefined_metric cat project name a ps objs = Some agg \<Longrightarrow> aggregate_ok agg \<and> ag_kind agg \<noteq> AggCountRows"
  by (induction objs)
     (auto simp: Let_def aggregate_ok_def standard_aggregate_def no_aggregate_def
       split: if_splits option.splits prod.splits)

lemma property_metric_ok:
  "property_metric part name fn a ps = Inr agg \<Longrightarrow> aggregate_ok agg \<and> ag_kind agg \<noteq> AggCountRows"
  by (auto simp: property_metric_def aggregate_ok_def standard_aggregate_def no_aggregate_def
      split: if_splits option.splits)

lemma resolved_metric_ok:
  assumes "resolveMetricLakehouse cat project part ps objs = Inr aggs"
  shows "list_all aggregate_ok aggs \<and> (aggs = [count_rows] \<or> list_all (\<lambda>a. ag_kind a \<noteq> AggCountRows) aggs)"
  using assms predefined_metric_ok property_metric_ok
  by (auto simp: resolveMetricLakehouse_def Let_def result_iff simp del: predefined_metric.simps
      split: prod.splits if_splits option.splits)

text \<open>The parts of the query every step keeps or extends.\<close>

definition core_ok :: "catalog \<Rightarrow> ResolvedLakehouseQuery \<Rightarrow> bool" where
  "core_ok cat rq \<longleftrightarrow> 0 < rq_limit rq \<and> list_all aggregate_ok (rq_aggregates rq)
     \<and> list_all (filter_ok cat) (rq_filterItems rq)"

definition same_objects :: "ResolvedLakehouseQuery \<Rightarrow> ResolvedLakehouseQuery \<Rightarrow> bool" where
  "same_objects rq rq' \<longleftrightarrow> rq_objects rq' = rq_objects rq \<and> rq_allProps rq' = rq_allProps rq
     \<and> rq_projectID rq' = rq_projectID rq \<and> rq_limit rq' = rq_limit rq"

lemma same_objects_refl [simp]: "same_objects rq rq"
  by (simp add: same_objects_def)

lemma same_objects_trans: "same_objects a b \<Longrightarrow> same_objects b c \<Longrightarrow> same_objects a c"
  by (simp add: same_objects_def)

lemma metric_part_step:
  assumes "resolve_metric_part cat spec ps part rq = Inr rq'"
  shows "same_objects rq rq' \<and> rq_filterItems rq' = rq_filterItems rq \<and> rq_orderByCols rq' = rq_orderByCols rq
    \<and> (core_ok cat rq \<longrightarrow> core_ok cat rq')"
  using assms resolved_metric_ok
  by (auto simp: resolve_metric_part_def same_objects_def add_group_def core_ok_def
      split: sum.splits resolve_error.splits prod.splits if_splits)

lemma groupBy_step:
  assumes "resolve_groupBy cat project ps g rq = Inr rq'"
  shows "same_objects rq rq' \<and> rq_filterItems rq' = rq_filterItems rq \<and> rq_orderByCols rq' = rq_orderByCols rq
    \<and> rq_aggregates rq' = rq_aggregates rq \<and> (core_ok cat rq \<longrightarrow> core_ok cat rq')"
  using assms
  by (auto simp: resolve_groupBy_def same_objects_def add_group_def core_ok_def result_iff
      split: sum.splits prod.splits if_splits option.splits)

lemma correct_filter_value:
  assumes "correct_filter corrector project pr f = (v, fz, kcs, ws)" "fi_op f \<noteq> ''=''"
  shows "v = fi_value f"
  using assms by (auto simp: correct_filter_def split: option.splits if_splits)

lemma filter_step:
  assumes "resolve_filter cat corrector project ps f rq = Inr rq'"
  shows "same_objects rq rq' \<and> rq_aggregates rq' = rq_aggregates rq \<and> rq_orderByCols rq' = rq_orderByCols rq
    \<and> rq_groupByCols rq' = rq_groupByCols rq
    \<and> (core_ok cat rq \<longrightarrow> core_ok cat rq')"
proof -
  obtain pr where pr: "resolve_filter_prop cat project ps (fi_prop f) = Inr pr"
    and op: "fi_op f = [] \<or> isValidFilterOp (fi_op f)"
    and btw: "equal_fold (trim_space (fi_op f)) ''between'' \<Longrightarrow> between_ok (fi_value f)"
    using assms by (auto simp: resolve_filter_def result_iff split: if_splits)
  obtain v fz kcs ws where c: "correct_filter corrector project pr f = (v, fz, kcs, ws)"
    by (rule prod_cases4)
  have range_ok: "filter_ok cat \<lparr>rf_prop = pr, rf_op = ''>='', rf_value = a, rf_originalValue = b, rf_fuzzy = False\<rparr>"
    "filter_ok cat \<lparr>rf_prop = pr, rf_op = ''<'', rf_value = a, rf_originalValue = b, rf_fuzzy = False\<rparr>" for a b
    by (simp_all add: filter_ok_def isValidFilterOp_def trim_space_def trim_left_def trim_right_def to_lower_def
        equal_fold_def)
  have v: "equal_fold (trim_space (fi_op f)) ''between'' \<Longrightarrow> between_ok v"
  proof -
    assume b: "equal_fold (trim_space (fi_op f)) ''between''"
    then have "fi_op f \<noteq> ''=''"
      by (auto simp: equal_fold_def to_lower_def trim_space_def trim_left_def trim_right_def)
    with b btw c show "between_ok v" using correct_filter_value by auto
  qed
  let ?period = "if isDateType (pi_dataType pr) \<and> to_lower (trim_space (fi_op f)) \<in> {[], ''='', ''starts with''}
    then normalizePeriod (ct_year cat) (ct_month cat) (fi_value f) else None"
  have "\<exists>fs ws. rq' = add_filters fs kcs ws rq \<and> list_all (filter_ok cat) fs"
  proof (cases ?period)
    case None
    let ?f = "\<lparr>rf_prop = pr, rf_op = fi_op f, rf_value = v, rf_originalValue = fi_value f, rf_fuzzy = fz\<rparr>"
    have "rq' = add_filters [?f] kcs ws rq"
      using assms op btw None unfolding resolve_filter_def pr bind_simps c prod.case
      by (simp only: option.case split: if_splits) blast+
    moreover have "filter_ok cat ?f" using None op v by (auto simp: filter_ok_def)
    ultimately show ?thesis by (intro exI [of _ "[?f]"] exI [of _ ws]) simp
  next
    case (Some r)
    obtain st en where r: "r = (st, en)" by fastforce
    have "rq' = add_filters
        [\<lparr>rf_prop = pr, rf_op = ''>='', rf_value = st, rf_originalValue = fi_value f, rf_fuzzy = False\<rparr>,
         \<lparr>rf_prop = pr, rf_op = ''<'', rf_value = en, rf_originalValue = fi_value f, rf_fuzzy = False\<rparr>]
        kcs (ws @ [period_warning (fi_prop f) (fi_value f) st en]) rq"
      using assms op btw Some unfolding resolve_filter_def pr bind_simps c prod.case r
      by (simp only: option.case prod.case split: if_splits) blast+
    then show ?thesis using range_ok by (intro exI conjI) (assumption, simp)
  qed
  then show ?thesis by (auto simp: same_objects_def add_filters_def core_ok_def)
qed

definition orders_ok :: "ResolvedLakehouseQuery \<Rightarrow> bool" where
  "orders_ok rq \<longleftrightarrow> list_all (order_ok rq) (rq_orderByCols rq)"

definition same_parts :: "ResolvedLakehouseQuery \<Rightarrow> ResolvedLakehouseQuery \<Rightarrow> bool" where
  "same_parts rq rq' \<longleftrightarrow> same_objects rq rq' \<and> rq_aggregates rq' = rq_aggregates rq
     \<and> rq_groupByCols rq' = rq_groupByCols rq \<and> rq_filterItems rq' = rq_filterItems rq"

lemma order_dir_ok [simp]: "order_dir d \<in> {''ASC'', ''DESC''}"
  by (simp add: order_dir_def Let_def)

lemma order_aggregate_bound:
  "order_aggregate objects aggs n = (Some i, m) \<Longrightarrow> i < length aggs"
  by (auto simp: order_aggregate_def matchAggregateLabel_def Let_def dest: find_index_Some split: option.splits)

lemma add_order_ok:
  assumes "orders_ok rq" "order_ok rq \<lparr>or_kind = k, or_prop = p, or_aggIndex = i, or_label = l, or_dir = d\<rparr>"
  shows "orders_ok (add_order k p i l d rq) \<and> same_parts rq (add_order k p i l d rq)"
  using assms
  by (auto simp: orders_ok_def add_order_def same_parts_def same_objects_def order_ok_def list_all_iff
      cong: OrderByKind.case_cong)

lemma order_ok_warnings [simp]: "order_ok (rq\<lparr>rq_warnings := w\<rparr>) = order_ok rq"
proof
  fix x show "order_ok (rq\<lparr>rq_warnings := w\<rparr>) x = order_ok rq x"
    by (cases "or_kind x") (simp_all add: order_ok_def)
qed

lemma orderBy_step:
  assumes "orders_ok rq"
  shows "orders_ok (resolve_orderBy cat project ps ob rq) \<and> same_parts rq (resolve_orderBy cat project ps ob rq)"
proof -
  let ?d = "order_dir (ob_dir ob)"
  obtain io n where a: "order_aggregate (rq_objects rq) (rq_aggregates rq) (order_prop (ob_prop ob)) = (io, n)"
    by fastforce
  show ?thesis
  proof (cases io)
    case (Some i)
    with a order_aggregate_bound have "i < length (rq_aggregates rq)" by blast
    then have "order_ok rq \<lparr>or_kind = OrderByAggregate, or_prop = None, or_aggIndex = int i, or_label = [], or_dir = ?d\<rparr>"
      by (simp add: order_ok_def order_dir_ok [simplified])
    from add_order_ok [OF assms this] show ?thesis
      using a Some by (simp add: resolve_orderBy_def Let_def)
  next
    case None
    show ?thesis
    proof (cases "find (group_matches n) (rq_groupByCols rq)")
      case (Some gb)
      then have gb: "gb \<in> set (rq_groupByCols rq)" by (simp add: find_SomeD)
      let ?l = "group_label gb"
      have "order_ok rq \<lparr>or_kind = OrderByCustomLabel, or_prop = None, or_aggIndex = 0, or_label = ?l, or_dir = ?d\<rparr>"
        using gb by (auto simp: order_ok_def list_ex_iff order_dir_ok [simplified])
      from add_order_ok [OF assms this] show ?thesis
        using a None Some by (simp add: resolve_orderBy_def Let_def group_label_def)
    next
      case no_group: None
      show ?thesis
      proof (cases "resolvePropertyLakehouse cat project n ps")
        case (Inr pr)
        have "order_ok rq \<lparr>or_kind = OrderByProp, or_prop = Some pr, or_aggIndex = 0, or_label = [], or_dir = ?d\<rparr>"
          by (simp add: order_ok_def order_dir_ok [simplified])
        from add_order_ok [OF assms this] show ?thesis
          using a None no_group Inr by (simp add: resolve_orderBy_def Let_def)
      next
        case (Inl e)
        have "length (rq_aggregates rq) = 1 \<Longrightarrow>
          order_ok rq \<lparr>or_kind = OrderByAggregate, or_prop = None, or_aggIndex = 0, or_label = [], or_dir = ?d\<rparr>"
          by (simp add: order_ok_def order_dir_ok [simplified])
        from add_order_ok [OF assms this] assms show ?thesis
          using a None no_group Inl
          by (auto simp: resolve_orderBy_def Let_def orders_ok_def same_parts_def same_objects_def)
      qed
    qed
  qed
qed

lemma orderBy_fold:
  "orders_ok rq \<Longrightarrow> orders_ok (fold (resolve_orderBy cat project ps) obs rq)
     \<and> same_parts rq (fold (resolve_orderBy cat project ps) obs rq)"
proof (induction obs arbitrary: rq)
  case (Cons ob obs)
  note step = orderBy_step [OF Cons.prems, of cat project ps ob]
  from Cons.IH [OF conjunct1 [OF step]] step show ?case
    by (auto simp: same_parts_def intro: same_objects_trans)
qed (simp add: same_parts_def)

text \<open>The stages of \<open>resolve_parts\<close>, with what holds between them.\<close>

lemma resolve_parts_stages:
  assumes "resolve_parts cat corrector spec ps rq0 = Inr rq" "core_ok cat rq0" "rq_orderByCols rq0 = []"
  obtains rq1 rq2 rq3 rq4 where
    "resolve_metric cat spec ps rq0 = Inr rq1"
    "fold_steps (resolve_groupBy cat (q_projectID spec) ps) (q_groupBy spec) rq1 = Inr rq2"
    "fold_steps (resolve_filter cat corrector (q_projectID spec) ps) (q_filters spec) rq2 = Inr rq3"
    "rq4 = fold (resolve_orderBy cat (q_projectID spec) ps) (q_orderBy spec) rq3"
    "rq = with_count rq4" "validateAllPropsMapped rq = Inr ()"
    "same_objects rq0 rq1" "core_ok cat rq1"
    "same_objects rq0 rq2" "core_ok cat rq2" "rq_aggregates rq2 = rq_aggregates rq1"
    "same_objects rq0 rq3" "core_ok cat rq3" "rq_aggregates rq3 = rq_aggregates rq1"
      "rq_groupByCols rq3 = rq_groupByCols rq2"
    "same_parts rq3 rq4" "orders_ok rq4"
proof -
  from assms(1) obtain rq1 rq2 rq3 where m: "resolve_metric cat spec ps rq0 = Inr rq1"
    and g: "fold_steps (resolve_groupBy cat (q_projectID spec) ps) (q_groupBy spec) rq1 = Inr rq2"
    and f: "fold_steps (resolve_filter cat corrector (q_projectID spec) ps) (q_filters spec) rq2 = Inr rq3"
    and rq: "rq = with_count (fold (resolve_orderBy cat (q_projectID spec) ps) (q_orderBy spec) rq3)"
    and v: "validateAllPropsMapped rq = Inr ()"
    by (auto simp: resolve_parts_def Let_def result_iff)
  let ?I = "\<lambda>rq. same_objects rq0 rq \<and> core_ok cat rq \<and> rq_orderByCols rq = []"
  have init: "?I rq0" using assms by simp
  have 1: "?I rq1"
  proof (cases "q_metric spec = []")
    case False
    then have "fold_steps (resolve_metric_part cat spec ps) (splitCommaMetric (q_metric spec)) rq0 = Inr rq1"
      using m by (simp add: resolve_metric_def)
    then show ?thesis
      by (rule fold_steps_invariant [where I = ?I, OF _ init])
         (metis metric_part_step same_objects_trans)
  qed (use m init in \<open>simp add: resolve_metric_def\<close>)
  let ?J = "\<lambda>rq. ?I rq \<and> rq_aggregates rq = rq_aggregates rq1"
  have 2: "?J rq2"
    by (rule fold_steps_invariant [where I = ?J, OF g])
       (use 1 in simp, metis groupBy_step same_objects_trans)
  let ?K = "\<lambda>rq. ?J rq \<and> rq_groupByCols rq = rq_groupByCols rq2"
  have 3: "?K rq3"
    by (rule fold_steps_invariant [where I = ?K, OF f])
       (use 2 in simp, metis filter_step same_objects_trans)
  then have "orders_ok rq3" by (simp add: orders_ok_def)
  from orderBy_fold [OF this, of cat "q_projectID spec" ps "q_orderBy spec"] 1 2 3 m g f rq v that
  show thesis by blast
qed


text \<open>Resolution as a whole: what was loaded, and the stages from there.\<close>

definition augmented :: "QuerySpec \<Rightarrow> string list" where
  "augmented spec = augmentObjectsFromRefs (q_objects spec) (q_filters spec) (q_orderBy spec) (q_groupBy spec)"

lemma ResolveQuery_Inr:
  assumes "ResolveQuery cat corrector spec = Inr rq"
  obtains objects ps rq0 where
    "loadLakehouseObjects cat (q_projectID spec) (augmented spec) = Inr (objects, ps)"
    "objects \<noteq> []" "list_all (\<lambda>ob. oi_canonicalQuery ob \<noteq> []) objects"
    "rq0 = (initial_query (spec\<lparr>q_objects := augmented spec\<rparr>))\<lparr>rq_objects := objects, rq_allProps := ps\<rparr>"
    "resolve_parts cat corrector (spec\<lparr>q_objects := augmented spec\<rparr>) ps rq0 = Inr rq"
    "core_ok cat rq0" "rq_orderByCols rq0 = []" "rq_objects rq0 = objects" "rq_allProps rq0 = ps"
  using assms
  by (auto simp: ResolveQuery_def augmented_def Let_def result_iff core_ok_def initial_query_def find_None_iff list_all_iff
      split: if_splits option.splits)

lemma with_count_frame [simp]:
  "same_objects rq (with_count rq)" "rq_groupByCols (with_count rq) = rq_groupByCols rq"
  "rq_filterItems (with_count rq) = rq_filterItems rq" "rq_orderByCols (with_count rq) = rq_orderByCols rq"
  by (simp_all add: with_count_def same_objects_def)

lemma with_count_order: "order_ok rq x \<Longrightarrow> order_ok (with_count rq) x"
  by (cases "or_kind x") (auto simp add: with_count_def order_ok_def)

lemma with_count_orders: "orders_ok rq \<Longrightarrow> orders_ok (with_count rq)"
  by (simp add: orders_ok_def list_all_iff with_count_order)

lemma resolved_ok:
  assumes "ResolveQuery cat corrector spec = Inr rq"
  shows "rq_objects rq \<noteq> [] \<and> list_all (\<lambda>ob. oi_canonicalQuery ob \<noteq> []) (rq_objects rq) \<and> 0 < rq_limit rq
    \<and> (if rq_groupByCols rq \<noteq> [] then rq_aggregates rq \<noteq> [] else True)
    \<and> list_all aggregate_ok (rq_aggregates rq) \<and> list_all (filter_ok cat) (rq_filterItems rq)
    \<and> list_all (order_ok rq) (rq_orderByCols rq)"
proof -
  from assms obtain objects ps rq0 where init: "objects \<noteq> []" "list_all (\<lambda>ob. oi_canonicalQuery ob \<noteq> []) objects"
    "rq_objects rq0 = objects" "core_ok cat rq0" "rq_orderByCols rq0 = []"
    and parts: "resolve_parts cat corrector (spec\<lparr>q_objects := augmented spec\<rparr>) ps rq0 = Inr rq"
    by (rule ResolveQuery_Inr)
  from parts init(4,5) show ?thesis
  proof (cases rule: resolve_parts_stages)
    case (1 rq1 rq2 rq3 rq4)
    from 1(5) have wc: "rq = with_count rq4" .
    from 1(16,17) with_count_orders wc have ord: "list_all (order_ok rq) (rq_orderByCols rq)"
      by (simp add: orders_ok_def)
    have "core_ok cat rq4" using 1(12,13,16) by (simp add: core_ok_def same_parts_def same_objects_def)
    with wc ord init 1(12,16) show ?thesis
      by (auto simp: core_ok_def with_count_def same_parts_def same_objects_def)
  qed
qed



text \<open>A catalog with one object, to evaluate the resolution on.\<close>

definition shop_catalog :: catalog where
  "shop_catalog =
     \<lparr>ct_object = (\<lambda>_ n. if n = ''Sale'' then Some (''1'', ''select * from sale'') else None),
      ct_object_like = (\<lambda>_ _. None),
      ct_properties = (\<lambda>_. Inr [(''Qty'', ''int''), (''Region'', ''text'')]),
      ct_probe = (\<lambda>_. Some [''QTY'', ''region'']),
      ct_property_in = (\<lambda>_ _ _. None), ct_property = (\<lambda>_ _. None), ct_property_like = (\<lambda>_ _. None),
      ct_metric = (\<lambda>_ _. None), ct_year = 2026, ct_month = 5\<rparr>"

definition shop_spec :: QuerySpec where
  "shop_spec = empty_spec\<lparr>q_objects := [''Sale''], q_groupBy := [''region''],
     q_filters := [\<lparr>fi_prop = ''Sale.qty'', fi_op = ''between'', fi_value = ''1,5'', fi_fuzzy = False\<rparr>],
     q_orderBy := [\<lparr>ob_prop = ''Region'', ob_dir = ''asc''\<rparr>]\<rparr>"

definition shop_prop :: "string \<Rightarrow> string \<Rightarrow> PropertyInfo" where
  "shop_prop n t = loaded_property ''Sale'' ''1'' (n, t)"

definition shop_objects :: "ObjectInfo list" where
  "shop_objects = [\<lparr>oi_id = ''1'', oi_name = ''Sale'',
     oi_canonicalQuery = aligned_sql [(''QTY'', ''Qty''), (''region'', ''Region'')] ''select * from sale'',
     oi_props = [shop_prop ''Qty'' ''int'', shop_prop ''Region'' ''text''],
     oi_actualColumns = [''QTY'', ''region''], oi_unmatchedProps = []\<rparr>]"

definition shop_query :: ResolvedLakehouseQuery where
  "shop_query =
     (initial_query shop_spec)
      \<lparr>rq_objects := shop_objects, rq_allProps := [shop_prop ''Qty'' ''int'', shop_prop ''Region'' ''text''],
       rq_groupByCols := [\<lparr>gb_prop = shop_prop ''Region'' ''text'', gb_granularity = [],
         gb_outputLabel = ''Region'', gb_originalToken = ''region''\<rparr>],
       rq_filterItems := [\<lparr>rf_prop = shop_prop ''Qty'' ''int'', rf_op = ''between'', rf_value = ''1,5'',
         rf_originalValue = ''1,5'', rf_fuzzy = False\<rparr>],
       rq_aggregates := [count_rows],
       rq_orderByCols := [\<lparr>or_kind = OrderByCustomLabel, or_prop = None, or_aggIndex = 0, or_label = ''Region'',
         or_dir = ''ASC''\<rparr>]\<rparr>"

lemma shop_resolves: "ResolveQuery shop_catalog None shop_spec = Inr shop_query"
  by code_simp



section \<open>Referenced properties are output columns\<close>

lemma check_mapped_Inr:
  "check_mapped objects pr u = Inr v \<longleftrightarrow>
     pi_name pr = [] \<or> pi_objectName pr = [] \<or> pi_name pr \<notin> set (unmatchedByOd objects (pi_objectName pr))"
  by (simp add: check_mapped_def)

lemma validated_props:
  "fold_steps (check_mapped objects) prs u = Inr v \<Longrightarrow>
     list_all (\<lambda>pr. pi_name pr = [] \<or> pi_objectName pr = []
       \<or> pi_name pr \<notin> set (unmatchedByOd objects (pi_objectName pr))) prs"
  by (induction prs arbitrary: u) (auto simp: result_iff check_mapped_Inr)

lemma unmatched_of_object:
  assumes "distinct (map oi_name objects)" "ob \<in> set objects"
  shows "unmatchedByOd objects (oi_name ob) = oi_unmatchedProps ob"
proof (cases "oi_unmatchedProps ob = []")
  case True
  have "\<not> (oi_name ob' = oi_name ob \<and> oi_unmatchedProps ob' \<noteq> [])" if "ob' \<in> set objects" for ob'
    using assms True that by (auto simp: distinct_map inj_on_def)
  then have "find (\<lambda>ob'. oi_name ob' = oi_name ob \<and> oi_unmatchedProps ob' \<noteq> []) (rev objects) = None"
    by (simp add: find_None_iff)
  with True show ?thesis by (simp add: unmatchedByOd_def)
next
  case False
  have "find (\<lambda>ob'. oi_name ob' = oi_name ob \<and> oi_unmatchedProps ob' \<noteq> []) (rev objects) \<noteq> None"
    using assms(2) False by (auto simp: find_None_iff)
  then obtain ob' where f: "find (\<lambda>ob'. oi_name ob' = oi_name ob \<and> oi_unmatchedProps ob' \<noteq> []) (rev objects) = Some ob'"
    by blast
  then have "ob' \<in> set objects \<and> oi_name ob' = oi_name ob"
    by (auto dest: find_SomeD)
  with assms have "ob' = ob" by (auto simp: distinct_map inj_on_def)
  with f show ?thesis by (simp add: unmatchedByOd_def)
qed

text \<open>What the canonical query of a probed object looks like.\<close>

definition exposes :: "ObjectInfo \<Rightarrow> string \<Rightarrow> bool" where
  "exposes ob p \<longleftrightarrow> p \<in> set (oi_actualColumns ob)
     \<or> (\<exists>pairs q. oi_canonicalQuery ob = aligned_sql pairs q \<and> p \<in> snd ` set pairs
         \<and> distinct (map snd pairs)
         \<and> (\<forall>(r, p) \<in> set pairs. r \<in> set (oi_actualColumns ob) \<and> normalizeColKey r = normalizeColKey p))"


lemma loaded_object_exposes:
  assumes load: "load_object cat n i q = Inr ob" and p: "p \<in> pi_name ` set (oi_props ob)" "p \<noteq> []"
    and probed: "oi_actualColumns ob \<noteq> []" and mapped: "p \<notin> set (oi_unmatchedProps ob)"
  shows "exposes ob p"
proof -
  obtain rows where rows: "ob = applyCanonicalAlignment (ct_probe cat)
      \<lparr>oi_id = i, oi_name = n, oi_canonicalQuery = q, oi_props = map (loaded_property n i) rows,
       oi_actualColumns = [], oi_unmatchedProps = []\<rparr>" (is "ob = applyCanonicalAlignment _ ?raw")
    using load by (auto simp: load_object_Inr)
  let ?names = "map pi_name (oi_props ?raw)"
  have props: "oi_props ob = oi_props ?raw" by (simp add: rows)
  obtain cols where cols: "probeCanonicalColumns (ct_probe cat) q = Some cols" "cols \<noteq> []"
    and ob: "oi_actualColumns ob = cols"
      "alignCanonicalQuery q ?names cols = (oi_canonicalQuery ob, oi_unmatchedProps ob)"
  proof (cases "probeCanonicalColumns (ct_probe cat) q")
    case None
    with probed show ?thesis unfolding rows by (simp add: applyCanonicalAlignment_def split: if_splits)
  next
    case (Some cols)
    obtain c u where a: "alignCanonicalQuery q ?names cols = (c, u)" by fastforce
    from probed Some a have "cols \<noteq> [] \<and> ob = ?raw\<lparr>oi_canonicalQuery := c, oi_actualColumns := cols, oi_unmatchedProps := u\<rparr>"
      unfolding rows by (simp add: applyCanonicalAlignment_def split: if_splits)
    with Some a that show ?thesis by simp
  qed
  have "cleanCanonicalForProbe q \<noteq> []" using cols by (auto simp: probeCanonicalColumns_def Let_def)
  moreover have "?names \<noteq> []" using p(1) props by auto
  moreover obtain pairs un where l: "align_loop cols ?names [] = (pairs, un)" by fastforce
  ultimately have ob': "oi_unmatchedProps ob = un"
    "oi_canonicalQuery ob = (if list_all (\<lambda>(r, p). r = p) pairs then q else aligned_sql pairs (cleanCanonicalForProbe q))"
    using ob(2) cols(2) by (simp_all add: alignCanonicalQuery_def Let_def split: if_splits)
  note res = align_loop_result [OF l, simplified]
  have "p \<in> set ?names" using p(1) props by (simp add: image_image)
  with res(1,2) p(2) mapped ob'(1) have in_pairs: "p \<in> snd ` set pairs" by auto
  show ?thesis
  proof (cases "list_all (\<lambda>(r, p). r = p) pairs")
    case True
    with in_pairs res(5) ob(1) have "p \<in> set (oi_actualColumns ob)" by (force simp: list_all_iff)
    then show ?thesis by (simp add: exposes_def)
  next
    case False
    have "\<forall>(r, p) \<in> set pairs. r \<in> set (oi_actualColumns ob) \<and> normalizeColKey r = normalizeColKey p"
      unfolding ob(1) by (rule res(5))
    with False ob'(2) in_pairs res(3) show ?thesis unfolding exposes_def by auto
  qed
qed



text \<open>A token without a prefix is looked up in the whole project, so a group column can belong to an
  object the query does not select from.\<close>

lemma groups_can_leave_the_query:
  "case ResolveQuery (shop_catalog\<lparr>ct_property := (\<lambda>_ _. Some (''2'', ''Store'', ''city'', ''text''))\<rparr>) None
     (empty_spec\<lparr>q_objects := [''Sale''], q_groupBy := [''city'']\<rparr>) of
     Inr rq \<Rightarrow> map (pi_objectName \<circ> gb_prop) (rq_groupByCols rq) = [''Store''] \<and> \<not> HasObject rq ''Store''
   | Inl _ \<Rightarrow> False"
  by code_simp

text \<open>The names of the specification are not compared: an object named twice is loaded twice.\<close>

lemma repeated_objects_are_loaded_twice:
  "case ResolveQuery shop_catalog None (empty_spec\<lparr>q_objects := [''Sale'', ''Sale''], q_groupBy := [''region'']\<rparr>) of
     Inr rq \<Rightarrow> map oi_name (rq_objects rq) = [''Sale'', ''Sale'']
   | Inl _ \<Rightarrow> False"
  by code_simp


section \<open>Qualified tokens\<close>

text \<open>The object of a qualified token is among the loaded names, up to case.\<close>

lemma referenced_object_is_augmented:
  assumes "t \<in> set (q_groupBy spec) \<union> fi_prop ` set (q_filters spec)"
    and "stripObjectPrefix t = (od, p)" "od \<noteq> []" "trim_space od = od"
  obtains n where "n \<in> set (augmented spec)" "object_key n = to_lower od"
proof -
  let ?refs = "map fi_prop (q_filters spec) @ map ob_prop (q_orderBy spec) @ q_groupBy spec"
  have "to_lower od \<in> object_key ` set (foldl consider_ref (q_objects spec) ?refs)"
    unfolding refs.keys_fold
  proof (rule UnI2, rule image_eqI [of _ _ t])
    show "t \<in> {y \<in> set ?refs. trim_space (fst (stripObjectPrefix y)) \<noteq> []}" using assms by auto
  qed (simp add: object_key_def assms)
  with that show thesis by (auto simp: augmented_def augmentObjectsFromRefs_def)
qed

lemma augmented_trimmed:
  assumes "list_all (\<lambda>n. trim_space n = n) (q_objects spec)" "n \<in> set (augmented spec)"
  shows "trim_space n = n"
proof -
  have "n \<in> set (q_objects spec) \<union> (\<lambda>t. trim_space (fst (stripObjectPrefix t)))
    ` set (map fi_prop (q_filters spec) @ map ob_prop (q_orderBy spec) @ q_groupBy spec)"
    using refs.set_fold assms(2) unfolding augmented_def augmentObjectsFromRefs_def by blast
  with assms(1) show ?thesis by (auto simp: list_all_iff)
qed

definition bound_to :: "string \<Rightarrow> string \<Rightarrow> PropertyInfo \<Rightarrow> bool" where
  "bound_to od p pr \<longleftrightarrow> equal_fold (pi_objectName pr) od \<and> equal_fold (pi_name pr) p"

lemma local_lookup_binds:
  assumes "pr \<in> set ps" "bound_to od p pr"
  obtains pr' where "resolvePropertyInOD cat project od p ps = Some pr'" "bound_to od p pr'"
proof -
  have "find (\<lambda>p'. equal_fold (pi_objectName p') od \<and> equal_fold (pi_name p') p) ps \<noteq> None"
    using assms by (auto simp: find_None_iff bound_to_def)
  then obtain pr' where "find (\<lambda>p'. equal_fold (pi_objectName p') od \<and> equal_fold (pi_name p') p) ps = Some pr'"
    by blast
  with that [of pr'] find_SomeD [OF this] show thesis by (simp add: resolvePropertyInOD_def bound_to_def)
qed

lemma groupBy_grows:
  "resolve_groupBy cat project ps g rq = Inr rq' \<Longrightarrow> set (rq_groupByCols rq) \<subseteq> set (rq_groupByCols rq')"
  by (auto simp: resolve_groupBy_def add_group_def result_iff split: sum.splits prod.splits if_splits option.splits)

lemma filter_adds:
  assumes "resolve_filter cat corrector project ps f rq = Inr rq'"
  obtains pr fs where "resolve_filter_prop cat project ps (fi_prop f) = Inr pr" "fs \<noteq> []"
    "rq_filterItems rq' = rq_filterItems rq @ fs" "list_all (\<lambda>x. rf_prop x = pr) fs"
proof -
  obtain pr where pr: "resolve_filter_prop cat project ps (fi_prop f) = Inr pr"
    using assms by (auto simp: resolve_filter_def result_iff)
  obtain v fz kcs ws where c: "correct_filter corrector project pr f = (v, fz, kcs, ws)"
    by (rule prod_cases4)
  have "\<exists>fs. fs \<noteq> [] \<and> rq_filterItems rq' = rq_filterItems rq @ fs \<and> list_all (\<lambda>x. rf_prop x = pr) fs"
    using assms unfolding resolve_filter_def pr bind_simps c prod.case
    by (auto simp: add_filters_def split: if_splits option.splits)
  with pr that show thesis by blast
qed

lemma qualified_token_parts:
  "stripObjectPrefix t = (od, p) \<Longrightarrow> p \<noteq> [] \<Longrightarrow> token_parts t = (od, p)"
  by (simp add: token_parts_def)

text \<open>A qualified token Object.property binds to that object: when the ontology has the object under
  every spelling the query uses for it, with the property, then a group by the token, or a filter on it,
  resolves to a property of an object of that name and never to a property of the same name elsewhere.\<close>

theorem qualified_tokens_bind_to_their_object:
  assumes "ResolveQuery cat corrector spec = Inr rq"
    and t: "t \<in> set (q_groupBy spec) \<union> fi_prop ` set (q_filters spec)"
    and parts: "stripObjectPrefix t = (od, p)" "od \<noteq> []" "p \<noteq> []" "trim_space od = od"
    and trimmed: "list_all (\<lambda>n. trim_space n = n) (q_objects spec)"
    and known: "\<And>n. n \<in> set (augmented spec) \<Longrightarrow> equal_fold n od \<Longrightarrow>
      \<exists>i q rows. ct_object cat (q_projectID spec) n = Some (i, q) \<and> i \<noteq> [] \<and> ct_properties cat i = Inr rows
        \<and> list_ex (\<lambda>(p', dt). equal_fold p' p) rows"
  shows "if t \<in> set (q_groupBy spec) then list_ex (bound_to od p \<circ> gb_prop) (rq_groupByCols rq)
    else list_ex (bound_to od p \<circ> rf_prop) (rq_filterItems rq)"
proof -
  from assms(1) obtain objects ps rq0 where
    l: "loadLakehouseObjects cat (q_projectID spec) (augmented spec) = Inr (objects, ps)"
    and init: "core_ok cat rq0" "rq_orderByCols rq0 = []"
    and rp: "resolve_parts cat corrector (spec\<lparr>q_objects := augmented spec\<rparr>) ps rq0 = Inr rq"
    by (rule ResolveQuery_Inr)
  obtain n where n: "n \<in> set (augmented spec)" "object_key n = to_lower od"
    using referenced_object_is_augmented [OF t parts(1,2,4)] .
  then have fold: "equal_fold n od"
    using augmented_trimmed [OF trimmed] by (simp add: object_key_def equal_fold_def)
  from known [OF n(1) fold] obtain i q rows p' dt where
    row: "ct_object cat (q_projectID spec) n = Some (i, q)" "i \<noteq> []" "ct_properties cat i = Inr rows"
      "(p', dt) \<in> set rows" "equal_fold p' p"
    by (auto simp: list_ex_iff)
  obtain ob where ob: "ob \<in> set objects" "load_object cat n i q = Inr ob"
    using known_object_is_loaded [OF l n(1) row(1,2)] by blast
  let ?pr = "loaded_property n i (p', dt)"
  have "?pr \<in> set (oi_props ob)" using ob(2) row(3,4) by (auto simp: load_object_Inr)
  then have "?pr \<in> set ps" using loaded_invariant [OF l] ob(1) by auto
  moreover have "bound_to od p ?pr" using fold row(5) by (simp add: bound_to_def loaded_property_def)
  ultimately obtain pr where pr: "resolvePropertyInOD cat (q_projectID spec) od p ps = Some pr" "bound_to od p pr"
    by (rule local_lookup_binds)
  note tp = qualified_token_parts [OF parts(1,3)]
  from rp init show ?thesis
  proof (cases rule: resolve_parts_stages)
    case (1 rq1 rq2 rq3 rq4)
    show ?thesis
    proof (cases "t \<in> set (q_groupBy spec)")
      case True
      with fold_steps_each [OF 1(2)] obtain u v ys where
        v: "resolve_groupBy cat (q_projectID spec) ps t u = Inr v"
          "fold_steps (resolve_groupBy cat (q_projectID spec) ps) ys v = Inr rq2" by fastforce
      have "set (rq_groupByCols v) \<subseteq> set (rq_groupByCols rq2)"
        by (rule fold_steps_related [OF v(2), where R = "\<lambda>a b. set (rq_groupByCols a) \<subseteq> set (rq_groupByCols b)"])
           (auto dest: groupBy_grows)
      moreover have "\<exists>gb \<in> set (rq_groupByCols v). gb_prop gb = pr"
        using v(1) pr(1) parts(2) by (auto simp: resolve_groupBy_def tp add_group_def)
      ultimately have "\<exists>gb \<in> set (rq_groupByCols rq). gb_prop gb = pr"
        using 1(5,15,16) by (auto simp: same_parts_def)
      with True pr(2) show ?thesis by (auto simp: list_ex_iff)
    next
      case False
      with t obtain f where f: "f \<in> set (q_filters spec)" "fi_prop f = t" by auto
      with fold_steps_each [OF 1(3)] obtain u v ys where
        v: "resolve_filter cat corrector (q_projectID spec) ps f u = Inr v"
          "fold_steps (resolve_filter cat corrector (q_projectID spec) ps) ys v = Inr rq3" by fastforce
      have "set (rq_filterItems v) \<subseteq> set (rq_filterItems rq3)"
        by (rule fold_steps_related [OF v(2), where R = "\<lambda>a b. set (rq_filterItems a) \<subseteq> set (rq_filterItems b)"])
           (auto elim: filter_adds)
      moreover from v(1) have "\<exists>x \<in> set (rq_filterItems v). rf_prop x = pr"
      proof (rule filter_adds)
        fix pr' fs assume a: "resolve_filter_prop cat (q_projectID spec) ps (fi_prop f) = Inr pr'" "fs \<noteq> []"
          "rq_filterItems v = rq_filterItems u @ fs" "list_all (\<lambda>x. rf_prop x = pr') fs"
        then have "pr' = pr" using pr(1) parts(2) f(2) by (simp add: resolve_filter_prop_def tp)
        with a show ?thesis by (cases fs) auto
      qed
      ultimately have "\<exists>x \<in> set (rq_filterItems rq). rf_prop x = pr"
        using 1(5,16) by (auto simp: same_parts_def)
      with False pr(2) show ?thesis by (auto simp: list_ex_iff)
    qed
  qed
qed

lemma qualified_tokens_bind_to_their_object_witness:
  "list_ex (bound_to ''Sale'' ''qty'' \<circ> rf_prop) (rq_filterItems shop_query)"
proof -
  have "if ''Sale.qty'' \<in> set (q_groupBy shop_spec)
    then list_ex (bound_to ''Sale'' ''qty'' \<circ> gb_prop) (rq_groupByCols shop_query)
    else list_ex (bound_to ''Sale'' ''qty'' \<circ> rf_prop) (rq_filterItems shop_query)"
  proof (rule qualified_tokens_bind_to_their_object [OF shop_resolves])
    fix n assume "n \<in> set (augmented shop_spec)" "equal_fold n ''Sale''"
    moreover have "augmented shop_spec = [''Sale'']" by code_simp
    ultimately have "n = ''Sale''" by simp
    then show "\<exists>i q rows. ct_object shop_catalog (q_projectID shop_spec) n = Some (i, q) \<and> i \<noteq> []
      \<and> ct_properties shop_catalog i = Inr rows \<and> list_ex (\<lambda>(p', dt). equal_fold p' ''qty'') rows"
      by (simp add: shop_catalog_def equal_fold_def to_lower_def)
  qed (code_simp+)
  moreover have "''Sale.qty'' \<notin> set (q_groupBy shop_spec)" by code_simp
  ultimately show ?thesis by simp
qed


section \<open>Row counts\<close>

definition asked_name :: "string \<Rightarrow> string" where
  "asked_name part =
     (let inner = fst (stripAggWrapperWithFunc (fst (stripMetricAlias part)));
          name = snd (stripObjectPrefix inner)
      in if name = [] then inner else name)"

definition asks_count :: "string \<Rightarrow> bool" where
  "asks_count part \<longleftrightarrow> to_lower (trim_space (asked_name part)) \<in> set countRowsKeywords"

lemma count_rows_is_asked:
  assumes "resolveMetricLakehouse cat project part ps objs = Inr aggs" "count_rows \<in> set aggs"
  shows "asks_count part"
proof -
  obtain m a where m: "stripMetricAlias part = (m, a)" by fastforce
  obtain inner fn where i: "stripAggWrapperWithFunc m = (inner, fn)" by fastforce
  obtain pre name where n: "stripObjectPrefix inner = (pre, name)" by fastforce
  have k: "ag_kind count_rows = AggCountRows" by (simp add: count_rows_def no_aggregate_def)
  show ?thesis
  proof (rule ccontr)
    assume "\<not> asks_count part"
    then have "to_lower (trim_space (if name = [] then inner else name)) \<notin> set countRowsKeywords"
      by (auto simp add: asks_count_def asked_name_def m i n Let_def)
    with assms k show False
      by (auto simp: resolveMetricLakehouse_def m i n Let_def result_iff simp del: predefined_metric.simps
          dest: predefined_metric_ok property_metric_ok split: if_splits option.splits)
  qed
qed

text \<open>ResolveQuery never falls back silently to counting rows: an aggregate of the result counts rows
  only if a part of the metric asks for it with one of the count keywords, or if the metric gave no
  aggregate at all and the query is grouped, and then the count is its only aggregate.\<close>

theorem count_is_never_silent:
  assumes "ResolveQuery cat corrector spec = Inr rq" "count_rows \<in> set (rq_aggregates rq)"
  shows "list_ex asks_count (splitCommaMetric (q_metric spec))
    \<or> rq_aggregates rq = [count_rows] \<and> rq_groupByCols rq \<noteq> []"
proof -
  from assms(1) obtain objects ps rq0 where
    init: "core_ok cat rq0" "rq_orderByCols rq0 = []"
    and r0: "rq0 = (initial_query (spec\<lparr>q_objects := augmented spec\<rparr>))\<lparr>rq_objects := objects, rq_allProps := ps\<rparr>"
    and rp: "resolve_parts cat corrector (spec\<lparr>q_objects := augmented spec\<rparr>) ps rq0 = Inr rq"
    by (rule ResolveQuery_Inr)
  from rp init show ?thesis
  proof (cases rule: resolve_parts_stages)
    case (1 rq1 rq2 rq3 rq4)
    let ?I = "\<lambda>rq. count_rows \<in> set (rq_aggregates rq) \<longrightarrow> list_ex asks_count (splitCommaMetric (q_metric spec))"
    have "?I rq1"
    proof (cases "q_metric spec = []")
      case True
      with 1(1) have "rq1 = rq0" by (simp add: resolve_metric_def)
      then have "rq_aggregates rq1 = []" by (simp add: r0 initial_query_def)
      then show ?thesis by simp
    next
      case False
      with 1(1) have "fold_steps (resolve_metric_part cat (spec\<lparr>q_objects := augmented spec\<rparr>) ps)
        (splitCommaMetric (q_metric spec)) rq0 = Inr rq1" by (simp add: resolve_metric_def)
      then show ?thesis
      proof (rule fold_steps_invariant [where I = ?I])
        show "?I rq0" by (simp add: r0 initial_query_def)
      next
        fix part a b assume "part \<in> set (splitCommaMetric (q_metric spec))" "?I a"
          "resolve_metric_part cat (spec\<lparr>q_objects := augmented spec\<rparr>) ps part a = Inr b"
        then show "?I b"
          by (auto simp: resolve_metric_part_def add_group_def list_ex_iff
              dest!: count_rows_is_asked split: sum.splits resolve_error.splits prod.splits if_splits)
      qed
    qed
    moreover have "rq_aggregates rq4 = rq_aggregates rq1" using 1(14,16) by (simp add: same_parts_def)
    ultimately show ?thesis using assms(2) 1(5) by (auto simp: with_count_def split: if_splits)
  qed
qed

lemma count_is_never_silent_witness:
  "rq_aggregates shop_query = [count_rows] \<and> rq_groupByCols shop_query \<noteq> []"
proof -
  have "count_rows \<in> set (rq_aggregates shop_query)" by (simp add: shop_query_def)
  from count_is_never_silent [OF shop_resolves this] show ?thesis
    by (simp add: splitCommaMetric_def shop_spec_def empty_spec_def)
qed

text \<open>The count keywords win over an explicit aggregate function and a column of that name.\<close>

lemma sum_of_cnt_counts_rows:
  "resolveMetricLakehouse shop_catalog [] ''sum(cnt)'' [shop_prop ''Cnt'' ''int''] [''Sale''] = Inr [count_rows]"
proof -
  have "find_submatch aliasTailReTight ''sum(cnt)'' = None" "find_submatch aliasTailReLoose ''sum(cnt)'' = None"
    by code_simp+
  then have "stripMetricAlias ''sum(cnt)'' = (''sum(cnt)'', [])"
    by (simp add: stripMetricAlias_def trim_space_def trim_left_def trim_right_def)
  moreover have "stripAggWrapperWithFunc ''sum(cnt)'' = (''cnt'', ''SUM'')" by code_simp
  moreover have "stripObjectPrefix ''cnt'' = ([], ''cnt'')" by code_simp
  moreover have "to_lower (trim_space ''cnt'') \<in> set countRowsKeywords"
  proof -
    have "to_lower (trim_space ''cnt'') = ''cnt''" by code_simp
    then show ?thesis by (simp add: countRowsKeywords_def)
  qed
  ultimately show ?thesis by (simp add: resolveMetricLakehouse_def)
qed

end
