(* ===== verification/Sql_V2_Props.thy ===== *)
theory Sql_V2_Props
  imports Sql_V2 Resolve_Props Join_Resolver_Props
begin

text \<open>
  What the datasets of the builder contain: every filter of a resolved query has its condition, text
  reaches the SQL unescaped only from named places, and the joins connect every object once.
\<close>

section \<open>Raw text\<close>

text \<open>The texts that are rendered as they are.\<close>

fun raw_texts :: "gexp \<Rightarrow> string list" where
  "raw_texts (GIdent s) = []"
| "raw_texts (GTable s) = []"
| "raw_texts (GLit s args) = s # concat (map raw_texts args)"
| "raw_texts (GVal s) = []"
| "raw_texts (GCast e t) = t # raw_texts e"
| "raw_texts (GFunc f args) = f # concat (map raw_texts args)"
| "raw_texts (GAs e a) = raw_texts e @ raw_texts a"
| "raw_texts (GCompare op l r) = op # raw_texts l @ raw_texts r"
| "raw_texts (GIn e es) = raw_texts e @ concat (map raw_texts es)"
| "raw_texts (GNotIn e es) = raw_texts e @ concat (map raw_texts es)"
| "raw_texts (GBetween e l h) = raw_texts e @ raw_texts l @ raw_texts h"
| "raw_texts (GIsNull e) = raw_texts e"
| "raw_texts (GIsNotNull e) = raw_texts e"
| "raw_texts (GAnd es) = concat (map raw_texts es)"
| "raw_texts (GOr es) = concat (map raw_texts es)"
| "raw_texts (GDesc e) = raw_texts e"
| "raw_texts (GAsc e) = raw_texts e"

definition dataset_texts :: "dataset \<Rightarrow> string set" where
  "dataset_texts ds = set (concat (map raw_texts
     (gd_from ds # map fst (gd_joins ds) @ map snd (gd_joins ds) @ gd_select ds
      @ List.map_filter id [gd_where ds] @ gd_groupBy ds @ List.map_filter id [gd_having ds] @ gd_order ds)))"

text \<open>The texts of the builder itself: operators, functions, types and templates.\<close>

definition fixed_texts :: "string set" where
  "fixed_texts = {''*'', ''TO_CHAR(? :: timestamp, ?)'', ''DISTINCT ?'', ''numeric'', ''TEXT'', ''LOWER'',
     ''SUM'', ''AVG'', ''MIN'', ''MAX'', ''COUNT'', ''='', ''<>'', ''>'', ''>='', ''<'', ''<='', ''ILIKE'', ''NOT ILIKE'',
     bug_marker_v2}"

definition source_text :: "ObjectInfo \<Rightarrow> string" where
  "source_text obj = ''('' @ oi_canonicalQuery obj @ '') AS '' @ quoteIdent (oi_name obj)"

text \<open>The parts of a filter value that are put into the SQL as they are.\<close>

definition range_texts :: "ResolvedFilter \<Rightarrow> string set" where
  "range_texts f =
     (let op = to_lower (trim_space (rf_op f)) in
      if \<not> numeric f then {}
      else if op \<in> set [''>'', ''>='', ''<'', ''<=''] then {rf_value f}
      else if op = ''between''
      then (case split_first CHR '','' (rf_value f) of
              Some (lo, hi) \<Rightarrow> {trim_space lo, trim_space hi} | None \<Rightarrow> {})
      else {})"

definition outside_texts :: "ResolvedLakehouseQuery \<Rightarrow> string set" where
  "outside_texts rq =
     source_text ` set (rq_objects rq)
     \<union> {''('' @ ag_expr a @ '')'' | a. a \<in> set (rq_aggregates rq) \<and> ag_kind a = AggCustomSQL}
     \<union> (case rq_metricFilter rq of Some mf \<Rightarrow> {mf_value mf} | None \<Rightarrow> {})
     \<union> \<Union> (range_texts ` set (rq_filterItems rq))"

lemma fixed_in [simp]:
  "''*'' \<in> fixed_texts" "''TO_CHAR(? :: timestamp, ?)'' \<in> fixed_texts" "''DISTINCT ?'' \<in> fixed_texts"
  "''numeric'' \<in> fixed_texts" "''TEXT'' \<in> fixed_texts" "''LOWER'' \<in> fixed_texts"
  "''SUM'' \<in> fixed_texts" "''AVG'' \<in> fixed_texts" "''MIN'' \<in> fixed_texts" "''MAX'' \<in> fixed_texts"
  "''COUNT'' \<in> fixed_texts" "''='' \<in> fixed_texts" "''<>'' \<in> fixed_texts" "''>'' \<in> fixed_texts"
  "''>='' \<in> fixed_texts" "''<'' \<in> fixed_texts" "''<='' \<in> fixed_texts" "''ILIKE'' \<in> fixed_texts"
  "''NOT ILIKE'' \<in> fixed_texts" "bug_marker_v2 \<in> fixed_texts"
  by (simp_all add: fixed_texts_def)

lemma propCol_raw [simp]: "raw_texts (propCol p alias multi) = []" "raw_texts (odCol a c) = []"
  by (simp_all add: propCol_def odCol_def)

lemma list_items_raw [simp]: "concat (map raw_texts (list_items v)) = []"
  by (simp add: list_items_def)

lemma compare_raw:
  "set (raw_texts (compareExpr l op v b)) \<subseteq> fixed_texts \<union> set (raw_texts l) \<union> (if b then {v} else {})"
  by (auto simp: compareExpr_def Let_def)

lemma filter_cond_raw:
  assumes "filterCondExprV2 col f = Some e" "raw_texts col = []"
  shows "set (raw_texts e) \<subseteq> fixed_texts \<union> range_texts f"
proof -
  let ?op0 = "to_lower (trim_space (rf_op f))"
  let ?op = "if ?op0 = [] then ''='' else ?op0"
  consider (cmp) "?op \<in> set [''>'', ''>='', ''<'', ''<='']" | (btw) "?op = ''between''"
    | (other) "?op \<notin> set [''>'', ''>='', ''<'', ''<='']" "?op \<noteq> ''between''" by blast
  then show ?thesis
  proof cases
    case cmp
    then have e: "e = compareExpr col ?op (rf_value f) (numeric f)"
      using assms(1) unfolding filterCondExprV2_def Let_def by (auto split: if_splits)
    have "range_texts f = (if numeric f then {rf_value f} else {})"
      using cmp by (auto simp: range_texts_def Let_def split: if_splits)
    with compare_raw [of col ?op "rf_value f" "numeric f"] show ?thesis unfolding e assms(2) by auto
  next
    case btw
    then have op0: "?op0 = ''between''" by (auto split: if_splits)
    with assms show ?thesis
      by (auto simp: filterCondExprV2_def range_texts_def Let_def split: option.splits if_splits)
  next
    case other
    with assms show ?thesis
      unfolding filterCondExprV2_def Let_def by (auto split: if_splits)
  qed
qed


lemma conjunction_raw:
  "conjunction es = Some e \<Longrightarrow> set (raw_texts e) \<subseteq> \<Union> ((set \<circ> raw_texts) ` set es)"
  by (auto simp: conjunction_def split: list.splits)

lemma map_filter_set: "set (List.map_filter h xs) = {y. \<exists>x \<in> set xs. h x = Some y}"
  by (force simp: List.map_filter_def)

lemma filter_group_raw:
  assumes "filterGroupExprV2 col fs = Some e" "raw_texts col = []"
  shows "set (raw_texts e) \<subseteq> fixed_texts \<union> \<Union> (range_texts ` set fs)"
proof (cases fs)
  case (Cons f gs)
  show ?thesis
  proof (cases gs)
    case Nil
    with Cons assms filter_cond_raw [of col f e] show ?thesis by (auto simp: filterGroupExprV2_def)
  next
    case (Cons g hs)
    show ?thesis
    proof (cases "list_all (\<lambda>g. rf_op g = ''='') fs \<and> \<not> rf_fuzzy f")
      case True
      with \<open>fs = f # gs\<close> Cons assms show ?thesis
        by (auto simp: filterGroupExprV2_def split: if_splits)
    next
      case False
      then have "conjunction (List.map_filter (filterCondExprV2 col) fs) = Some e"
        using \<open>fs = f # gs\<close> Cons assms(1) unfolding filterGroupExprV2_def by (simp only: list.case if_False)
      from conjunction_raw [OF this] show ?thesis
        using filter_cond_raw [OF _ assms(2)] by (fastforce simp: map_filter_set)
    qed
  qed
qed (use assms in \<open>simp add: filterGroupExprV2_def\<close>)

lemma group_members: "g \<in> set (groupFilters fs) \<Longrightarrow> set (fg_filters g) \<subseteq> set fs"
  using groupFilters_ok [of fs] by (auto simp: groups_ok_def list_all_iff)

lemma where_raw:
  assumes "whereExprV2 fs alias multi = Some e"
  shows "set (raw_texts e) \<subseteq> fixed_texts \<union> \<Union> (range_texts ` set fs)"
proof -
  have "set (raw_texts e') \<subseteq> fixed_texts \<union> \<Union> (range_texts ` set fs)"
    if "g \<in> set (groupFilters fs)" "filterGroupExprV2 (propCol (fg_prop g) alias multi) (fg_filters g) = Some e'"
    for g e'
    using filter_group_raw [OF that(2)] group_members [OF that(1)] by auto
  with conjunction_raw [OF assms [unfolded whereExprV2_def]] show ?thesis
    unfolding comp_def map_filter_set by blast
qed

definition custom_texts :: "ResolvedAggregate \<Rightarrow> string set" where
  "custom_texts a = (if ag_kind a = AggCustomSQL then {''('' @ ag_expr a @ '')''} else {})"

lemma agg_call_raw:
  "set (raw_texts (agg_call fn a c)) \<subseteq> fixed_texts \<union> set (raw_texts a) \<union> set (raw_texts c)"
  by (auto simp: agg_call_def)

lemma agg_raw: "set (raw_texts (aggExprV2 a alias multi)) \<subseteq> fixed_texts \<union> custom_texts a"
proof (cases "ag_kind a")
  case AggStandard
  show ?thesis
  proof (cases "ag_prop a")
    case (Some p)
    let ?col = "propCol p alias multi"
    have "set (raw_texts (agg_call fn ?col ?col)) \<subseteq> fixed_texts"
      "set (raw_texts (agg_call fn (GCast ?col ''numeric'') ?col)) \<subseteq> fixed_texts" for fn
      using agg_call_raw [of fn ?col ?col] agg_call_raw [of fn "GCast ?col ''numeric''" ?col] by auto
    with AggStandard Some show ?thesis by (auto simp: aggExprV2_def Let_def)
  qed (use AggStandard in \<open>simp add: aggExprV2_def star_def\<close>)
qed (simp_all add: aggExprV2_def custom_texts_def star_def)

lemma agg_no_alias_raw:
  assumes "aggExprNoAlias a = Some e"
  shows "set (raw_texts e) \<subseteq> fixed_texts \<union> custom_texts a"
proof (cases "ag_kind a")
  case AggStandard
  show ?thesis
  proof (cases "ag_prop a")
    case (Some p)
    with AggStandard assms agg_call_raw [of "to_upper (ag_func a)" "odCol (pi_objectName p) (pi_columnName p)"
        "odCol (pi_objectName p) (pi_columnName p)"]
    show ?thesis by (simp add: aggExprNoAlias_def Let_def) (metis le_supI1)
  qed (use AggStandard assms in \<open>auto simp add: aggExprNoAlias_def star_def\<close>)
qed (use assms in \<open>auto simp add: aggExprNoAlias_def custom_texts_def star_def\<close>)

lemma having_raw:
  assumes "havingExprV2 rq = Some e"
  shows "set (raw_texts e) \<subseteq> fixed_texts \<union> \<Union> (custom_texts ` set (rq_aggregates rq))
    \<union> (case rq_metricFilter rq of Some mf \<Rightarrow> {mf_value mf} | None \<Rightarrow> {})"
proof -
  from assms obtain mf l where h: "rq_metricFilter rq = Some mf" "rq_aggregates rq \<noteq> []"
    "aggExprNoAlias (hd (rq_aggregates rq)) = Some l" "e = compareExpr l (mf_op mf) (mf_value mf) True"
    by (auto simp: havingExprV2_def split: option.splits if_splits)
  have "hd (rq_aggregates rq) \<in> set (rq_aggregates rq)" using h(2) by simp
  with compare_raw [of l "mf_op mf" "mf_value mf" True] agg_no_alias_raw [OF h(3)] h(1,4) show ?thesis
    by fastforce
qed

lemma date_raw [simp]: "raw_texts (dateGranExpr col g) = ''TO_CHAR(? :: timestamp, ?)'' # raw_texts col"
  by (simp add: dateGranExpr_def)

lemma select_raw:
  "e \<in> set (selectExprsV2 rq alias multi) \<Longrightarrow>
     set (raw_texts e) \<subseteq> fixed_texts \<union> \<Union> (custom_texts ` set (rq_aggregates rq))"
  using agg_raw by (fastforce simp: selectExprsV2_def select_group_def Let_def split: if_splits)

lemma group_raw: "e \<in> set (groupByExprsV2 rq alias multi) \<Longrightarrow> set (raw_texts e) \<subseteq> fixed_texts"
  by (auto simp: groupByExprsV2_def Let_def split: if_splits)

lemma order_raw: "e \<in> set (orderByExprsV2 rq alias multi) \<Longrightarrow> raw_texts e = []"
  by (auto simp: orderByExprsV2_def orderByRefV2_def Let_def split: if_splits OrderByKind.splits option.splits)

lemma source_raw: "set (raw_texts (fromSource obj mode)) \<subseteq> {source_text obj}"
  by (simp add: fromSource_def source_text_def split: BuildMode.splits)

lemma dataset_texts_iff:
  "x \<in> dataset_texts ds \<longleftrightarrow> x \<in> set (raw_texts (gd_from ds))
     \<or> (\<exists>j \<in> set (gd_joins ds). x \<in> set (raw_texts (fst j)) \<or> x \<in> set (raw_texts (snd j)))
     \<or> (\<exists>e \<in> set (gd_select ds). x \<in> set (raw_texts e))
     \<or> (\<exists>e. gd_where ds = Some e \<and> x \<in> set (raw_texts e))
     \<or> (\<exists>e \<in> set (gd_groupBy ds). x \<in> set (raw_texts e))
     \<or> (\<exists>e. gd_having ds = Some e \<and> x \<in> set (raw_texts e))
     \<or> (\<exists>e \<in> set (gd_order ds). x \<in> set (raw_texts e))"
  by (cases "gd_where ds"; cases "gd_having ds") (auto simp: dataset_texts_def List.map_filter_def)

definition clause_texts :: "ResolvedLakehouseQuery \<Rightarrow> string set" where
  "clause_texts rq = fixed_texts \<union> \<Union> (custom_texts ` set (rq_aggregates rq))
     \<union> (case rq_metricFilter rq of Some mf \<Rightarrow> {mf_value mf} | None \<Rightarrow> {})
     \<union> \<Union> (range_texts ` set (rq_filterItems rq))"

lemma clauses_raw:
  assumes "set (raw_texts src) \<subseteq> S" "\<And>s on. (s, on) \<in> set joins \<Longrightarrow> set (raw_texts s) \<subseteq> S \<and> set (raw_texts on) \<subseteq> fixed_texts"
  shows "dataset_texts (with_clauses src joins rq alias multi) \<subseteq> S \<union> clause_texts rq"
proof -
  let ?ds = "with_clauses src joins rq alias multi"
  have sel: "set (raw_texts e) \<subseteq> clause_texts rq" if "e \<in> set (gd_select ?ds)" for e
  proof (cases "selectExprsV2 rq alias multi = []")
    case True
    with that have "e = star" by (simp add: with_clauses_def)
    then show ?thesis by (simp add: star_def clause_texts_def)
  next
    case False
    with that have "e \<in> set (selectExprsV2 rq alias multi)" by (simp add: with_clauses_def)
    from select_raw [OF this] show ?thesis by (auto simp: clause_texts_def)
  qed
  have whr: "set (raw_texts e) \<subseteq> clause_texts rq" if "gd_where ?ds = Some e" for e
    using where_raw [of "rq_filterItems rq" "alias" multi e] that by (auto simp: with_clauses_def clause_texts_def)
  have hav: "set (raw_texts e) \<subseteq> clause_texts rq" if "gd_having ?ds = Some e" for e
    using having_raw [of rq e] that by (auto simp: with_clauses_def clause_texts_def)
  have grp: "set (raw_texts e) \<subseteq> clause_texts rq" if "e \<in> set (gd_groupBy ?ds)" for e
    using group_raw [of e rq "alias" multi] that by (auto simp: with_clauses_def clause_texts_def)
  have ord: "raw_texts e = []" if "e \<in> set (gd_order ?ds)" for e
    using order_raw [of e rq "alias" multi] that by (simp add: with_clauses_def)
  have joins: "set (raw_texts s) \<union> set (raw_texts on) \<subseteq> S \<union> clause_texts rq" if "(s, on) \<in> set (gd_joins ?ds)" for s on
    using assms(2) [of s on] that by (auto simp: with_clauses_def clause_texts_def)
  have src: "gd_from ?ds = src" by (simp add: with_clauses_def)
  show ?thesis
  proof
    fix x assume "x \<in> dataset_texts ?ds"
    then consider "x \<in> set (raw_texts src)"
      | j where "j \<in> set (gd_joins ?ds)" "x \<in> set (raw_texts (fst j)) \<union> set (raw_texts (snd j))"
      | e where "e \<in> set (gd_select ?ds)" "x \<in> set (raw_texts e)"
      | e where "gd_where ?ds = Some e" "x \<in> set (raw_texts e)"
      | e where "e \<in> set (gd_groupBy ?ds)" "x \<in> set (raw_texts e)"
      | e where "gd_having ?ds = Some e" "x \<in> set (raw_texts e)"
      | e where "e \<in> set (gd_order ?ds)" "x \<in> set (raw_texts e)"
      unfolding dataset_texts_iff src by blast
    then show "x \<in> S \<union> clause_texts rq"
    proof cases
      case 1 then show ?thesis using assms(1) by blast
    next
      case (2 j) then show ?thesis using joins [of "fst j" "snd j"] by auto
    next
      case (3 e) then show ?thesis using sel [OF 3(1)] by blast
    next
      case (4 e) then show ?thesis using whr [OF 4(1)] by blast
    next
      case (5 e) then show ?thesis using grp [OF 5(1)] by blast
    next
      case (6 e) then show ?thesis using hav [OF 6(1)] by blast
    next
      case (7 e) then show ?thesis using ord [OF 7(1)] by simp
    qed
  qed
qed

lemma join_loop_raw:
  "join_loop objMap es joined = Inr js \<Longrightarrow> (\<And>n ob. objMap n = Some ob \<Longrightarrow> ob \<in> W) \<Longrightarrow>
     (ob, on) \<in> set js \<Longrightarrow> ob \<in> W \<and> raw_texts on = [''='']"
  by (induction es arbitrary: joined js) (auto split: if_splits option.splits sum.splits)

lemma odByName_in: "odByName rq n = Some ob \<Longrightarrow> ob \<in> set (rq_objects rq) \<and> oi_name ob = n"
  unfolding odByName_def by (drule map_of_SomeD) auto


text \<open>The text of the datasets that are rendered is fixed by the builder except for the canonical
  queries of the objects, custom SQL expressions of metrics, the value of the metric filter, and the
  bounds of range filters on numeric properties: no other value or name of a query is ever code.\<close>

theorem raw_text_has_known_sources:
  assumes "rq_objects rq \<noteq> []"
  shows "dataset_texts (single_dataset rq mode) \<subseteq> source_text ` set (rq_objects rq) \<union> clause_texts rq
    \<and> (case multi_dataset rq joinPath mode of
         Inr ds \<Rightarrow> dataset_texts ds \<subseteq> source_text ` set (rq_objects rq) \<union> clause_texts rq
       | Inl e \<Rightarrow> re_code e = ''INTERMEDIATE_OD_MISSING'')"
proof
  have hd: "set (raw_texts (fromSource (hd (rq_objects rq)) mode)) \<subseteq> source_text ` set (rq_objects rq)"
    using source_raw [of "hd (rq_objects rq)" mode] assms by auto
  show "dataset_texts (single_dataset rq mode) \<subseteq> source_text ` set (rq_objects rq) \<union> clause_texts rq"
    unfolding single_dataset_def Let_def by (rule clauses_raw [OF hd]) simp
  show "case multi_dataset rq joinPath mode of
         Inr ds \<Rightarrow> dataset_texts ds \<subseteq> source_text ` set (rq_objects rq) \<union> clause_texts rq
       | Inl e \<Rightarrow> re_code e = ''INTERMEDIATE_OD_MISSING''"
  proof (cases "join_loop (odByName rq) joinPath [oi_name (hd (rq_objects rq))]")
    case (Inl e)
    have "join_loop m es js = Inl e \<Longrightarrow> re_code e = ''INTERMEDIATE_OD_MISSING''" for m es js
      by (induction es arbitrary: js) (auto simp: resolve_error_def split: if_splits option.splits sum.splits)
    with Inl show ?thesis by (simp add: multi_dataset_def)
  next
    case (Inr js)
    have "set (raw_texts s) \<subseteq> source_text ` set (rq_objects rq) \<and> set (raw_texts on) \<subseteq> fixed_texts"
      if "(s, on) \<in> set (map (\<lambda>(ob, on). (fromSource ob mode, on)) js)" for s on
    proof -
      from that obtain ob where ob: "(ob, on) \<in> set js" "s = fromSource ob mode" by auto
      have "ob \<in> set (rq_objects rq) \<and> raw_texts on = [''='']"
        by (rule join_loop_raw [OF Inr _ ob(1)]) (use odByName_in in blast)
      with ob(2) source_raw [of ob mode] show ?thesis by auto
    qed
    from clauses_raw [OF hd this] Inr show ?thesis unfolding multi_dataset_def Let_def by (simp only: sum.case)
  qed
qed


lemma raw_text_has_known_sources_witness:
  "dataset_texts (single_dataset shop_query BuildPhysical)
     \<subseteq> source_text ` set (rq_objects shop_query) \<union> clause_texts shop_query"
  using raw_text_has_known_sources [of shop_query BuildPhysical "[]"]
  by (simp add: shop_query_def shop_objects_def)

text \<open>The bound of a range filter on a numeric property is code, whatever the model put there.\<close>

lemma numeric_bounds_are_code:
  "filterCondExprV2 col \<lparr>rf_prop = shop_prop ''Qty'' ''int'', rf_op = ''>'', rf_value = ''0 OR TRUE'',
      rf_originalValue = ''0 OR TRUE'', rf_fuzzy = False\<rparr> = Some (GCompare ''>'' col (GLit ''0 OR TRUE'' []))"
proof -
  have "to_lower (trim_space ''>'') = ''>''" by code_simp
  moreover have "isNumericType ''int''" by code_simp
  ultimately show ?thesis
    by (simp add: filterCondExprV2_def compareExpr_def numeric_def shop_prop_def loaded_property_def)
qed

section \<open>Operators\<close>

lemma valid_ops:
  "isValidFilterOp op \<longleftrightarrow> to_lower (trim_space op) \<in> set
     [''='', ''<>'', ''!='', ''>'', ''>='', ''<'', ''<='', ''contains'', ''not contains'', ''starts with'',
      ''ends with'', ''like'', ''not like'', ''is blank'', ''is not blank'', ''between'', ''in'', ''not in'']"
  by (simp add: isValidFilterOp_def)

definition drifted :: "gexp" where
  "drifted = GLit bug_marker_v2 []"

text \<open>The operator check of the resolution and the operators of the builder are in sync: every
  filter of a resolved query gets a condition of its own, and never the error marker of an operator
  the builder does not know.\<close>

theorem every_filter_becomes_a_condition:
  assumes "ResolveQuery cat corrector spec = Inr rq" "f \<in> set (rq_filterItems rq)"
  shows "\<exists>e. filterCondExprV2 (GIdent c) f = Some e \<and> e \<noteq> drifted"
proof -
  have ok: "filter_ok cat f" using resolved_ok [OF assms(1)] assms(2) by (simp add: list_all_iff)
  let ?op = "to_lower (trim_space (rf_op f))"
  have btw: "split_first CHR '','' (rf_value f) \<noteq> None" if "?op = ''between''"
  proof -
    have "to_lower ''between'' = ''between''" by code_simp
    with that have "equal_fold (trim_space (rf_op f)) ''between''" by (simp add: equal_fold_def)
    with ok have "between_ok (rf_value f)" by (simp add: filter_ok_def)
    then show ?thesis by (cases "split_first CHR '','' (rf_value f)") (simp_all add: between_ok_def)
  qed
  from ok have "rf_op f = [] \<or> isValidFilterOp (rf_op f)" by (simp add: filter_ok_def)
  then have "?op = [] \<or> ?op \<in> set
     [''='', ''<>'', ''!='', ''>'', ''>='', ''<'', ''<='', ''contains'', ''not contains'', ''starts with'',
      ''ends with'', ''like'', ''not like'', ''is blank'', ''is not blank'', ''between'', ''in'', ''not in'']"
    unfolding valid_ops by auto
  with btw show ?thesis
    unfolding filterCondExprV2_def compareExpr_def drifted_def Let_def
    by (cases "split_first CHR '','' (rf_value f)") auto
qed

lemma every_filter_becomes_a_condition_witness:
  "\<exists>e. filterCondExprV2 (GIdent ''Sale.Qty'') (hd (rq_filterItems shop_query)) = Some e \<and> e \<noteq> drifted"
  by (rule every_filter_becomes_a_condition [OF shop_resolves]) (simp add: shop_query_def)

section \<open>Joins\<close>

text \<open>Every join adds a new object and links it, by a pair of columns of an edge, to one that is
  already there.\<close>

definition edge_condition :: "JoinEdge \<Rightarrow> gexp" where
  "edge_condition e = GCompare ''='' (odCol (je_fromOd e) (je_fromProp e)) (odCol (je_toOd e) (je_toProp e))"

fun links :: "JoinEdge list \<Rightarrow> string set \<Rightarrow> (ObjectInfo \<times> gexp) list \<Rightarrow> bool" where
  "links es S [] \<longleftrightarrow> True"
| "links es S ((ob, on) # js) \<longleftrightarrow> oi_name ob \<notin> S
     \<and> list_ex (\<lambda>e. je_fromOd e \<in> S \<and> je_toOd e = oi_name ob \<and> on = edge_condition e) es
     \<and> links es (insert (oi_name ob) S) js"

lemma links_mono: "links es S js \<Longrightarrow> set es \<subseteq> set fs \<Longrightarrow> links fs S js"
  by (induction es S js rule: links.induct) (auto simp: list_ex_iff)

lemma links_distinct: "links es S js \<Longrightarrow> distinct (map (oi_name \<circ> fst) js) \<and> S \<inter> (oi_name \<circ> fst) ` set js = {}"
  by (induction es S js rule: links.induct) auto

lemma join_loop_links:
  assumes "attached edges (set joined) es"
    and "\<And>n. n \<in> je_toOd ` set es \<Longrightarrow> n \<notin> set joined \<Longrightarrow> \<exists>ob. objMap n = Some ob \<and> oi_name ob = n"
  shows "\<exists>js. join_loop objMap es joined = Inr js \<and> links es (set joined) js
    \<and> set joined \<union> (oi_name \<circ> fst) ` set js = reached (set joined) es"
  using assms
proof (induction es arbitrary: joined)
  case (Cons e es)
  then have from_in: "je_fromOd e \<in> set joined" and att: "attached edges (set (je_toOd e # joined)) es" by auto
  show ?case
  proof (cases "je_toOd e \<in> set joined")
    case True
    then have same: "insert (je_toOd e) (set joined) = set joined" by auto
    have "attached edges (set joined) es" using att True by (simp add: insert_absorb)
    then obtain js where js: "join_loop objMap es joined = Inr js" "links es (set joined) js"
      "set joined \<union> (oi_name \<circ> fst) ` set js = reached (set joined) es"
      using Cons.IH [of joined] Cons.prems(2) by auto
    have "links (e # es) (set joined) js" using js(2) by (rule links_mono) auto
    with js True from_in same show ?thesis by (intro exI [of _ js]) simp
  next
    case False
    then obtain ob where ob: "objMap (je_toOd e) = Some ob" "oi_name ob = je_toOd e"
      using Cons.prems(2) by auto
    obtain js where js: "join_loop objMap es (je_toOd e # joined) = Inr js"
      "links es (set (je_toOd e # joined)) js"
      "set (je_toOd e # joined) \<union> (oi_name \<circ> fst) ` set js = reached (set (je_toOd e # joined)) es"
      using Cons.IH [OF att] Cons.prems(2) by auto
    have "links (e # es) (set (je_toOd e # joined)) js" using js(2) by (rule links_mono) auto
    with js ob False from_in show ?thesis
      by (intro exI [of _ "(ob, edge_condition e) # js"]) (auto simp: edge_condition_def)
  qed
qed simp

section \<open>Where the clauses disagree\<close>

definition text_metric :: ResolvedAggregate where
  "text_metric = standard_aggregate (shop_prop ''Qty'' ''int'') ''SUM'' ''Total''"

text \<open>SELECT casts the column of a numeric aggregate, HAVING does not: the two expressions differ,
  and on a text column HAVING fails.\<close>

lemma having_repeats_another_aggregate:
  "aggExprV2 text_metric ''Sale'' False
     = GAs (GFunc ''SUM'' [GCast (GIdent ''Sale.Qty'') ''numeric'']) (GIdent ''Total'')
   \<and> aggExprNoAlias text_metric = Some (GFunc ''SUM'' [GIdent ''Sale.Qty''])"
proof -
  have u: "to_upper ''SUM'' = ''SUM''" by code_simp
  have n: "isNumericType ''int''" by code_simp
  show ?thesis
    by (simp add: aggExprV2_def aggExprNoAlias_def text_metric_def standard_aggregate_def no_aggregate_def
        shop_prop_def loaded_property_def propCol_def odCol_def agg_call_def u n)
qed

text \<open>Two groups with the same name are selected under qualified labels, but ordered by the bare one,
  which no column of the result has.\<close>

definition twin_query :: ResolvedLakehouseQuery where
  "twin_query = shop_query\<lparr>rq_groupByCols :=
     [\<lparr>gb_prop = loaded_property ''A'' ''1'' (''name'', ''text''), gb_granularity = [], gb_outputLabel = ''name'',
       gb_originalToken = ''A.name''\<rparr>,
      \<lparr>gb_prop = loaded_property ''B'' ''2'' (''name'', ''text''), gb_granularity = [], gb_outputLabel = ''name'',
       gb_originalToken = ''B.name''\<rparr>],
     rq_orderByCols := [\<lparr>or_kind = OrderByCustomLabel, or_prop = None, or_aggIndex = 0, or_label = ''name'',
       or_dir = ''ASC''\<rparr>]\<rparr>"

lemma order_label_is_not_selected:
  "selectExprsV2 twin_query [] True =
     [GAs (GIdent ''A.name'') (GIdent ''A.name''), GAs (GIdent ''B.name'') (GIdent ''B.name''),
      GAs (GFunc ''COUNT'' [star]) (GIdent ''Count'')]
   \<and> orderByExprsV2 twin_query [] True = [GAsc (GIdent ''name'')]"
  by code_simp

end
