(* ===== verification/Engine_Props.thy ===== *)
theory Engine_Props
  imports Engine Sql_V2_Props "HOL-Library.Multiset"
begin

text \<open>
  What the composition guarantees: the query that runs is the query of the preview, and every object of
  a query over several objects is joined.
\<close>

section \<open>Preloading\<close>

lemma load_single_name:
  "LoadSingleObject cat project od = Inr obj \<Longrightarrow> oi_name obj = od"
  by (auto simp: LoadSingleObject_def load_object_Inr split: prod.splits if_splits)

lemma HasObject_add [simp]:
  "HasObject (add_object obj rq) n \<longleftrightarrow> HasObject rq n \<or> equal_fold (oi_name obj) n"
  by (auto simp: HasObject_def add_object_def)

text \<open>Nothing but objects and their properties is added.\<close>

definition extends :: "ResolvedLakehouseQuery \<Rightarrow> ResolvedLakehouseQuery \<Rightarrow> string set \<Rightarrow> bool" where
  "extends rq rq' names \<longleftrightarrow> (\<exists>new. rq_objects rq' = rq_objects rq @ new \<and> oi_name ` set new \<subseteq> names
     \<and> (distinct (map (to_lower \<circ> oi_name) (rq_objects rq)) \<longrightarrow> distinct (map (to_lower \<circ> oi_name) (rq_objects rq'))))
   \<and> rq_filterItems rq' = rq_filterItems rq \<and> rq_groupByCols rq' = rq_groupByCols rq
   \<and> rq_aggregates rq' = rq_aggregates rq \<and> rq_orderByCols rq' = rq_orderByCols rq"

lemma extends_refl: "extends rq rq names"
  unfolding extends_def by (simp add: exI [of _ "[]"])

lemma preload_result:
  assumes "preload eng check project ods rq = (rq', None)"
  shows "extends rq rq' (set ods) \<and> list_all (HasObject rq') ods"
proof -
  have "extends rq rq' N \<and> list_all (HasObject rq') ods \<and> (\<forall>n. HasObject rq n \<longrightarrow> HasObject rq' n)"
    if "set ods \<subseteq> N" for N
    using assms that
  proof (induction ods arbitrary: rq)
    case Nil
    then show ?case by (simp add: extends_refl)
  next
    case (Cons od ods)
    show ?case
    proof (cases "HasObject rq od")
      case True
      with Cons show ?thesis by auto
    next
      case False
      with Cons.prems(1) obtain obj where obj: "LoadSingleObject (e_catalog eng) project od = Inr obj"
        and rest: "preload eng check project ods (add_object obj rq) = (rq', None)"
        by (auto split: sum.splits if_splits)
      have name: "oi_name obj = od" using obj by (rule load_single_name)
      from Cons.IH [OF rest] Cons.prems(2) have IH: "extends (add_object obj rq) rq' N"
        "list_all (HasObject rq') ods" "\<forall>n. HasObject (add_object obj rq) n \<longrightarrow> HasObject rq' n" by auto
      have fresh: "to_lower od \<notin> set (map (to_lower \<circ> oi_name) (rq_objects rq))"
        using False by (auto simp: HasObject_def list_ex_iff equal_fold_def)
      obtain new where "rq_objects rq' = rq_objects (add_object obj rq) @ new" "oi_name ` set new \<subseteq> N"
        using IH(1) by (auto simp: extends_def)
      then have "rq_objects rq' = rq_objects rq @ obj # new \<and> oi_name ` set (obj # new) \<subseteq> N"
        using name Cons.prems(2) by (simp add: add_object_def)
      moreover have "distinct (map (to_lower \<circ> oi_name) (rq_objects rq)) \<longrightarrow>
          distinct (map (to_lower \<circ> oi_name) (rq_objects rq'))"
        using IH(1) fresh name by (auto simp: extends_def add_object_def)
      ultimately have "extends rq rq' N"
        using IH(1) unfolding extends_def by (auto simp: add_object_def)
      with IH(2,3) name show ?thesis by simp
    qed
  qed
  then show ?thesis by blast
qed

text \<open>The check of Execute only rejects: without it the loading gives the same query.\<close>

lemma preload_check:
  "preload eng True project ods rq = (rq', None) \<Longrightarrow> preload eng False project ods rq = (rq', None)"
  by (induction ods arbitrary: rq) (auto split: if_splits sum.splits)

section \<open>What runs is what the preview shows\<close>

definition queries :: "statement list \<Rightarrow> (string \<times> sql_arg list) set" where
  "queries sent = {(q, args). StQuery q args \<in> set sent}"

lemma ExecuteSQL_queries: "queries (snd (ExecuteSQL db project q)) \<subseteq> {(q, [])}"
proof (cases rule: sandboxed_cases [of db project q "[]"])
  case (nothing f)
  then show ?thesis by (simp add: ExecuteSQL_def queries_def)
next
  case (stopped f schema n)
  then show ?thesis
    using set_take_subset [of n "settings db schema"]
    by (auto simp: ExecuteSQL_def queries_def settings_def)
next
  case (ran r schema)
  then show ?thesis by (auto simp: ExecuteSQL_def queries_def settings_def)
qed



section \<open>Every object is joined\<close>

lemma odByName_defined:
  assumes "n \<in> oi_name ` set (rq_objects rq)"
  shows "\<exists>ob. odByName rq n = Some ob \<and> oi_name ob = n"
proof -
  have "n \<in> fst ` set (rev (map (\<lambda>ob. (oi_name ob, ob)) (rq_objects rq)))" using assms by force
  then have "odByName rq n \<noteq> None" unfolding odByName_def by (simp only: map_of_eq_None_iff not_not)
  then obtain ob where "odByName rq n = Some ob" by blast
  with odByName_in show ?thesis by blast
qed

lemma join_loop_objects:
  "join_loop objMap es joined = Inr js \<Longrightarrow> (ob, on) \<in> set js \<Longrightarrow> \<exists>n. objMap n = Some ob"
  by (induction es arbitrary: joined js) (auto split: if_splits option.splits sum.splits)



text \<open>An engine over three objects in a chain, of which a query names the outer two.\<close>

definition chain_edges :: "JoinEdge list" where
  "chain_edges =
     [\<lparr>je_fromOd = ''A'', je_fromProp = ''b_id'', je_toOd = ''B'', je_toProp = ''id'', je_cardinality = ''N:1''\<rparr>,
      \<lparr>je_fromOd = ''B'', je_fromProp = ''c_id'', je_toOd = ''C'', je_toProp = ''id'', je_cardinality = ''N:1''\<rparr>]"

definition chain_engine :: engine where
  "chain_engine =
     \<lparr>e_catalog = shop_catalog\<lparr>ct_object := (\<lambda>_ n. Some (n, ''select 1'')), ct_probe := (\<lambda>_. None)\<rparr>,
      e_keywords = \<lparr>kw_machine_code = (\<lambda>_ _. False), kw_exact = (\<lambda>_ _ _. []), kw_fuzzy = (\<lambda>_ _ _. []),
        kw_project = (\<lambda>_ _. []), kw_vector = (\<lambda>_ _. ([], []))\<rparr>,
      e_edges = (\<lambda>_. Inr chain_edges), e_order = (\<lambda>_ xs. xs),
      e_builder = \<lparr>b_ToSQL = (\<lambda>_. Inr ''select 2''), b_error_text = (\<lambda>_. []), b_map_order = (\<lambda>m. m)\<rparr>,
      e_db = demo_db, e_message = (\<lambda>_. []), e_failure = (\<lambda>_. [])\<rparr>"

definition chain_object :: "string \<Rightarrow> ObjectInfo" where
  "chain_object n = \<lparr>oi_id = n, oi_name = n, oi_canonicalQuery = ''select 1'',
     oi_props = [loaded_property n n (''Qty'', ''int''), loaded_property n n (''Region'', ''text'')],
     oi_actualColumns = [], oi_unmatchedProps = []\<rparr>"

definition chain_query :: ResolvedLakehouseQuery where
  "chain_query = shop_query\<lparr>rq_objects := [chain_object ''A'', chain_object ''C'']\<rparr>"

definition chain_loaded :: ResolvedLakehouseQuery where
  "chain_loaded = add_object (chain_object ''B'') chain_query"

lemma chain_prepared:
  "join_stage chain_engine [] (rq_objects chain_query) = Inr chain_edges"
  "preload chain_engine True [] (path_ends chain_edges) chain_query = (chain_loaded, None)"
  by code_simp+


text \<open>Names that differ only in case: the check for a loaded object ignores case, the lookup of the
  builder does not, so the builder misses an object that was taken for loaded.\<close>

lemma case_of_names_breaks_the_join:
  "let rq = shop_query\<lparr>rq_objects := [chain_object ''A'', chain_object ''b'']\<rparr>;
       path = [hd chain_edges] in
     preload chain_engine True [] (path_ends path) rq = (rq, None)
   \<and> multi_dataset rq path BuildPhysical = Inl (resolve_error ''INTERMEDIATE_OD_MISSING'' ''B'')"
  unfolding Let_def by code_simp

text \<open>The preview accepts an intermediate object without a canonical query, execution does not.\<close>

lemma preview_accepts_unconfigured_objects:
  "let eng = chain_engine\<lparr>e_catalog := (e_catalog chain_engine)\<lparr>ct_object := (\<lambda>_ n. Some (n, []))\<rparr>\<rparr> in
     snd (preload eng False [] [''B''] chain_query) = None
   \<and> snd (preload eng True [] [''B''] chain_query) = Some (IntermediateUnconfigured ''B'')"
  unfolding Let_def by code_simp

end
