(* ===== verification/Job_Queue.thy ===== *)
theory Job_Queue
  imports Sql_Rewrite
begin

text \<open>
  The durable queue of background jobs (\<open>collector-server/job\<close>) and the request that cancels one
  (\<open>backend-api/handler/handler_jobs.go\<close>). The table \<open>ingest_job\<close> is a list of rows; an UPDATE, INSERT or
  DELETE of the code is a function on it, applied at once (so is a flush of progress, whose snapshot and
  statement are one step here). A statement the database fails leaves the
  table as it was: \<open>ok\<close> says whether it succeeded. The clock of the database is a parameter, in seconds.
  The handler of a kind is a parameter too: it may report any progress and end in any outcome.
\<close>

section \<open>Rows\<close>

datatype Status = StatusQueued | StatusRunning | StatusSucceeded | StatusFailed | StatusCancelled

definition terminal_status :: "Status \<Rightarrow> bool" where
  "terminal_status st \<longleftrightarrow> st \<in> {StatusSucceeded, StatusFailed, StatusCancelled}"

type_synonym Kind = string

definition kinds :: "Kind list" where
  "kinds = [''file_upload'', ''postgres_sync'', ''pbit_ingest'', ''pbix_extract'', ''wizard_confirm'']"

record Job =
  job_ID :: string
  job_DataSourceID :: "string option"
  job_ProjectID :: string
  job_Kind :: Kind
  job_Status :: Status
  job_Phase :: "string option"
  job_Percent :: int
  job_RowsDone :: int
  job_RowsTotal :: int
  job_BytesDone :: int
  job_Message :: "string option"
  job_WorkerID :: "string option"
  job_HeartbeatAt :: "int option"
  job_StartedAt :: "int option"
  job_CompletedAt :: "int option"
  job_Error :: "string option"
  job_RetryCount :: int
  job_Payload :: string
  job_CancelRequested :: bool
  job_CreatedAt :: int
  job_CreatedBy :: "string option"

type_synonym job_table = "Job list"

definition update_where :: "(Job \<Rightarrow> bool) \<Rightarrow> (Job \<Rightarrow> Job) \<Rightarrow> job_table \<Rightarrow> job_table" where
  "update_where p f tab = map (\<lambda>j. if p j then f j else j) tab"

definition with_id :: "string \<Rightarrow> Job \<Rightarrow> bool" where
  "with_id i j \<longleftrightarrow> job_ID j = i"

section \<open>Enqueue\<close>

record EnqueueArgs =
  ea_DataSourceID :: "string option"
  ea_ProjectID :: string
  ea_Kind :: Kind
  ea_CreatedBy :: "string option"

text \<open>The row the INSERT of \<open>Enqueue\<close> makes: the other columns have the defaults of the schema
  (\<open>docs/schema/schema.sql\<close>).\<close>

definition new_job :: "EnqueueArgs \<Rightarrow> string \<Rightarrow> string \<Rightarrow> int \<Rightarrow> Job" where
  "new_job a payload i now =
     \<lparr>job_ID = i, job_DataSourceID = ea_DataSourceID a, job_ProjectID = ea_ProjectID a,
      job_Kind = ea_Kind a, job_Status = StatusQueued, job_Phase = None, job_Percent = 0,
      job_RowsDone = 0, job_RowsTotal = 0, job_BytesDone = 0, job_Message = None,
      job_WorkerID = None, job_HeartbeatAt = None, job_StartedAt = None, job_CompletedAt = None,
      job_Error = None, job_RetryCount = 0, job_Payload = payload, job_CancelRequested = False,
      job_CreatedAt = now, job_CreatedBy = ea_CreatedBy a\<rparr>"

text \<open>\<open>marshalled\<close> is the result of \<open>json.Marshal\<close> on the payload, \<open>i\<close> the id the database draws. The
  CHECK constraint on the kind is the only one modelled; a failure of the database is the error
  \<open>db_error\<close>, with the empty id.\<close>

definition Enqueue ::
  "EnqueueArgs \<Rightarrow> string + string \<Rightarrow> string \<Rightarrow> int \<Rightarrow> bool \<Rightarrow> string \<Rightarrow> job_table \<Rightarrow> (string + string) \<times> job_table" where
  "Enqueue a marshalled i now ok db_error tab =
     (case marshalled of
        Inl e \<Rightarrow> (Inl e, tab)
      | Inr p \<Rightarrow>
          (let payload = (if p = [] \<or> p = ''null'' then ''{}'' else p)
           in if ok \<and> ea_Kind a \<in> set kinds then (Inr i, tab @ [new_job a payload i now])
              else (Inl db_error, tab)))"

section \<open>Claiming\<close>

text \<open>The inner SELECT of \<open>claimNext\<close>: the oldest queued row no other transaction has locked. Among
  rows of one age the first of the table is taken (the database may take any).\<close>

fun oldest :: "Job list \<Rightarrow> Job option" where
  "oldest [] = None"
| "oldest (j # js) =
     (case oldest js of
        None \<Rightarrow> Some j
      | Some k \<Rightarrow> if job_CreatedAt j \<le> job_CreatedAt k then Some j else Some k)"

definition claimable :: "string set \<Rightarrow> Job \<Rightarrow> bool" where
  "claimable locked j \<longleftrightarrow> job_Status j = StatusQueued \<and> job_ID j \<notin> locked"

definition claim_row :: "string \<Rightarrow> int \<Rightarrow> Job \<Rightarrow> Job" where
  "claim_row wid now j =
     j\<lparr>job_Status := StatusRunning, job_WorkerID := Some wid,
       job_StartedAt := (case job_StartedAt j of None \<Rightarrow> Some now | Some t \<Rightarrow> Some t),
       job_HeartbeatAt := Some now\<rparr>"

text \<open>What \<open>RETURNING\<close> and \<open>Scan\<close> put into the \<open>Job\<close> of the worker: the other fields stay zero.\<close>

definition scan_claimed :: "Job \<Rightarrow> Job" where
  "scan_claimed j =
     j\<lparr>job_Phase := None, job_Percent := 0, job_RowsDone := 0, job_RowsTotal := 0,
       job_BytesDone := 0, job_Message := None, job_WorkerID := None, job_HeartbeatAt := None,
       job_StartedAt := None, job_CompletedAt := None, job_Error := None,
       job_CancelRequested := False\<rparr>"

definition claimNext ::
  "string \<Rightarrow> int \<Rightarrow> string set \<Rightarrow> job_table \<Rightarrow> Job option \<times> job_table" where
  "claimNext wid now locked tab =
     (case oldest (filter (claimable locked) tab) of
        None \<Rightarrow> (None, tab)
      | Some j \<Rightarrow> (Some (scan_claimed (claim_row wid now j)),
                   update_where (with_id (job_ID j)) (claim_row wid now) tab))"

section \<open>Progress\<close>

record Reporter =
  rep_jobID :: string
  rep_dirty :: bool
  rep_phase :: string
  rep_pct :: int
  rep_rows :: int
  rep_total :: int
  rep_bytes :: int
  rep_msg :: string
  rep_cancelled :: bool

definition newReporter :: "string \<Rightarrow> Reporter" where
  "newReporter i =
     \<lparr>rep_jobID = i, rep_dirty = False, rep_phase = [], rep_pct = 0, rep_rows = 0, rep_total = 0,
      rep_bytes = 0, rep_msg = [], rep_cancelled = False\<rparr>"

record snapshot =
  sn_phase :: string
  sn_pct :: int
  sn_rowsDone :: int
  sn_rowsTotal :: int
  sn_bytesDone :: int
  sn_msg :: string

definition Update :: "snapshot \<Rightarrow> Reporter \<Rightarrow> Reporter" where
  "Update u r =
     r\<lparr>rep_phase := (if sn_phase u \<noteq> [] then sn_phase u else rep_phase r),
       rep_pct := (if 0 \<le> sn_pct u then (if 100 < sn_pct u then 100 else sn_pct u) else rep_pct r),
       rep_rows := (if 0 < sn_rowsDone u then sn_rowsDone u else rep_rows r),
       rep_total := (if 0 < sn_rowsTotal u then sn_rowsTotal u else rep_total r),
       rep_bytes := (if 0 < sn_bytesDone u then sn_bytesDone u else rep_bytes r),
       rep_msg := (if sn_msg u \<noteq> [] then sn_msg u else rep_msg r),
       rep_dirty := True\<rparr>"

definition SetCancelled :: "Reporter \<Rightarrow> Reporter" where
  "SetCancelled r = r\<lparr>rep_cancelled := True\<rparr>"

definition Cancelled :: "Reporter \<Rightarrow> bool" where
  "Cancelled r \<longleftrightarrow> rep_cancelled r"

text \<open>\<open>COALESCE(NULLIF(new, ''), old)\<close>.\<close>

definition coalesce :: "string \<Rightarrow> string option \<Rightarrow> string option" where
  "coalesce s old = (if s = [] then old else Some s)"

definition progress_row :: "Reporter \<Rightarrow> Job \<Rightarrow> Job" where
  "progress_row r j =
     j\<lparr>job_Phase := coalesce (rep_phase r) (job_Phase j), job_Percent := rep_pct r,
       job_RowsDone := rep_rows r, job_RowsTotal := rep_total r, job_BytesDone := rep_bytes r,
       job_Message := coalesce (rep_msg r) (job_Message j)\<rparr>"

definition Flush :: "bool \<Rightarrow> Reporter \<Rightarrow> job_table \<Rightarrow> Reporter \<times> job_table" where
  "Flush ok r tab =
     (if \<not> rep_dirty r then (r, tab)
      else (r\<lparr>rep_dirty := False\<rparr>,
            if ok then update_where (with_id (rep_jobID r)) (progress_row r) tab else tab))"

section \<open>Heartbeat\<close>

definition running_with_id :: "string \<Rightarrow> Job \<Rightarrow> bool" where
  "running_with_id i j \<longleftrightarrow> job_ID j = i \<and> job_Status j = StatusRunning"

definition beat :: "bool \<Rightarrow> int \<Rightarrow> Reporter \<Rightarrow> job_table \<Rightarrow> Reporter \<times> job_table" where
  "beat ok now r tab =
     (if \<not> ok then (r, tab)
      else case find (running_with_id (rep_jobID r)) tab of
             None \<Rightarrow> (r, tab)
           | Some j \<Rightarrow>
               (if job_CancelRequested j then SetCancelled r else r,
                update_where (running_with_id (rep_jobID r)) (\<lambda>j. j\<lparr>job_HeartbeatAt := Some now\<rparr>) tab))"

section \<open>Running a job\<close>

text \<open>The dispatcher: which kinds have a handler (its code is a parameter).\<close>

type_synonym dispatcher = "Kind \<Rightarrow> bool"

definition newDispatcher :: dispatcher where
  "newDispatcher = (\<lambda>_. False)"

definition register :: "dispatcher \<Rightarrow> Kind \<Rightarrow> dispatcher" where
  "register d k = d(k := True)"

definition dispatcher_lookup :: "dispatcher \<Rightarrow> Kind \<Rightarrow> string option" where
  "dispatcher_lookup d k =
     (if d k then None else Some (''no handler registered for kind '' @ go_quote k))"

text \<open>How a handler ends: a panic with a value, or a return with an error or none.\<close>

datatype outcome = Panicked string | Returned "string option"

definition terminal_row :: "Status \<Rightarrow> string \<Rightarrow> int \<Rightarrow> Job \<Rightarrow> Job" where
  "terminal_row st msg now j =
     j\<lparr>job_Status := st, job_CompletedAt := Some now,
       job_Error := (if msg = [] then None else Some msg)\<rparr>"

definition markTerminal :: "bool \<Rightarrow> string \<Rightarrow> Status \<Rightarrow> string \<Rightarrow> int \<Rightarrow> job_table \<Rightarrow> job_table" where
  "markTerminal ok i st msg now tab =
     (if ok then update_where (with_id i) (terminal_row st msg now) tab else tab)"

text \<open>The terminal status \<open>runJob\<close> writes: a panic wins, then a cancellation the heartbeat saw, then
  the error of the handler.\<close>

definition decide :: "bool \<Rightarrow> outcome \<Rightarrow> Status \<times> string" where
  "decide cancelled out =
     (case out of
        Panicked v \<Rightarrow> (StatusFailed, ''panic: '' @ v)
      | Returned err \<Rightarrow>
          if cancelled then (StatusCancelled, ''cancelled by user'')
          else case err of Some e \<Rightarrow> (StatusFailed, e) | None \<Rightarrow> (StatusSucceeded, []))"

text \<open>
  A job in the hands of a worker: its handler runs, or the handler has ended and the terminal status is
  decided but not yet written, or it is written and the last flush is to come. The flusher and the
  heartbeat run beside all three, until the end of \<open>runJob\<close>.
\<close>

datatype stage = Handling | Closing Status string | Closed

record run =
  run_job :: Job
  run_rep :: Reporter
  run_stage :: stage

definition start_run :: "dispatcher \<Rightarrow> Job \<Rightarrow> run" where
  "start_run d j =
     \<lparr>run_job = j, run_rep = newReporter (job_ID j),
      run_stage = (case dispatcher_lookup d (job_Kind j) of
                     Some e \<Rightarrow> Closing StatusFailed e
                   | None \<Rightarrow> Handling)\<rparr>"

definition end_handler :: "outcome \<Rightarrow> run \<Rightarrow> run" where
  "end_handler out r =
     (case decide (Cancelled (run_rep r)) out of (st, msg) \<Rightarrow> r\<lparr>run_stage := Closing st msg\<rparr>)"

section \<open>Sweeping and cancelling\<close>

definition stale :: "int \<Rightarrow> Job \<Rightarrow> bool" where
  "stale now j \<longleftrightarrow> job_Status j = StatusRunning
     \<and> (case job_HeartbeatAt j of None \<Rightarrow> True | Some t \<Rightarrow> t < now - 120)"

definition SweepStaleJobs :: "int \<Rightarrow> job_table \<Rightarrow> job_table" where
  "SweepStaleJobs now tab = update_where (stale now) (terminal_row StatusFailed ''worker_lost'' now) tab"

definition expired :: "int \<Rightarrow> Job \<Rightarrow> bool" where
  "expired now j \<longleftrightarrow> terminal_status (job_Status j)
     \<and> (case job_CompletedAt j of None \<Rightarrow> False | Some t \<Rightarrow> t < now - 30 * 24 * 3600)"

definition SweepOldJobs :: "int \<Rightarrow> job_table \<Rightarrow> job_table" where
  "SweepOldJobs now tab = filter (\<lambda>j. \<not> expired now j) tab"

definition active_with_id :: "string \<Rightarrow> Job \<Rightarrow> bool" where
  "active_with_id i j \<longleftrightarrow> job_ID j = i \<and> job_Status j \<in> {StatusQueued, StatusRunning}"

text \<open>\<open>handleJobCancel\<close>: the status code of the response and the table.\<close>

definition handleJobCancel :: "bool \<Rightarrow> string \<Rightarrow> job_table \<Rightarrow> nat \<times> job_table" where
  "handleJobCancel ok i tab =
     (if \<not> ok then (500, tab)
      else if filter (active_with_id i) tab = [] then (409, tab)
      else (204, update_where (active_with_id i) (\<lambda>j. j\<lparr>job_CancelRequested := True\<rparr>) tab))"

section \<open>The system\<close>

text \<open>The table, for each worker of the pool the job it runs, if any, and the ids drawn so far
  (\<open>gen_random_uuid\<close> draws an id once).\<close>

record queue =
  q_tab :: job_table
  q_slots :: "run option list"
  q_drawn :: "string set"

definition start_queue :: "nat \<Rightarrow> queue" where
  "start_queue workers = \<lparr>q_tab = [], q_slots = replicate workers None, q_drawn = {}\<rparr>"

definition set_slot :: "nat \<Rightarrow> run option \<Rightarrow> queue \<Rightarrow> queue" where
  "set_slot k r s = s\<lparr>q_slots := (q_slots s)[k := r]\<rparr>"

definition slot_run :: "queue \<Rightarrow> nat \<Rightarrow> run \<Rightarrow> bool" where
  "slot_run s k r \<longleftrightarrow> k < length (q_slots s) \<and> q_slots s ! k = Some r"

definition slot_free :: "queue \<Rightarrow> nat \<Rightarrow> bool" where
  "slot_free s k \<longleftrightarrow> k < length (q_slots s) \<and> q_slots s ! k = None"

text \<open>
  Any order of the operations of requests, workers, flushers, heartbeats and sweepers is a sequence of
  these steps; \<open>shutdown\<close> is the end of the process at any moment, and \<open>drop_source\<close> the cascade of a
  deleted data source.
\<close>

inductive queue_step :: "dispatcher \<Rightarrow> queue \<Rightarrow> queue \<Rightarrow> bool" for d where
  enqueue: "i \<notin> q_drawn s \<Longrightarrow> Enqueue a m i now ok e (q_tab s) = (res, tab)
    \<Longrightarrow> queue_step d s (s\<lparr>q_tab := tab, q_drawn := insert i (q_drawn s)\<rparr>)"
| claim: "slot_free s k \<Longrightarrow> claimNext wid now locked (q_tab s) = (Some j, tab)
    \<Longrightarrow> queue_step d s (set_slot k (Some (start_run d j)) (s\<lparr>q_tab := tab\<rparr>))"
| progress: "slot_run s k r \<Longrightarrow> run_stage r = Handling
    \<Longrightarrow> queue_step d s (set_slot k (Some (r\<lparr>run_rep := Update u (run_rep r)\<rparr>)) s)"
| flush: "slot_run s k r \<Longrightarrow> Flush ok (run_rep r) (q_tab s) = (rep, tab)
    \<Longrightarrow> queue_step d s (set_slot k (Some (r\<lparr>run_rep := rep\<rparr>)) (s\<lparr>q_tab := tab\<rparr>))"
| heartbeat: "slot_run s k r \<Longrightarrow> beat ok now (run_rep r) (q_tab s) = (rep, tab)
    \<Longrightarrow> queue_step d s (set_slot k (Some (r\<lparr>run_rep := rep\<rparr>)) (s\<lparr>q_tab := tab\<rparr>))"
| handler_ends: "slot_run s k r \<Longrightarrow> run_stage r = Handling
    \<Longrightarrow> queue_step d s (set_slot k (Some (end_handler out r)) s)"
| write_status: "slot_run s k r \<Longrightarrow> run_stage r = Closing st msg
    \<Longrightarrow> queue_step d s (set_slot k (Some (r\<lparr>run_stage := Closed\<rparr>))
          (s\<lparr>q_tab := markTerminal ok (job_ID (run_job r)) st msg now (q_tab s)\<rparr>))"
| last_flush: "slot_run s k r \<Longrightarrow> run_stage r = Closed \<Longrightarrow> Flush ok (run_rep r) (q_tab s) = (rep, tab)
    \<Longrightarrow> queue_step d s (set_slot k None (s\<lparr>q_tab := tab\<rparr>))"
| shutdown: "queue_step d s (s\<lparr>q_slots := replicate (length (q_slots s)) None\<rparr>)"
| sweep_stale: "queue_step d s (s\<lparr>q_tab := SweepStaleJobs now (q_tab s)\<rparr>)"
| sweep_old: "queue_step d s (s\<lparr>q_tab := SweepOldJobs now (q_tab s)\<rparr>)"
| cancel: "handleJobCancel ok i (q_tab s) = (code, tab) \<Longrightarrow> queue_step d s (s\<lparr>q_tab := tab\<rparr>)"
| drop_source: "queue_step d s (s\<lparr>q_tab := filter (\<lambda>j. job_DataSourceID j \<noteq> Some ds) (q_tab s)\<rparr>)"

end
