(* ===== verification/Job_Queue_Props.thy ===== *)
theory Job_Queue_Props
  imports Job_Queue
begin

text \<open>
  What the job queue guarantees under any interleaving of its steps: the rows stay consistent, no two
  workers run one job, every job follows the life cycle \<open>life_edge\<close>, a worker that finishes settles its
  job, and a settled job no worker holds is final.
\<close>

section \<open>Rows and their changes\<close>

definition job_ok :: "Job \<Rightarrow> bool" where
  "job_ok j \<longleftrightarrow>
     (job_WorkerID j = None \<longleftrightarrow> job_Status j = StatusQueued)
     \<and> (job_StartedAt j = None \<longleftrightarrow> job_Status j = StatusQueued)
     \<and> (job_HeartbeatAt j = None \<longleftrightarrow> job_Status j = StatusQueued)
     \<and> (job_CompletedAt j \<noteq> None \<longleftrightarrow> terminal_status (job_Status j))
     \<and> 0 \<le> job_Percent j \<and> job_Percent j \<le> 100
     \<and> (job_Status j = StatusCancelled \<longrightarrow> job_CancelRequested j)
     \<and> job_Kind j \<in> set kinds"

text \<open>The moves of a job from status to status.\<close>

inductive job_move :: "Status \<Rightarrow> Status \<Rightarrow> bool" where
  stays: "job_move st st"
| starts: "job_move StatusQueued StatusRunning"
| ends: "terminal_status st \<Longrightarrow> job_move StatusRunning st"
| rewritten: "terminal_status st \<Longrightarrow> terminal_status st' \<Longrightarrow> job_move st st'"

inductive_simps job_move_iff: "job_move a b"

text \<open>How a row may look after a step: the same job, moved, with a cancellation never taken back.\<close>

definition row_step :: "Job \<Rightarrow> Job \<Rightarrow> bool" where
  "row_step j j' \<longleftrightarrow> job_ID j' = job_ID j \<and> job_move (job_Status j) (job_Status j')
     \<and> (job_CancelRequested j \<longrightarrow> job_CancelRequested j')"

definition rows_step :: "job_table \<Rightarrow> job_table \<Rightarrow> bool" where
  "rows_step tab tab' \<longleftrightarrow> (\<forall>j' \<in> set tab'. \<exists>j \<in> set tab. row_step j j')
     \<and> (distinct (map job_ID tab) \<longrightarrow> distinct (map job_ID tab'))"

lemma row_step_refl [simp]: "row_step j j"
  by (simp add: row_step_def stays)

lemma rows_step_refl [simp]: "rows_step tab tab"
  by (auto simp: rows_step_def intro: row_step_refl)

lemma rows_step_filter [simp]: "rows_step tab (filter p tab)"
  by (auto simp: rows_step_def distinct_map_filter intro: row_step_refl)

lemma update_where_set: "set (update_where p f tab) = (\<lambda>j. if p j then f j else j) ` set tab"
  by (simp add: update_where_def)

lemma rows_step_update:
  assumes "\<And>j. j \<in> set tab \<Longrightarrow> p j \<Longrightarrow> row_step j (f j)"
  shows "rows_step tab (update_where p f tab)"
proof -
  have "map job_ID (update_where p f tab) = map job_ID tab"
    using assms by (auto simp: update_where_def row_step_def)
  moreover have "\<exists>j \<in> set tab. row_step j j'" if "j' \<in> set (update_where p f tab)" for j'
    using that assms by (force simp: update_where_set)
  ultimately show ?thesis by (simp add: rows_step_def)
qed

lemma all_update_where:
  assumes "\<forall>j \<in> set tab. P j" "\<And>j. j \<in> set tab \<Longrightarrow> p j \<Longrightarrow> P (f j)"
  shows "\<forall>j \<in> set (update_where p f tab). P j"
  using assms by (auto simp: update_where_set)

lemma row_step_simps [simp]:
  "row_step j (progress_row r j)"
  "row_step j (j\<lparr>job_HeartbeatAt := t\<rparr>)"
  "row_step j (j\<lparr>job_CancelRequested := True\<rparr>)"
  "job_Status j = StatusQueued \<Longrightarrow> row_step j (claim_row wid now j)"
  "terminal_status st \<Longrightarrow> job_Status j \<noteq> StatusQueued \<Longrightarrow> row_step j (terminal_row st msg now j)"
  by (cases "job_Status j"; auto simp: row_step_def progress_row_def claim_row_def terminal_row_def
      job_move_iff terminal_status_def)+

lemma job_ok_simps:
  "job_ok j \<Longrightarrow> 0 \<le> rep_pct r \<Longrightarrow> rep_pct r \<le> 100 \<Longrightarrow> job_ok (progress_row r j)"
  "job_ok j \<Longrightarrow> job_Status j = StatusRunning \<Longrightarrow> job_ok (j\<lparr>job_HeartbeatAt := Some now\<rparr>)"
  "job_ok j \<Longrightarrow> job_ok (j\<lparr>job_CancelRequested := True\<rparr>)"
  "job_ok j \<Longrightarrow> job_Status j = StatusQueued \<Longrightarrow> job_ok (claim_row wid now j)"
  "job_ok j \<Longrightarrow> terminal_status st \<Longrightarrow> job_Status j \<noteq> StatusQueued
     \<Longrightarrow> (st = StatusCancelled \<Longrightarrow> job_CancelRequested j) \<Longrightarrow> job_ok (terminal_row st msg now j)"
  by (auto simp: job_ok_def progress_row_def claim_row_def terminal_row_def terminal_status_def)

section \<open>Claiming\<close>

lemma oldest_None [simp]: "oldest js = None \<longleftrightarrow> js = []"
  by (cases js) (auto split: option.splits)

lemma oldest_Some:
  "oldest js = Some j \<Longrightarrow> j \<in> set js \<and> (\<forall>k \<in> set js. job_CreatedAt j \<le> job_CreatedAt k)"
proof (induction js arbitrary: j)
  case (Cons x js)
  show ?case
  proof (cases "oldest js")
    case (Some k)
    with Cons.IH [of k] Cons.prems show ?thesis by (fastforce split: if_splits)
  qed (use Cons.prems in auto)
qed simp

lemma claimNext_Some:
  assumes "claimNext wid now locked tab = (Some c, tab')"
  obtains j where "j \<in> set tab" "job_Status j = StatusQueued" "job_ID j \<notin> locked"
    "c = scan_claimed (claim_row wid now j)" "tab' = update_where (with_id (job_ID j)) (claim_row wid now) tab"
    "\<And>k. k \<in> set tab \<Longrightarrow> claimable locked k \<Longrightarrow> job_CreatedAt j \<le> job_CreatedAt k"
proof -
  from assms obtain j where j: "oldest (filter (claimable locked) tab) = Some j"
    "c = scan_claimed (claim_row wid now j)" "tab' = update_where (with_id (job_ID j)) (claim_row wid now) tab"
    by (auto simp: claimNext_def split: option.splits)
  from oldest_Some [OF j(1)] j(2,3) that show thesis by (auto simp: claimable_def)
qed

lemma same_id: "distinct (map job_ID tab) \<Longrightarrow> j \<in> set tab \<Longrightarrow> k \<in> set tab \<Longrightarrow> job_ID j = job_ID k \<Longrightarrow> j = k"
  by (auto simp: distinct_map inj_on_def)

section \<open>The invariant\<close>

definition run_id :: "run \<Rightarrow> string" where
  "run_id r = job_ID (run_job r)"

text \<open>What a worker knows of its job: the row, while it exists, is not queued, and the reporter saw a
  cancellation only if the row has the request.\<close>

definition run_ok :: "job_table \<Rightarrow> run \<Rightarrow> bool" where
  "run_ok tab r \<longleftrightarrow> rep_jobID (run_rep r) = run_id r
     \<and> 0 \<le> rep_pct (run_rep r) \<and> rep_pct (run_rep r) \<le> 100
     \<and> (\<forall>j \<in> set tab. job_ID j = run_id r \<longrightarrow>
          job_Status j \<noteq> StatusQueued \<and> (Cancelled (run_rep r) \<longrightarrow> job_CancelRequested j))
     \<and> (\<forall>st msg. run_stage r = Closing st msg \<longrightarrow>
          terminal_status st \<and> (st = StatusCancelled \<longrightarrow> Cancelled (run_rep r)))"

definition exclusive :: "queue \<Rightarrow> bool" where
  "exclusive s \<longleftrightarrow> (\<forall>k l r q. slot_run s k r \<longrightarrow> slot_run s l q \<longrightarrow> run_id r = run_id q \<longrightarrow> k = l)"

definition queue_inv :: "queue \<Rightarrow> bool" where
  "queue_inv s \<longleftrightarrow> distinct (map job_ID (q_tab s)) \<and> (\<forall>j \<in> set (q_tab s). job_ok j)
     \<and> (\<forall>k r. slot_run s k r \<longrightarrow> run_ok (q_tab s) r) \<and> exclusive s
     \<and> job_ID ` set (q_tab s) \<subseteq> q_drawn s \<and> (\<forall>k r. slot_run s k r \<longrightarrow> run_id r \<in> q_drawn s)"

lemma slot_run_simps [simp]:
  "slot_run (s\<lparr>q_tab := tab\<rparr>) k r = slot_run s k r"
  "slot_run (s\<lparr>q_drawn := ids\<rparr>) k r = slot_run s k r"
  "slot_run (set_slot l x s) k r \<longleftrightarrow> (if l = k then k < length (q_slots s) \<and> x = Some r else slot_run s k r)"
  "q_tab (set_slot l x s) = q_tab s" "q_drawn (set_slot l x s) = q_drawn s"
  "length (q_slots (set_slot l x s)) = length (q_slots s)"
  by (auto simp: slot_run_def set_slot_def)

lemma exclusive_frame [simp]:
  "exclusive (s\<lparr>q_tab := tab\<rparr>) = exclusive s" "exclusive (s\<lparr>q_drawn := ids\<rparr>) = exclusive s"
  by (simp_all add: exclusive_def)

lemma run_ok_rows:
  assumes "run_ok tab r" "rows_step tab tab'"
  shows "run_ok tab' r"
proof -
  have "job_Status j' \<noteq> StatusQueued \<and> (Cancelled (run_rep r) \<longrightarrow> job_CancelRequested j')"
    if j': "j' \<in> set tab'" "job_ID j' = run_id r" for j'
  proof -
    from assms(2) j' obtain j where j: "j \<in> set tab" "row_step j j'" by (auto simp: rows_step_def)
    with j' have "job_ID j = run_id r" by (simp add: row_step_def)
    with j assms(1) show ?thesis by (auto simp: run_ok_def row_step_def job_move_iff terminal_status_def)
  qed
  with assms(1) show ?thesis by (simp add: run_ok_def)
qed

text \<open>A step on the table, and one on the table and the run of one worker.\<close>

lemma inv_table:
  assumes "queue_inv s" "rows_step (q_tab s) tab" "\<forall>j \<in> set tab. job_ok j"
  shows "queue_inv (s\<lparr>q_tab := tab\<rparr>)"
proof -
  have "job_ID ` set tab \<subseteq> job_ID ` set (q_tab s)"
    using assms(2) by (force simp: rows_step_def row_step_def)
  moreover have "distinct (map job_ID tab)" using assms(1,2) by (simp add: queue_inv_def rows_step_def)
  moreover have "run_ok tab r" if "slot_run s k r" for k r
    using run_ok_rows [OF _ assms(2)] assms(1) that by (simp add: queue_inv_def)
  ultimately show ?thesis
    using assms(1,3) by (simp add: queue_inv_def subset_trans)
qed

lemma inv_run:
  assumes "queue_inv s" "slot_run s k r" "rows_step (q_tab s) tab" "\<forall>j \<in> set tab. job_ok j"
    and "run_id r' = run_id r" "run_ok tab r'"
  shows "queue_inv (set_slot k (Some r') (s\<lparr>q_tab := tab\<rparr>))"
proof -
  from inv_table [OF assms(1,3,4)] have inv: "queue_inv (s\<lparr>q_tab := tab\<rparr>)" .
  have "exclusive (set_slot k (Some r') (s\<lparr>q_tab := tab\<rparr>))"
    using assms(1,2,5) by (fastforce simp: queue_inv_def exclusive_def)
  with inv assms(2,5,6) show ?thesis by (auto simp: queue_inv_def)
qed

lemma inv_free:
  assumes "queue_inv s"
  shows "queue_inv (set_slot k None s)"
  using assms by (auto simp: queue_inv_def exclusive_def)

lemma inv_tab_ok: "queue_inv s \<Longrightarrow> \<forall>j \<in> set (q_tab s). job_ok j"
  and inv_run_ok: "queue_inv s \<Longrightarrow> slot_run s k r \<Longrightarrow> run_ok (q_tab s) r"
  by (simp_all add: queue_inv_def)

section \<open>Each operation keeps it\<close>

lemma Enqueue_cases:
  assumes "Enqueue a m i now ok e tab = (res, tab')"
  obtains "tab' = tab" | p where "tab' = tab @ [new_job a p i now]" "ea_Kind a \<in> set kinds"
  using assms by (auto simp: Enqueue_def Let_def split: sum.splits if_splits)

lemma new_job_ok: "ea_Kind a \<in> set kinds \<Longrightarrow> job_ok (new_job a p i now)"
  by (simp add: job_ok_def new_job_def terminal_status_def)

lemma inv_enqueue:
  assumes "queue_inv s" "i \<notin> q_drawn s" "Enqueue a m i now ok e (q_tab s) = (res, tab)"
  shows "queue_inv (s\<lparr>q_tab := tab, q_drawn := insert i (q_drawn s)\<rparr>)"
  using assms(3)
proof (cases rule: Enqueue_cases)
  case (2 p)
  have new: "job_ID (new_job a p i now) = i" by (simp add: new_job_def)
  have "i \<notin> job_ID ` set (q_tab s)" using assms(1,2) by (auto simp: queue_inv_def)
  moreover have "run_ok tab r" if "slot_run s k r" for k r
    using assms(1,2) 2 new that by (fastforce simp: queue_inv_def run_ok_def)
  ultimately show ?thesis
    using assms(1) 2 new new_job_ok [of a p i now] by (auto simp: queue_inv_def exclusive_def)
qed (use assms(1) in \<open>auto simp: queue_inv_def exclusive_def\<close>)

lemma claim_frame [simp]:
  "job_ID (scan_claimed j) = job_ID j" "job_ID (claim_row wid now j) = job_ID j"
  "job_Kind (scan_claimed j) = job_Kind j" "job_Kind (claim_row wid now j) = job_Kind j"
  by (simp_all add: scan_claimed_def claim_row_def)

lemma start_run_simps [simp]:
  "run_id (start_run d j) = job_ID j" "run_rep (start_run d j) = newReporter (job_ID j)"
  by (simp_all add: start_run_def run_id_def)

lemma claimNext_step:
  assumes "claimNext wid now locked tab = (Some c, tab')" "distinct (map job_ID tab)" "\<forall>j \<in> set tab. job_ok j"
  shows "rows_step tab tab' \<and> (\<forall>j \<in> set tab'. job_ok j) \<and> run_ok tab' (start_run d c)
    \<and> (\<exists>j \<in> set tab. job_Status j = StatusQueued \<and> job_ID c = job_ID j)"
proof -
  from assms(1) obtain j where j: "j \<in> set tab" "job_Status j = StatusQueued"
    and c: "c = scan_claimed (claim_row wid now j)"
    and tab': "tab' = update_where (with_id (job_ID j)) (claim_row wid now) tab"
    by (rule claimNext_Some)
  have only: "x = j" if "x \<in> set tab" "with_id (job_ID j) x" for x
    using that assms(2) j same_id [of tab x j] by (auto simp: with_id_def)
  have "rows_step tab tab'"
    unfolding tab' by (rule rows_step_update) (use only j in \<open>auto dest: only\<close>)
  moreover have "\<forall>j \<in> set tab'. job_ok j"
    unfolding tab'
    by (rule all_update_where) (use assms(3) only j in \<open>auto dest: only intro: job_ok_simps\<close>)
  moreover have "job_Status x = StatusRunning" if "x \<in> set tab'" "job_ID x = job_ID j" for x
    using that by (auto simp: tab' update_where_set with_id_def claim_row_def split: if_splits)
  then have "run_ok tab' (start_run d c)"
    by (auto simp: run_ok_def c newReporter_def Cancelled_def start_run_def terminal_status_def
        run_id_def split: option.splits)
  ultimately show ?thesis using j by (auto simp: c)
qed

lemma inv_claim:
  assumes "queue_inv s" "slot_free s k" "claimNext wid now locked (q_tab s) = (Some c, tab)"
  shows "queue_inv (set_slot k (Some (start_run d c)) (s\<lparr>q_tab := tab\<rparr>))"
proof -
  note step = claimNext_step [OF assms(3), of d]
  then have rows: "rows_step (q_tab s) tab" "\<forall>j \<in> set tab. job_ok j"
    and run: "run_ok tab (start_run d c)" and from_queue: "\<exists>j \<in> set (q_tab s). job_Status j = StatusQueued \<and> job_ID c = job_ID j"
    using assms(1) by (simp_all add: queue_inv_def)
  from inv_table [OF assms(1) rows] have inv: "queue_inv (s\<lparr>q_tab := tab\<rparr>)" .
  have "run_id r \<noteq> job_ID c" if "slot_run s l r" for l r
    using inv_run_ok [OF assms(1) that] from_queue by (auto simp: run_ok_def)
  moreover have "job_ID c \<in> q_drawn s" using assms(1) from_queue by (auto simp: queue_inv_def)
  ultimately show ?thesis
    using inv run unfolding queue_inv_def exclusive_def by (fastforce split: if_splits)
qed

lemma run_okD:
  assumes "run_ok tab r"
  shows "rep_jobID (run_rep r) = run_id r" "0 \<le> rep_pct (run_rep r)" "rep_pct (run_rep r) \<le> 100"
    "j \<in> set tab \<Longrightarrow> job_ID j = run_id r \<Longrightarrow> job_Status j \<noteq> StatusQueued"
    "j \<in> set tab \<Longrightarrow> job_ID j = run_id r \<Longrightarrow> Cancelled (run_rep r) \<Longrightarrow> job_CancelRequested j"
    "run_stage r = Closing st msg \<Longrightarrow> terminal_status st"
    "run_stage r = Closing StatusCancelled msg \<Longrightarrow> Cancelled (run_rep r)"
  using assms by (auto simp: run_ok_def)

text \<open>A run stays good when its reporter keeps its job, its bounds and what it knows.\<close>

lemma run_ok_rep:
  assumes "run_ok tab r" "rep_jobID rep = rep_jobID (run_rep r)" "0 \<le> rep_pct rep" "rep_pct rep \<le> 100"
    and "rep_cancelled rep = rep_cancelled (run_rep r)"
  shows "run_ok tab (r\<lparr>run_rep := rep\<rparr>)"
  using assms by (simp add: run_ok_def run_id_def Cancelled_def)

lemma Update_frame [simp]:
  "rep_jobID (Update u r) = rep_jobID r" "rep_cancelled (Update u r) = rep_cancelled r"
  by (simp_all add: Update_def)

lemma Update_percent: "0 \<le> rep_pct r \<Longrightarrow> rep_pct r \<le> 100 \<Longrightarrow> 0 \<le> rep_pct (Update u r) \<and> rep_pct (Update u r) \<le> 100"
  by (simp add: Update_def)

text \<open>The flush and the heartbeat as steps on the rows and the reporter.\<close>

lemma Flush_step:
  assumes "Flush ok (run_rep r) tab = (rep, tab')" "run_ok tab r" "\<forall>j \<in> set tab. job_ok j"
  shows "rows_step tab tab' \<and> (\<forall>j \<in> set tab'. job_ok j) \<and> run_ok tab' (r\<lparr>run_rep := rep\<rparr>)"
proof (cases "rep_dirty (run_rep r) \<and> ok")
  case True
  with assms(1) have tab': "tab' = update_where (with_id (rep_jobID (run_rep r))) (progress_row (run_rep r)) tab"
    and rep: "rep = (run_rep r)\<lparr>rep_dirty := False\<rparr>"
    by (auto simp: Flush_def)
  have "rows_step tab tab'" unfolding tab' by (rule rows_step_update) simp
  moreover have "\<forall>j \<in> set tab'. job_ok j"
    unfolding tab' by (rule all_update_where [OF assms(3)]) (use assms(2,3) in \<open>simp add: job_ok_simps run_okD\<close>)
  ultimately show ?thesis
    using run_ok_rep [OF run_ok_rows [OF assms(2)], of tab' rep] assms(2) by (simp add: rep run_okD)
next
  case False
  with assms(1) have "tab' = tab" "rep = run_rep r \<or> rep = (run_rep r)\<lparr>rep_dirty := False\<rparr>"
    by (auto simp: Flush_def split: if_splits)
  with assms(2,3) run_ok_rep [OF assms(2), of rep] show ?thesis by (auto simp: run_okD)
qed

lemma beat_step:
  assumes "beat ok now (run_rep r) tab = (rep, tab')" "run_ok tab r" "\<forall>j \<in> set tab. job_ok j"
    "distinct (map job_ID tab)"
  shows "rows_step tab tab' \<and> (\<forall>j \<in> set tab'. job_ok j) \<and> run_ok tab' (r\<lparr>run_rep := rep\<rparr>)"
proof (cases "\<exists>j. ok \<and> find (running_with_id (run_id r)) tab = Some j")
  case True
  then obtain j where ok: ok and find: "find (running_with_id (run_id r)) tab = Some j" by blast
  let ?tab = "update_where (running_with_id (run_id r)) (\<lambda>j. j\<lparr>job_HeartbeatAt := Some now\<rparr>) tab"
  from find have j: "j \<in> set tab" "running_with_id (run_id r) j" by (auto simp: find_Some_iff)
  from assms(1,2) ok find have tab': "tab' = ?tab"
    and rep: "rep = (if job_CancelRequested j then SetCancelled (run_rep r) else run_rep r)"
    by (auto simp: beat_def run_okD)
  have rows: "rows_step tab tab'" unfolding tab' by (rule rows_step_update) simp
  moreover have "\<forall>j \<in> set tab'. job_ok j"
    unfolding tab'
    by (rule all_update_where [OF assms(3)]) (use assms(3) in \<open>simp add: job_ok_simps running_with_id_def\<close>)
  moreover have req: "job_CancelRequested k" if "k \<in> set tab'" "job_ID k = run_id r" "job_CancelRequested j" for k
  proof -
    from that(1) rows obtain x where x: "x \<in> set tab" "row_step x k" by (auto simp: rows_step_def)
    with that(2) j same_id [OF assms(4) x(1) j(1)] have "x = j" by (simp add: row_step_def running_with_id_def)
    with x that(3) show ?thesis by (simp add: row_step_def)
  qed
  moreover have "run_ok tab' r" by (rule run_ok_rows [OF assms(2) rows])
  ultimately show ?thesis
    by (auto simp: rep run_ok_def run_id_def Cancelled_def SetCancelled_def)
next
  case False
  with assms(1,2) have "tab' = tab" "rep = run_rep r"
    by (auto simp: beat_def run_okD split: if_splits option.splits)
  with assms(2,3) show ?thesis by simp
qed

lemma end_handler_id [simp]: "run_id (end_handler out r) = run_id r"
  by (simp add: end_handler_def run_id_def split: prod.splits)

lemma end_handler_ok: "run_ok tab r \<Longrightarrow> run_ok tab (end_handler out r)"
  by (auto simp: end_handler_def decide_def run_ok_def run_id_def terminal_status_def
      split: outcome.splits option.splits)

lemma markTerminal_step:
  assumes "run_ok tab r" "run_stage r = Closing st msg" "\<forall>j \<in> set tab. job_ok j"
    and tab'_def: "tab' = markTerminal ok (run_id r) st msg now tab"
  shows "rows_step tab tab'" "\<forall>j \<in> set tab'. job_ok j"
proof -
  have "rows_step tab (update_where (with_id (run_id r)) (terminal_row st msg now) tab)"
    by (rule rows_step_update)
      (use run_okD(4,6) [OF assms(1)] assms(2) in \<open>auto simp: with_id_def intro!: row_step_simps(5)\<close>)
  then show "rows_step tab tab'" by (simp add: tab'_def markTerminal_def)
  have "\<forall>j \<in> set (update_where (with_id (run_id r)) (terminal_row st msg now) tab). job_ok j"
  proof (rule all_update_where [OF assms(3)])
    fix j assume j: "j \<in> set tab" "with_id (run_id r) j"
    then have "st = StatusCancelled \<Longrightarrow> job_CancelRequested j"
      using run_okD(5) [OF assms(1), of j] run_okD(7) [OF assms(1)] assms(2) by (simp add: with_id_def)
    with j assms(1-3) show "job_ok (terminal_row st msg now j)"
      by (intro job_ok_simps) (auto simp: with_id_def run_okD)
  qed
  with assms(3) show "\<forall>j \<in> set tab'. job_ok j" by (simp add: tab'_def markTerminal_def)
qed

lemma SweepStaleJobs_step:
  assumes "\<forall>j \<in> set tab. job_ok j"
  shows "rows_step tab (SweepStaleJobs now tab) \<and> (\<forall>j \<in> set (SweepStaleJobs now tab). job_ok j)"
  unfolding SweepStaleJobs_def
  using assms by (intro conjI rows_step_update all_update_where)
    (auto simp: stale_def terminal_status_def intro!: row_step_simps job_ok_simps)

lemma handleJobCancel_step:
  assumes "handleJobCancel ok i tab = (code, tab')" "\<forall>j \<in> set tab. job_ok j"
  shows "rows_step tab tab' \<and> (\<forall>j \<in> set tab'. job_ok j)"
proof -
  let ?tab = "update_where (active_with_id i) (\<lambda>j. j\<lparr>job_CancelRequested := True\<rparr>) tab"
  from assms(1) have "tab' = tab \<or> tab' = ?tab" by (auto simp: handleJobCancel_def split: if_splits)
  moreover have "rows_step tab ?tab" by (rule rows_step_update) simp
  moreover have "\<forall>j \<in> set ?tab. job_ok j"
    by (rule all_update_where [OF assms(2)]) (use assms(2) in \<open>simp add: job_ok_simps\<close>)
  ultimately show ?thesis using assms(2) by auto
qed

text \<open>One step: the invariant, and the rows move or one new queued row appears.\<close>

definition rows_grow :: "queue \<Rightarrow> queue \<Rightarrow> bool" where
  "rows_grow s s' \<longleftrightarrow> rows_step (q_tab s) (q_tab s')
     \<or> (\<exists>j. q_tab s' = q_tab s @ [j] \<and> job_Status j = StatusQueued \<and> job_ID j \<notin> job_ID ` set (q_tab s))"

lemma rows_grow_eq [simp]: "q_tab s' = q_tab s \<Longrightarrow> rows_grow s s'"
  by (simp add: rows_grow_def)

lemma rows_growI: "rows_step (q_tab s) (q_tab s') \<Longrightarrow> rows_grow s s'"
  by (simp add: rows_grow_def)

lemma queue_step_inv: "queue_step d s s' \<Longrightarrow> queue_inv s \<Longrightarrow> queue_inv s' \<and> rows_grow s s'"
proof (induction rule: queue_step.induct)
  case (enqueue i s a m now ok e res tab)
  then have "i \<notin> job_ID ` set (q_tab s)" by (auto simp: queue_inv_def)
  with enqueue.hyps(2) have "rows_grow s (s\<lparr>q_tab := tab, q_drawn := insert i (q_drawn s)\<rparr>)"
    by (cases rule: Enqueue_cases) (auto simp: rows_grow_def new_job_def)
  with enqueue show ?case by (simp add: inv_enqueue)
next
  case (claim s k wid now locked j tab)
  then show ?case using claimNext_step [OF claim.hyps(2)] inv_claim [of s k wid now locked j tab d]
    by (intro conjI rows_growI) (simp_all add: queue_inv_def)
next
  case (progress s k r u)
  then have ok: "run_ok (q_tab s) r" by (simp add: inv_run_ok)
  then have "run_ok (q_tab s) (r\<lparr>run_rep := Update u (run_rep r)\<rparr>)"
    by (intro run_ok_rep) (simp_all add: Update_percent run_okD(2,3) [OF ok])
  with progress inv_run [of s k r "q_tab s" "r\<lparr>run_rep := Update u (run_rep r)\<rparr>"] inv_tab_ok [of s]
  show ?case by (simp add: run_id_def)
next
  case (flush s k r ok rep tab)
  note step = Flush_step [OF flush.hyps(2) inv_run_ok [OF flush.prems flush.hyps(1)] inv_tab_ok [OF flush.prems]]
  with flush have "queue_inv (set_slot k (Some (r\<lparr>run_rep := rep\<rparr>)) (s\<lparr>q_tab := tab\<rparr>))"
    by (intro inv_run [of s k r]) (simp_all add: run_id_def)
  with step show ?case by (simp add: rows_growI)
next
  case (heartbeat s k r ok now rep tab)
  have "distinct (map job_ID (q_tab s))" using heartbeat.prems by (simp add: queue_inv_def)
  note step = beat_step [OF heartbeat.hyps(2) inv_run_ok [OF heartbeat.prems heartbeat.hyps(1)]
    inv_tab_ok [OF heartbeat.prems] this]
  with heartbeat have "queue_inv (set_slot k (Some (r\<lparr>run_rep := rep\<rparr>)) (s\<lparr>q_tab := tab\<rparr>))"
    by (intro inv_run [of s k r]) (simp_all add: run_id_def)
  with step show ?case by (simp add: rows_growI)
next
  case (handler_ends s k r out)
  then have "queue_inv (set_slot k (Some (end_handler out r)) s)"
    using inv_run [of s k r "q_tab s" "end_handler out r"] inv_run_ok [of s k r] inv_tab_ok [of s]
    by (simp add: end_handler_ok)
  then show ?case by simp
next
  case (write_status s k r st msg ok now)
  let ?tab = "markTerminal ok (job_ID (run_job r)) st msg now (q_tab s)"
  note run = inv_run_ok [OF write_status.prems write_status.hyps(1)]
  note step = markTerminal_step [OF run write_status.hyps(2) inv_tab_ok [OF write_status.prems] refl, of ok now]
  then have "run_ok ?tab r" using run_ok_rows [OF run] by (simp add: run_id_def)
  then have "run_ok ?tab (r\<lparr>run_stage := Closed\<rparr>)" by (simp add: run_ok_def run_id_def)
  with step write_status have "queue_inv (set_slot k (Some (r\<lparr>run_stage := Closed\<rparr>)) (s\<lparr>q_tab := ?tab\<rparr>))"
    by (intro inv_run [of s k r]) (simp_all add: run_id_def)
  with step show ?case by (simp add: rows_growI run_id_def)
next
  case (last_flush s k r ok rep tab)
  note step = Flush_step [OF last_flush.hyps(3) inv_run_ok [OF last_flush.prems last_flush.hyps(1)]
    inv_tab_ok [OF last_flush.prems]]
  with last_flush have "queue_inv (set_slot k None (s\<lparr>q_tab := tab\<rparr>))" by (intro inv_free inv_table) simp_all
  with step show ?case by (simp add: rows_growI)
next
  case (shutdown s)
  then show ?case by (auto simp: queue_inv_def exclusive_def slot_run_def)
next
  case (sweep_stale s now)
  then show ?case using SweepStaleJobs_step [of "q_tab s" now] inv_tab_ok [of s] by (simp add: inv_table rows_growI)
next
  case (sweep_old s now)
  then show ?case using inv_tab_ok [of s] by (simp add: inv_table rows_growI SweepOldJobs_def)
next
  case (cancel ok i s code tab)
  then show ?case using handleJobCancel_step [OF cancel.hyps] inv_tab_ok [of s] by (simp add: inv_table rows_growI)
next
  case (drop_source s ds)
  then show ?case using inv_tab_ok [of s] by (simp add: inv_table rows_growI)
qed

section \<open>Properties\<close>

definition queue_reach :: "dispatcher \<Rightarrow> nat \<Rightarrow> queue \<Rightarrow> bool" where
  "queue_reach d n s \<longleftrightarrow> (queue_step d)\<^sup>*\<^sup>* (start_queue n) s"

lemma start_queue_inv: "queue_inv (start_queue n)"
  by (auto simp: queue_inv_def start_queue_def slot_run_def exclusive_def)

lemma queue_reach_inv: "queue_reach d n s \<Longrightarrow> queue_inv s"
  unfolding queue_reach_def
  by (induction rule: rtranclp_induct) (auto simp: start_queue_inv dest: queue_step_inv)

lemma queue_step_length: "queue_step d s s' \<Longrightarrow> length (q_slots s') = length (q_slots s)"
  by (induction rule: queue_step.induct) simp_all

lemma queue_reach_length: "queue_reach d n s \<Longrightarrow> length (q_slots s) = n"
  unfolding queue_reach_def
  by (induction rule: rtranclp_induct) (auto simp: start_queue_def dest: queue_step_length)

text \<open>A short history: a job is queued, claimed by worker 0, declared lost, and its handler returns.\<close>

definition demo_d :: dispatcher where "demo_d = register newDispatcher ''file_upload''"

definition demo_args :: EnqueueArgs where
  "demo_args = \<lparr>ea_DataSourceID = None, ea_ProjectID = ''p'', ea_Kind = ''file_upload'', ea_CreatedBy = None\<rparr>"

definition demo_job :: Job where "demo_job = new_job demo_args ''{}'' ''j'' 0"

definition demo_claimed :: Job where "demo_claimed = claim_row ''w'' 1 demo_job"

definition demo_run :: run where "demo_run = start_run demo_d (scan_claimed demo_claimed)"

definition demo_queue :: "Job \<Rightarrow> run option \<Rightarrow> queue" where
  "demo_queue j r = \<lparr>q_tab = [j], q_slots = [r, None], q_drawn = {''j''}\<rparr>"

lemmas demo_defs = demo_d_def demo_args_def demo_job_def demo_claimed_def demo_run_def demo_queue_def

lemma demo_queued: "queue_reach demo_d 2 (demo_queue demo_job None)"
proof -
  have "queue_step demo_d (start_queue 2)
     (start_queue 2\<lparr>q_tab := [demo_job], q_drawn := insert ''j'' (q_drawn (start_queue 2))\<rparr>)"
    by (rule enqueue [where a = demo_args and m = "Inr []" and now = 0 and ok = True and e = "[]" and res = "Inr ''j''"])
      (simp_all add: start_queue_def Enqueue_def demo_defs kinds_def)
  then show ?thesis
    by (simp add: queue_reach_def start_queue_def demo_queue_def numeral_2_eq_2)
qed

lemma demo_run_simps [simp]:
  "run_id demo_run = ''j''" "job_ID (run_job demo_run) = ''j''" "run_stage demo_run = Handling"
  "run_rep demo_run = newReporter ''j''"
  by (simp_all add: demo_defs new_job_def start_run_def dispatcher_lookup_def register_def run_id_def
      scan_claimed_def claim_row_def)

lemma demo_claim: "queue_step demo_d (demo_queue demo_job None) (demo_queue demo_claimed (Some demo_run))"
proof -
  have "claimNext ''w'' 1 {} [demo_job] = (Some (scan_claimed demo_claimed), [demo_claimed])"
    by (simp add: claimNext_def claimable_def update_where_def with_id_def demo_claimed_def demo_job_def new_job_def)
  then have "queue_step demo_d (demo_queue demo_job None)
      (set_slot 0 (Some demo_run) (demo_queue demo_job None\<lparr>q_tab := [demo_claimed]\<rparr>))"
    unfolding demo_run_def by (intro claim) (simp_all add: slot_free_def demo_queue_def)
  then show ?thesis by (simp add: set_slot_def demo_queue_def)
qed

lemma demo_running: "queue_reach demo_d 2 (demo_queue demo_claimed (Some demo_run))"
  using demo_queued demo_claim unfolding queue_reach_def by (rule rtranclp.rtrancl_into_rtrancl)

text \<open>
  The terminal write of \<open>runJob\<close> has no guard on the status: a job the sweeper failed becomes succeeded
  when its handler returns after all.
\<close>

definition demo_failed :: Job where "demo_failed = terminal_row StatusFailed ''worker_lost'' 1000 demo_claimed"

lemma demo_swept: "queue_reach demo_d 2 (demo_queue demo_failed (Some demo_run))"
proof -
  have "SweepStaleJobs 1000 [demo_claimed] = [demo_failed]"
    by (simp add: SweepStaleJobs_def update_where_def stale_def demo_failed_def demo_claimed_def claim_row_def)
  then have "queue_step demo_d (demo_queue demo_claimed (Some demo_run)) (demo_queue demo_failed (Some demo_run))"
    using sweep_stale [of demo_d "demo_queue demo_claimed (Some demo_run)" 1000] by (simp add: demo_queue_def)
  then show ?thesis using demo_running unfolding queue_reach_def by (rule rtranclp.rtrancl_into_rtrancl [rotated])
qed

lemma failed_jobs_can_succeed:
  "\<exists>s s' j j'. queue_reach demo_d 2 s \<and> (queue_step demo_d)\<^sup>*\<^sup>* s s' \<and> q_tab s = [j] \<and> q_tab s' = [j']
     \<and> job_ID j' = job_ID j \<and> job_Status j = StatusFailed \<and> job_Status j' = StatusSucceeded"
proof -
  let ?s = "demo_queue demo_failed (Some demo_run)"
  let ?r = "demo_run\<lparr>run_stage := Closing StatusSucceeded []\<rparr>"
  let ?j = "terminal_row StatusSucceeded [] 1001 demo_failed"
  have ended: "end_handler (Returned None) demo_run = ?r"
    by (simp add: end_handler_def decide_def Cancelled_def newReporter_def)
  have "queue_step demo_d ?s (set_slot 0 (Some ?r) ?s)"
    using handler_ends [of ?s 0 demo_run demo_d "Returned None"] by (simp add: ended slot_run_def demo_queue_def)
  moreover have "set_slot 0 (Some ?r) ?s = demo_queue demo_failed (Some ?r)"
    by (simp add: set_slot_def demo_queue_def)
  moreover have "queue_step demo_d (demo_queue demo_failed (Some ?r))
      (set_slot 0 (Some (?r\<lparr>run_stage := Closed\<rparr>)) (demo_queue demo_failed (Some ?r)
         \<lparr>q_tab := markTerminal True ''j'' StatusSucceeded [] 1001 [demo_failed]\<rparr>))"
    using write_status [of "demo_queue demo_failed (Some ?r)" 0 ?r StatusSucceeded "[]" demo_d True 1001]
    by (simp add: slot_run_def demo_queue_def)
  moreover have "job_ID demo_failed = ''j''"
    by (simp add: demo_failed_def terminal_row_def demo_claimed_def demo_job_def new_job_def)
  then have "markTerminal True ''j'' StatusSucceeded [] 1001 [demo_failed] = [?j]"
    by (simp add: markTerminal_def update_where_def with_id_def)
  ultimately have "(queue_step demo_d)\<^sup>*\<^sup>* ?s
      (set_slot 0 (Some (?r\<lparr>run_stage := Closed\<rparr>)) (demo_queue demo_failed (Some ?r)\<lparr>q_tab := [?j]\<rparr>))"
    by (simp add: converse_rtranclp_into_rtranclp)
  moreover have "job_Status demo_failed = StatusFailed" by (simp add: demo_failed_def terminal_row_def)
  ultimately show ?thesis
    using demo_swept by (intro exI [of _ ?s] exI [of _ "set_slot 0 (Some (?r\<lparr>run_stage := Closed\<rparr>)) (demo_queue demo_failed (Some ?r)\<lparr>q_tab := [?j]\<rparr>)"]
        exI [of _ demo_failed] exI [of _ ?j]) (simp add: demo_queue_def terminal_row_def)
qed

text \<open>C8: Under any interleaving ids are unique, every row is consistent (worker, start and heartbeat are set
  unless it is queued, the completion time exactly when it is terminal, a percentage within bounds,
  cancelled only on request), and no two workers hold one job or a queued one.\<close>

lemma job_queue_invariant:
  assumes "queue_reach d n s"
  shows "distinct (map job_ID (q_tab s)) \<and> (\<forall>j \<in> set (q_tab s). job_ok j)
    \<and> length (q_slots s) = n
    \<and> (\<forall>k l r q. slot_run s k r \<longrightarrow> slot_run s l q \<longrightarrow> run_id r = run_id q \<longrightarrow> k = l)
    \<and> (\<forall>k r. \<forall>j \<in> set (q_tab s). slot_run s k r \<longrightarrow> job_ID j = run_id r \<longrightarrow> job_Status j \<noteq> StatusQueued)"
  using queue_reach_inv [OF assms] queue_reach_length [OF assms]
  by (auto simp: queue_inv_def exclusive_def run_ok_def)

lemma job_queue_invariant_witness:
  "job_ok demo_failed \<and> \<not> slot_run (demo_queue demo_failed (Some demo_run)) 1 demo_run"
  using job_queue_invariant [OF demo_swept]
  by (auto simp: demo_queue_def slot_run_def)

text \<open>The status of a job in the table, and the edges of its life cycle: it appears queued, runs once, ends,
  may have its terminal status rewritten, and may be deleted; it is never queued again.\<close>

definition status_at :: "queue \<Rightarrow> string \<Rightarrow> Status option" where
  "status_at s i = map_of (map (\<lambda>j. (job_ID j, job_Status j)) (q_tab s)) i"

inductive life_edge :: "Status option \<Rightarrow> Status option \<Rightarrow> bool" where
  appears: "life_edge None (Some StatusQueued)"
| moves: "job_move st st' \<Longrightarrow> life_edge (Some st) (Some st')"
| deleted: "life_edge (Some st) None"

lemma status_at_Some:
  "distinct (map job_ID (q_tab s)) \<Longrightarrow> status_at s i = Some st \<longleftrightarrow> (\<exists>j \<in> set (q_tab s). job_ID j = i \<and> job_Status j = st)"
  by (force simp: status_at_def comp_def)

lemma status_at_None: "status_at s i = None \<longleftrightarrow> i \<notin> job_ID ` set (q_tab s)"
  by (force simp: status_at_def map_of_eq_None_iff)

lemma rows_step_life:
  assumes "rows_step (q_tab s) (q_tab s')" "distinct (map job_ID (q_tab s))" "status_at s i \<noteq> status_at s' i"
  shows "life_edge (status_at s i) (status_at s' i)"
proof (cases "status_at s' i")
  case None
  with assms(3) show ?thesis by (cases "status_at s i") (auto intro: deleted)
next
  case (Some st')
  from assms(1,2) have "distinct (map job_ID (q_tab s'))" by (simp add: rows_step_def)
  with Some obtain j' where "j' \<in> set (q_tab s')" "job_ID j' = i" "job_Status j' = st'"
    by (auto simp: status_at_Some)
  with assms(1) obtain j where "j \<in> set (q_tab s)" "job_ID j = i" "job_move (job_Status j) st'"
    by (auto simp: rows_step_def row_step_def)
  with assms(2) have "status_at s i = Some (job_Status j)" by (auto simp: status_at_Some)
  with Some \<open>job_move (job_Status j) st'\<close> show ?thesis by (simp add: moves)
qed

text \<open>C38: Every step of the queue is, for each job, a step of its life cycle or none.\<close>

lemma queue_refines_life_cycle:
  assumes "queue_reach d n s" "queue_step d s s'"
  shows "status_at s' i = status_at s i \<or> life_edge (status_at s i) (status_at s' i)"
proof -
  have dist: "distinct (map job_ID (q_tab s))" using queue_reach_inv [OF assms(1)] by (simp add: queue_inv_def)
  from queue_step_inv [OF assms(2) queue_reach_inv [OF assms(1)]] have "rows_grow s s'" by simp
  then consider "rows_step (q_tab s) (q_tab s')"
    | j where "q_tab s' = q_tab s @ [j]" "job_Status j = StatusQueued" "job_ID j \<notin> job_ID ` set (q_tab s)"
    by (auto simp: rows_grow_def)
  then show ?thesis
  proof cases
    case 1
    with dist rows_step_life [of s s' i] show ?thesis by metis
  next
    case (2 j)
    then have "status_at s' i = (if job_ID j = i then Some StatusQueued else status_at s i)"
      using status_at_None [of s i] by (auto simp: status_at_def map_add_def split: option.splits)
    moreover have "status_at s (job_ID j) = None" using 2 by (simp add: status_at_None)
    ultimately show ?thesis by (auto intro: appears)
  qed
qed

lemma queue_refines_life_cycle_witness:
  "life_edge (Some StatusQueued) (Some StatusRunning)
   \<and> status_at (demo_queue demo_claimed (Some demo_run)) ''j'' = Some StatusRunning"
  using queue_refines_life_cycle [OF demo_queued demo_claim, of "''j''"]
  by (simp add: status_at_def demo_queue_def demo_claimed_def claim_row_def demo_job_def new_job_def)

text \<open>A settled job: its row, if still there, is \<open>j\<close>, and no worker holds it.\<close>

definition settled :: "Job \<Rightarrow> queue \<Rightarrow> bool" where
  "settled j s \<longleftrightarrow> terminal_status (job_Status j) \<and> job_ID j \<in> q_drawn s
     \<and> (\<forall>x \<in> set (q_tab s). job_ID x = job_ID j \<longrightarrow> x = j)
     \<and> (\<forall>k r. slot_run s k r \<longrightarrow> run_id r \<noteq> job_ID j)"

lemma settled_update:
  assumes "\<forall>x \<in> set tab. job_ID x = job_ID j \<longrightarrow> x = j" "\<not> p j" "\<And>x. p x \<Longrightarrow> job_ID (f x) = job_ID x"
  shows "\<forall>x \<in> set (update_where p f tab). job_ID x = job_ID j \<longrightarrow> x = j"
  using assms by (auto simp: update_where_set)

lemma settled_table:
  "settled j s \<Longrightarrow> \<forall>x \<in> set tab. job_ID x = job_ID j \<longrightarrow> x = j \<Longrightarrow> settled j (s\<lparr>q_tab := tab\<rparr>)"
  by (simp add: settled_def)

lemma settled_slot:
  "settled j s \<Longrightarrow> (\<And>r. x = Some r \<Longrightarrow> run_id r \<noteq> job_ID j) \<Longrightarrow> settled j (set_slot k x s)"
  by (auto simp: settled_def)

lemma settled_unique: "settled j s \<Longrightarrow> \<forall>x \<in> set (q_tab s). job_ID x = job_ID j \<longrightarrow> x = j"
  by (simp add: settled_def)

lemma settled_run: "settled j s \<Longrightarrow> slot_run s k r \<Longrightarrow> run_id r \<noteq> job_ID j"
  by (simp add: settled_def)

lemma row_ids [simp]:
  "job_ID (progress_row r j) = job_ID j" "job_ID (terminal_row st msg now j) = job_ID j"
  by (simp_all add: progress_row_def terminal_row_def)

lemma Flush_other:
  assumes "Flush ok rep tab = (rep', tab')" "rep_jobID rep \<noteq> job_ID j" "\<forall>x \<in> set tab. job_ID x = job_ID j \<longrightarrow> x = j"
  shows "\<forall>x \<in> set tab'. job_ID x = job_ID j \<longrightarrow> x = j"
  using assms settled_update [OF assms(3), of "with_id (rep_jobID rep)" "progress_row rep"]
  by (auto simp: Flush_def with_id_def split: if_splits)

lemma beat_other:
  assumes "beat ok now rep tab = (rep', tab')" "rep_jobID rep \<noteq> job_ID j" "\<forall>x \<in> set tab. job_ID x = job_ID j \<longrightarrow> x = j"
  shows "\<forall>x \<in> set tab'. job_ID x = job_ID j \<longrightarrow> x = j"
  using assms settled_update [OF assms(3), of "running_with_id (rep_jobID rep)" "\<lambda>j. j\<lparr>job_HeartbeatAt := Some now\<rparr>"]
  by (auto simp: beat_def running_with_id_def split: if_splits option.splits)

lemma settled_step: "queue_step d s s' \<Longrightarrow> queue_inv s \<Longrightarrow> settled j s \<Longrightarrow> settled j s'"
proof (induction rule: queue_step.induct)
  case (enqueue i s a m now ok e res tab)
  from enqueue.hyps(2) enqueue.prems enqueue.hyps(1) show ?case
    by (cases rule: Enqueue_cases) (auto simp: settled_def new_job_def)
next
  case (claim s k wid now locked c tab)
  from claim.hyps(2) obtain x where x: "x \<in> set (q_tab s)" "job_Status x = StatusQueued"
    "c = scan_claimed (claim_row wid now x)" "tab = update_where (with_id (job_ID x)) (claim_row wid now) (q_tab s)"
    by (rule claimNext_Some)
  with claim.prems have "job_ID x \<noteq> job_ID j" by (auto simp: settled_def terminal_status_def)
  with x(4) claim.prems(2) have "\<forall>y \<in> set tab. job_ID y = job_ID j \<longrightarrow> y = j"
    by (auto simp: settled_def update_where_set with_id_def)
  with x(3) claim.prems \<open>job_ID x \<noteq> job_ID j\<close> show ?case by (intro settled_slot settled_table) auto
next
  case (progress s k r u)
  then show ?case using settled_run by (auto intro!: settled_slot simp: run_id_def)
next
  case (flush s k r ok rep tab)
  then have "rep_jobID (run_rep r) \<noteq> job_ID j" using run_okD(1) [OF inv_run_ok] settled_run by metis
  with Flush_other [OF flush.hyps(2)] settled_unique [OF flush.prems(2)]
  have "\<forall>x \<in> set tab. job_ID x = job_ID j \<longrightarrow> x = j" by blast
  moreover from settled_run [OF flush.prems(2) flush.hyps(1)] have "job_ID (run_job r) \<noteq> job_ID j" by (simp add: run_id_def)
  ultimately show ?case by (intro settled_slot settled_table flush.prems) (auto simp: run_id_def)
next
  case (heartbeat s k r ok now rep tab)
  then have "rep_jobID (run_rep r) \<noteq> job_ID j" using run_okD(1) [OF inv_run_ok] settled_run by metis
  with beat_other [OF heartbeat.hyps(2)] settled_unique [OF heartbeat.prems(2)]
  have "\<forall>x \<in> set tab. job_ID x = job_ID j \<longrightarrow> x = j" by blast
  moreover from settled_run [OF heartbeat.prems(2) heartbeat.hyps(1)] have "job_ID (run_job r) \<noteq> job_ID j" by (simp add: run_id_def)
  ultimately show ?case by (intro settled_slot settled_table heartbeat.prems) (auto simp: run_id_def)
next
  case (handler_ends s k r out)
  then show ?case using settled_run by (auto intro!: settled_slot)
next
  case (write_status s k r st msg ok now)
  then have "job_ID (run_job r) \<noteq> job_ID j" using settled_run by (auto simp: run_id_def)
  with write_status.prems show ?case
    by (intro settled_slot settled_table)
      (auto simp: markTerminal_def settled_def with_id_def run_id_def update_where_set)
next
  case (last_flush s k r ok rep tab)
  then have "rep_jobID (run_rep r) \<noteq> job_ID j" using run_okD(1) [OF inv_run_ok] settled_run by metis
  with Flush_other [OF last_flush.hyps(3)] settled_unique [OF last_flush.prems(2)]
  have "\<forall>x \<in> set tab. job_ID x = job_ID j \<longrightarrow> x = j" by blast
  then show ?case by (intro settled_slot settled_table last_flush.prems) auto
next
  case (shutdown s)
  then show ?case by (auto simp: settled_def slot_run_def)
next
  case (sweep_stale s now)
  then show ?case
    by (intro settled_table) (auto simp: settled_def SweepStaleJobs_def stale_def terminal_status_def update_where_set)
next
  case (sweep_old s now)
  then show ?case by (intro settled_table) (auto simp: settled_def SweepOldJobs_def)
next
  case (cancel ok i s code tab)
  then have "tab = q_tab s \<or> tab = update_where (active_with_id i) (\<lambda>j. j\<lparr>job_CancelRequested := True\<rparr>) (q_tab s)"
    by (auto simp: handleJobCancel_def split: if_splits)
  moreover have "\<not> active_with_id i j" using cancel.prems by (auto simp: settled_def active_with_id_def terminal_status_def)
  ultimately have "\<forall>x \<in> set tab. job_ID x = job_ID j \<longrightarrow> x = j"
    using cancel.prems by (auto simp: settled_def update_where_set) metis
  with cancel.prems show ?case by (intro settled_table)
next
  case (drop_source s ds)
  then show ?case by (intro settled_table) (auto simp: settled_def)
qed


lemma demo_shutdown: "queue_reach demo_d 2 (demo_queue demo_failed None)"
proof -
  have "queue_step demo_d (demo_queue demo_failed (Some demo_run)) (demo_queue demo_failed None)"
    using shutdown [of demo_d "demo_queue demo_failed (Some demo_run)"]
    by (simp add: demo_queue_def numeral_2_eq_2)
  then show ?thesis using demo_swept unfolding queue_reach_def by (rule rtranclp.rtrancl_into_rtrancl [rotated])
qed


text \<open>\<open>claimNext\<close> takes the oldest queued row that is not locked and changes that row only; it returns
  nothing exactly when there is none.\<close>

lemma claim_takes_the_oldest:
  assumes "distinct (map job_ID tab)" "claimNext wid now locked tab = (res, tab')"
  shows "case res of
      None \<Rightarrow> tab' = tab \<and> filter (claimable locked) tab = []
    | Some c \<Rightarrow> \<exists>j \<in> set tab. claimable locked j \<and> (\<forall>k \<in> set (filter (claimable locked) tab). job_CreatedAt j \<le> job_CreatedAt k)
        \<and> job_ID c = job_ID j \<and> job_Payload c = job_Payload j \<and> job_Status c = StatusRunning
        \<and> tab' = map (\<lambda>k. if k = j then claim_row wid now j else k) tab"
proof (cases res)
  case None
  with assms(2) show ?thesis by (auto simp: claimNext_def split: option.splits)
next
  case (Some c)
  with assms(2) have "claimNext wid now locked tab = (Some c, tab')" by simp
  then obtain j where j: "j \<in> set tab" "job_Status j = StatusQueued" "job_ID j \<notin> locked"
    "c = scan_claimed (claim_row wid now j)" "tab' = update_where (with_id (job_ID j)) (claim_row wid now) tab"
    "\<And>k. k \<in> set tab \<Longrightarrow> claimable locked k \<Longrightarrow> job_CreatedAt j \<le> job_CreatedAt k"
    by (rule claimNext_Some) blast
  have "with_id (job_ID j) k \<longleftrightarrow> k = j" if "k \<in> set tab" for k
    using same_id [OF assms(1) that j(1)] by (auto simp: with_id_def)
  then have "tab' = map (\<lambda>k. if k = j then claim_row wid now j else k) tab"
    by (simp add: j(5) update_where_def)
  moreover have "job_Payload c = job_Payload j \<and> job_Status c = StatusRunning"
    by (simp add: j(4) scan_claimed_def claim_row_def)
  ultimately show ?thesis
    using Some j(1-4,6) by (auto simp: claimable_def intro!: bexI [of _ j])
qed

lemma claim_takes_the_oldest_witness:
  "\<exists>c tab'. claimNext ''w'' 1 {} [demo_job\<lparr>job_ID := ''k'', job_CreatedAt := 5\<rparr>, demo_job] = (Some c, tab')
     \<and> job_ID c = ''j''"
proof -
  let ?tab = "[demo_job\<lparr>job_ID := ''k'', job_CreatedAt := 5\<rparr>, demo_job]"
  have dist: "distinct (map job_ID ?tab)" by (simp add: demo_job_def new_job_def)
  obtain res tab' where res: "claimNext ''w'' 1 {} ?tab = (res, tab')" by (cases "claimNext ''w'' 1 {} ?tab")
  from claim_takes_the_oldest [OF dist res] show ?thesis
    using res by (cases res) (auto simp: claimable_def demo_job_def new_job_def)
qed

text \<open>A worker whose handler ends settles its job: after the terminal write and the last flush the worker is
  free and the row has the status and the error that the outcome and the observed cancellation call for.\<close>

lemma ended_run_settles:
  assumes "queue_reach d n s" "slot_run s k r" "run_stage r = Handling" "j \<in> set (q_tab s)" "job_ID j = run_id r"
    and "decide (Cancelled (run_rep r)) out = (st, msg)"
  shows "\<exists>s'. (queue_step d)\<^sup>*\<^sup>* s s' \<and> slot_free s' k
    \<and> (\<exists>j' \<in> set (q_tab s'). job_ID j' = run_id r \<and> job_Status j' = st \<and> job_CompletedAt j' = Some now
          \<and> job_Error j' = (if msg = [] then None else Some msg))"
proof -
  let ?r1 = "r\<lparr>run_stage := Closing st msg\<rparr>" and ?r2 = "r\<lparr>run_stage := Closed\<rparr>"
  let ?tab = "markTerminal True (run_id r) st msg now (q_tab s)"
  let ?s1 = "set_slot k (Some ?r1) s" and ?s2 = "set_slot k (Some ?r2) (s\<lparr>q_tab := ?tab\<rparr>)"
  have k: "k < length (q_slots s)" using assms(2) by (simp add: slot_run_def)
  have id: "rep_jobID (run_rep r) = run_id r"
    using run_okD(1) [OF inv_run_ok [OF queue_reach_inv [OF assms(1)] assms(2)]] .
  have "queue_step d s ?s1"
    using handler_ends [OF assms(2,3), of d out] by (simp add: end_handler_def assms(6))
  moreover have "queue_step d ?s1 ?s2"
    using write_status [of ?s1 k ?r1 st msg d True now] k by (simp add: run_id_def set_slot_def slot_run_def)
  moreover obtain rep tab where F: "Flush True (run_rep r) ?tab = (rep, tab)" by (cases "Flush True (run_rep r) ?tab")
  then have "queue_step d ?s2 (set_slot k None (?s2\<lparr>q_tab := tab\<rparr>))"
    using k by (intro last_flush [of _ k ?r2]) simp_all
  ultimately have "(queue_step d)\<^sup>*\<^sup>* s (set_slot k None (?s2\<lparr>q_tab := tab\<rparr>))"
    by (meson converse_rtranclp_into_rtranclp rtranclp.rtrancl_refl)
  moreover have "slot_free (set_slot k None (?s2\<lparr>q_tab := tab\<rparr>)) k"
    using k by (simp add: slot_free_def set_slot_def)
  moreover have "terminal_row st msg now j \<in> set ?tab"
    using assms(4,5) by (force simp: markTerminal_def update_where_set with_id_def)
  then have "terminal_row st msg now j \<in> set tab \<or> progress_row (run_rep r) (terminal_row st msg now j) \<in> set tab"
    using F assms(5) id by (force simp: Flush_def update_where_set with_id_def split: if_splits)
  then have "\<exists>j' \<in> set tab. job_ID j' = run_id r \<and> job_Status j' = st \<and> job_CompletedAt j' = Some now
          \<and> job_Error j' = (if msg = [] then None else Some msg)"
    by (rule disjE; intro bexI) (simp_all add: progress_row_def terminal_row_def assms(5))
  ultimately show ?thesis by (intro exI [of _ "set_slot k None (?s2\<lparr>q_tab := tab\<rparr>)"]) simp
qed

lemma ended_run_settles_witness:
  "\<exists>s'. (queue_step demo_d)\<^sup>*\<^sup>* (demo_queue demo_claimed (Some demo_run)) s' \<and> slot_free s' 0
     \<and> (\<exists>j' \<in> set (q_tab s'). job_ID j' = ''j'' \<and> job_Status j' = StatusFailed
          \<and> job_CompletedAt j' = Some 9 \<and> job_Error j' = Some ''panic: x'')"
proof -
  have "slot_run (demo_queue demo_claimed (Some demo_run)) 0 demo_run" "demo_claimed \<in> set (q_tab (demo_queue demo_claimed (Some demo_run)))"
    "job_ID demo_claimed = run_id demo_run" "decide (Cancelled (run_rep demo_run)) (Panicked ''x'') = (StatusFailed, ''panic: x'')"
    by (simp_all add: slot_run_def demo_queue_def demo_claimed_def demo_job_def new_job_def decide_def)
  from ended_run_settles [OF demo_running this(1) _ this(2-4), of 9] show ?thesis by simp
qed

end
