(* ===== verification/Base64.thy ===== *)
theory Base64
  imports Prelude
begin

text \<open>
  Base64 without padding (\<open>encoding/base64\<close>), in the two alphabets the tokens and the password digests
  use. Decoding skips carriage returns and newlines and ignores the unused bits of the last character,
  as the non-strict encodings of Go do.
\<close>

definition std_alphabet :: string where
  "std_alphabet = ''ABCDEFGHIJKLMNOPQRSTUVWXYZabcdefghijklmnopqrstuvwxyz0123456789+/''"

definition url_alphabet :: string where
  "url_alphabet = ''ABCDEFGHIJKLMNOPQRSTUVWXYZabcdefghijklmnopqrstuvwxyz0123456789-_''"

text \<open>Bytes and the numbers of their characters.\<close>

fun encode_digits :: "nat list \<Rightarrow> nat list" where
  "encode_digits [] = []"
| "encode_digits [a] = [a div 4, (a mod 4) * 16]"
| "encode_digits [a, b] = [a div 4, (a mod 4) * 16 + b div 16, (b mod 16) * 4]"
| "encode_digits (a # b # c # s) =
     [a div 4, (a mod 4) * 16 + b div 16, (b mod 16) * 4 + c div 64, c mod 64] @ encode_digits s"

definition base64_encode :: "string \<Rightarrow> string \<Rightarrow> string" where
  "base64_encode al s = map ((!) al) (encode_digits (map of_char s))"

fun decode_digits :: "nat list \<Rightarrow> nat list option" where
  "decode_digits [] = Some []"
| "decode_digits [w] = None"
| "decode_digits [w, x] = Some [w * 4 + x div 16]"
| "decode_digits [w, x, y] = Some [w * 4 + x div 16, (x mod 16) * 16 + y div 4]"
| "decode_digits (w # x # y # z # s) =
     map_option (\<lambda>bs. (w * 4 + x div 16) # ((x mod 16) * 16 + y div 4) # ((y mod 4) * 64 + z) # bs)
       (decode_digits s)"

definition digit_of :: "string \<Rightarrow> char \<Rightarrow> nat option" where
  "digit_of al c = find_index (\<lambda>x. x = c) al"

definition base64_decode :: "string \<Rightarrow> string \<Rightarrow> string option" where
  "base64_decode al s =
     (case those (map (digit_of al) (filter (\<lambda>c. c \<noteq> CHR 0x0A \<and> c \<noteq> CHR 0x0D) s)) of
        None \<Rightarrow> None
      | Some ds \<Rightarrow> map_option (map char_of) (decode_digits ds))"

section \<open>Round trip\<close>

lemma div_lt: "a < 256 \<Longrightarrow> a div 4 < (64::nat)" "a < 256 \<Longrightarrow> a div 16 < (16::nat)" "a < 256 \<Longrightarrow> a div 64 < (4::nat)"
  by linarith+

lemma encode_digits_lt: "\<forall>b \<in> set bs. b < 256 \<Longrightarrow> \<forall>d \<in> set (encode_digits bs). d < 64"
proof (induction bs rule: encode_digits.induct)
  case (3 a b)
  have "(a mod 4) * 16 + b div 16 < 64" "(b mod 16) * 4 < 64"
    using 3 div_lt(2) [of b] mod_less_divisor [of 4 a] mod_less_divisor [of 16 b] by simp_all
  with 3 show ?case using div_lt by simp
next
  case (4 a b c s)
  have "(a mod 4) * 16 + b div 16 < 64" "(b mod 16) * 4 + c div 64 < 64"
    using 4 div_lt(2) [of b] div_lt(3) [of c] mod_less_divisor [of 4 a] mod_less_divisor [of 16 b] by simp_all
  with 4 show ?case using div_lt by simp
qed auto

lemma decode_encode_digits: "\<forall>b \<in> set bs. b < 256 \<Longrightarrow> decode_digits (encode_digits bs) = Some bs"
proof (induction bs rule: encode_digits.induct)
  case (3 a b)
  then show ?case using div_lt(2) [of b] by simp
next
  case (4 a b c s)
  then show ?case using div_lt(2) [of b] div_lt(3) [of c] by simp
qed auto

lemma encode_digits_Nil [simp]: "encode_digits bs = [] \<longleftrightarrow> bs = []"
  by (cases bs rule: encode_digits.cases) simp_all

lemma base64_Nil [simp]: "base64_encode al s = [] \<longleftrightarrow> s = []"
  by (simp add: base64_encode_def)

lemma bytes_lt: "\<forall>b \<in> set (map of_char s). (b :: nat) < 256"
  by simp

text \<open>What the proofs need of an alphabet: 64 different characters, none of them a line end or one of the
  separators of tokens and digests.\<close>

locale base64_alphabet =
  fixes al :: string
  assumes size: "length al = 64"
    and different: "distinct al"
    and plain: "set al \<inter> {CHR 0x0A, CHR 0x0D, CHR ''.'', CHR ''$''} = {}"
begin

lemma digit_of_nth: "i < 64 \<Longrightarrow> digit_of al (al ! i) = Some i"
  using find_index_distinct [of "\<lambda>x. x" al i] different size by (simp add: digit_of_def)

lemma encode_set: "set (base64_encode al s) \<subseteq> set al"
  using encode_digits_lt [OF bytes_lt [of s]] size by (auto simp: base64_encode_def)

lemma encode_plain: "c \<in> {CHR 0x0A, CHR 0x0D, CHR ''.'', CHR ''$''} \<Longrightarrow> c \<notin> set (base64_encode al s)"
  using encode_set [of s] plain by blast

lemma decode_encode: "base64_decode al (base64_encode al s) = Some s"
proof -
  let ?ds = "encode_digits (map of_char s)"
  have lt: "\<forall>d \<in> set ?ds. d < 64" by (rule encode_digits_lt [OF bytes_lt])
  have "filter (\<lambda>c. c \<noteq> CHR 0x0A \<and> c \<noteq> CHR 0x0D) (base64_encode al s) = base64_encode al s"
    using encode_plain [of "CHR 0x0A" s] encode_plain [of "CHR 0x0D" s] by (auto simp: filter_id_conv)
  moreover have "map (digit_of al) (base64_encode al s) = map Some ?ds"
    using lt digit_of_nth by (simp add: base64_encode_def)
  moreover have "those (map Some xs) = Some xs" for xs :: "nat list" by (induction xs) simp_all
  moreover have "decode_digits ?ds = Some (map of_char s)" by (rule decode_encode_digits [OF bytes_lt])
  moreover have "map char_of (map of_char s :: nat list) = s" by (simp add: comp_def)
  ultimately show ?thesis by (simp add: base64_decode_def)
qed

end

interpretation url64: base64_alphabet url_alphabet
  by unfold_locales (simp_all add: url_alphabet_def)

interpretation std64: base64_alphabet std_alphabet
  by unfold_locales (simp_all add: std_alphabet_def)

end
