(* ===== verification/Auth_Token.thy ===== *)
theory Auth_Token
  imports Base64 Go_Format Sql_Rewrite_Props Result
begin

text \<open>
  Session tokens and password digests (\<open>pkg/authmw/token.go\<close>). The cryptographic functions are
  parameters, and every result holds for any functions in their place: \<open>mac key text\<close> is the HMAC-SHA256
  of a text, \<open>sha\<close> is SHA-256, and \<open>argon2 password salt passes memory lanes size\<close> is \<open>argon2.IDKey\<close>. Time
  is in nanoseconds since the epoch. A comparison in constant time is an equality.
\<close>

section \<open>Tokens\<close>

datatype token_error = ErrMissingSecret | ErrInvalidFormat | ErrExpired | ErrBadSignature

definition unix :: "int \<Rightarrow> int" where
  "unix t = t div 10 ^ 9"

definition DefaultTTL :: int where
  "DefaultTTL = 7 * 24 * 3600 * 10 ^ 9"

definition signature :: "(string \<Rightarrow> string \<Rightarrow> string) \<Rightarrow> string \<Rightarrow> string \<Rightarrow> string" where
  "signature mac secret payload = base64_encode url_alphabet (mac secret payload)"

definition SignTokenWithTTL ::
  "(string \<Rightarrow> string \<Rightarrow> string) \<Rightarrow> string \<Rightarrow> int \<Rightarrow> string \<Rightarrow> int \<Rightarrow> token_error + string" where
  "SignTokenWithTTL mac secret now userID ttl =
     (if secret = [] then Inl ErrMissingSecret
      else if userID = [] then Inl ErrInvalidFormat
      else (let payload = userID @ ''.'' @ show_int (unix (now + ttl))
            in Inr (payload @ ''.'' @ signature mac secret payload)))"

definition SignToken ::
  "(string \<Rightarrow> string \<Rightarrow> string) \<Rightarrow> string \<Rightarrow> int \<Rightarrow> string \<Rightarrow> token_error + string" where
  "SignToken mac secret now userID = SignTokenWithTTL mac secret now userID DefaultTTL"

definition VerifyToken ::
  "(string \<Rightarrow> string \<Rightarrow> string) \<Rightarrow> string \<Rightarrow> int \<Rightarrow> string \<Rightarrow> token_error + string" where
  "VerifyToken mac secret now token =
     (if secret = [] then Inl ErrMissingSecret
      else case split_on (CHR ''.'') token of
        [userID, expStr, sig] \<Rightarrow>
          if userID = [] \<or> expStr = [] \<or> sig = [] then Inl ErrInvalidFormat
          else (case atoi expStr of
                  None \<Rightarrow> Inl ErrInvalidFormat
                | Some expiry \<Rightarrow>
                    if expiry < unix now then Inl ErrExpired
                    else if sig \<noteq> signature mac secret (userID @ ''.'' @ expStr) then Inl ErrBadSignature
                    else Inr userID)
      | _ \<Rightarrow> Inl ErrInvalidFormat)"

section \<open>Passwords\<close>

definition argonTime :: nat where "argonTime = 1"
definition argonMemory :: nat where "argonMemory = 64 * 1024"
definition argonThreads :: nat where "argonThreads = 4"
definition argonKeyLen :: nat where "argonKeyLen = 32"
definition argonSaltLen :: nat where "argonSaltLen = 16"

definition BootstrapSentinel :: string where "BootstrapSentinel = ''BOOTSTRAP_REQUIRED''"

type_synonym kdf = "string \<Rightarrow> string \<Rightarrow> nat \<Rightarrow> nat \<Rightarrow> nat \<Rightarrow> nat \<Rightarrow> string"

text \<open>\<open>salt\<close> is what \<open>rand.Read\<close> gives, or \<open>None\<close> when it fails; 19 is \<open>argon2.Version\<close>.\<close>

definition HashPassword :: "kdf \<Rightarrow> string option \<Rightarrow> string \<Rightarrow> string + string" where
  "HashPassword argon2 salt password =
     (case salt of
        None \<Rightarrow> Inl ''rand''
      | Some s \<Rightarrow>
          Inr (''argon2id$v='' @ show_nat 19 @ ''$m='' @ show_nat argonMemory @ '',t='' @ show_nat argonTime
               @ '',p='' @ show_nat argonThreads @ ''$'' @ base64_encode std_alphabet s @ ''$''
               @ base64_encode std_alphabet
                   (argon2 password s argonTime argonMemory argonThreads argonKeyLen)))"

text \<open>\<open>fmt.Sscanf\<close>: a literal, and the verb \<open>%d\<close> into an unsigned or signed integer. Text after the last
  verb is not looked at.\<close>

definition scan_literal :: "string \<Rightarrow> string \<Rightarrow> string option" where
  "scan_literal lit s = (if has_prefix s lit then Some (drop (length lit) s) else None)"

definition skip_spaces :: "string \<Rightarrow> string" where
  "skip_spaces s = dropWhile (\<lambda>c. is_space_char c \<and> c \<noteq> CHR 0x0A) s"

definition scan_uint :: "nat \<Rightarrow> string \<Rightarrow> (nat \<times> string) option" where
  "scan_uint bits s =
     (let t = skip_spaces s; ds = takeWhile is_digit t; n = nat (digits_val ds)
      in if ds = [] \<or> 2 ^ bits \<le> n then None else Some (n, dropWhile is_digit t))"

definition scan_int :: "string \<Rightarrow> (int \<times> string) option" where
  "scan_int s =
     (let t = skip_spaces s; neg = has_prefix t ''-'';
          u = (if neg \<or> has_prefix t ''+'' then tl t else t);
          ds = takeWhile is_digit u; n = (if neg then - digits_val ds else digits_val ds)
      in if ds = [] \<or> n < int64_min \<or> int64_max < n then None else Some (n, dropWhile is_digit u))"

definition scan_params :: "string \<Rightarrow> (nat \<times> nat \<times> nat) option" where
  "scan_params s =
     Option.bind (scan_literal ''m='' s) (\<lambda>s.
     Option.bind (scan_uint 32 s) (\<lambda>(m, s).
     Option.bind (scan_literal '',t='' s) (\<lambda>s.
     Option.bind (scan_uint 32 s) (\<lambda>(t, s).
     Option.bind (scan_literal '',p='' s) (\<lambda>s.
     Option.bind (scan_uint 8 s) (\<lambda>(p, s). Some (m, t, p)))))))"

text \<open>A verdict: accepted, refused with an error, or a panic (\<open>IDKey\<close> panics without passes or lanes).\<close>

datatype verdict = Accepted | Refused string | Panics string

definition verifyArgon2id :: "kdf \<Rightarrow> string \<Rightarrow> string \<Rightarrow> verdict" where
  "verifyArgon2id argon2 password stored =
     (case split_on (CHR ''$'') stored of
        [tag, v, params, salt64, hash64] \<Rightarrow>
          if tag \<noteq> ''argon2id'' then Refused ''invalid argon2id hash format''
          else if Option.bind (scan_literal ''v='' v) scan_int = None then Refused ''invalid argon2id version''
          else (case scan_params params of
                  None \<Rightarrow> Refused ''invalid argon2id parameters''
                | Some (m, t, p) \<Rightarrow>
                    (case base64_decode std_alphabet salt64 of
                       None \<Rightarrow> Refused ''invalid salt encoding''
                     | Some salt \<Rightarrow>
                         (case base64_decode std_alphabet hash64 of
                            None \<Rightarrow> Refused ''invalid hash encoding''
                          | Some want \<Rightarrow>
                              if t = 0 then Panics ''argon2: number of rounds too small''
                              else if p = 0 then Panics ''argon2: parallelism degree too low''
                              else if argon2 password salt t m p (length want) \<noteq> want
                              then Refused ''password mismatch'' else Accepted)))
      | _ \<Rightarrow> Refused ''invalid argon2id hash format'')"

text \<open>\<open>iterSHA256\<close>: the digest of salt and password, hashed again \<open>iter - 1\<close> times.\<close>

definition iterSHA256 :: "(string \<Rightarrow> string) \<Rightarrow> string \<Rightarrow> string \<Rightarrow> nat \<Rightarrow> string" where
  "iterSHA256 sha password salt iter = (sha ^^ (iter - 1)) (sha (salt @ password))"

definition verifySHA256i :: "(string \<Rightarrow> string) \<Rightarrow> string \<Rightarrow> string \<Rightarrow> verdict" where
  "verifySHA256i sha password stored =
     (case split_on (CHR ''$'') stored of
        [tag, iterStr, salt64, hash64] \<Rightarrow>
          if tag \<noteq> ''sha256i'' then Refused ''unsupported password hash format''
          else (case atoi iterStr of
                  None \<Rightarrow> Refused ''invalid iteration count''
                | Some iter \<Rightarrow>
                    if iter < 1000 then Refused ''invalid iteration count''
                    else (case base64_decode std_alphabet salt64 of
                            None \<Rightarrow> Refused ''invalid salt encoding''
                          | Some salt \<Rightarrow>
                              (case base64_decode std_alphabet hash64 of
                                 None \<Rightarrow> Refused ''invalid hash encoding''
                               | Some want \<Rightarrow>
                                   if iterSHA256 sha password salt (nat iter) \<noteq> want
                                   then Refused ''password mismatch'' else Accepted)))
      | _ \<Rightarrow> Refused ''unsupported password hash format'')"

definition VerifyPassword :: "kdf \<Rightarrow> (string \<Rightarrow> string) \<Rightarrow> string \<Rightarrow> string \<Rightarrow> verdict" where
  "VerifyPassword argon2 sha password stored =
     (if stored = [] \<or> stored = BootstrapSentinel
      then Refused (''password not set '' @ utf8 [0xE2, 0x80, 0x94]
                    @ '' operator must bootstrap admin via ADMIN_PASSWORD env'')
      else if has_prefix stored ''argon2id$'' then verifyArgon2id argon2 password stored
      else if has_prefix stored ''sha256i$'' then verifySHA256i sha password stored
      else Refused ''unsupported password hash format'')"

section \<open>Splitting and reading back\<close>

lemma split_on_none: "d \<notin> set s \<Longrightarrow> split_on d s = [s]"
  by (induction s) auto

lemma split_on_append: "d \<notin> set s \<Longrightarrow> split_on d (s @ d # t) = s # split_on d t"
  by (induction s) auto

lemma split_on_join: "split_on d s = ws \<Longrightarrow> s = join_str [d] ws \<and> ws \<noteq> []"
proof (induction s arbitrary: ws)
  case (Cons c s)
  obtain w vs where rest: "split_on d s = w # vs" "s = join_str [d] (w # vs)"
    using Cons.IH by (metis neq_Nil_conv)
  with Cons.prems show ?case by (cases vs) (auto split: if_splits)
qed simp

lemma digits_val_snoc: "digits_val (s @ [c]) = 10 * digits_val s + digit_val c"
  by (simp add: digits_val_def)

lemma digit_val_char: "n < 10 \<Longrightarrow> digit_val (char_of (48 + n)) = int n"
proof -
  assume n: "n < 10"
  then have "of_char (char_of (48 + n) :: char) = 48 + n" by (simp only: of_char_of) simp
  then have "(of_char (char_of (48 + n) :: char) :: int) = int (48 + n)"
    using of_nat_of_char [of "char_of (48 + n)", where 'a = int] by metis
  then show ?thesis by (simp add: digit_val_def)
qed

lemma digits_val_show_nat: "digits_val (show_nat n) = int n"
proof (induction n rule: show_nat.induct)
  case (1 n)
  show ?case
  proof (cases "n < 10")
    case True
    then show ?thesis using digit_val_char [of n] by (subst show_nat.simps) (simp add: digits_val_def)
  next
    case False
    then have "show_nat n = show_nat (n div 10) @ [char_of (48 + n mod 10)]" by (subst show_nat.simps) simp
    with 1 False show ?thesis using digit_val_char [of "n mod 10"]
      by (simp add: digits_val_snoc) presburger
  qed
qed

lemma show_nat_hd: "is_digit (hd (show_nat n))"
  using show_nat_digits [of "hd (show_nat n)" n] by (simp add: hd_in_set)

lemma digit_not_sign: "is_digit c \<Longrightarrow> c \<noteq> CHR ''-'' \<and> c \<noteq> CHR ''+'' \<and> c \<noteq> CHR ''.'' \<and> c \<noteq> CHR ''$'' \<and> \<not> is_space_char c"
  by (auto simp: is_digit_def is_space_char_def)

lemma atoi_show_nat: "int n \<le> int64_max \<Longrightarrow> atoi (show_nat n) = Some (int n)"
proof -
  assume n: "int n \<le> int64_max"
  have "\<not> has_prefix (show_nat n) ''-''" "\<not> has_prefix (show_nat n) ''+''"
    using digit_not_sign [OF show_nat_hd [of n]] by (auto simp: has_prefix_iff)
  moreover have "list_all is_digit (show_nat n)" by (simp add: list_all_iff show_nat_digits)
  moreover have "int64_min \<le> int n" by (simp add: int64_min_def)
  ultimately show ?thesis using n by (simp add: atoi_def digits_val_show_nat)
qed

lemma show_nat_no_char: "\<not> is_digit c \<Longrightarrow> c \<notin> set (show_nat n)"
  using show_nat_digits by blast

lemma scan_uint_show_nat:
  assumes "n < 2 ^ bits" "rest = [] \<or> \<not> is_digit (hd rest)"
  shows "scan_uint bits (show_nat n @ rest) = Some (n, rest)"
proof -
  have digits: "\<forall>c \<in> set (show_nat n). is_digit c" by (simp add: show_nat_digits)
  obtain c cs where c: "show_nat n = c # cs" by (cases "show_nat n") auto
  then have "\<not> is_space_char c" using digits digit_not_sign [of c] by simp
  then have "skip_spaces (show_nat n @ rest) = show_nat n @ rest" by (simp add: skip_spaces_def c)
  moreover have "takeWhile is_digit (show_nat n @ rest) = show_nat n" "dropWhile is_digit (show_nat n @ rest) = rest"
    using digits assms(2) by (cases rest; simp add: takeWhile_append2 dropWhile_append2)+
  ultimately show ?thesis using assms(1) by (simp add: scan_uint_def digits_val_show_nat)
qed

lemma scan_literal_append [simp]: "scan_literal lit (lit @ s) = Some s"
  by (simp add: scan_literal_def)

section \<open>Properties\<close>



text \<open>Whatever the text, a token is accepted only with the signature of its own user and expiry under the
  secret, and before that expiry: without the secret's MAC of that payload there is no valid token.\<close>

lemma accepted_tokens_are_signed:
  assumes "VerifyToken mac secret now tok = Inr user"
  shows "secret \<noteq> [] \<and> user \<noteq> [] \<and> (\<exists>expStr expiry. atoi expStr = Some expiry \<and> unix now \<le> expiry
    \<and> tok = user @ ''.'' @ expStr @ ''.'' @ signature mac secret (user @ ''.'' @ expStr))"
proof -
  from assms obtain expStr sig expiry where ok: "secret \<noteq> []" "split_on (CHR ''.'') tok = [user, expStr, sig]"
    "user \<noteq> []" "atoi expStr = Some expiry" "unix now \<le> expiry" "sig = signature mac secret (user @ ''.'' @ expStr)"
    by (auto simp: VerifyToken_def split: list.splits if_splits option.splits)
  from split_on_join [OF ok(2)] have "tok = user @ ''.'' @ expStr @ ''.'' @ sig" by simp
  with ok show ?thesis by blast
qed

lemma demo_token: "VerifyToken (\<lambda>k x. ''m'') ''key'' 0 ''u.10.bQ'' = Inr ''u''"
proof -
  have "signature (\<lambda>k x. ''m'') ''key'' p = ''bQ''" for p
    by (simp add: signature_def base64_encode_def url_alphabet_def)
  moreover have "atoi ''10'' = Some 10"
    by (simp add: atoi_def has_prefix_def is_digit_def digits_val_def digit_val_def int64_min_def int64_max_def)
  ultimately show ?thesis by (simp add: VerifyToken_def unix_def)
qed

lemma accepted_tokens_are_signed_witness:
  "\<exists>expStr expiry. atoi expStr = Some expiry \<and> unix 0 \<le> expiry
     \<and> ''u.10.bQ'' = ''u'' @ ''.'' @ expStr @ ''.'' @ signature (\<lambda>k x. ''m'') ''key'' (''u'' @ ''.'' @ expStr)"
  using accepted_tokens_are_signed [OF demo_token] by blast

text \<open>A digest accepts exactly the passwords with the same key: the right one, and any other only if the
  key derivation collides.\<close>

lemma password_digest_exact:
  assumes "HashPassword argon2 (Some salt) password = Inr stored"
    and "length (argon2 password salt argonTime argonMemory argonThreads argonKeyLen) = argonKeyLen"
  shows "VerifyPassword argon2 sha attempt stored =
    (if argon2 attempt salt argonTime argonMemory argonThreads argonKeyLen
        = argon2 password salt argonTime argonMemory argonThreads argonKeyLen
     then Accepted else Refused ''password mismatch'')"
proof -
  let ?key = "argon2 password salt argonTime argonMemory argonThreads argonKeyLen"
  let ?v = "''v='' @ show_nat 19" and ?s = "base64_encode std_alphabet salt" and ?h = "base64_encode std_alphabet ?key"
  let ?p = "''m='' @ show_nat argonMemory @ '',t='' @ show_nat argonTime @ '',p='' @ show_nat argonThreads"
  have stored: "stored = ''argon2id'' @ CHR ''$'' # ?v @ CHR ''$'' # ?p @ CHR ''$'' # ?s @ CHR ''$'' # ?h"
    using assms(1) by (simp add: HashPassword_def)
  have nodollar: "CHR ''$'' \<notin> set (show_nat n)" for n by (rule show_nat_no_char) (simp add: is_digit_def)
  have "CHR ''$'' \<notin> set ?v" "CHR ''$'' \<notin> set ?p" "CHR ''$'' \<notin> set ?s" "CHR ''$'' \<notin> set ?h"
    using nodollar std64.encode_plain by simp_all
  then have parts: "split_on (CHR ''$'') stored = [''argon2id'', ?v, ?p, ?s, ?h]"
    unfolding stored by (subst split_on_append, simp)+ (simp add: split_on_none)
  have "show_nat 19 = ''19''" by (simp add: show_nat.simps)
  then have version: "Option.bind (scan_literal ''v='' ?v) scan_int \<noteq> None"
    by (simp add: scan_literal_append [of "''v=''" "''19''", simplified] scan_int_def skip_spaces_def is_digit_def
        has_prefix_def digits_val_def digit_val_def int64_min_def int64_max_def)
  have params: "scan_params ?p = Some (argonMemory, argonTime, argonThreads)"
    using scan_literal_append [of "''m=''"] scan_literal_append [of "'',t=''"] scan_literal_append [of "'',p=''"]
      scan_uint_show_nat [of argonThreads 8 "[]"]
    by (simp add: scan_params_def scan_uint_show_nat argonMemory_def argonTime_def argonThreads_def is_digit_def)
  have "VerifyPassword argon2 sha attempt stored = verifyArgon2id argon2 attempt stored"
    by (simp add: VerifyPassword_def stored BootstrapSentinel_def has_prefix_def)
  with version params show ?thesis
    by (simp add: verifyArgon2id_def parts std64.decode_encode assms(2)) (simp add: argonTime_def argonThreads_def)
qed

lemma password_digest_exact_witness:
  "VerifyPassword (\<lambda>p s t m l k. replicate k (hd p)) (\<lambda>x. x) ''b''
     (''argon2id$v='' @ show_nat 19 @ ''$m='' @ show_nat argonMemory @ '',t='' @ show_nat argonTime
      @ '',p='' @ show_nat argonThreads @ ''$'' @ base64_encode std_alphabet ''salt'' @ ''$''
      @ base64_encode std_alphabet (replicate argonKeyLen (CHR ''a''))) = Refused ''password mismatch''"
  using password_digest_exact [of "\<lambda>p s t m l k. replicate k (hd p)" "''salt''" "''a''" _ "\<lambda>x. x" "''b''"]
  by (simp add: HashPassword_def argonKeyLen_def)

end
