(* ===== verification/Http_Util.thy ===== *)
theory Http_Util
  imports Go_Format
begin

text \<open>
  The helpers the handlers share (\<open>pkg/httputil\<close>): path and identifier checks, values of decoded
  bodies, PostgreSQL text arrays in both directions, and the CORS decision. A request has only the parts
  the modelled code reads: \<open>rq_Header\<close> and \<open>rq_Query\<close> give the empty string for an absent name.
\<close>

section \<open>Requests\<close>

record request =
  rq_Method :: string
  rq_Path :: string
  rq_Header :: "string \<Rightarrow> string"
  rq_Query :: "string \<Rightarrow> string"

text \<open>\<open>strings.TrimPrefix\<close>.\<close>

definition trim_prefix :: "string \<Rightarrow> string \<Rightarrow> string" where
  "trim_prefix s p = (if has_prefix s p then drop (length p) s else s)"

definition GetProjectID :: "request \<Rightarrow> string" where
  "GetProjectID r = rq_Query r ''projectId''"

definition ExtractID :: "string \<Rightarrow> string \<Rightarrow> string" where
  "ExtractID path prefix = hd (split_on (CHR ''/'') (trim_prefix (trim_prefix path prefix) ''/''))"

definition IsValidUUID :: "string \<Rightarrow> bool" where
  "IsValidUUID s \<longleftrightarrow> s \<noteq> [] \<and> s \<noteq> ''undefined'' \<and> s \<noteq> ''null'' \<and> 32 \<le> length s"

text \<open>Values of a decoded body.\<close>

definition StrVal :: "(string \<times> json) list \<Rightarrow> string \<Rightarrow> string" where
  "StrVal m key = (case map_of m key of Some v \<Rightarrow> if v \<noteq> JNull then fmt_v v else [] | None \<Rightarrow> [])"

definition BoolVal :: "(string \<times> json) list \<Rightarrow> string \<Rightarrow> bool" where
  "BoolVal m key = (case map_of m key of Some (JBool b) \<Rightarrow> b | _ \<Rightarrow> False)"

section \<open>PostgreSQL arrays\<close>

abbreviation (input) backslash :: char where "backslash \<equiv> CHR 0x5C"
abbreviation (input) dquote :: char where "dquote \<equiv> CHR 0x22"

definition quote_element :: "string \<Rightarrow> string" where
  "quote_element s =
     [dquote] @ replace_char dquote [backslash, dquote] (replace_char backslash [backslash, backslash] s) @ [dquote]"

definition StringsSliceToPgArray :: "string list \<Rightarrow> string" where
  "StringsSliceToPgArray arr =
     (if arr = [] then ''{}'' else ''{'' @ join_str '','' (map quote_element arr) @ ''}'')"

text \<open>The result \<open>None\<close> is the SQL null.\<close>

definition StringsToPgArray :: "(string \<times> json) list \<Rightarrow> string \<Rightarrow> string option" where
  "StringsToPgArray m key =
     (case map_of m key of
        Some (JArr arr) \<Rightarrow> Some (''{'' @ join_str '','' (map (\<lambda>v. quote_element (fmt_v v)) arr) @ ''}'')
      | _ \<Rightarrow> None)"

text \<open>The loop of \<open>ParsePgTextArray\<close>: whether it is within quotes, whether the current element has
  content, and the element so far.\<close>

fun parse_elements :: "bool \<Rightarrow> bool \<Rightarrow> string \<Rightarrow> string \<Rightarrow> string list" where
  "parse_elements inQuote hasContent cur [] = (if hasContent then [cur] else [])"
| "parse_elements True hasContent cur [c] =
     (if c = dquote then parse_elements False hasContent cur [] else parse_elements True True (cur @ [c]) [])"
| "parse_elements True hasContent cur (c # d # s) =
     (if c = backslash then parse_elements True True (cur @ [d]) s
      else if c = dquote then parse_elements False hasContent cur (d # s)
      else parse_elements True True (cur @ [c]) (d # s))"
| "parse_elements False hasContent cur (c # s) =
     (if c = dquote then parse_elements True True cur s
      else if c = CHR '','' then (if hasContent then [cur] else []) @ parse_elements False False [] s
      else parse_elements False True (cur @ [c]) s)"

definition ParsePgTextArray :: "string \<Rightarrow> string list" where
  "ParsePgTextArray text =
     (let s = trim_space text
      in if length s < 2 \<or> hd s \<noteq> CHR ''{'' \<or> last s \<noteq> CHR ''}'' then []
         else filter (\<lambda>e. e \<noteq> ''NULL'' \<and> e \<noteq> []) (parse_elements False False [] (butlast (tl s))))"

text \<open>The older reader, which knows quotes but no escapes. (It loops over runes; a rune that is no quote
  and no comma is kept, so bytes give the same result.)\<close>

fun split_quoted :: "bool \<Rightarrow> string \<Rightarrow> string \<Rightarrow> string list" where
  "split_quoted inQuote current [] = (if current \<noteq> [] then [current] else [])"
| "split_quoted inQuote current (c # s) =
     (if c = dquote then split_quoted (\<not> inQuote) current s
      else if c = CHR '','' \<and> \<not> inQuote then current # split_quoted inQuote [] s
      else split_quoted inQuote (current @ [c]) s)"

definition is_brace :: "char \<Rightarrow> bool" where
  "is_brace c \<longleftrightarrow> c = CHR ''{'' \<or> c = CHR ''}''"

definition PgArrayToStrings :: "string option \<Rightarrow> string list" where
  "PgArrayToStrings s =
     (case s of
        None \<Rightarrow> []
      | Some text \<Rightarrow>
          if text = [] \<or> text = ''{}'' then []
          else (let inner = trim_right is_brace (trim_left is_brace text)
                in if inner = [] then [] else split_quoted False [] inner))"

section \<open>CORS\<close>

definition parseOrigins :: "string \<Rightarrow> string list" where
  "parseOrigins csv =
     (if trim_space csv = [] then []
      else filter (\<lambda>p. p \<noteq> []) (map trim_space (split_on (CHR '','') csv)))"

definition allowOriginMatch :: "string list \<Rightarrow> string \<Rightarrow> bool" where
  "allowOriginMatch allow origin \<longleftrightarrow> list_ex (\<lambda>a. a = ''*'' \<or> a = origin) allow"

text \<open>The headers \<open>CORSMiddleware\<close> sets and whether it answers itself (204 on OPTIONS) or calls the next
  handler.\<close>

datatype cors_reply = Preflight | Next

definition CORSMiddleware :: "string \<Rightarrow> request \<Rightarrow> (string \<times> string) list \<times> cors_reply" where
  "CORSMiddleware csv r =
     (let origin = rq_Header r ''Origin''
      in (if origin = [] then []
          else (''Vary'', ''Origin'') #
            (if allowOriginMatch (parseOrigins csv) origin
             then [(''Access-Control-Allow-Origin'', origin),
                   (''Access-Control-Allow-Credentials'', ''true''),
                   (''Access-Control-Allow-Methods'', ''GET, POST, PUT, PATCH, DELETE, OPTIONS''),
                   (''Access-Control-Allow-Headers'', ''Authorization, Content-Type, X-Project-ID, X-Requested-With''),
                   (''Access-Control-Max-Age'', ''600'')]
             else [(''Access-Control-Allow-Origin'', ''null'')]),
          if rq_Method r = ''OPTIONS'' then Preflight else Next))"

section \<open>Properties\<close>

definition escape_char :: "char \<Rightarrow> string" where
  "escape_char c = (if c = dquote \<or> c = backslash then [backslash, c] else [c])"

lemma quote_element_eq: "quote_element s = [dquote] @ concat (map escape_char s) @ [dquote]"
  by (induction s) (auto simp: quote_element_def replace_char_def escape_char_def)

lemma parse_escaped:
  "parse_elements True h cur (concat (map escape_char s) @ dquote # rest) =
     parse_elements False (h \<or> s \<noteq> []) (cur @ s) rest"
proof (induction s arbitrary: h cur)
  case Nil
  show ?case by (cases rest) simp_all
next
  case (Cons c s)
  have "parse_elements True h cur (escape_char c @ x # xs) = parse_elements True True (cur @ [c]) (x # xs)" for x xs
    by (auto simp: escape_char_def)
  moreover obtain x xs where "concat (map escape_char s) @ dquote # rest = x # xs"
    by (cases "concat (map escape_char s) @ dquote # rest") auto
  ultimately show ?case using Cons.IH [of True "cur @ [c]"] by simp
qed

lemma parse_quoted: "parse_elements False False [] (quote_element s @ rest) = parse_elements False True s rest"
  by (simp add: quote_element_eq parse_escaped)

lemma parse_joined: "parse_elements False False [] (join_str '','' (map quote_element arr)) = arr"
proof (induction arr rule: induct_list012)
  case (2 x)
  then show ?case using parse_quoted [of x "[]"] by simp
next
  case (3 x y zs)
  then show ?case by (simp add: parse_quoted)
qed simp

lemma trim_space_braces: "trim_space (CHR ''{'' # s @ ''}'') = CHR ''{'' # s @ ''}''"
  by (simp add: trim_space_def trim_left_def trim_right_def)

text \<open>Reading an array written by \<open>StringsSliceToPgArray\<close> gives the same texts, whatever characters they
  have, except that empty texts and the text \<open>C40: NULL\<close> are lost.\<close>

lemma array_round_trip:
  "ParsePgTextArray (StringsSliceToPgArray arr) = filter (\<lambda>e. e \<noteq> ''NULL'' \<and> e \<noteq> []) arr"
proof (cases "arr = []")
  case True
  then show ?thesis using trim_space_braces [of "[]"] by (simp add: ParsePgTextArray_def StringsSliceToPgArray_def)
next
  case False
  let ?body = "join_str '','' (map quote_element arr)"
  have "StringsSliceToPgArray arr = CHR ''{'' # ?body @ ''}''" using False by (simp add: StringsSliceToPgArray_def)
  then show ?thesis
    by (simp add: ParsePgTextArray_def trim_space_braces Let_def butlast_append parse_joined)
qed

text \<open>The quoted text \<open>NULL\<close> is data, not the null marker, but it is dropped; the older reader splits a
  text with a quote wrongly.\<close>

lemma quoted_null_is_lost: "ParsePgTextArray (StringsSliceToPgArray [''NULL'', ''a'']) = [''a'']"
  by code_simp

lemma old_reader_ignores_escapes:
  "PgArrayToStrings (Some (StringsSliceToPgArray [[CHR ''a'', dquote, CHR '','', CHR ''b'']]))
     = [[CHR ''a'', backslash], [CHR ''b'']]"
  by (simp add: PgArrayToStrings_def StringsSliceToPgArray_def quote_element_eq escape_char_def
      trim_left_def trim_right_def is_brace_def)

text \<open>An origin that is not listed gets the header value \<open>null\<close> and no credentials.\<close>

lemma unlisted_origins_are_refused:
  assumes "rq_Header r ''Origin'' \<noteq> []" "rq_Header r ''Origin'' \<notin> set (parseOrigins csv)" "''*'' \<notin> set (parseOrigins csv)"
  shows "fst (CORSMiddleware csv r) = [(''Vary'', ''Origin''), (''Access-Control-Allow-Origin'', ''null'')]"
proof -
  have "\<not> allowOriginMatch (parseOrigins csv) (rq_Header r ''Origin'')"
    using assms(2,3) by (auto simp: allowOriginMatch_def list_ex_iff)
  with assms(1) show ?thesis by (simp add: CORSMiddleware_def)
qed

end
