(* ===== verification/Auth_Access.thy ===== *)
theory Auth_Access
  imports Auth_Token Http_Util
begin

text \<open>
  Who may call what (\<open>pkg/authmw\<close>: \<open>middleware.go\<close>, \<open>project_access.go\<close>, \<open>entity_access.go\<close>, \<open>audit.go\<close>):
  the bearer token of a caller, membership of projects, the checks of handlers on projects, entities and
  owners, and the middleware in front of every service. A query that fails is treated by the code like one
  without a row, and is one without a row here. A check returns \<open>None\<close> when it passes, and otherwise the
  status code it has written.
\<close>

section \<open>Callers and projects\<close>

record auth_env =
  env_mac :: "string \<Rightarrow> string \<Rightarrow> string"
  env_secret :: string
  env_internal :: string
  env_now :: int

record user_row =
  usr_role :: string
  usr_active :: bool

record auth_db =
  db_user :: "string \<Rightarrow> user_row option"
  db_member :: "string \<Rightarrow> string \<Rightarrow> bool"

definition caller :: "auth_env \<Rightarrow> request \<Rightarrow> token_error + string" where
  "caller env r =
     VerifyToken (env_mac env) (env_secret env) (env_now env)
       (trim_prefix (rq_Header r ''Authorization'') ''Bearer '')"

definition IsActive :: "auth_db \<Rightarrow> string \<Rightarrow> bool option" where
  "IsActive db u = map_option usr_active (db_user db u)"

text \<open>The role of an active user.\<close>

definition active_role :: "auth_db \<Rightarrow> string \<Rightarrow> string option" where
  "active_role db u =
     (case db_user db u of Some row \<Rightarrow> if usr_active row then Some (usr_role row) else None | None \<Rightarrow> None)"

definition UserCanAccessProject :: "auth_db \<Rightarrow> string \<Rightarrow> string \<Rightarrow> bool" where
  "UserCanAccessProject db u p =
     (if u = [] \<or> p = [] then False
      else case active_role db u of
             None \<Rightarrow> False
           | Some role \<Rightarrow> if role = ''admin'' then True else db_member db p u)"

definition EnforceProjectFromRequest :: "auth_env \<Rightarrow> auth_db \<Rightarrow> request \<Rightarrow> string \<Rightarrow> nat option" where
  "EnforceProjectFromRequest env db r p =
     (if p = [] then Some 403
      else case caller env r of
             Inl _ \<Rightarrow> Some 401
           | Inr u \<Rightarrow> if UserCanAccessProject db u p then None else Some 403)"

definition internal_path :: "request \<Rightarrow> bool" where
  "internal_path r \<longleftrightarrow> has_prefix (rq_Path r) ''/internal/''"

definition EnforceProjectAccess :: "auth_env \<Rightarrow> auth_db \<Rightarrow> request \<Rightarrow> string \<Rightarrow> nat option" where
  "EnforceProjectAccess env db r p =
     (if internal_path r then None else EnforceProjectFromRequest env db r p)"

section \<open>Entities and owners\<close>

text \<open>\<open>resolve\<close> is the query that finds the project of an entity.\<close>

definition EnforceEntityProjectVia ::
  "auth_env \<Rightarrow> auth_db \<Rightarrow> (string \<Rightarrow> string option) \<Rightarrow> request \<Rightarrow> string \<Rightarrow> nat option" where
  "EnforceEntityProjectVia env db resolve r i =
     (if internal_path r then None
      else if i = [] then Some 404
      else case resolve i of
             None \<Rightarrow> Some 404
           | Some p \<Rightarrow>
               (case caller env r of
                  Inl _ \<Rightarrow> Some 401
                | Inr u \<Rightarrow> if UserCanAccessProject db u p then None else Some 404))"

text \<open>\<open>run_sql text i\<close> runs a query with one parameter.\<close>

definition EnforceEntityProject ::
  "auth_env \<Rightarrow> auth_db \<Rightarrow> (string \<Rightarrow> string \<Rightarrow> string option) \<Rightarrow> request \<Rightarrow> string \<Rightarrow> string \<Rightarrow> string \<Rightarrow> nat option" where
  "EnforceEntityProject env db run_sql r table idCol i =
     EnforceEntityProjectVia env db
       (run_sql (''SELECT project_id FROM '' @ table @ '' WHERE '' @ idCol @ '' = $1'')) r i"

definition EnforceEntityOwner ::
  "auth_env \<Rightarrow> auth_db \<Rightarrow> (string \<Rightarrow> string \<Rightarrow> string option) \<Rightarrow> request \<Rightarrow> string \<Rightarrow> string \<Rightarrow> string \<Rightarrow> string \<Rightarrow> nat option" where
  "EnforceEntityOwner env db run_sql r table idCol ownerCol i =
     (if internal_path r then None
      else if i = [] then Some 404
      else case caller env r of
             Inl _ \<Rightarrow> Some 401
           | Inr u \<Rightarrow>
               (case run_sql (''SELECT '' @ ownerCol @ ''::text FROM '' @ table @ '' WHERE '' @ idCol @ '' = $1'') i of
                  None \<Rightarrow> Some 404
                | Some owner \<Rightarrow>
                    if owner = u then None
                    else if active_role db u = Some ''admin'' then None else Some 404))"

definition RequireAdmin :: "auth_env \<Rightarrow> auth_db \<Rightarrow> request \<Rightarrow> nat + string" where
  "RequireAdmin env db r =
     (case caller env r of
        Inl _ \<Rightarrow> Inl 401
      | Inr u \<Rightarrow> if active_role db u \<noteq> Some ''admin'' then Inl 403 else Inr u)"

section \<open>Audit\<close>

record AuditEvent =
  ev_Timestamp :: "int option"
  ev_RequestID :: string
  ev_CallerService :: string
  ev_OnBehalfOf :: string
  ev_ProjectID :: string
  ev_Path :: string
  ev_Method :: string
  ev_StatusCode :: nat

text \<open>The status code a \<open>statusRecorder\<close> reports after the handler wrote the given headers.\<close>

definition statusCode :: "nat list \<Rightarrow> nat" where
  "statusCode codes = (if codes = [] \<or> last codes = 0 then 200 else last codes)"

text \<open>\<open>DBAuditWriter.WriteAudit\<close>: the rows of the table and the lines on stderr it adds. \<open>has_db\<close> is whether
  there is a database, \<open>ok\<close> whether the insert succeeds.\<close>

definition WriteAudit :: "bool \<Rightarrow> bool \<Rightarrow> int \<Rightarrow> AuditEvent \<Rightarrow> AuditEvent list \<times> AuditEvent list" where
  "WriteAudit has_db ok now ev =
     (if \<not> has_db then ([], [ev])
      else (let ts = (case ev_Timestamp ev of None \<Rightarrow> now | Some t \<Rightarrow> t)
            in if ok then ([ev\<lparr>ev_Timestamp := Some ts\<rparr>], []) else ([], [ev])))"

section \<open>The middleware\<close>

text \<open>The request is passed on, with the audit event of an internal call, or answered with a status code.\<close>

datatype gate = Served "AuditEvent option" | Denied nat

definition handleInternal :: "auth_env \<Rightarrow> bool \<Rightarrow> request \<Rightarrow> nat list \<Rightarrow> gate" where
  "handleInternal env has_writer r codes =
     (if env_internal env = [] \<or> rq_Header r ''X-Internal-Token'' \<noteq> env_internal env then Denied 401
      else if rq_Header r ''X-On-Behalf-Of'' = [] then Denied 400
      else Served
        (if has_writer
         then Some \<lparr>ev_Timestamp = Some (env_now env), ev_RequestID = rq_Header r ''X-Request-ID'',
                    ev_CallerService = rq_Header r ''X-Caller-Service'',
                    ev_OnBehalfOf = rq_Header r ''X-On-Behalf-Of'',
                    ev_ProjectID = rq_Header r ''X-Project-ID'', ev_Path = rq_Path r,
                    ev_Method = rq_Method r, ev_StatusCode = statusCode codes\<rparr>
         else None))"

definition public_request :: "request \<Rightarrow> bool" where
  "public_request r \<longleftrightarrow> rq_Method r = ''OPTIONS'' \<or> \<not> has_prefix (rq_Path r) ''/api/''
     \<or> rq_Path r \<in> {''/api/auth/login'', ''/api/auth/register'', ''/api/auth/registration-status'', ''/api/health''}"

text \<open>\<open>codes\<close> are the headers the next handler writes; \<open>has_db\<close> is false for the middleware of tests.\<close>

definition Wrap :: "auth_env \<Rightarrow> auth_db \<Rightarrow> bool \<Rightarrow> bool \<Rightarrow> request \<Rightarrow> nat list \<Rightarrow> gate" where
  "Wrap env db has_db has_writer r codes =
     (if internal_path r then handleInternal env has_writer r codes
      else if public_request r then Served None
      else case caller env r of
             Inl _ \<Rightarrow> Denied 401
           | Inr u \<Rightarrow>
               (if IsActive db u \<noteq> Some True then Denied 401
                else (let pid = rq_Query r ''projectId''
                      in if pid \<noteq> [] \<and> has_db \<and> \<not> UserCanAccessProject db u pid then Denied 403
                         else Served None)))"

section \<open>Properties\<close>

text \<open>C6: A request the middleware lets through is public, or an internal call with the shared token on behalf of
  someone, or carries an unexpired token signed for an active user, who may access the project it names.\<close>

lemma served_requests_are_authorised:
  assumes "Wrap env db True has_writer r codes = Served ev"
  shows "\<not> internal_path r \<and> public_request r
    \<or> internal_path r \<and> env_internal env \<noteq> [] \<and> rq_Header r ''X-Internal-Token'' = env_internal env
        \<and> rq_Header r ''X-On-Behalf-Of'' \<noteq> []
    \<or> (\<exists>u expStr expiry. env_secret env \<noteq> [] \<and> atoi expStr = Some expiry \<and> unix (env_now env) \<le> expiry
        \<and> trim_prefix (rq_Header r ''Authorization'') ''Bearer ''
            = u @ ''.'' @ expStr @ ''.'' @ signature (env_mac env) (env_secret env) (u @ ''.'' @ expStr)
        \<and> map_option usr_active (db_user db u) = Some True
        \<and> (rq_Query r ''projectId'' = [] \<or> UserCanAccessProject db u (rq_Query r ''projectId'')))"
proof (cases "internal_path r \<or> public_request r")
  case True
  with assms show ?thesis by (auto simp: Wrap_def handleInternal_def split: if_splits)
next
  case False
  with assms obtain u where u: "caller env r = Inr u" "IsActive db u = Some True"
    "rq_Query r ''projectId'' = [] \<or> UserCanAccessProject db u (rq_Query r ''projectId'')"
    by (auto simp: Wrap_def Let_def split: sum.splits if_splits)
  with accepted_tokens_are_signed [of "env_mac env" "env_secret env" "env_now env" _ u]
  show ?thesis unfolding caller_def IsActive_def by metis
qed

text \<open>Every internal call that is let through is audited when there is a writer, with the caller it acts for
  and the code the handler wrote; without a writer it is let through all the same.\<close>

lemma internal_calls_are_audited:
  assumes "internal_path r" "Wrap env db has_db has_writer r codes = Served ev"
  shows "if has_writer then (\<exists>e. ev = Some e \<and> ev_OnBehalfOf e = rq_Header r ''X-On-Behalf-Of'' \<and> ev_OnBehalfOf e \<noteq> []
      \<and> ev_Path e = rq_Path r \<and> ev_Method e = rq_Method r \<and> ev_StatusCode e = statusCode codes) else ev = None"
  using assms by (auto simp: Wrap_def handleInternal_def split: if_splits)

text \<open>The documentation of \<open>New\<close> promises that internal calls are rejected without a writer; they are not.\<close>

definition demo_call :: request where
  "demo_call = \<lparr>rq_Method = ''GET'', rq_Path = ''/internal/x'',
     rq_Header = (\<lambda>h. if h = ''X-Internal-Token'' \<or> h = ''X-On-Behalf-Of'' then ''t'' else []), rq_Query = (\<lambda>_. [])\<rparr>"

definition demo_env :: auth_env where
  "demo_env = \<lparr>env_mac = (\<lambda>k x. ''m''), env_secret = ''key'', env_internal = ''t'', env_now = 0\<rparr>"

lemma unaudited_internal_call: "Wrap demo_env db True False demo_call [200] = Served None"
  by (simp add: Wrap_def handleInternal_def internal_path_def demo_call_def demo_env_def has_prefix_def)

lemma served_requests_are_authorised_witness:
  "env_internal demo_env \<noteq> [] \<and> rq_Header demo_call ''X-On-Behalf-Of'' \<noteq> []"
  using served_requests_are_authorised [OF unaudited_internal_call]
  by (auto simp: internal_path_def demo_call_def demo_env_def has_prefix_def)

text \<open>With a valid token the entity check passes exactly for entities of accessible projects, and answers
  every other id alike, so it does not tell whether an entity of another project exists.\<close>

lemma entity_check_exact:
  assumes "caller env r = Inr u" "\<not> internal_path r" "i \<noteq> []"
  shows "EnforceEntityProjectVia env db resolve r i =
    (if \<exists>p. resolve i = Some p \<and> UserCanAccessProject db u p then None else Some 404)"
  using assms by (simp add: EnforceEntityProjectVia_def split: option.splits)

text \<open>Without one it does: the entity is looked up before the token is checked.\<close>

lemma entity_check_before_token:
  assumes "caller env r = Inl e" "\<not> internal_path r" "i \<noteq> []"
  shows "EnforceEntityProjectVia env db resolve r i = (if resolve i = None then Some 404 else Some 401)"
  using assms by (simp add: EnforceEntityProjectVia_def split: option.splits)

lemma access_needs_role:
  "UserCanAccessProject db u p \<longleftrightarrow> u \<noteq> [] \<and> p \<noteq> []
     \<and> (\<exists>row. db_user db u = Some row \<and> usr_active row \<and> (usr_role row = ''admin'' \<or> db_member db p u))"
  by (auto simp: UserCanAccessProject_def active_role_def split: option.splits)

end
