(* ===== verification/Job_Requests.thy ===== *)
theory Job_Requests
  imports Job_Queue Auth_Access
begin

text \<open>
  The requests on background jobs (\<open>backend-api/handler/handler_jobs.go\<close>): the list of a project's jobs, one
  job, and its cancellation, with the access check in front. Times are rendered by a parameter (RFC 3339).
\<close>

section \<open>Replies\<close>

record jobRow =
  jr_ID :: string
  jr_DataSourceID :: "string option"
  jr_ProjectID :: string
  jr_Kind :: string
  jr_Status :: Status
  jr_Phase :: "string option"
  jr_Percent :: int
  jr_RowsDone :: int
  jr_RowsTotal :: int
  jr_BytesDone :: int
  jr_Message :: "string option"
  jr_WorkerID :: "string option"
  jr_HeartbeatAt :: "string option"
  jr_StartedAt :: "string option"
  jr_CompletedAt :: "string option"
  jr_Error :: "string option"
  jr_RetryCount :: int
  jr_CancelRequested :: bool
  jr_CreatedAt :: string

datatype reply = NoContent | ErrorReply nat string | JobList "jobRow list" | OneJob jobRow | Denial nat

definition scan_row :: "(int \<Rightarrow> string) \<Rightarrow> Job \<Rightarrow> jobRow" where
  "scan_row fmt j =
     \<lparr>jr_ID = job_ID j, jr_DataSourceID = job_DataSourceID j, jr_ProjectID = job_ProjectID j,
      jr_Kind = job_Kind j, jr_Status = job_Status j, jr_Phase = job_Phase j, jr_Percent = job_Percent j,
      jr_RowsDone = job_RowsDone j, jr_RowsTotal = job_RowsTotal j, jr_BytesDone = job_BytesDone j,
      jr_Message = job_Message j, jr_WorkerID = job_WorkerID j,
      jr_HeartbeatAt = map_option fmt (job_HeartbeatAt j), jr_StartedAt = map_option fmt (job_StartedAt j),
      jr_CompletedAt = map_option fmt (job_CompletedAt j), jr_Error = job_Error j,
      jr_RetryCount = job_RetryCount j, jr_CancelRequested = job_CancelRequested j,
      jr_CreatedAt = fmt (job_CreatedAt j)\<rparr>"

section \<open>The list\<close>

definition status_name :: "Status \<Rightarrow> string" where
  "status_name st =
     (case st of StatusQueued \<Rightarrow> ''queued'' | StatusRunning \<Rightarrow> ''running'' | StatusSucceeded \<Rightarrow> ''succeeded''
      | StatusFailed \<Rightarrow> ''failed'' | StatusCancelled \<Rightarrow> ''cancelled'')"

definition status_words :: "string list" where
  "status_words = [''queued'', ''running'', ''succeeded'', ''failed'', ''cancelled'']"

definition requested_statuses :: "request \<Rightarrow> string list" where
  "requested_statuses r =
     (let ss = split_on (CHR '','') (rq_Query r ''status'')
      in map trim_space (if ss = [[]] then [''running'', ''recent''] else ss))"

definition requested_limit :: "request \<Rightarrow> nat" where
  "requested_limit r =
     (let v = rq_Query r ''limit''
      in if v = [] then 50
         else case atoi v of Some n \<Rightarrow> if 0 < n then nat (min n 200) else 50 | None \<Rightarrow> 50)"

definition recent :: "int \<Rightarrow> Job \<Rightarrow> bool" where
  "recent now j \<longleftrightarrow> terminal_status (job_Status j)
     \<and> (case job_CompletedAt j of Some t \<Rightarrow> now - 24 * 3600 < t | None \<Rightarrow> False)"

text \<open>The WHERE clause for the requested words; \<open>None\<close> when no word is known.\<close>

definition status_clause :: "int \<Rightarrow> string list \<Rightarrow> (Job \<Rightarrow> bool) option" where
  "status_clause now ws =
     (let direct = filter (\<lambda>w. w \<in> set status_words) ws; hasRecent = (''recent'' \<in> set ws)
      in if direct = [] \<and> \<not> hasRecent then None
         else Some (\<lambda>j. status_name (job_Status j) \<in> set direct \<or> hasRecent \<and> recent now j))"

definition HandleJobs ::
  "(int \<Rightarrow> string) \<Rightarrow> int \<Rightarrow> bool \<Rightarrow> string \<Rightarrow> request \<Rightarrow> job_table \<Rightarrow> reply" where
  "HandleJobs fmt now ok db_error r tab =
     (if rq_Method r = ''OPTIONS'' then NoContent
      else if rq_Method r \<noteq> ''GET'' then ErrorReply 405 ''method not allowed''
      else let projectID = GetProjectID r
           in if projectID = [] \<or> \<not> IsValidUUID projectID then ErrorReply 400 ''project_id required''
              else case status_clause now (requested_statuses r) of
                     None \<Rightarrow> JobList []
                   | Some sel \<Rightarrow>
                       if \<not> ok then ErrorReply 500 db_error
                       else JobList (map (scan_row fmt) (take (requested_limit r)
                              (sort_key (\<lambda>j. - job_CreatedAt j)
                                (filter (\<lambda>j. job_ProjectID j = projectID \<and> sel j) tab)))))"

section \<open>One job\<close>

text \<open>The query the access check runs on the table of jobs.\<close>

definition job_project_sql :: string where
  "job_project_sql = ''SELECT project_id FROM ingest_job WHERE id = $1''"

definition find_job :: "string \<Rightarrow> job_table \<Rightarrow> Job option" where
  "find_job i tab = find (with_id i) tab"

definition run_job_sql :: "job_table \<Rightarrow> string \<Rightarrow> string \<Rightarrow> string option" where
  "run_job_sql tab q i = (if q = job_project_sql then map_option job_ProjectID (find_job i tab) else None)"

definition handleJobDetail :: "(int \<Rightarrow> string) \<Rightarrow> bool \<Rightarrow> string \<Rightarrow> string \<Rightarrow> job_table \<Rightarrow> reply" where
  "handleJobDetail fmt ok db_error i tab =
     (if \<not> ok then ErrorReply 500 db_error
      else case find_job i tab of
             None \<Rightarrow> ErrorReply 404 ''job not found''
           | Some j \<Rightarrow> OneJob (scan_row fmt j))"

definition cancel_reply :: "string \<Rightarrow> nat \<Rightarrow> reply" where
  "cancel_reply db_error code =
     (if code = 204 then NoContent else if code = 409 then ErrorReply 409 ''job not active''
      else ErrorReply 500 db_error)"

definition HandleJobByID ::
  "auth_env \<Rightarrow> auth_db \<Rightarrow> (int \<Rightarrow> string) \<Rightarrow> bool \<Rightarrow> string \<Rightarrow> request \<Rightarrow> job_table \<Rightarrow> reply \<times> job_table" where
  "HandleJobByID env db fmt ok db_error r tab =
     (if rq_Method r = ''OPTIONS'' then (NoContent, tab)
      else let segments = split_on (CHR ''/'') (trim_prefix (rq_Path r) ''/api/jobs/''); jobID = hd segments
           in if jobID = [] then (ErrorReply 400 ''job id required'', tab)
              else if \<not> IsValidUUID jobID then (ErrorReply 400 ''invalid job id'', tab)
              else case EnforceEntityProject env db (run_job_sql tab) r ''ingest_job'' ''id'' jobID of
                     Some code \<Rightarrow> (Denial code, tab)
                   | None \<Rightarrow>
                       if length segments = 1 \<and> rq_Method r = ''GET''
                       then (handleJobDetail fmt ok db_error jobID tab, tab)
                       else if length segments = 2 \<and> segments ! 1 = ''cancel'' \<and> rq_Method r = ''POST''
                       then (case handleJobCancel ok jobID tab of (code, tab') \<Rightarrow> (cancel_reply db_error code, tab'))
                       else (ErrorReply 404 ''not found'', tab))"

section \<open>Properties\<close>

lemma run_job_sql_eq: "run_job_sql tab job_project_sql = (\<lambda>i. map_option job_ProjectID (find_job i tab))"
  by (simp add: run_job_sql_def fun_eq_iff)

lemma run_job_sql_project [simp]:
  "EnforceEntityProject env db (run_job_sql tab) r ''ingest_job'' ''id'' i
     = EnforceEntityProjectVia env db (\<lambda>i. map_option job_ProjectID (find_job i tab)) r i"
  using run_job_sql_eq [of tab] by (simp add: EnforceEntityProject_def job_project_sql_def)

text \<open>The list has at most 200 jobs, newest first, all of the requested project.\<close>

lemma job_list_is_bounded:
  assumes "HandleJobs fmt now ok e r tab = JobList js"
  shows "length js \<le> 200 \<and> (\<forall>x \<in> set js. jr_ProjectID x = GetProjectID r)
    \<and> (\<exists>rows. js = map (scan_row fmt) rows \<and> set rows \<subseteq> set tab \<and> sorted_wrt (\<lambda>a b. job_CreatedAt b \<le> job_CreatedAt a) rows)"
proof -
  have limit: "requested_limit r \<le> 200"
    by (auto simp: requested_limit_def Let_def split: option.splits)
  have "\<exists>rows. js = map (scan_row fmt) rows \<and> set rows \<subseteq> {j \<in> set tab. job_ProjectID j = GetProjectID r}
      \<and> length rows \<le> requested_limit r \<and> sorted_wrt (\<lambda>a b. job_CreatedAt b \<le> job_CreatedAt a) rows"
  proof (cases "status_clause now (requested_statuses r)")
    case None
    with assms have "js = []" by (auto simp: HandleJobs_def Let_def split: if_splits)
    then show ?thesis by simp
  next
    case (Some sel)
    let ?all = "sort_key (\<lambda>j. - job_CreatedAt j) (filter (\<lambda>j. job_ProjectID j = GetProjectID r \<and> sel j) tab)"
    have "sorted_wrt (\<lambda>a b. job_CreatedAt b \<le> job_CreatedAt a) ?all"
      using sorted_sort_key [of "\<lambda>j. - job_CreatedAt j" "filter (\<lambda>j. job_ProjectID j = GetProjectID r \<and> sel j) tab"]
      by (simp add: sorted_map)
    moreover from Some assms have "js = map (scan_row fmt) (take (requested_limit r) ?all)"
      by (auto simp: HandleJobs_def Let_def split: if_splits)
    moreover have "set (take (requested_limit r) ?all) \<subseteq> {j \<in> set tab. job_ProjectID j = GetProjectID r}"
      using set_take_subset [of "requested_limit r" ?all] by auto
    ultimately show ?thesis
      by (intro exI [of _ "take (requested_limit r) ?all"]) (simp add: sorted_wrt_take)
  qed
  then obtain rows where rows: "js = map (scan_row fmt) rows" "set rows \<subseteq> {j \<in> set tab. job_ProjectID j = GetProjectID r}"
    "length rows \<le> requested_limit r" "sorted_wrt (\<lambda>a b. job_CreatedAt b \<le> job_CreatedAt a) rows" by blast
  with limit have "length js \<le> 200" by simp
  moreover have "\<forall>x \<in> set js. jr_ProjectID x = GetProjectID r" using rows(1,2) by (auto simp: scan_row_def)
  ultimately show ?thesis using rows by blast
qed

definition accessible :: "auth_db \<Rightarrow> string \<Rightarrow> Job \<Rightarrow> bool" where
  "accessible db u j \<longleftrightarrow> UserCanAccessProject db u (job_ProjectID j)"

lemma find_job_Some: "find_job i tab = Some j \<Longrightarrow> j \<in> set tab \<and> job_ID j = i"
  by (auto simp: find_job_def find_Some_iff with_id_def)

lemma find_job_iff:
  "distinct (map job_ID tab) \<Longrightarrow> find_job i tab = Some j \<longleftrightarrow> j \<in> set tab \<and> job_ID j = i"
  by (induction tab) (auto simp: find_job_def with_id_def)

lemma find_accessible:
  assumes "distinct (map job_ID tab)"
  shows "find_job i (filter (accessible db u) tab) = Some j \<longleftrightarrow> find_job i tab = Some j \<and> accessible db u j"
  using assms by (auto simp: find_job_iff distinct_map_filter)

lemma active_filter_Nil:
  assumes "distinct (map job_ID tab)" "find_job i tab = Some j"
  shows "filter (active_with_id i) tab = [] \<longleftrightarrow> \<not> active_with_id i j"
proof -
  have "k = j" if "k \<in> set tab" "active_with_id i k" for k
    using that assms find_job_Some [OF assms(2)] by (auto simp: active_with_id_def distinct_map inj_on_def)
  with find_job_Some [OF assms(2)] show ?thesis by (auto simp: filter_empty_conv)
qed

text \<open>A path with a job id is not an internal one.\<close>

lemma internal_has_no_id:
  "internal_path r \<Longrightarrow> hd (split_on (CHR ''/'') (trim_prefix (rq_Path r) ''/api/jobs/'')) = []"
proof -
  assume "internal_path r"
  then obtain s where "rq_Path r = ''/internal/'' @ s" by (auto simp: internal_path_def has_prefix_iff)
  then show ?thesis by (simp add: trim_prefix_def has_prefix_def)
qed


text \<open>A request changes the table only by setting the cancellation of one queued or running job of a project
  the caller may access.\<close>

lemma only_accessible_jobs_are_cancelled:
  assumes "HandleJobByID env db fmt ok e r tab = (rep, tab')" "tab' \<noteq> tab" "distinct (map job_ID tab)"
  shows "\<exists>u j. caller env r = Inr u \<and> j \<in> set tab \<and> UserCanAccessProject db u (job_ProjectID j)
    \<and> job_Status j \<in> {StatusQueued, StatusRunning} \<and> rq_Method r = ''POST'' \<and> rep = NoContent
    \<and> tab' = map (\<lambda>k. if k = j then j\<lparr>job_CancelRequested := True\<rparr> else k) tab"
proof -
  let ?i = "hd (split_on (CHR ''/'') (trim_prefix (rq_Path r) ''/api/jobs/''))"
  from assms(1,2) have id: "?i \<noteq> []" and post: "rq_Method r = ''POST''"
    and gate: "EnforceEntityProjectVia env db (\<lambda>i. map_option job_ProjectID (find_job i tab)) r ?i = None"
    and cancelled: "handleJobCancel ok ?i tab = (204, tab')" "rep = NoContent"
    by (auto simp: HandleJobByID_def Let_def handleJobCancel_def cancel_reply_def split: if_splits option.splits)
  have "\<not> internal_path r" using id internal_has_no_id by blast
  with gate id obtain j u where u: "caller env r = Inr u" "find_job ?i tab = Some j" "UserCanAccessProject db u (job_ProjectID j)"
    by (auto simp: EnforceEntityProjectVia_def split: option.splits sum.splits if_splits)
  from find_job_Some [OF u(2)] have j: "j \<in> set tab" "job_ID j = ?i" by simp_all
  from cancelled(1) have act: "filter (active_with_id ?i) tab \<noteq> []"
    and tab': "tab' = update_where (active_with_id ?i) (\<lambda>j. j\<lparr>job_CancelRequested := True\<rparr>) tab"
    by (auto simp: handleJobCancel_def split: if_splits)
  with active_filter_Nil [OF assms(3) u(2)] have active: "active_with_id ?i j" by simp
  have "active_with_id ?i k \<longleftrightarrow> k = j" if "k \<in> set tab" for k
    using that active j assms(3) by (auto simp: active_with_id_def distinct_map inj_on_def)
  then have "tab' = map (\<lambda>k. if k = j then j\<lparr>job_CancelRequested := True\<rparr> else k) tab"
    by (simp add: tab' update_where_def)
  moreover have "job_Status j \<in> {StatusQueued, StatusRunning}" using active by (simp add: active_with_id_def)
  ultimately show ?thesis using u(1,3) j(1) cancelled(2) post by blast
qed

text \<open>A request with a valid token of the user \<open>u\<close>.\<close>

definition demo_request :: request where
  "demo_request = \<lparr>rq_Method = ''POST'', rq_Path = ''/api/jobs/0123456789abcdef0123456789abcdef/cancel'',
     rq_Header = (\<lambda>h. if h = ''Authorization'' then ''Bearer u.10.bQ'' else []), rq_Query = (\<lambda>_. [])\<rparr>"

definition demo_db :: "string \<Rightarrow> auth_db" where
  "demo_db role = \<lparr>db_user = (\<lambda>u. if u = ''u'' then Some \<lparr>usr_role = role, usr_active = True\<rparr> else None),
     db_member = (\<lambda>_ _. False)\<rparr>"

definition demo_row :: Job where
  "demo_row = new_job \<lparr>ea_DataSourceID = None, ea_ProjectID = ''p'', ea_Kind = ''file_upload'', ea_CreatedBy = None\<rparr>
     ''{}'' ''0123456789abcdef0123456789abcdef'' 0"

lemma demo_row_simps [simp]:
  "job_ProjectID demo_row = ''p''"
  "job_Status demo_row = StatusQueued" "job_CancelRequested demo_row = False"
  by (simp_all add: demo_row_def new_job_def)

lemma demo_caller: "caller demo_env demo_request = Inr ''u''"
  using demo_token
  by (simp add: caller_def demo_request_def demo_env_def trim_prefix_def has_prefix_def)


definition demo_id :: string where "demo_id = ''0123456789abcdef0123456789abcdef''"

lemma demo_segments: "split_on (CHR ''/'') (trim_prefix (rq_Path demo_request) ''/api/jobs/'') = [demo_id, ''cancel'']"
  by (simp add: demo_request_def trim_prefix_def has_prefix_def demo_id_def)

lemma demo_request_simps [simp]: "rq_Method demo_request = ''POST''" "\<not> internal_path demo_request"
  by (simp_all add: internal_path_def demo_request_def has_prefix_def)

lemma demo_id_simps [simp]: "demo_id \<noteq> []" "IsValidUUID demo_id" "job_ID demo_row = demo_id"
  by (simp_all add: demo_id_def IsValidUUID_def demo_row_def new_job_def)

lemma demo_cancel:
  "HandleJobByID demo_env (demo_db ''admin'') (\<lambda>_. []) True [] demo_request [demo_row]
     = (NoContent, [demo_row\<lparr>job_CancelRequested := True\<rparr>])"
proof -
  have "find_job demo_id [demo_row] = Some demo_row" by (simp add: find_job_def with_id_def)
  moreover have "UserCanAccessProject (demo_db ''admin'') ''u'' ''p''" by (simp add: access_needs_role demo_db_def)
  ultimately have "EnforceEntityProjectVia demo_env (demo_db ''admin'') (\<lambda>i. map_option job_ProjectID (find_job i [demo_row]))
      demo_request demo_id = None"
    using entity_check_exact [OF demo_caller] by simp
  moreover have "handleJobCancel True demo_id [demo_row] = (204, [demo_row\<lparr>job_CancelRequested := True\<rparr>])"
    by (simp add: handleJobCancel_def active_with_id_def update_where_def)
  ultimately show ?thesis by (simp add: HandleJobByID_def demo_segments cancel_reply_def Let_def)
qed

lemma only_accessible_jobs_are_cancelled_witness:
  "\<exists>u. caller demo_env demo_request = Inr u \<and> UserCanAccessProject (demo_db ''admin'') u ''p''"
proof -
  have "[demo_row\<lparr>job_CancelRequested := True\<rparr>] \<noteq> [demo_row]"
  proof
    assume "[demo_row\<lparr>job_CancelRequested := True\<rparr>] = [demo_row]"
    then have "job_CancelRequested (demo_row\<lparr>job_CancelRequested := True\<rparr>) = job_CancelRequested demo_row" by simp
    then show False by simp
  qed
  moreover have "distinct (map job_ID [demo_row])" by simp
  ultimately obtain u j where "caller demo_env demo_request = Inr u" "j \<in> set [demo_row]"
    "UserCanAccessProject (demo_db ''admin'') u (job_ProjectID j)"
    using only_accessible_jobs_are_cancelled [OF demo_cancel] by blast
  then show ?thesis by auto
qed

end
