(* ===== verification/Client_Retry.thy ===== *)
theory Client_Retry
  imports Go_Format "HOL-Library.Word"
begin

text \<open>
  The retry loop of calls to a language model (\<open>pkg/llmclient/retry.go\<close>) and the burst of its rate limiter
  (\<open>ratelimit.go\<close>). A duration is a 64-bit count of nanoseconds and wraps around. What the outside does in
  an attempt is a parameter: the state of the context, the answer of the server, the random jitter, and
  whether the sleep was cut short.
\<close>

section \<open>Delays\<close>

definition wrap64 :: "int \<Rightarrow> int" where
  "wrap64 x = sint (word_of_int x :: 64 word)"

definition second :: int where "second = 1000000000"
definition maxRetries :: nat where "maxRetries = 3"
definition baseBackoff :: int where "baseBackoff = 500000000"
definition maxBackoff :: int where "maxBackoff = 8 * second"

definition shouldRetryStatus :: "int \<Rightarrow> bool" where
  "shouldRetryStatus code \<longleftrightarrow> code = 429 \<or> 500 \<le> code \<and> code \<le> 599"

record response =
  rsp_StatusCode :: int
  rsp_RetryAfter :: string

text \<open>The delay the server asks for, when it gives whole seconds.\<close>

definition retry_after :: "response option \<Rightarrow> int option" where
  "retry_after resp =
     (case resp of
        None \<Rightarrow> None
      | Some r \<Rightarrow>
          if rsp_RetryAfter r = [] then None
          else case atoi (rsp_RetryAfter r) of
                 Some secs \<Rightarrow>
                   if 0 \<le> secs then (let d = wrap64 (secs * second) in Some (if maxBackoff < d then maxBackoff else d))
                   else None
               | None \<Rightarrow> None)"

definition backoff :: "nat \<Rightarrow> int" where
  "backoff attempt = (let d = wrap64 (baseBackoff * 2 ^ attempt) in if maxBackoff < d then maxBackoff else d)"

text \<open>\<open>rand n\<close> is \<open>rand.Int63n(n)\<close>, a number from 0 below \<open>n\<close>.\<close>

definition retryDelay :: "(int \<Rightarrow> int) \<Rightarrow> response option \<Rightarrow> nat \<Rightarrow> int" where
  "retryDelay rand resp attempt =
     (case retry_after resp of
        Some d \<Rightarrow> d
      | None \<Rightarrow> backoff attempt + rand (backoff attempt div 2 + 1))"

section \<open>The loop\<close>

record attempt_env =
  at_ctx :: "string option"
  at_answer :: "string + response"
  at_ctx_after :: "string option"
  at_rand :: "int \<Rightarrow> int"
  at_slept :: bool
  at_ctx_end :: string

text \<open>The result with the requests made and the delays asked for: an error of the context or of the
  transport, or the response.\<close>

type_synonym retry_result = "(string + response) \<times> nat \<times> int list"

definition count_call :: "int list \<Rightarrow> retry_result \<Rightarrow> retry_result" where
  "count_call ds res = (case res of (out, n, es) \<Rightarrow> (out, Suc n, ds @ es))"

function doWithRetry_from :: "(nat \<Rightarrow> attempt_env) \<Rightarrow> nat \<Rightarrow> retry_result" where
  "doWithRetry_from env attempt =
     (if maxRetries < attempt then (Inl ''no attempt'', 0, [])
      else case at_ctx (env attempt) of
        Some e \<Rightarrow> (Inl e, 0, [])
      | None \<Rightarrow>
          (case at_answer (env attempt) of
             Inl e \<Rightarrow>
               (case at_ctx_after (env attempt) of
                  Some ce \<Rightarrow> (Inl ce, 1, [])
                | None \<Rightarrow>
                    if attempt = maxRetries then (Inl e, 1, [])
                    else (let d = retryDelay (at_rand (env attempt)) None attempt
                          in if at_slept (env attempt) then count_call [d] (doWithRetry_from env (attempt + 1))
                             else (Inl (at_ctx_end (env attempt)), 1, [d])))
           | Inr resp \<Rightarrow>
               if attempt < maxRetries \<and> shouldRetryStatus (rsp_StatusCode resp)
               then (let d = retryDelay (at_rand (env attempt)) (Some resp) attempt
                     in if at_slept (env attempt) then count_call [d] (doWithRetry_from env (attempt + 1))
                        else (Inl (at_ctx_end (env attempt)), 1, [d]))
               else (Inr resp, 1, [])))"
  by pat_completeness auto
termination
  by (relation "measure (\<lambda>(env, attempt). Suc maxRetries - attempt)") auto

declare doWithRetry_from.simps [simp del]

definition doWithRetry :: "(nat \<Rightarrow> attempt_env) \<Rightarrow> retry_result" where
  "doWithRetry env = doWithRetry_from env 0"

section \<open>The limiter\<close>

definition defaultRPM :: int where "defaultRPM = 60"
definition defaultBurst :: int where "defaultBurst = 5"

text \<open>\<open>SetLLMRateLimit\<close>: no limit, or requests per minute with a burst. \<open>rpm/60\<close> truncates.\<close>

datatype limiter = Unlimited | Limited int int

definition SetLLMRateLimit :: "int \<Rightarrow> limiter" where
  "SetLLMRateLimit rpm =
     (if rpm \<le> 0 then Unlimited
      else Limited rpm (if defaultBurst < rpm div 60 then (if 20 < rpm div 60 then 20 else rpm div 60) else defaultBurst))"

definition limiterFor :: "(string \<rightharpoonup> limiter) \<Rightarrow> string \<Rightarrow> limiter \<times> (string \<rightharpoonup> limiter)" where
  "limiterFor m url =
     (case m url of
        Some l \<Rightarrow> (l, m)
      | None \<Rightarrow> (Limited defaultRPM defaultBurst, m(url \<mapsto> Limited defaultRPM defaultBurst)))"

section \<open>Properties\<close>

lemma wrap64_small: "0 \<le> x \<Longrightarrow> x < 2 ^ 63 \<Longrightarrow> wrap64 x = x"
  by (simp add: wrap64_def signed_of_int signed_take_bit_int_eq_self)

lemma backoff_values: "backoff 0 = 500000000" "backoff 1 = 1000000000" "backoff 2 = 2000000000"
  by (simp_all add: backoff_def wrap64_small baseBackoff_def maxBackoff_def second_def Let_def)

lemma backoff_le: "a < maxRetries \<Longrightarrow> 0 \<le> backoff a \<and> backoff a \<le> 2000000000"
proof -
  assume "a < maxRetries"
  then have "a = 0 \<or> a = 1 \<or> a = 2" by (auto simp: maxRetries_def)
  then show ?thesis using backoff_values by auto
qed

lemma retry_after_le: "retry_after resp = Some d \<Longrightarrow> d \<le> maxBackoff"
  by (auto simp: retry_after_def Let_def split: option.splits if_splits)

definition jitter_ok :: "(int \<Rightarrow> int) \<Rightarrow> bool" where
  "jitter_ok rand \<longleftrightarrow> (\<forall>n > 0. 0 \<le> rand n \<and> rand n < n)"

lemma retryDelay_le:
  assumes "a < maxRetries" "jitter_ok rand"
  shows "retryDelay rand resp a \<le> maxBackoff"
proof (cases "retry_after resp")
  case None
  have "0 < backoff a div 2 + 1" using backoff_le [OF assms(1)] by simp
  with assms(2) have "rand (backoff a div 2 + 1) < backoff a div 2 + 1" unfolding jitter_ok_def by blast
  moreover have "backoff a div 2 \<le> 1000000000" using backoff_le [OF assms(1)] by linarith
  ultimately have "backoff a + rand (backoff a div 2 + 1) \<le> maxBackoff"
    using backoff_le [OF assms(1)] by (simp only: maxBackoff_def second_def)
  with None show ?thesis by (simp add: retryDelay_def)
next
  case (Some d)
  with retry_after_le show ?thesis by (simp add: retryDelay_def)
qed

lemma retry_loop_bounds:
  "doWithRetry_from env a = (out, n, ds) \<Longrightarrow> a \<le> maxRetries \<Longrightarrow> \<forall>k. jitter_ok (at_rand (env k))
   \<Longrightarrow> n \<le> Suc maxRetries - a \<and> length ds \<le> maxRetries - a \<and> (\<forall>d \<in> set ds. d \<le> maxBackoff)"
proof (induction env a arbitrary: out n ds rule: doWithRetry_from.induct)
  case (1 env a)
  have again: "n \<le> Suc maxRetries - a \<and> length ds \<le> maxRetries - a \<and> (\<forall>d \<in> set ds. d \<le> maxBackoff)"
    if less: "a < maxRetries" and rest: "count_call [retryDelay (at_rand (env a)) resp a] (doWithRetry_from env (a + 1)) = (out, n, ds)"
      and IH: "\<And>out n ds. doWithRetry_from env (a + 1) = (out, n, ds) \<Longrightarrow> n \<le> Suc maxRetries - (a + 1)
        \<and> length ds \<le> maxRetries - (a + 1) \<and> (\<forall>d \<in> set ds. d \<le> maxBackoff)" for resp
  proof -
    obtain o' n' ds' where r: "doWithRetry_from env (a + 1) = (o', n', ds')" by (cases "doWithRetry_from env (a + 1)")
    from IH [OF r] rest r less retryDelay_le [OF less, of "at_rand (env a)" resp] "1.prems"(3)
    show ?thesis by (auto simp: count_call_def)
  qed
  note step = "1.prems"(1) [unfolded doWithRetry_from.simps [of env a]]
  show ?case
  proof (cases "at_ctx (env a)")
    case None
    show ?thesis
    proof (cases "at_answer (env a)")
      case (Inl e)
      consider (stop) ce where "at_ctx_after (env a) = Some ce" | (last) "at_ctx_after (env a) = None" "a = maxRetries"
        | (retry) "at_ctx_after (env a) = None" "a < maxRetries"
        using "1.prems"(2) by (cases "at_ctx_after (env a)") fastforce+
      then show ?thesis
      proof cases
        case retry
        show ?thesis
        proof (cases "at_slept (env a)")
          case True
          with step retry None Inl "1.prems"(2,3) "1.IH"(1) show ?thesis by (intro again [of None]) (simp_all add: Let_def)
        next
          case False
          with step retry None Inl "1.prems"(3) retryDelay_le [OF retry(2), of "at_rand (env a)" None]
          show ?thesis by (auto simp: Let_def)
        qed
      qed (use step None Inl "1.prems"(2) in auto)
    next
      case (Inr resp)
      show ?thesis
      proof (cases "a < maxRetries \<and> shouldRetryStatus (rsp_StatusCode resp)")
        case True
        show ?thesis
        proof (cases "at_slept (env a)")
          case slept: True
          with step True None Inr "1.prems"(2,3) "1.IH"(2) show ?thesis by (intro again [of "Some resp"]) (simp_all add: Let_def)
        next
          case False
          with step True None Inr "1.prems"(3) retryDelay_le [of a "at_rand (env a)" "Some resp"]
          show ?thesis by (auto simp: Let_def)
        qed
      qed (use step None Inr "1.prems"(2) in auto)
    qed
  qed (use step "1.prems"(2) in auto)
qed

text \<open>C40: A call is made at most four times, and sleeps at most three times, for at most eight seconds each.\<close>

lemma retries_are_bounded:
  assumes "doWithRetry env = (out, n, ds)" "\<And>k. jitter_ok (at_rand (env k))"
  shows "n \<le> 4 \<and> length ds \<le> 3 \<and> sum_list ds \<le> 24 * second"
proof -
  from retry_loop_bounds [of env 0 out n ds] assms
  have b: "n \<le> 4" "length ds \<le> 3" "\<forall>d \<in> set ds. d \<le> maxBackoff" by (simp_all add: doWithRetry_def maxRetries_def)
  from b(3) have "sum_list ds \<le> maxBackoff * int (length ds)"
    by (induction ds) (auto simp: algebra_simps)
  also have "\<dots> \<le> maxBackoff * 3" using b(2) by (simp add: maxBackoff_def second_def)
  finally show ?thesis using b by (simp add: maxBackoff_def)
qed

definition demo_attempt :: "nat \<Rightarrow> attempt_env" where
  "demo_attempt k = \<lparr>at_ctx = None, at_answer = (if k < 2 then Inr \<lparr>rsp_StatusCode = 503, rsp_RetryAfter = []\<rparr>
       else Inr \<lparr>rsp_StatusCode = 200, rsp_RetryAfter = []\<rparr>), at_ctx_after = None, at_rand = (\<lambda>_. 0),
     at_slept = True, at_ctx_end = []\<rparr>"

lemma retries_are_bounded_witness:
  "fst (snd (doWithRetry demo_attempt)) \<le> 4 \<and> sum_list (snd (snd (doWithRetry demo_attempt))) \<le> 24 * second"
  using retries_are_bounded [of demo_attempt "fst (doWithRetry demo_attempt)" "fst (snd (doWithRetry demo_attempt))"
      "snd (snd (doWithRetry demo_attempt))"]
  by (simp add: jitter_ok_def demo_attempt_def)

text \<open>The answer is that of the first attempt that is final, or of the fourth.\<close>

definition retryable :: "string + response \<Rightarrow> bool" where
  "retryable ans = (case ans of Inl _ \<Rightarrow> True | Inr r \<Rightarrow> shouldRetryStatus (rsp_StatusCode r))"

definition undisturbed :: "attempt_env \<Rightarrow> bool" where
  "undisturbed e \<longleftrightarrow> at_ctx e = None \<and> at_ctx_after e = None \<and> at_slept e"

lemma retry_loop_answer:
  "\<forall>k. undisturbed (env k) \<Longrightarrow> a \<le> maxRetries \<Longrightarrow>
   \<exists>k ds. a \<le> k \<and> k \<le> maxRetries \<and> doWithRetry_from env a = (at_answer (env k), Suc k - a, ds)
     \<and> (\<forall>i. a \<le> i \<and> i < k \<longrightarrow> retryable (at_answer (env i))) \<and> (k = maxRetries \<or> \<not> retryable (at_answer (env k)))"
proof (induction env a rule: doWithRetry_from.induct)
  case (1 env a)
  have u: "at_ctx (env a) = None" "at_ctx_after (env a) = None" "at_slept (env a)"
    using "1.prems"(1) by (auto simp: undisturbed_def)
  show ?case
  proof (cases "a < maxRetries \<and> retryable (at_answer (env a))")
    case True
    then have "\<exists>k ds. a + 1 \<le> k \<and> k \<le> maxRetries \<and> doWithRetry_from env (a + 1) = (at_answer (env k), Suc k - (a + 1), ds)
     \<and> (\<forall>i. a + 1 \<le> i \<and> i < k \<longrightarrow> retryable (at_answer (env i))) \<and> (k = maxRetries \<or> \<not> retryable (at_answer (env k)))"
      using "1.IH" "1.prems"(1) u by (cases "at_answer (env a)") (auto simp: retryable_def)
    then obtain k ds where k: "a + 1 \<le> k" "k \<le> maxRetries" "doWithRetry_from env (a + 1) = (at_answer (env k), Suc k - (a + 1), ds)"
      "\<forall>i. a + 1 \<le> i \<and> i < k \<longrightarrow> retryable (at_answer (env i))" "k = maxRetries \<or> \<not> retryable (at_answer (env k))" by blast
    have "doWithRetry_from env a = count_call
        [retryDelay (at_rand (env a)) (case at_answer (env a) of Inl _ \<Rightarrow> None | Inr r \<Rightarrow> Some r) a]
        (doWithRetry_from env (a + 1))"
      using True u by (subst doWithRetry_from.simps [of env a]) (auto simp: retryable_def Let_def split: sum.splits)
    then obtain d where "doWithRetry_from env a = count_call [d] (doWithRetry_from env (a + 1))" by blast
    with k have "doWithRetry_from env a = (at_answer (env k), Suc k - a, d # ds)" by (simp add: count_call_def)
    moreover have "\<forall>i. a \<le> i \<and> i < k \<longrightarrow> retryable (at_answer (env i))"
      using k(4) True by (metis Suc_eq_plus1 le_antisym not_less_eq_eq)
    ultimately show ?thesis using k(1,2,5) by (intro exI [of _ k] exI [of _ "d # ds"]) auto
  next
    case False
    then have "doWithRetry_from env a = (at_answer (env a), 1, [])"
      using u "1.prems"(2) by (subst doWithRetry_from.simps [of env a]) (auto simp: retryable_def split: sum.splits)
    with False "1.prems"(2) show ?thesis by (intro exI [of _ a] exI [of _ "[]"]) auto
  qed
qed

lemma first_final_answer:
  assumes "\<And>k. undisturbed (env k)"
  shows "\<exists>k \<le> maxRetries. fst (doWithRetry env) = at_answer (env k) \<and> fst (snd (doWithRetry env)) = Suc k
    \<and> (\<forall>i < k. retryable (at_answer (env i))) \<and> (k = maxRetries \<or> \<not> retryable (at_answer (env k)))"
  using retry_loop_answer [of env 0] assms by (auto simp: doWithRetry_def)

lemma first_final_answer_witness: "\<exists>k \<le> maxRetries. fst (snd (doWithRetry demo_attempt)) = Suc k"
  using first_final_answer [of demo_attempt] by (auto simp: undisturbed_def demo_attempt_def)

text \<open>A \<open>Retry-After\<close> of more seconds than a duration holds wraps to a negative delay, so the next attempt
  follows at once instead of after the cap of eight seconds.\<close>

lemma huge_retry_after_is_no_delay:
  "retryDelay rand (Some \<lparr>rsp_StatusCode = 429, rsp_RetryAfter = ''9223372037''\<rparr>) 0 < 0"
proof -
  have "atoi ''9223372037'' = Some 9223372037"
    by (simp add: atoi_def has_prefix_def is_digit_def digits_val_def digit_val_def int64_min_def int64_max_def)
  moreover have "wrap64 (9223372037 * second) = -9223372036709551616"
    by (simp add: wrap64_def second_def)
  ultimately show ?thesis by (simp add: retryDelay_def retry_after_def maxBackoff_def second_def Let_def)
qed

end
