(* ===== verification/Service_Guards.thy ===== *)
theory Service_Guards
  imports Http_Util Regex
begin

text \<open>
  What a service checks before it starts (\<open>pkg/dsnguard\<close>) and what its health endpoint tells
  (\<open>pkg/httputil/dsnhealth.go\<close>), with the recovery of panics (\<open>pkg/srvkit/recover.go\<close>). The environment
  variables are parameters; an unset one is the empty string.
\<close>

section \<open>Connection strings\<close>

definition unsafeDSNRegex :: regex where
  "unsafeDSNRegex = RAlts
     [RSeq (RLitI ''postgres://text2dax'') (RCls (\<lambda>c. c = CHR '':'' \<or> c = CHR ''@'')),
      RSeqs [RWordB, RLitI ''user=text2dax'', RWordB],
      RSeqs [RWordB, RLitI ''dbname=text2dax'', RWordB],
      RSeq (RLitI ''/text2dax'') (RAlts [RLit ''?'', REnd, RSpace, RLit ''&'']),
      RLitI '':5488/text2dax'']"

definition validDSNPrefixRegex :: regex where
  "validDSNPrefixRegex = RSeq RBegin
     (RAlt (RSeqs [RLit ''postgres'', ROpt (RLit ''ql''), RLit ''://''])
           (RSeqs [RCls is_alpha_us, RStar (RCls is_word_char), RLit ''='']))"

datatype dsn_error = Malformed | LegacyPattern

definition AssertSafeDSN :: "string \<Rightarrow> dsn_error option" where
  "AssertSafeDSN dsn =
     (if \<not> MatchString validDSNPrefixRegex dsn then Some Malformed
      else if MatchString unsafeDSNRegex dsn then Some LegacyPattern
      else None)"

section \<open>Secrets\<close>

definition requireStrongSecrets :: "string \<Rightarrow> bool" where
  "requireStrongSecrets v \<longleftrightarrow> to_lower (trim_space v) \<in> {''1'', ''true'', ''yes'', ''on''}"

definition isPlaceholderSecret :: "string \<Rightarrow> bool" where
  "isPlaceholderSecret v =
     (let t = to_lower (trim_space v)
      in t = []
         \<or> list_ex (contains_str t) [''change_me'', ''changeme'', ''placeholder'', ''your_'', ''example'']
         \<or> t \<in> {''admin'', ''password'', ''secret'', ''postgres'', ''test''})"

datatype secret_problem = AuthPlaceholder | AuthTooShort | InternalPlaceholder

text \<open>The problems of the error, none when it is nil. The parameters are \<open>REQUIRE_STRONG_SECRETS\<close>,
  \<open>AUTH_TOKEN_SECRET\<close> and \<open>INTERNAL_TOKEN\<close>.\<close>

definition AssertStrongSecrets :: "string \<Rightarrow> string \<Rightarrow> string \<Rightarrow> secret_problem list" where
  "AssertStrongSecrets strict auth internal =
     (if \<not> requireStrongSecrets strict then []
      else (if isPlaceholderSecret auth then [AuthPlaceholder]
            else if length (trim_space auth) < 32 then [AuthTooShort] else [])
           @ (if isPlaceholderSecret internal then [InternalPlaceholder] else []))"

definition AssertStrongAdminPassword :: "string \<Rightarrow> string \<Rightarrow> bool" where
  "AssertStrongAdminPassword strict admin \<longleftrightarrow> \<not> requireStrongSecrets strict \<or> \<not> isPlaceholderSecret admin"

section \<open>Health\<close>

text \<open>The reply of \<open>/healthz\<close>: alive, with the service name or without; the database is down; or the hash
  of the database target. \<open>ping\<close> is whether the database answers.\<close>

datatype health = Alive "string option" | DbDown string | DbUp string string

definition healthz :: "string \<Rightarrow> string \<Rightarrow> string \<Rightarrow> bool \<Rightarrow> request \<Rightarrow> health" where
  "healthz internal service hash ping r =
     (if rq_Query r ''check'' \<noteq> ''db'' then Alive (Some service)
      else if internal = [] \<or> rq_Header r ''X-Internal-Token'' \<noteq> internal then Alive None
      else if \<not> ping then DbDown service
      else DbUp service hash)"

text \<open>\<open>hashPrefixAsInt\<close>: 16 hexadecimal digits read as an unsigned number and taken as \<open>int64\<close>.\<close>

definition hex_val :: "char \<Rightarrow> nat option" where
  "hex_val c =
     (let n = (of_char c :: nat)
      in if 48 \<le> n \<and> n \<le> 57 then Some (n - 48)
         else if 97 \<le> n \<and> n \<le> 102 then Some (n - 87)
         else if 65 \<le> n \<and> n \<le> 70 then Some (n - 55) else None)"

definition hashPrefixAsInt :: "string \<Rightarrow> int" where
  "hashPrefixAsInt h =
     (if length h < 16 then 0
      else case those (map hex_val (take 16 h)) of
             None \<Rightarrow> 0
           | Some ds \<Rightarrow>
               (let n = foldl (\<lambda>acc d. 16 * acc + int d) 0 ds in if n < 2 ^ 63 then n else n - 2 ^ 64))"

section \<open>Panics\<close>

text \<open>What a handler does: it writes headers and body parts, then returns, panics, or aborts.\<close>

datatype sent = Header nat | Body
datatype ending = Returns | PanicsWith string | Aborts

text \<open>The headers that reach the client, and whether the server sees a panic.\<close>

definition RecoverMiddleware :: "sent list \<Rightarrow> ending \<Rightarrow> sent list \<times> bool" where
  "RecoverMiddleware ws e =
     (case e of
        Returns \<Rightarrow> (ws, False)
      | Aborts \<Rightarrow> (ws, True)
      | PanicsWith _ \<Rightarrow> (if ws = [] then [Header 500] else ws, False))"

section \<open>Properties\<close>

text \<open>The guard against the old credentials matches the scheme \<open>postgres\<close> only, while the format check
  lets \<open>postgresql\<close> through as well.\<close>

lemma old_user_passes_with_long_scheme:
  "AssertSafeDSN ''postgres://text2dax:pw@h/db'' = Some LegacyPattern
   \<and> AssertSafeDSN ''postgresql://text2dax:pw@h/db'' = None"
  by code_simp

text \<open>With strict secrets a service starts only with secrets that are no placeholders, and a signing secret of
  at least 32 characters.\<close>

lemma strict_services_have_strong_secrets:
  assumes "requireStrongSecrets strict" "AssertStrongSecrets strict auth internal = []"
  shows "32 \<le> length (trim_space auth) \<and> \<not> isPlaceholderSecret auth \<and> \<not> isPlaceholderSecret internal"
  using assms by (auto simp: AssertStrongSecrets_def split: if_splits)

text \<open>Without the internal token the health reply is the same whatever the database and its hash.\<close>

lemma health_hides_the_database:
  assumes "internal = [] \<or> rq_Header r ''X-Internal-Token'' \<noteq> internal"
  shows "healthz internal service hash ping r = healthz internal service hash' ping' r"
  using assms by (simp add: healthz_def)

end
