(* ===== verification/Recall_Types.thy ===== *)
theory Recall_Types
  imports Go_Format
begin

text \<open>
  The result of a recall (\<open>agent-server/recall/types.go\<close> and \<open>analysis_pattern.go\<close>): what the agent server
  decodes from the recall service and hands to the reachability judge, the thread ledger and the analysis
  plans. Pointers to absent values are options; raw JSON is its text.
\<close>

section \<open>Matches\<close>

record KeywordHit =
  kh_KeywordID :: string
  kh_Keyword :: string
  kh_MappedTable :: string
  kh_MappedField :: string
  kh_KeywordExplain :: string
  kh_Tier :: string
  kh_Score :: rat
  kh_MatchedToken :: string
  kh_IsColumnRef :: bool
  kh_FuzzyValueCount :: int

record PropertyMatch =
  pm_PropertyID :: string
  pm_Name :: string
  pm_DisplayName :: string
  pm_SourceColumn :: string
  pm_DataType :: string
  pm_Description :: string
  pm_ObjectTypeID :: string
  pm_OkID :: string
  pm_OkTitle :: string
  pm_OkSummary :: string
  pm_OkDefs :: "string list"
  pm_Keywords :: "KeywordHit list"

record OdLink =
  lk_TargetOdName :: string
  lk_Cardinality :: string

record OdBlock =
  od_OdID :: string
  od_Name :: string
  od_Kind :: string
  od_Description :: string
  od_MatchedProps :: "PropertyMatch list"
  od_AllPropNames :: "string list"
  od_AllPropDescs :: "(string \<times> string) list"
  od_Links :: "OdLink list"
  od_MatchedVia :: "string list"

section \<open>Knowledge\<close>

record OkEntry =
  ok_ID :: string
  ok_Title :: string
  ok_Summary :: string
  ok_Tokens :: "string list"
  ok_EntryType :: string
  ok_AnchorType :: string
  ok_SkillConfig :: string

definition IsAnalysisPattern :: "OkEntry \<Rightarrow> bool" where
  "IsAnalysisPattern e \<longleftrightarrow>
     ok_EntryType e = ''analysis'' \<and> ok_AnchorType e = ''analysis_pattern'' \<and> 0 < length (ok_SkillConfig e)"

record OlEntry =
  ol_ID :: string
  ol_Title :: string
  ol_Summary :: string
  ol_Tags :: "string list"
  ol_Tier :: string
  ol_Score :: rat
  ol_Tokens :: "string list"

record AmbiguityCandidate =
  ac_OdID :: string
  ac_OdName :: string
  ac_OdDescription :: string
  ac_PropertyName :: string
  ac_PropertyDesc :: string

record Ambiguity =
  am_Keyword :: string
  am_Candidates :: "AmbiguityCandidate list"

section \<open>Intents\<close>

record FilterSpec =
  fs_Prop :: string
  fs_Op :: string
  fs_Value :: string

record MetricIntentParameter =
  mp_Name :: string
  mp_Type :: string
  mp_Property :: string
  mp_Op :: string
  mp_Default :: "json option"
  mp_Optional :: bool
  mp_Description :: string
  mp_FuzzyMatch :: bool
  mp_AllowedValues :: "string list"
  mp_ShapeCapability :: string

record MetricIntent =
  mi_IntentID :: string
  mi_Name :: string
  mi_DisplayName :: string
  mi_ObjectID :: string
  mi_ObjectName :: string
  mi_CanonicalMetric :: string
  mi_CanonicalFilters :: "FilterSpec list"
  mi_AutoGroupBy :: "string list"
  mi_Parameters :: "MetricIntentParameter list"
  mi_PivotOn :: string
  mi_PivotValues :: "string list"
  mi_PivotTotalLabel :: string
  mi_PivotPercentAxis :: string
  mi_PivotPercentScope :: string
  mi_PivotPercentSuffix :: string
  mi_ResponseTemplate :: string
  mi_Description :: string
  mi_Priority :: int
  mi_Tier :: string
  mi_MatchedTokens :: "string list"

section \<open>The result\<close>

record RecallResult =
  rr_OdBlocks :: "OdBlock list"
  rr_OkEntries :: "OkEntry list"
  rr_OlEntries :: "OlEntry list"
  rr_DirectOds :: "OdBlock list"
  rr_MetricIntents :: "MetricIntent list"
  rr_HasMatches :: bool
  rr_TokenDetails :: "(string \<times> KeywordHit list) list"
  rr_ContextMD :: string
  rr_Ambiguities :: "Ambiguity list"

section \<open>Cached context\<close>

record CachedPropRef =
  cp_PropID :: string
  cp_OdID :: string

record CachedToken =
  ct_StrongHit :: bool
  ct_MatchedOdIDs :: "string list"
  ct_MatchedIntentIDs :: "string list"
  ct_MatchedProps :: "CachedPropRef list"

record CachedContext =
  ctx_Tokens :: "string \<rightharpoonup> CachedToken"
  ctx_Ods :: "string \<rightharpoonup> OdBlock"
  ctx_Intents :: "string \<rightharpoonup> MetricIntent"
  ctx_OkEntries :: "string \<rightharpoonup> OkEntry"
  ctx_OlEntries :: "string \<rightharpoonup> OlEntry"

definition IsCold :: "CachedContext option \<Rightarrow> string \<Rightarrow> bool" where
  "IsCold c token =
     (case c of
        None \<Rightarrow> False
      | Some cc \<Rightarrow> (case ctx_Tokens cc token of Some t \<Rightarrow> ct_StrongHit t | None \<Rightarrow> False))"

section \<open>Analysis patterns\<close>

record AnalysisToolHint =
  th_Tool :: string
  th_Intent :: string
  th_Ref :: string

record AnalysisFeature =
  af_ID :: string
  af_Behavior :: string
  af_Verification :: string
  af_ToolHints :: "AnalysisToolHint list"

record AnalysisPattern =
  ap_TriggerKeywords :: "string list"
  ap_StructuralHints :: "string list"
  ap_Features :: "AnalysisFeature list"
  ap_Template :: string
  ap_Caveats :: "string list"

datatype pattern_error =
    EmptyConfig | BadConfig | NoFeatures | MissingID nat | MissingBehavior string | MissingVerification string
  | DuplicateFeature string | MissingTemplate

fun check_features :: "nat \<Rightarrow> string list \<Rightarrow> AnalysisFeature list \<Rightarrow> pattern_error option" where
  "check_features i seen [] = None"
| "check_features i seen (f # fs) =
     (if af_ID f = [] then Some (MissingID i)
      else if af_Behavior f = [] then Some (MissingBehavior (af_ID f))
      else if af_Verification f = [] then Some (MissingVerification (af_ID f))
      else if af_ID f \<in> set seen then Some (DuplicateFeature (af_ID f))
      else check_features (Suc i) (af_ID f # seen) fs)"

text \<open>\<open>decode\<close> is \<open>json.Unmarshal\<close> into the pattern type.\<close>

definition ParseAnalysisPattern :: "(string \<Rightarrow> AnalysisPattern option) \<Rightarrow> string \<Rightarrow> pattern_error + AnalysisPattern" where
  "ParseAnalysisPattern decode raw =
     (if raw = [] then Inl EmptyConfig
      else case decode raw of
        None \<Rightarrow> Inl BadConfig
      | Some p \<Rightarrow>
          if ap_Features p = [] then Inl NoFeatures
          else (case check_features 0 [] (ap_Features p) of
                  Some e \<Rightarrow> Inl e
                | None \<Rightarrow> if ap_Template p = [] then Inl MissingTemplate else Inr p))"

lemma check_features_None:
  "check_features i seen fs = None \<longleftrightarrow>
     (\<forall>f \<in> set fs. af_ID f \<noteq> [] \<and> af_Behavior f \<noteq> [] \<and> af_Verification f \<noteq> [] \<and> af_ID f \<notin> set seen)
     \<and> distinct (map af_ID fs)"
proof (induction i seen fs rule: check_features.induct)
  case (2 i seen f fs)
  then show ?case by (simp add: image_iff) metis
qed simp

lemma parsed_pattern:
  "ParseAnalysisPattern decode raw = Inr p \<Longrightarrow>
     decode raw = Some p \<and> ap_Features p \<noteq> [] \<and> distinct (map af_ID (ap_Features p))
     \<and> (\<forall>f \<in> set (ap_Features p). af_ID f \<noteq> [] \<and> af_Behavior f \<noteq> [] \<and> af_Verification f \<noteq> [])"
  by (auto simp: ParseAnalysisPattern_def check_features_None split: if_splits option.splits)

end
