(* ===== verification/Analysis_Ledger.thy ===== *)
theory Analysis_Ledger
  imports Recall_Types
begin

text \<open>
  The plan mode of the agent: the ledger of features (\<open>agent-server/analysis/feature_ledger.go\<close>), the final
  answer it renders (\<open>synthesis.go\<close>), and the three tools that drive it
  (\<open>handler/tool_analysis_plan.go\<close>). A ledger is returned updated; an error leaves it as it was. The
  template engine and \<open>json.Unmarshal\<close> are parameters.
\<close>

section \<open>The ledger\<close>

datatype FeatureState = StateNotStarted | StateActive | StatePassing | StateBlocked

definition PlanRetryBudget :: nat where
  "PlanRetryBudget = 2"

record FeatureEvidence =
  fe_Tool :: string
  fe_Args :: string
  fe_Summary :: string
  fe_Reasoning :: string
  fe_RowCount :: int
  fe_Value :: string
  fe_Error :: string

record FeatureRuntime =
  fr_ID :: string
  fr_Behavior :: string
  fr_Verification :: string
  fr_ToolHints :: "AnalysisToolHint list"
  fr_State :: FeatureState
  fr_RetryCount :: nat
  fr_Evidence :: "FeatureEvidence option"

record FeatureLedger =
  fl_pattern :: AnalysisPattern
  fl_rows :: "FeatureRuntime list"

datatype ledger_error =
    ErrUnknownFeature string
  | ErrIllegalTransition string FeatureState
  | ErrWIPViolation string
  | ErrRetryExhausted string

definition new_row :: "AnalysisFeature \<Rightarrow> FeatureRuntime" where
  "new_row f =
     \<lparr>fr_ID = af_ID f, fr_Behavior = af_Behavior f, fr_Verification = af_Verification f,
      fr_ToolHints = af_ToolHints f, fr_State = StateNotStarted, fr_RetryCount = 0, fr_Evidence = None\<rparr>"

definition NewFeatureLedger :: "AnalysisPattern \<Rightarrow> FeatureLedger" where
  "NewFeatureLedger p = \<lparr>fl_pattern = p, fl_rows = map new_row (ap_Features p)\<rparr>"

text \<open>The index \<open>byID\<close>: the position of the last row with an id.\<close>

definition by_id :: "FeatureLedger \<Rightarrow> string \<Rightarrow> nat option" where
  "by_id l i =
     (case find_index (\<lambda>r. fr_ID r = i) (rev (fl_rows l)) of
        None \<Rightarrow> None
      | Some k \<Rightarrow> Some (length (fl_rows l) - 1 - k))"

definition set_row :: "FeatureLedger \<Rightarrow> nat \<Rightarrow> FeatureRuntime \<Rightarrow> FeatureLedger" where
  "set_row l k r = l\<lparr>fl_rows := (fl_rows l)[k := r]\<rparr>"

definition PickNext :: "FeatureLedger \<Rightarrow> FeatureRuntime option" where
  "PickNext l = find (\<lambda>r. fr_State r = StateNotStarted) (fl_rows l)"

definition Activate :: "FeatureLedger \<Rightarrow> string \<Rightarrow> FeatureLedger \<times> ledger_error option" where
  "Activate l i =
     (case by_id l i of
        None \<Rightarrow> (l, Some (ErrUnknownFeature i))
      | Some k \<Rightarrow>
          (let row = fl_rows l ! k
           in if fr_State row \<noteq> StateNotStarted then (l, Some (ErrIllegalTransition i (fr_State row)))
              else case find (\<lambda>r. fr_State r = StateActive) (fl_rows l) of
                     Some other \<Rightarrow> (l, Some (ErrWIPViolation (fr_ID other)))
                   | None \<Rightarrow> (set_row l k (row\<lparr>fr_State := StateActive\<rparr>), None)))"

definition requireActive :: "FeatureLedger \<Rightarrow> string \<Rightarrow> ledger_error + nat" where
  "requireActive l i =
     (case by_id l i of
        None \<Rightarrow> Inl (ErrUnknownFeature i)
      | Some k \<Rightarrow>
          if fr_State (fl_rows l ! k) \<noteq> StateActive then Inl (ErrIllegalTransition i (fr_State (fl_rows l ! k)))
          else Inr k)"

definition PassFeature :: "FeatureLedger \<Rightarrow> string \<Rightarrow> FeatureEvidence \<Rightarrow> FeatureLedger \<times> ledger_error option" where
  "PassFeature l i ev =
     (case requireActive l i of
        Inl e \<Rightarrow> (l, Some e)
      | Inr k \<Rightarrow> (set_row l k ((fl_rows l ! k)\<lparr>fr_State := StatePassing, fr_Evidence := Some ev\<rparr>), None))"

definition RetryFeature :: "FeatureLedger \<Rightarrow> string \<Rightarrow> FeatureEvidence \<Rightarrow> FeatureLedger \<times> ledger_error option" where
  "RetryFeature l i ev =
     (case requireActive l i of
        Inl e \<Rightarrow> (l, Some e)
      | Inr k \<Rightarrow>
          (let row = fl_rows l ! k
           in if PlanRetryBudget \<le> fr_RetryCount row then (l, Some (ErrRetryExhausted i))
              else (set_row l k (row\<lparr>fr_RetryCount := fr_RetryCount row + 1, fr_State := StateNotStarted,
                                     fr_Evidence := Some ev\<rparr>), None)))"

definition BlockFeature :: "FeatureLedger \<Rightarrow> string \<Rightarrow> FeatureEvidence \<Rightarrow> FeatureLedger \<times> ledger_error option" where
  "BlockFeature l i ev =
     (case requireActive l i of
        Inl e \<Rightarrow> (l, Some e)
      | Inr k \<Rightarrow> (set_row l k ((fl_rows l ! k)\<lparr>fr_State := StateBlocked, fr_Evidence := Some ev\<rparr>), None))"

definition settled_row :: "FeatureRuntime \<Rightarrow> bool" where
  "settled_row r \<longleftrightarrow> \<not> (fr_State r = StateNotStarted \<or> fr_State r = StateActive)"

definition AllSettled :: "FeatureLedger \<Rightarrow> bool" where
  "AllSettled l \<longleftrightarrow> list_all settled_row (fl_rows l)"

definition Snapshot :: "FeatureLedger \<Rightarrow> FeatureRuntime list" where
  "Snapshot l = fl_rows l"

definition count_state :: "FeatureState \<Rightarrow> FeatureLedger \<Rightarrow> nat" where
  "count_state st l = length (filter (\<lambda>r. fr_State r = st) (fl_rows l))"

definition CountByState :: "FeatureLedger \<Rightarrow> nat \<times> nat \<times> nat \<times> nat" where
  "CountByState l = (count_state StatePassing l, count_state StateBlocked l,
                     count_state StateNotStarted l, count_state StateActive l)"

section \<open>The final answer\<close>

record feature_view =
  fv_summary :: string
  fv_rows :: int
  fv_value :: string
  fv_error :: string

definition view_of :: "FeatureRuntime \<Rightarrow> feature_view" where
  "view_of r =
     (case fr_Evidence r of
        None \<Rightarrow> \<lparr>fv_summary = [], fv_rows = 0, fv_value = [], fv_error = []\<rparr>
      | Some ev \<Rightarrow>
          if fr_State r = StatePassing
          then \<lparr>fv_summary = fe_Summary ev, fv_rows = fe_RowCount ev, fv_value = fe_Value ev, fv_error = fe_Error ev\<rparr>
          else \<lparr>fv_summary = [], fv_rows = 0, fv_value = [], fv_error = fe_Error ev\<rparr>)"

definition caveat_block :: "string list \<Rightarrow> string" where
  "caveat_block caveats =
     (if caveats = [] then []
      else (utf8 [10, 10, 230, 179, 168, 230, 132, 143, 228, 186, 139, 233, 161, 185, 239, 188, 154])
           @ concat (map (\<lambda>c. (utf8 [10] @ ''- '') @ c) caveats))"

definition blocked_line :: "FeatureRuntime \<Rightarrow> string" where
  "blocked_line r =
     (utf8 [10] @ ''- '') @ fr_Behavior r
     @ (case fr_Evidence r of
          Some ev \<Rightarrow> if fe_Error ev \<noteq> [] then (utf8 [239, 188, 136]) @ fe_Error ev @ (utf8 [239, 188, 137]) else []
        | None \<Rightarrow> [])"

definition blocked_block :: "FeatureRuntime list \<Rightarrow> string" where
  "blocked_block rows =
     (let blocked = filter (\<lambda>r. fr_State r = StateBlocked) rows
      in if blocked = [] then []
         else (utf8 [10, 10, 228, 187, 165, 228, 184, 139, 231, 187, 180, 229, 186, 166, 230, 156, 172,
     230, 172, 161, 230, 156, 170, 229, 143, 150, 229, 136, 176, 239, 188, 154])
              @ concat (map blocked_line blocked))"

text \<open>\<open>engine template features\<close> is \<open>text/template\<close>: the text, or the error of parsing or execution. The
  features are looked up by id.\<close>

definition RenderSynthesis ::
  "(string \<Rightarrow> (string \<rightharpoonup> feature_view) \<Rightarrow> string + string) \<Rightarrow> FeatureLedger option \<Rightarrow> string + string" where
  "RenderSynthesis engine lo =
     (case lo of
        None \<Rightarrow> Inl ''analysis: RenderSynthesis on nil ledger''
      | Some l \<Rightarrow>
          (let snap = Snapshot l; features = map_of (rev (map (\<lambda>r. (fr_ID r, view_of r)) snap))
           in case engine (ap_Template (fl_pattern l)) features of
                Inl e \<Rightarrow> Inl e
              | Inr buf \<Rightarrow>
                  Inr (trim_right (\<lambda>c. c = CHR 0x0A) buf @ caveat_block (ap_Caveats (fl_pattern l)) @ blocked_block snap)))"

section \<open>The tools\<close>

record analysisPlanState =
  ps_ledger :: FeatureLedger
  ps_patternID :: string
  ps_patternName :: string

record featureDescriptor =
  fd_ID :: string
  fd_Behavior :: string
  fd_Verification :: string
  fd_State :: FeatureState
  fd_ToolHints :: "AnalysisToolHint list"

definition descriptor :: "FeatureState \<Rightarrow> FeatureRuntime \<Rightarrow> featureDescriptor" where
  "descriptor st r =
     \<lparr>fd_ID = fr_ID r, fd_Behavior = fr_Behavior r, fd_Verification = fr_Verification r, fd_State = st,
      fd_ToolHints = fr_ToolHints r\<rparr>"

definition describeLedger :: "FeatureLedger \<Rightarrow> featureDescriptor list" where
  "describeLedger l = map (\<lambda>r. descriptor (fr_State r) r) (Snapshot l)"

text \<open>The payload of what to do next.\<close>

datatype next_block =
    StillActive featureDescriptor | PlanSettled | CannotActivate string ledger_error | NowActive featureDescriptor

definition activeFeatureBlock :: "FeatureLedger \<Rightarrow> next_block \<times> FeatureLedger" where
  "activeFeatureBlock l =
     (case PickNext l of
        None \<Rightarrow>
          (case find (\<lambda>r. fr_State r = StateActive) (Snapshot l) of
             Some r \<Rightarrow> (StillActive (descriptor (fr_State r) r), l)
           | None \<Rightarrow> (PlanSettled, l))
      | Some nxt \<Rightarrow>
          (case Activate l (fr_ID nxt) of
             (l', Some e) \<Rightarrow> (CannotActivate (fr_ID nxt) e, l')
           | (l', None) \<Rightarrow> (NowActive (descriptor StateActive nxt), l')))"

datatype start_error =
    PatternIDRequired | PatternNotRecalled string | NotAnAnalysisCard string | BadPattern pattern_error

definition runStartAnalysisPlan ::
  "(string \<Rightarrow> AnalysisPattern option) \<Rightarrow> OkEntry list \<Rightarrow> (string \<times> json) list
    \<Rightarrow> start_error + analysisPlanState \<times> featureDescriptor list \<times> next_block" where
  "runStartAnalysisPlan decode okEntries args =
     (let patternID = str_or_empty (map_of args ''patternId'')
      in if patternID = [] then Inl PatternIDRequired
         else case find (\<lambda>e. ok_ID e = patternID) okEntries of
                None \<Rightarrow> Inl (PatternNotRecalled patternID)
              | Some entry \<Rightarrow>
                  if \<not> IsAnalysisPattern entry then Inl (NotAnAnalysisCard patternID)
                  else (case ParseAnalysisPattern decode (ok_SkillConfig entry) of
                          Inl e \<Rightarrow> Inl (BadPattern e)
                        | Inr pattern \<Rightarrow>
                            (let l = NewFeatureLedger pattern
                             in case activeFeatureBlock l of
                                  (b, l') \<Rightarrow> Inr (\<lparr>ps_ledger = l', ps_patternID = patternID, ps_patternName = ok_Title entry\<rparr>,
                                                   describeLedger l, b))))"

definition strArg :: "(string \<times> json) list \<Rightarrow> string \<Rightarrow> string" where
  "strArg args k = str_or_empty (map_of args k)"

definition intArg :: "(string \<times> json) list \<Rightarrow> string \<Rightarrow> int" where
  "intArg args k = (case as_num (map_of args k) of Some x \<Rightarrow> float_to_int x | None \<Rightarrow> 0)"

definition verify_evidence :: "(string \<times> json) list \<Rightarrow> FeatureEvidence" where
  "verify_evidence args =
     \<lparr>fe_Tool = strArg args ''tool'', fe_Args = [], fe_Summary = strArg args ''summary'',
      fe_Reasoning = strArg args ''reasoning'', fe_RowCount = intArg args ''rowCount'',
      fe_Value = strArg args ''value'', fe_Error = strArg args ''error''\<rparr>"

definition with_error :: "string \<Rightarrow> FeatureEvidence \<Rightarrow> FeatureEvidence" where
  "with_error e ev = (if fe_Error ev = [] then ev\<lparr>fe_Error := e\<rparr> else ev)"

definition retries_exhausted :: string where
  "retries_exhausted = (utf8 [233, 170, 140, 232, 175, 129, 232, 191, 158, 231, 187, 173, 229, 164, 177, 232, 180,
     165, 239, 188, 140, 233, 135, 141, 232, 175, 149, 233, 162, 132, 231, 174, 151, 232, 128,
     151, 229, 176, 189])"

datatype verify_error = NoPlan | FeatureIDRequired | UnknownVerdict string | TransitionFailed ledger_error

record verify_reply =
  vr_featureId :: string
  vr_outcome :: string
  vr_progress :: "nat \<times> nat \<times> nat \<times> nat"
  vr_features :: "featureDescriptor list"
  vr_next :: next_block

text \<open>The transition a verdict asks for, with its outcome; \<open>None\<close> for an unknown verdict.\<close>

definition apply_verdict ::
  "FeatureLedger \<Rightarrow> (string \<times> json) list \<Rightarrow> string \<Rightarrow> string \<Rightarrow> ((FeatureLedger \<times> ledger_error option) \<times> string) option" where
  "apply_verdict l args i verdict =
     (let ev = verify_evidence args
      in if verdict = ''pass'' then Some (PassFeature l i ev, ''passing'')
         else if verdict = ''fail'' then
           (case RetryFeature l i ev of
              (_, Some (ErrRetryExhausted _)) \<Rightarrow> Some (BlockFeature l i (with_error retries_exhausted ev), ''blocked'')
            | res \<Rightarrow> Some (res, ''retry''))
         else if verdict = ''blocked'' then
           Some (BlockFeature l i (with_error (strArg args ''reasoning'') ev), ''blocked'')
         else None)"

definition runVerifyFeature ::
  "analysisPlanState option \<Rightarrow> (string \<times> json) list \<Rightarrow> (verify_error + verify_reply) \<times> analysisPlanState option" where
  "runVerifyFeature st args =
     (case st of
        None \<Rightarrow> (Inl NoPlan, st)
      | Some ps \<Rightarrow>
          (let i = strArg args ''featureId''; verdict = strArg args ''verdict''
           in if i = [] then (Inl FeatureIDRequired, st)
              else case apply_verdict (ps_ledger ps) args i verdict of
                     None \<Rightarrow> (Inl (UnknownVerdict verdict), st)
                   | Some ((l, Some e), _) \<Rightarrow> (Inl (TransitionFailed e), Some (ps\<lparr>ps_ledger := l\<rparr>))
                   | Some ((l, None), outcome) \<Rightarrow>
                       (case activeFeatureBlock l of
                          (b, l') \<Rightarrow>
                            (Inr \<lparr>vr_featureId = i, vr_outcome = outcome, vr_progress = CountByState l,
                                  vr_features = describeLedger l, vr_next = b\<rparr>,
                             Some (ps\<lparr>ps_ledger := l'\<rparr>)))))"

datatype complete_reply = CompleteError string | Completed string string nat nat

definition runCompleteAnalysis ::
  "(string \<Rightarrow> (string \<rightharpoonup> feature_view) \<Rightarrow> string + string) \<Rightarrow> analysisPlanState option \<Rightarrow> string \<times> complete_reply" where
  "runCompleteAnalysis engine st =
     (case st of
        None \<Rightarrow> ([], CompleteError ''no plan'')
      | Some ps \<Rightarrow>
          (case RenderSynthesis engine (Some (ps_ledger ps)) of
             Inl e \<Rightarrow> ([], CompleteError e)
           | Inr answer \<Rightarrow>
               (case CountByState (ps_ledger ps) of
                  (passing, blocked, _, _) \<Rightarrow> (answer, Completed (ps_patternName ps) answer passing blocked))))"

end
