(* ===== verification/Mission_Shadow.thy ===== *)
theory Mission_Shadow
  imports Mission_Coverage Analysis_Ledger
begin

text \<open>
  The mission the agent keeps beside every turn (\<open>handler/mission_shadow.go\<close>) and its storage
  (\<open>pkg/mission/store.go\<close>), with the tool that declares a capability gap
  (\<open>tool_declare_gap.go\<close>). \<open>None\<close> is the nil handle of a switched-off shadow. Every hook ends with a
  save that may fail: \<open>ok\<close> says whether it succeeds, \<open>now\<close> is the time it writes.
\<close>

section \<open>Storage\<close>

text \<open>The table \<open>ont_mission\<close>: the state of a row is the encoded mission, which decodes to the mission.\<close>

type_synonym mission_rows = "string \<rightharpoonup> Mission"

definition SaveMission :: "bool \<Rightarrow> Mission \<Rightarrow> mission_rows \<Rightarrow> mission_rows" where
  "SaveMission ok m rows = (if ok then rows(m_MissionID m \<mapsto> m) else rows)"

definition LoadMission :: "string \<Rightarrow> mission_rows \<Rightarrow> Mission option" where
  "LoadMission i rows = rows i"

section \<open>The handle\<close>

type_synonym shadow = "Mission option \<times> mission_rows"

definition touch_save :: "string \<Rightarrow> bool \<Rightarrow> Mission \<Rightarrow> mission_rows \<Rightarrow> shadow" where
  "touch_save now ok m rows =
     (let m' = m\<lparr>m_UpdatedAt := now\<rparr> in (Some m', SaveMission ok m' rows))"

definition no_recall :: Recall where
  "no_recall = \<lparr>re_Intents = [], re_OKCards = [], re_Keywords = []\<rparr>"

definition no_synthesis :: Synthesis where
  "no_synthesis = \<lparr>sy_Template = [], sy_Caveats = [], sy_Output = [], sy_ClosestReachable = []\<rparr>"

definition fresh_mission :: "string \<Rightarrow> string \<Rightarrow> string \<Rightarrow> string \<Rightarrow> string \<Rightarrow> Mission" where
  "fresh_mission i thread project question now =
     \<lparr>m_MissionID = i, m_ThreadID = thread, m_ParentMissionID = [], m_ProjectID = project,
      m_Question = question, m_Recall = no_recall, m_Decomposition = [], m_Tasks = [], m_Cursor = [],
      m_StepResults = [], m_Synthesis = no_synthesis, m_Status = MissionActive, m_Reachability = None,
      m_BlockedRoot = None, m_CreatedAt = now, m_UpdatedAt = now\<rparr>"

text \<open>\<open>i\<close> is the id \<open>uuid.NewString\<close> draws.\<close>

definition newShadowMission ::
  "bool \<Rightarrow> bool \<Rightarrow> string \<Rightarrow> string \<Rightarrow> string \<Rightarrow> string \<Rightarrow> string \<Rightarrow> bool \<Rightarrow> mission_rows \<Rightarrow> shadow" where
  "newShadowMission enabled has_db i thread project question now ok rows =
     (if \<not> enabled \<or> \<not> has_db then (None, rows)
      else (let m = fresh_mission i thread project question now in (Some m, SaveMission ok m rows)))"

definition nullableMissionID :: "Mission option \<Rightarrow> string option" where
  "nullableMissionID sm =
     (case sm of None \<Rightarrow> None | Some m \<Rightarrow> if m_MissionID m = [] then None else Some (m_MissionID m))"

section \<open>Hooks of a turn\<close>

text \<open>\<open>decode\<close> is \<open>json.Unmarshal\<close> into rows. A nil result is \<open>None\<close>.\<close>

definition parseExecutionRows ::
  "(string \<Rightarrow> (string \<times> json) list list option) \<Rightarrow> (string \<times> json) list \<Rightarrow> (string \<times> json) list list" where
  "parseExecutionRows decode result =
     (let raw = str_or_empty (map_of result ''execution_result'')
      in if raw = [] \<or> raw = ''null'' then []
         else case decode raw of Some rows \<Rightarrow> rows | None \<Rightarrow> [])"

definition recordStep ::
  "(string \<Rightarrow> (string \<times> json) list list option) \<Rightarrow> (string \<times> json) list option \<Rightarrow> Mission option \<Rightarrow> Mission option" where
  "recordStep decode result sm =
     (case (sm, result) of
        (Some m, Some r) \<Rightarrow>
          (let stepID = str_or_empty (map_of r ''step_id'')
           in if stepID = [] then sm
              else Some (m\<lparr>m_StepResults :=
                     AList.update stepID \<lparr>sr_Rows = parseExecutionRows decode r, sr_FromTask = [], sr_Schema = []\<rparr>
                       (m_StepResults m)\<rparr>))
      | _ \<Rightarrow> sm)"

definition blockRoot :: "string \<Rightarrow> bool \<Rightarrow> BlockedReason \<Rightarrow> shadow \<Rightarrow> shadow" where
  "blockRoot now ok reason s =
     (case s of
        (None, rows) \<Rightarrow> s
      | (Some m, rows) \<Rightarrow>
          touch_save now ok (m\<lparr>m_BlockedRoot := Some reason, m_Status := MissionUnanswerable\<rparr>) rows)"

definition feature_task :: "FeatureRuntime \<Rightarrow> Task" where
  "feature_task f =
     \<lparr>t_ID = fr_ID f,
      t_Type = (case fr_ToolHints f of h # _ \<Rightarrow> if th_Tool h \<noteq> [] then th_Tool h else ''smartquery''
                | [] \<Rightarrow> ''smartquery''),
      t_Behavior = fr_Behavior f, t_Covers = [], t_DependsOn = [], t_Dispatch = \<lparr>d_Tool = [], d_Args = []\<rparr>,
      t_Verification = fr_Verification f, t_Status = TaskPending, t_RetryBudget = 2, t_ResultRef = [],
      t_Evidence = None, t_BlockedReason = None\<rparr>"

definition seedTasksFromFeatures :: "string \<Rightarrow> bool \<Rightarrow> FeatureRuntime list \<Rightarrow> shadow \<Rightarrow> shadow" where
  "seedTasksFromFeatures now ok features s =
     (case s of
        (None, rows) \<Rightarrow> s
      | (Some m, rows) \<Rightarrow>
          if features = [] then s else touch_save now ok (m\<lparr>m_Tasks := map feature_task features\<rparr>) rows)"

definition task_mutation :: "MutationKind \<Rightarrow> string \<Rightarrow> Mutation" where
  "task_mutation k tid =
     \<lparr>mut_Kind = k, mut_TaskID = tid, mut_StepID = [], mut_StepResult = None, mut_Evidence = None,
      mut_Blocked = None, mut_Output = []\<rparr>"

definition verify_blocked :: "string \<Rightarrow> string \<Rightarrow> BlockedReason" where
  "verify_blocked featureID reasoning =
     \<lparr>br_Kind = GapShapeUnsupported, br_MissingDimension = featureID,
      br_CandidatesChecked = [\<lparr>cc_IntentName = featureID, cc_ParamsSummary = [], cc_WhyInsufficient = reasoning\<rparr>],
      br_SuggestedFix = []\<rparr>"

definition outcome_mutation :: "string \<Rightarrow> string \<Rightarrow> Mission_State.Evidence \<Rightarrow> Mutation" where
  "outcome_mutation featureID result ev =
     (if result = ''passing'' then (task_mutation MutateCompleteTask featureID)\<lparr>mut_Evidence := Some ev\<rparr>
      else if result = ''retry'' then task_mutation MutateRetryTask featureID
      else (task_mutation MutateBlockTask featureID)
             \<lparr>mut_Blocked := Some (verify_blocked featureID (ev_Reasoning ev))\<rparr>)"

definition recordVerifyFeature ::
  "string \<Rightarrow> bool \<Rightarrow> string \<Rightarrow> string \<Rightarrow> Mission_State.Evidence \<Rightarrow> shadow \<Rightarrow> shadow" where
  "recordVerifyFeature now ok featureID result ev s =
     (case s of
        (None, rows) \<Rightarrow> s
      | (Some m, rows) \<Rightarrow>
          if featureID = [] then s
          else
            let started = (if list_ex (\<lambda>t. t_ID t = featureID \<and> t_Status t = TaskActive) (m_Tasks m) then (m, None)
                           else Mutate m (task_mutation MutateStartTask featureID))
            in case started of
                 (m1, Some _) \<Rightarrow> (Some m1, rows)
               | (m1, None) \<Rightarrow>
                   (case Mutate m1 (outcome_mutation featureID result ev) of
                      (m2, Some _) \<Rightarrow> (Some m2, rows)
                    | (m2, None) \<Rightarrow> touch_save now ok m2 rows))"

definition set_output :: "string \<Rightarrow> Mission \<Rightarrow> Mission" where
  "set_output answer m = m\<lparr>m_Synthesis := (m_Synthesis m)\<lparr>sy_Output := answer\<rparr>\<rparr>"

definition recordCompleteAnalysis :: "string \<Rightarrow> bool \<Rightarrow> string \<Rightarrow> shadow \<Rightarrow> shadow" where
  "recordCompleteAnalysis now ok finalAnswer s =
     (case s of
        (None, rows) \<Rightarrow> s
      | (Some m, rows) \<Rightarrow> touch_save now ok (recomputeStatus (set_output finalAnswer m)) rows)"

definition question_task :: "nat \<Rightarrow> string \<Rightarrow> Task" where
  "question_task i q =
     \<lparr>t_ID = ''q'' @ show_nat (i + 1), t_Type = ''answer'', t_Behavior = q, t_Covers = [], t_DependsOn = [],
      t_Dispatch = \<lparr>d_Tool = [], d_Args = []\<rparr>, t_Verification = [], t_Status = TaskPending,
      t_RetryBudget = 0, t_ResultRef = [], t_Evidence = None, t_BlockedReason = None\<rparr>"

definition seedTasksFromSubQuestions :: "string \<Rightarrow> bool \<Rightarrow> string list \<Rightarrow> shadow \<Rightarrow> shadow" where
  "seedTasksFromSubQuestions now ok qs s =
     (case s of
        (None, rows) \<Rightarrow> s
      | (Some m, rows) \<Rightarrow>
          if qs = [] then s
          else touch_save now ok (m\<lparr>m_Tasks := map (\<lambda>(i, q). question_task i q) (enumerate 0 qs)\<rparr>) rows)"

definition reconcile_task :: "(string \<times> bool) list \<Rightarrow> Task \<Rightarrow> Task" where
  "reconcile_task results t =
     (case map_of results (t_ID t) of
        None \<Rightarrow> t
      | Some answered \<Rightarrow> t\<lparr>t_Status := (if answered then TaskPassing else TaskBlocked)\<rparr>)"

definition applyTaskReconciliation :: "string \<Rightarrow> bool \<Rightarrow> (string \<times> bool) list \<Rightarrow> shadow \<Rightarrow> shadow" where
  "applyTaskReconciliation now ok results s =
     (case s of
        (None, rows) \<Rightarrow> s
      | (Some m, rows) \<Rightarrow>
          if m_Tasks m = [] \<or> results = [] then s
          else (let m1 = m\<lparr>m_Tasks := map (reconcile_task results) (m_Tasks m)\<rparr>;
                    m2 = (if m_Status m1 \<noteq> MissionUnanswerable then recomputeStatus m1 else m1)
                in touch_save now ok m2 rows))"

definition recordReachability :: "string \<Rightarrow> bool \<Rightarrow> ReachabilityVerdict \<Rightarrow> shadow \<Rightarrow> shadow" where
  "recordReachability now ok verdict s =
     (case s of
        (None, rows) \<Rightarrow> s
      | (Some m, rows) \<Rightarrow>
          touch_save now ok
            (m\<lparr>m_Reachability := Some verdict,
               m_Status := (if \<not> rv_Feasible verdict then MissionUnanswerable else m_Status m)\<rparr>) rows)"

definition finish_status :: "Mission \<Rightarrow> MissionStatus" where
  "finish_status m =
     (if m_Status m = MissionUnanswerable then MissionUnanswerable
      else if m_Tasks m \<noteq> [] then DeriveStatus (m_Tasks m) (m_BlockedRoot m)
      else MissionComplete)"

definition finish :: "string \<Rightarrow> bool \<Rightarrow> string \<Rightarrow> shadow \<Rightarrow> shadow" where
  "finish now ok finalAnswer s =
     (case s of
        (None, rows) \<Rightarrow> s
      | (Some m, rows) \<Rightarrow> touch_save now ok (set_output finalAnswer m\<lparr>m_Status := finish_status m\<rparr>) rows)"

section \<open>Capability gaps\<close>

record capGapLog =
  cg_missionID :: string
  cg_projectID :: string
  cg_intent :: "string option"
  cg_reason :: BlockedReason

definition writeCapabilityGapLog ::
  "bool \<Rightarrow> bool \<Rightarrow> string \<Rightarrow> string \<Rightarrow> BlockedReason \<Rightarrow> capGapLog list \<Rightarrow> capGapLog list" where
  "writeCapabilityGapLog has_db ok missionID projectID reason gaps =
     (if \<not> has_db \<or> \<not> ok then gaps
      else gaps @ [\<lparr>cg_missionID = missionID, cg_projectID = projectID,
                   cg_intent = (case br_CandidatesChecked reason of c # _ \<Rightarrow> Some (cc_IntentName c) | [] \<Rightarrow> None),
                   cg_reason = reason\<rparr>])"

definition intent_spec :: "MetricIntent \<Rightarrow> IntentSpec" where
  "intent_spec mi =
     \<lparr>is_Name = mi_Name mi,
      is_Params = map (\<lambda>p. \<lparr>ip_Name = mp_Name p, ip_Type = mp_Type p, ip_Property = mp_Property p,
                            ip_Op = mp_Op p, ip_Description = mp_Description p\<rparr>) (mi_Parameters mi)\<rparr>"

definition buildIntentSpecs :: "MetricIntent list \<Rightarrow> IntentSpec list" where
  "buildIntentSpecs intents = map intent_spec intents"

definition gap_candidate :: "json \<Rightarrow> CandidateCheck option" where
  "gap_candidate item =
     (case as_obj (Some item) of
        None \<Rightarrow> None
      | Some m \<Rightarrow> Some \<lparr>cc_IntentName = str_or_empty (map_of m ''intent_name''),
                        cc_ParamsSummary = str_or_empty (map_of m ''params_summary''),
                        cc_WhyInsufficient = str_or_empty (map_of m ''why_insufficient'')\<rparr>)"

definition gap_candidates :: "(string \<times> json) list \<Rightarrow> CandidateCheck list" where
  "gap_candidates args =
     (case as_arr (map_of args ''candidates_checked'') of
        None \<Rightarrow> []
      | Some items \<Rightarrow> List.map_filter gap_candidate items)"

definition candidate_line :: "CandidateCheck \<Rightarrow> string" where
  "candidate_line c =
     ''- '' @ cc_IntentName c
     @ (if cc_ParamsSummary c \<noteq> [] then (utf8 [239, 188, 154]) @ cc_ParamsSummary c else [])
     @ (if cc_WhyInsufficient c \<noteq> [] then ('' '' @ utf8 [226, 128, 148, 226, 128, 148] @ '' '') @ cc_WhyInsufficient c else [])
     @ (utf8 [10])"

definition buildGapAnswer :: "string \<Rightarrow> CandidateCheck list \<Rightarrow> string \<Rightarrow> string \<Rightarrow> string" where
  "buildGapAnswer missingDim candidates suggestedFix closestReachable =
     (utf8 [227, 128, 148, 230, 151, 160, 230, 179, 149, 231, 178, 190, 231, 161, 174, 229, 155,
     158, 231, 173, 148] @ '' '' @ utf8 [226, 128, 148, 226, 128, 148] @ '' '' @ utf8 [232, 131,
     189, 229, 138, 155, 231, 188, 186, 229, 143, 163, 227, 128, 149, 10, 10])
     @ (utf8 [228, 189, 160, 231, 154, 132, 233, 151, 174, 233, 162, 152, 233, 156, 128, 232, 166,
     129, 230, 140, 137, 227, 128, 144])
     @ missingDim
     @ (utf8 [227, 128, 145, 231, 173, 155, 233, 128, 137, 239, 188, 140, 228, 189, 134, 230, 178,
     161, 230, 156, 137, 228, 187, 187, 228, 189, 149, 229, 183, 178, 230, 142, 136, 230, 157,
     131, 231, 154, 132, 229, 143, 163, 229, 190, 132, 230, 143, 144, 228, 190, 155, 232, 191,
     153, 228, 184, 170, 231, 187, 180, 229, 186, 166, 227, 128, 130, 10])
     @ (if candidates \<noteq> []
        then (utf8 [10, 229, 183, 178, 230, 163, 128, 230, 159, 165] @ '' '')
             @ show_nat (length candidates) @ ('' '' @ utf8 [228, 184, 170, 231, 155, 184, 229, 133, 179, 229, 143, 163, 229, 190, 132,
     239, 188, 154, 10])
             @ concat (map candidate_line candidates)
        else [])
     @ (if suggestedFix \<noteq> [] then (utf8 [10, 232, 191, 153, 228, 184, 141, 230, 152, 175, 228, 184, 180, 230, 151, 182, 230,
     149, 133, 233, 154, 156, 227, 128, 130, 228, 191, 174, 229, 164, 141, 230, 150, 185, 229,
     144, 145, 239, 188, 154])
             @ suggestedFix else [])
     @ (if closestReachable \<noteq> [] then (utf8 [10, 229, 189, 147, 229, 137, 141, 232, 131, 189, 231, 187, 153, 228, 189, 160, 231,
     154, 132, 230, 156, 128, 230, 142, 165, 232, 191, 145, 231, 187, 147, 230, 158, 156, 239,
     188, 154])
             @ closestReachable else [])"

datatype gap_result = GapArgMissing | GapRejected gap_error | GapAccepted string

definition gap_kind :: "string \<Rightarrow> GapKind" where
  "gap_kind k = (if k = ''shape_unsupported'' then GapShapeUnsupported
                 else if k = ''no_data'' then GapNoData else GapNoParam)"

definition gap_reason :: "(string \<times> json) list \<Rightarrow> string \<Rightarrow> BlockedReason" where
  "gap_reason args k =
     \<lparr>br_Kind = gap_kind k, br_MissingDimension = str_or_empty (map_of args ''missing_dimension''),
      br_CandidatesChecked = gap_candidates args, br_SuggestedFix = str_or_empty (map_of args ''suggested_fix'')\<rparr>"

definition runDeclareCapabilityGap ::
  "string \<Rightarrow> bool \<Rightarrow> bool \<Rightarrow> bool \<Rightarrow> MetricIntent list \<Rightarrow> (string \<times> json) list \<Rightarrow> shadow \<times> capGapLog list
    \<Rightarrow> gap_result \<times> shadow \<times> capGapLog list" where
  "runDeclareCapabilityGap now has_db ok log_ok intents args st =
     (case st of (s, gaps) \<Rightarrow>
        let missingDim = str_or_empty (map_of args ''missing_dimension'');
            k0 = str_or_empty (map_of args ''gap_kind'');
            k = (if k0 = [] then ''no_param'' else k0);
            refused = (if k = ''no_param'' then VerifyNoParamGap missingDim (buildIntentSpecs intents) else None);
            reason = gap_reason args k
        in if missingDim = [] then (GapArgMissing, s, gaps)
           else case refused of
             Some e \<Rightarrow> (GapRejected e, s, gaps)
           | None \<Rightarrow>
               (GapAccepted (buildGapAnswer missingDim (gap_candidates args)
                  (str_or_empty (map_of args ''suggested_fix'')) (str_or_empty (map_of args ''closest_reachable''))),
                (case fst s of
                   None \<Rightarrow> (s, gaps)
                 | Some m \<Rightarrow> (blockRoot now ok reason s,
                              writeCapabilityGapLog has_db log_ok (m_MissionID m) (m_ProjectID m) reason gaps))))"

section \<open>The plan tools in the loop\<close>

text \<open>What the tool dispatch of \<open>handleAgentStreamLakehouse\<close> does with the three plan tools: the plan state and
  the shadow after the call. \<open>ev\<close> of the shadow has the tool, summary and reasoning of the arguments.\<close>

definition start_plan_call ::
  "(string \<Rightarrow> AnalysisPattern option) \<Rightarrow> OkEntry list \<Rightarrow> string \<Rightarrow> bool \<Rightarrow> (string \<times> json) list
    \<Rightarrow> analysisPlanState option \<times> shadow \<Rightarrow> analysisPlanState option \<times> shadow" where
  "start_plan_call decode okEntries now ok args st =
     (case runStartAnalysisPlan decode okEntries args of
        Inl _ \<Rightarrow> st
      | Inr (ps, _, _) \<Rightarrow> (Some ps, seedTasksFromFeatures now ok (Snapshot (ps_ledger ps)) (snd st)))"

definition reply_outcome :: "verify_error + verify_reply \<Rightarrow> string" where
  "reply_outcome res = (case res of Inl _ \<Rightarrow> [] | Inr r \<Rightarrow> vr_outcome r)"

definition verify_call ::
  "string \<Rightarrow> bool \<Rightarrow> (string \<times> json) list \<Rightarrow> analysisPlanState option \<times> shadow
    \<Rightarrow> (verify_error + verify_reply) \<times> analysisPlanState option \<times> shadow" where
  "verify_call now ok args st =
     (case runVerifyFeature (fst st) args of
        (res, ps) \<Rightarrow>
          (res, ps,
           recordVerifyFeature now ok (strArg args ''featureId'') (reply_outcome res)
             \<lparr>ev_Tool = strArg args ''tool'', ev_ResultSummary = strArg args ''summary'',
              ev_Reasoning = strArg args ''reasoning''\<rparr> (snd st)))"

definition complete_call ::
  "(string \<Rightarrow> (string \<rightharpoonup> feature_view) \<Rightarrow> string + string) \<Rightarrow> string \<Rightarrow> bool
    \<Rightarrow> analysisPlanState option \<times> shadow \<Rightarrow> complete_reply \<times> analysisPlanState option \<times> shadow" where
  "complete_call engine now ok st =
     (case runCompleteAnalysis engine (fst st) of
        (answer, res) \<Rightarrow>
          (res, fst st, if answer = [] then snd st else recordCompleteAnalysis now ok answer (snd st)))"

end
