(* ===== verification/Reach_Gate.thy ===== *)
theory Reach_Gate
  imports Mission_Shadow
begin

text \<open>
  The reachability gate in front of the agent loop (\<open>handler/reachability_judge.go\<close>): one call of a language
  model splits the question into requirements with a claim of coverage, and deterministic guards turn the
  claims into a verdict. The reply of the model, the JSON decoder and the answers of the database are
  parameters. A Go map that is looked up is an association list or a list of its keys; where the code
  iterates over a map, \<open>shuffle\<close> is the order.
\<close>

section \<open>Vocabulary of shapes\<close>

record shapeCap =
  sc_Name :: string
  sc_Description :: string
  sc_Examples :: "string list"
  sc_Satisfies :: "string list"

text \<open>\<open>rows\<close> is \<open>None\<close> when the query fails; a row that does not scan is \<open>None\<close> and skipped.\<close>

definition loadShapeVocab :: "bool \<Rightarrow> shapeCap option list option \<Rightarrow> shapeCap list" where
  "loadShapeVocab has_db rows =
     (if \<not> has_db then [] else case rows of None \<Rightarrow> [] | Some rs \<Rightarrow> List.map_filter id rs)"

section \<open>What recall resolved\<close>

definition normForDomain :: "string \<Rightarrow> string" where
  "normForDomain s = filter (\<lambda>c. c \<noteq> CHR '' '' \<and> c \<noteq> CHR ''_'') (to_lower (trim_space s))"

record tokenRole =
  tr_Token :: string
  tr_Role :: string
  tr_Field :: string
  tr_Intents :: "string list"

definition role_metric :: string where "role_metric = (utf8 [229, 143, 163, 229, 190, 132])"
definition role_value :: string where "role_value = (utf8 [229, 143, 150, 229, 128, 188])"
definition role_column :: string where "role_column = (utf8 [229, 136, 151])"

text \<open>The names of the intents a token matched, in their order.\<close>

definition metric_names :: "MetricIntent list \<Rightarrow> string \<Rightarrow> string list" where
  "metric_names intents tok =
     concat (map (\<lambda>mi. map (\<lambda>_. mi_Name mi) (filter (\<lambda>t. t = tok) (mi_MatchedTokens mi))) intents)"

definition metric_tokens :: "MetricIntent list \<Rightarrow> string list" where
  "metric_tokens intents = remdups (concat (map mi_MatchedTokens intents))"

text \<open>\<open>strings.Trim(table + "." + field, ".")\<close>.\<close>

definition hit_field :: "KeywordHit \<Rightarrow> string" where
  "hit_field h =
     trim_right (\<lambda>c. c = CHR ''.'')
       (trim_left (\<lambda>c. c = CHR ''.'') (trim_space (kh_MappedTable h) @ ''.'' @ trim_space (kh_MappedField h)))"

text \<open>The first non-empty field of the hits that are (or are not) columns.\<close>

definition first_field :: "bool \<Rightarrow> KeywordHit list \<Rightarrow> string" where
  "first_field column hits =
     (case find (\<lambda>f. f \<noteq> []) (map hit_field (filter (\<lambda>h. kh_IsColumnRef h = column) hits)) of
        Some f \<Rightarrow> f | None \<Rightarrow> [])"

definition token_role :: "MetricIntent list \<Rightarrow> string \<Rightarrow> KeywordHit list \<Rightarrow> tokenRole option" where
  "token_role intents tok hits =
     (if tok \<in> set (metric_tokens intents) then None
      else if first_field False hits \<noteq> []
           then Some \<lparr>tr_Token = tok, tr_Role = role_value, tr_Field = first_field False hits, tr_Intents = []\<rparr>
      else if first_field True hits \<noteq> []
           then Some \<lparr>tr_Token = tok, tr_Role = role_column, tr_Field = first_field True hits, tr_Intents = []\<rparr>
      else None)"

definition summarizeRecallResolution :: "RecallResult \<Rightarrow> tokenRole list \<times> string list" where
  "summarizeRecallResolution rr =
     (let metrics = map (\<lambda>tok. \<lparr>tr_Token = tok, tr_Role = role_metric, tr_Field = [],
                                tr_Intents = metric_names (rr_MetricIntents rr) tok\<rparr>) (metric_tokens (rr_MetricIntents rr));
          others = List.map_filter (\<lambda>(tok, hits). token_role (rr_MetricIntents rr) tok hits) (rr_TokenDetails rr);
          roles = metrics @ others
      in (sort_key tr_Token roles, filter (\<lambda>n. n \<noteq> []) (map (\<lambda>r. normForDomain (tr_Token r)) roles)))"

section \<open>Hints of the model\<close>

record llmRequirementHint =
  lh_Kind :: string
  lh_Name :: string
  lh_Value :: string
  lh_Shape :: string
  lh_Why :: string
  lh_Covered :: "bool option"
  lh_CoveredBy :: "string list"
  lh_UncoveredReason :: string

record decomposeResult =
  dr_SubQuestions :: "string list"
  dr_Requirements :: "llmRequirementHint list"

definition recallResolves :: "llmRequirementHint \<Rightarrow> string list \<Rightarrow> bool" where
  "recallResolves h resolved \<longleftrightarrow>
     list_ex (\<lambda>raw. let n = normForDomain raw in
       2 \<le> length n \<and> list_ex (\<lambda>r. r = n \<or> contains_str r n \<or> contains_str n r) resolved) [lh_Value h, lh_Name h]"

definition unionMetricIntents :: "MetricIntent list \<Rightarrow> MetricIntent list \<Rightarrow> MetricIntent list" where
  "unionMetricIntents current accumulated =
     foldl (\<lambda>out mi. if mi_Name mi = [] \<or> mi_Name mi \<in> set (map mi_Name out) then out else out @ [mi]) []
       (current @ accumulated)"

subsection \<open>Required dimensions\<close>

definition add_surface :: "string \<Rightarrow> (string \<times> string) list \<Rightarrow> string \<Rightarrow> (string \<times> string) list" where
  "add_surface ref idx surface =
     (let n = normForDomain surface
      in if n = [] \<or> map_of idx n \<noteq> None then idx else idx @ [(n, ref)])"

definition index_property :: "OdBlock \<Rightarrow> (string \<times> string) list \<Rightarrow> PropertyMatch \<Rightarrow> (string \<times> string) list" where
  "index_property ob idx mp =
     (if \<not> list_ex kh_IsColumnRef (pm_Keywords mp) then idx
      else foldl (add_surface (od_Name ob @ ''.'' @ pm_Name mp)) idx
             ([pm_Name mp, pm_DisplayName mp] @ map kh_MatchedToken (filter kh_IsColumnRef (pm_Keywords mp))))"

definition column_index :: "RecallResult \<Rightarrow> (string \<times> string) list" where
  "column_index rr = foldl (\<lambda>idx ob. foldl (index_property ob) idx (od_MatchedProps ob)) [] (rr_OdBlocks rr)"

definition lookup_column ::
  "((string \<times> string) list \<Rightarrow> (string \<times> string) list) \<Rightarrow> (string \<times> string) list \<Rightarrow> string \<Rightarrow> string option" where
  "lookup_column shuffle idx n =
     (if n = [] then None
      else case map_of idx n of
             Some ref \<Rightarrow> Some ref
           | None \<Rightarrow> map_option snd (find (\<lambda>(k, _). contains_str k n \<or> contains_str n k) (shuffle idx)))"

definition required_dim ::
  "((string \<times> string) list \<Rightarrow> (string \<times> string) list) \<Rightarrow> (string \<times> string) list \<Rightarrow> llmRequirementHint \<Rightarrow> string option" where
  "required_dim shuffle idx h =
     (if lh_Kind h \<noteq> ''dimension'' then None
      else case lookup_column shuffle idx (normForDomain (lh_Name h)) of
             Some ref \<Rightarrow> Some ref
           | None \<Rightarrow> lookup_column shuffle idx (normForDomain (lh_Value h)))"

definition requiredDimsFromRecall ::
  "((string \<times> string) list \<Rightarrow> (string \<times> string) list) \<Rightarrow> llmRequirementHint list \<Rightarrow> RecallResult \<Rightarrow> string list" where
  "requiredDimsFromRecall shuffle hints rr =
     (let idx = column_index rr
      in if idx = [] then []
         else sort (remdups (filter (\<lambda>r. r \<noteq> []) (List.map_filter (required_dim shuffle idx) hints))))"

section \<open>Values of filters\<close>

definition looksNumericOrDate :: "string \<Rightarrow> bool" where
  "looksNumericOrDate s0 \<longleftrightarrow>
     (let s = trim_space s0
      in s \<noteq> [] \<and> list_all (\<lambda>c. is_digit c \<or> c \<in> {CHR '' '', CHR ''/'', CHR ''.'', CHR '':'', CHR ''-''}) s)"

text \<open>The vocabulary of values: \<open>vd_low v\<close> are the categorical properties with value \<open>v\<close> the first query finds
  (none when it fails), \<open>vd_count v\<close> is the count of the second (\<open>None\<close> when it fails). No database or project
  makes the check pass.\<close>

record value_domain =
  vd_db :: bool
  vd_project :: string
  vd_low :: "string \<Rightarrow> string list"
  vd_count :: "string \<Rightarrow> nat option"

definition resolveFilterValue :: "value_domain \<Rightarrow> string \<Rightarrow> bool \<times> string list" where
  "resolveFilterValue vd value =
     (let v = trim_space value
      in if \<not> vd_db vd \<or> vd_project vd = [] \<or> v = [] then (True, [])
         else if vd_low vd v \<noteq> [] then (True, vd_low vd v)
         else case vd_count vd v of None \<Rightarrow> (True, []) | Some n \<Rightarrow> (0 < n, []))"

section \<open>The verdict\<close>

definition anyCitedIntentServesShape :: "string list \<Rightarrow> string \<Rightarrow> MetricIntent list \<Rightarrow> (string \<times> string list) list \<Rightarrow> bool" where
  "anyCitedIntentServesShape cited required intents satisfies \<longleftrightarrow>
     required \<noteq> []
     \<and> list_ex (\<lambda>mi. mi_Name mi \<in> set cited
          \<and> list_ex (\<lambda>p. let declared = mp_ShapeCapability p in
               declared \<noteq> []
               \<and> (declared = required
                  \<or> (case map_of satisfies declared of Some ss \<Rightarrow> required \<in> set ss | None \<Rightarrow> False))) (mi_Parameters mi)) intents"

definition shape_map :: "shapeCap list \<Rightarrow> (string \<times> string list) list" where
  "shape_map vocab = rev (map (\<lambda>sc. (sc_Name sc, sc_Satisfies sc)) vocab)"

definition collectNames :: "string list \<Rightarrow> string list" where
  "collectNames xs = foldl (\<lambda>out s. if s \<in> set out then out else out @ [s]) [] xs"

definition resolved_by_recall :: string where
  "resolved_by_recall = (utf8 [229, 143, 172, 229, 155, 158, 229, 183, 178, 232, 167, 163, 230, 158, 144])"

definition note_wrong_shape :: "string list \<Rightarrow> string \<Rightarrow> string" where
  "note_wrong_shape cited shape =
     (utf8 [229, 183, 178, 230, 142, 136, 230, 157, 131, 229, 143, 163, 229, 190, 132] @ '' ('') @ join_str ideographic_comma cited
     @ ('') '' @ utf8 [231, 156, 159, 229, 174, 158, 239, 188, 140, 228, 189, 134, 230, 178, 161,
     230, 156, 137, 228, 187, 187, 228, 189, 149, 229, 143, 130, 230, 149, 176, 229, 163, 176,
     230, 152, 142, 229, 143, 175, 230, 156, 141, 229, 138, 161, 227, 128, 140]) @ shape
     @ (utf8 [227, 128, 141, 229, 189, 162, 230, 128, 129, 231, 154, 132, 232, 131, 189, 229, 138,
     155])"

definition blocker_wrong_shape :: "string \<Rightarrow> string \<Rightarrow> string" where
  "blocker_wrong_shape name shape =
     (utf8 [227, 128, 140]) @ name @ (utf8 [227, 128, 141, 233, 156, 128, 232, 166, 129] @ '' '') @ shape
     @ ('' '' @ utf8 [229, 189, 162, 230, 128, 129, 239, 188, 140, 228, 189, 134, 229, 183, 178,
     229, 143, 172, 229, 155, 158, 229, 143, 163, 229, 190, 132, 231, 154, 132, 229, 143, 130,
     230, 149, 176, 230, 151, 160, 230, 179, 149, 230, 156, 141, 229, 138, 161])"

definition note_undeclared :: string where
  "note_undeclared = (utf8 [230, 151, 160, 229, 183, 178, 229, 163, 176, 230, 152, 142, 229, 143, 130, 230, 149,
     176, 230, 152, 190, 229, 188, 143, 232, 166, 134, 231, 155, 150, 239, 188, 155, 229, 176,
     134, 229, 156, 168, 230, 137, 167, 232, 161, 140, 233, 152, 182, 230, 174, 181, 230, 140,
     137] @ '' OD '' @ utf8 [229, 177, 158, 230, 128, 167] @ '' / SmartQuery '' @ utf8 [232, 167,
     163, 230, 158, 144])"

definition note_uncovered :: "string \<Rightarrow> string \<Rightarrow> string" where
  "note_uncovered shape name =
     (utf8 [230, 151, 160, 229, 183, 178, 230, 142, 136, 230, 157, 131, 229, 143, 163, 229, 190,
     132, 228, 187, 165, 227, 128, 140]) @ shape
     @ (utf8 [227, 128, 141, 229, 189, 162, 230, 128, 129, 230, 152, 190, 229, 188, 143, 232, 166,
     134, 231, 155, 150, 227, 128, 140]) @ name
     @ (utf8 [227, 128, 141, 239, 188, 136, 229, 176, 134, 229, 156, 168, 230, 137, 167, 232, 161,
     140, 233, 152, 182, 230, 174, 181, 232, 167, 163, 230, 158, 144, 239, 188, 137])"

definition note_missing_value :: "string \<Rightarrow> string" where
  "note_missing_value v = (utf8 [231, 173, 155, 233, 128, 137, 229, 128, 188, 227, 128, 140]) @ v
     @ (utf8 [227, 128, 141, 229, 156, 168, 230, 156, 172, 228, 189, 147, 233, 135, 140, 230, 137,
     190, 228, 184, 141, 229, 136, 176, 229, 175, 185, 229, 186, 148, 229, 143, 150, 229, 128,
     188])"

definition blocker_missing_value :: "string \<Rightarrow> string \<Rightarrow> string" where
  "blocker_missing_value v name =
     (utf8 [230, 149, 176, 230, 141, 174, 233, 135, 140, 230, 178, 161, 230, 156, 137, 228, 187,
     187, 228, 189, 149, 229, 173, 151, 230, 174, 181, 231, 154, 132, 229, 143, 150, 229, 128,
     188, 230, 152, 175, 227, 128, 140]) @ v
     @ (utf8 [227, 128, 141, 239, 188, 136, 231, 148, 168, 230, 136, 183, 230, 143, 144, 229, 136,
     176, 231, 154, 132, 227, 128, 140]) @ name
     @ (utf8 [227, 128, 141, 229, 156, 168, 230, 156, 172, 228, 189, 147, 228, 184, 173, 228, 184,
     141, 229, 173, 152, 229, 156, 168, 239, 188, 137])"

definition note_ambiguous :: "string \<Rightarrow> string list \<Rightarrow> string" where
  "note_ambiguous v fs =
     (utf8 [229, 128, 188, 227, 128, 140]) @ v @ (utf8 [227, 128, 141, 229, 144, 140, 230, 151, 182, 230, 152, 175] @ '' '')
     @ join_str ideographic_comma fs @ ('' '' @ utf8 [231, 154, 132, 229, 143, 150, 229, 128, 188, 239, 188, 140, 233, 156, 128,
     230, 190, 132, 230, 184, 133, 230, 140, 137, 229, 147, 170, 228, 184, 170, 229, 173, 151,
     230, 174, 181, 231, 173, 155])"

definition clarify_message :: "string \<Rightarrow> string list \<Rightarrow> string" where
  "clarify_message v fs =
     (utf8 [227, 128, 140]) @ v @ (utf8 [227, 128, 141, 229, 156, 168, 229, 164, 154, 228, 184, 170, 229, 173, 151, 230, 174,
     181, 233, 135, 140, 233, 131, 189, 229, 135, 186, 231, 142, 176, 239, 188, 136])
     @ join_str '' / '' fs @ (utf8 [239, 188, 137, 226, 128, 148, 226, 128, 148, 228, 189, 160, 230, 131, 179, 230, 140,
     137, 229, 147, 170, 228, 184, 170, 231, 173, 155, 239, 188, 159])"

definition blocker_no_metric :: string where
  "blocker_no_metric =
     (utf8 [230, 156, 170, 229, 143, 172, 229, 155, 158, 229, 136, 176, 228, 187, 187, 228, 189,
     149, 229, 143, 175, 231, 148, 168, 228, 186, 142, 229, 186, 166, 233, 135, 143, 231, 154,
     132, 229, 143, 163, 229, 190, 132] @ '' '' @ utf8 [226, 128, 148, 226, 128, 148] @ '' '' @
     utf8 [229, 189, 147, 229, 137, 141, 230, 156, 172, 228, 189, 147, 230, 178, 161, 230, 156,
     137, 228, 184, 142, 232, 175, 165, 229, 143, 163, 229, 190, 132, 231, 155, 184, 229, 133,
     179, 231, 154, 132, 229, 183, 178, 230, 142, 136, 230, 157, 131, 229, 143, 163, 229, 190,
     132])"

text \<open>One requirement: its coverage, and the blockers and questions it adds.\<close>

type_synonym hint_result = "RequirementCoverage \<times> string list \<times> string list"

definition value_gate :: "value_domain \<Rightarrow> llmRequirementHint \<Rightarrow> RequirementCoverage \<Rightarrow> hint_result" where
  "value_gate vd h rc =
     (if lh_Kind h = ''filter'' \<and> trim_space (lh_Value h) \<noteq> [] \<and> \<not> looksNumericOrDate (lh_Value h)
      then (case resolveFilterValue vd (lh_Value h) of
              (found, lowCard) \<Rightarrow>
                if \<not> found
                then (rc\<lparr>rq_Covered := False, rq_MissingNote := note_missing_value (lh_Value h)\<rparr>,
                      [blocker_missing_value (lh_Value h) (lh_Name h)], [])
                else if 2 \<le> length lowCard
                then (rc\<lparr>rq_Covered := False, rq_MissingNote := note_ambiguous (lh_Value h) lowCard\<rparr>,
                      [], [clarify_message (lh_Value h) lowCard])
                else (rc, [], []))
      else (rc, [], []))"

definition hint_coverage :: "llmRequirementHint \<Rightarrow> RequirementCoverage" where
  "hint_coverage h =
     \<lparr>rq_Dimension = lh_Name h, rq_Kind = lh_Kind h, rq_Shape = lh_Shape h, rq_Why = lh_Why h,
      rq_Covered = False, rq_CoveredBy = [], rq_MissingNote = []\<rparr>"

definition real_cited :: "MetricIntent list \<Rightarrow> llmRequirementHint \<Rightarrow> string list" where
  "real_cited intents h = filter (\<lambda>n. n \<in> set (map mi_Name intents)) (lh_CoveredBy h)"

text \<open>A cited intent exists, but none of its parameters has the shape.\<close>

definition wrong_shape :: "MetricIntent list \<Rightarrow> shapeCap list \<Rightarrow> llmRequirementHint \<Rightarrow> bool" where
  "wrong_shape intents vocab h \<longleftrightarrow>
     lh_Covered h = Some True \<and> real_cited intents h \<noteq> []
     \<and> lh_Shape h \<in> set (map sc_Name vocab)
     \<and> \<not> anyCitedIntentServesShape (real_cited intents h) (lh_Shape h) intents (shape_map vocab)"

definition judge_hint ::
  "value_domain \<Rightarrow> MetricIntent list \<Rightarrow> shapeCap list \<Rightarrow> string list \<Rightarrow> llmRequirementHint \<Rightarrow> hint_result" where
  "judge_hint vd intents vocab resolved h =
     (let rc = hint_coverage h; cited = real_cited intents h
      in if \<not> gating (lh_Kind h) then (rc\<lparr>rq_Covered := True\<rparr>, [], [])
         else if recallResolves h resolved
         then (rc\<lparr>rq_Covered := True, rq_CoveredBy := [resolved_by_recall]\<rparr>, [], [])
         else if wrong_shape intents vocab h
         then (rc\<lparr>rq_MissingNote := note_wrong_shape cited (lh_Shape h)\<rparr>,
               [blocker_wrong_shape (lh_Name h) (lh_Shape h)], [])
         else value_gate vd h
           (if lh_Covered h = Some True
            then if cited \<noteq> [] then rc\<lparr>rq_Covered := True, rq_CoveredBy := cited\<rparr>
                 else (let fallback = CoveringIntents
                             \<lparr>di_ID = [], di_Kind = lh_Kind h, di_Name = lh_Name h, di_Shape = [], di_WhyRequired = []\<rparr>
                             (buildIntentSpecs intents)
                       in if fallback \<noteq> [] then rc\<lparr>rq_Covered := True, rq_CoveredBy := fallback\<rparr>
                          else rc\<lparr>rq_MissingNote := note_undeclared\<rparr>)
            else if lh_UncoveredReason h \<noteq> [] then rc\<lparr>rq_MissingNote := lh_UncoveredReason h\<rparr>
            else rc\<lparr>rq_MissingNote := note_uncovered (lh_Shape h) (lh_Name h)\<rparr>))"

definition buildVerdictReason :: "bool \<Rightarrow> RequirementCoverage list \<Rightarrow> string list \<Rightarrow> string" where
  "buildVerdictReason feasible reqs blockers =
     (if \<not> feasible then
        (if blockers = [] then (utf8 [228, 184, 141, 229, 143, 175, 232, 161, 140, 227, 128, 130])
         else (utf8 [228, 184, 141, 229, 143, 175, 232, 161, 140, 239, 188, 154]) @ join_str (utf8 [239, 188, 155]) blockers @ (utf8 [227, 128, 130]))
      else
        let gated = filter (\<lambda>r. gating (rq_Kind r)) reqs;
            covered = map rq_Dimension (filter rq_Covered gated);
            willResolve = map rq_Dimension (filter (\<lambda>r. \<not> rq_Covered r) gated)
        in if covered = [] \<and> willResolve = [] then (utf8 [229, 143, 175, 232, 161, 140, 239, 188, 154, 233, 151, 174, 233, 162, 152, 228, 184,
     141, 230, 182, 137, 229, 143, 138, 233, 156, 128, 232, 166, 129, 230, 142, 136, 230, 157,
     131, 231, 154, 132, 231, 173, 155, 233, 128, 137, 231, 187, 180, 229, 186, 166, 227, 128,
     130])
           else (utf8 [229, 143, 175, 232, 161, 140])
             @ (if covered \<noteq> []
                then (utf8 [239, 188, 154, 231, 187, 180, 229, 186, 166, 239, 188, 136]) @ join_str ideographic_comma (collectNames covered)
                     @ (utf8 [239, 188, 137, 229, 183, 178, 232, 162, 171, 229, 183, 178, 230, 142, 136, 230, 157,
     131, 229, 143, 163, 229, 190, 132, 232, 166, 134, 231, 155, 150])
                else (utf8 [239, 188, 154, 229, 183, 178, 229, 143, 172, 229, 155, 158, 231, 155, 184, 229, 133,
     179, 229, 143, 163, 229, 190, 132]))
             @ (if willResolve \<noteq> []
                then (utf8 [239, 188, 155, 231, 173, 155, 233, 128, 137] @ ''/'' @ utf8 [231, 187, 180, 229, 186,
     166, 239, 188, 136]) @ join_str ideographic_comma (collectNames willResolve)
                     @ (utf8 [239, 188, 137, 229, 176, 134, 229, 156, 168, 230, 137, 167, 232, 161, 140, 233, 152,
     182, 230, 174, 181, 230, 140, 137] @ '' OD '' @ utf8 [229, 177, 158, 230, 128, 167] @ '' /
     SmartQuery '' @ utf8 [232, 167, 163, 230, 158, 144])
                else [])
             @ (utf8 [227, 128, 130]))"

definition buildVerdictFromLLMHints ::
  "value_domain \<Rightarrow> llmRequirementHint list \<Rightarrow> MetricIntent list \<Rightarrow> shapeCap list \<Rightarrow> string list \<Rightarrow> ReachabilityVerdict" where
  "buildVerdictFromLLMHints vd hints intents vocab resolved =
     (let results = map (judge_hint vd intents vocab resolved) hints;
          reqs = map fst results;
          blockers = concat (map (fst \<circ> snd) results) @ (if intents = [] then [blocker_no_metric] else []);
          clarify = concat (map (snd \<circ> snd) results);
          feasible = (blockers = [] \<and> clarify = [])
      in \<lparr>rv_Feasible = feasible, rv_Requirements = reqs,
          rv_Reason = (if blockers \<noteq> [] then buildVerdictReason feasible reqs blockers
                       else if clarify \<noteq> [] then (utf8 [233, 156, 128, 232, 166, 129, 230, 190, 132, 230, 184, 133, 239, 188, 154]) @ join_str (utf8 [239, 188, 155]) clarify @ (utf8 [227, 128, 130])
                       else buildVerdictReason feasible reqs []),
          rv_Kind = (if blockers \<noteq> [] then ''gap'' else if clarify \<noteq> [] then ''clarify'' else [])\<rparr>)"

section \<open>The answer of the gate\<close>

definition clarifyTokenPrefix :: string where
  "clarifyTokenPrefix = (utf8 [227, 128, 148, 233, 156, 128, 232, 166, 129, 228, 189, 160, 229, 133, 136, 230, 190,
     132, 230, 184, 133, 228, 184, 128, 228, 184, 139, 227, 128, 149, 10, 10])"

definition buildInfeasibilityAnswer :: "ReachabilityVerdict \<Rightarrow> string" where
  "buildInfeasibilityAnswer v =
     (utf8 [227, 128, 148, 229, 143, 175, 232, 190, 190, 230, 128, 167, 229, 136, 164, 229, 174,
     154, 239, 188, 154, 232, 191, 153, 228, 184, 170, 233, 151, 174, 233, 162, 152, 231, 142,
     176, 229, 156, 168, 230, 151, 160, 230, 179, 149, 230, 149, 180, 228, 189, 147, 229, 155,
     158, 231, 173, 148, 227, 128, 149, 10, 10])
     @ rv_Reason v
     @ (let subset = AnswerableSubset v
        in if subset = [] then []
           else (utf8 [10, 10, 230, 136, 145, 232, 131, 189, 232, 166, 134, 231, 155, 150, 231, 154, 132,
     231, 187, 180, 229, 186, 166, 239, 188, 154]) @ join_str ideographic_comma subset
                @ ('' '' @ utf8 [226, 128, 148, 226, 128, 148] @ '' '' @ utf8 [228, 189, 134, 228, 189, 160,
     231, 154, 132, 233, 151, 174, 233, 162, 152, 233, 156, 128, 232, 166, 129, 230, 149, 180,
     228, 189, 147, 229, 155, 158, 231, 173, 148, 239, 188, 140, 231, 155, 174, 229, 137, 141,
     229, 129, 154, 228, 184, 141, 229, 136, 176, 227, 128, 130]))"

definition reachabilityAnswer :: "ReachabilityVerdict \<Rightarrow> bool \<Rightarrow> string" where
  "reachabilityAnswer v isFollowUp =
     (if rv_Feasible v then []
      else if isFollowUp then []
      else if rv_Kind v = ''clarify'' then clarifyTokenPrefix @ rv_Reason v
      else buildInfeasibilityAnswer v)"

section \<open>The reply of the model\<close>

text \<open>\<open>StripThinkTags\<close> and \<open>ExtractJSON\<close> (\<open>llmclient.go\<close>).\<close>

definition StripThinkTags :: "string \<Rightarrow> string" where
  "StripThinkTags content =
     trim_space (case index_of content ''</think>'' of
                   Some i \<Rightarrow> drop (i + length ''</think>'') content | None \<Rightarrow> content)"

definition fence :: string where
  "fence = [CHR 0x60, CHR 0x60, CHR 0x60]"

fun fenced_lines :: "bool \<Rightarrow> string list \<Rightarrow> string list" where
  "fenced_lines inBlock [] = []"
| "fenced_lines inBlock (l # ls) =
     (if has_prefix (trim_space l) fence then fenced_lines (\<not> inBlock) ls
      else (if inBlock then [l] else []) @ fenced_lines inBlock ls)"

definition ExtractJSON :: "string \<Rightarrow> string" where
  "ExtractJSON content =
     (if \<not> contains_str content fence then content
      else let ls = fenced_lines False (split_on (CHR 0x0A) content)
           in if ls = [] then content else join_str [CHR 0x0A] ls)"

record reqItemJSON =
  ri_Kind :: string
  ri_Name :: string
  ri_Value :: string
  ri_Shape :: string
  ri_Why :: string
  ri_Covered :: "bool option"
  ri_CoveredBy :: "string list"
  ri_UncoveredReason :: string

definition normalize_item :: "reqItemJSON \<Rightarrow> llmRequirementHint option" where
  "normalize_item it =
     (let k = to_lower (trim_space (ri_Kind it)); name = trim_space (ri_Name it)
      in if name = [] then None
         else Some \<lparr>lh_Kind = (if k \<in> {''metric'', ''dimension'', ''filter''} then k else ''metric''), lh_Name = name,
                    lh_Value = trim_space (ri_Value it), lh_Shape = trim_space (ri_Shape it),
                    lh_Why = trim_space (ri_Why it), lh_Covered = ri_Covered it, lh_CoveredBy = ri_CoveredBy it,
                    lh_UncoveredReason = trim_space (ri_UncoveredReason it)\<rparr>)"

definition normalizeReqItems :: "reqItemJSON list \<Rightarrow> llmRequirementHint list" where
  "normalizeReqItems items = List.map_filter normalize_item items"

definition cleanSubQuestions :: "string list \<Rightarrow> string list" where
  "cleanSubQuestions qs =
     foldl (\<lambda>out q. let s = trim_space q in if s = [] \<or> s \<in> set out then out else out @ [s]) [] qs"

text \<open>\<open>json.Unmarshal\<close> into the object and into the bare array.\<close>

record reply_decoder =
  rd_object :: "string \<Rightarrow> (string list \<times> reqItemJSON list) option"
  rd_array :: "string \<Rightarrow> reqItemJSON list option"

definition parseDecompJSON :: "reply_decoder \<Rightarrow> string \<Rightarrow> decomposeResult option" where
  "parseDecompJSON rd raw =
     (let cleaned = (if ExtractJSON raw = [] then trim_space raw else ExtractJSON raw);
          bare = map_option (\<lambda>items. \<lparr>dr_SubQuestions = [], dr_Requirements = normalizeReqItems items\<rparr>) (rd_array rd cleaned)
      in case rd_object rd cleaned of
           Some (qs, items) \<Rightarrow>
             if items \<noteq> [] \<or> qs \<noteq> []
             then Some \<lparr>dr_SubQuestions = cleanSubQuestions qs, dr_Requirements = normalizeReqItems items\<rparr>
             else bare
         | None \<Rightarrow> bare)"

text \<open>\<open>reply\<close> is the content of the model, \<open>None\<close> when it is not configured or the call fails.\<close>

definition decomposeQuestion :: "reply_decoder \<Rightarrow> string option \<Rightarrow> decomposeResult option" where
  "decomposeQuestion rd reply = Option.bind reply (\<lambda>content. parseDecompJSON rd (StripThinkTags content))"

section \<open>The gate\<close>

record gate_env =
  ge_enabled :: bool
  ge_now :: string
  ge_save_ok :: bool
  ge_vocab :: "shapeCap option list option"
  ge_values :: value_domain
  ge_shuffle :: "(string \<times> string) list \<Rightarrow> (string \<times> string) list"
  ge_decoder :: reply_decoder

definition gate_intents :: "RecallResult \<Rightarrow> MetricIntent list \<Rightarrow> MetricIntent list" where
  "gate_intents rr accumulated = unionMetricIntents (rr_MetricIntents rr) accumulated"

definition gate_vocab :: "gate_env \<Rightarrow> shapeCap list" where
  "gate_vocab env = loadShapeVocab (vd_db (ge_values env)) (ge_vocab env)"

definition gate_resolved :: "RecallResult \<Rightarrow> string list" where
  "gate_resolved rr = snd (summarizeRecallResolution rr)"

definition gate_verdict ::
  "gate_env \<Rightarrow> llmRequirementHint list \<Rightarrow> RecallResult \<Rightarrow> MetricIntent list \<Rightarrow> ReachabilityVerdict" where
  "gate_verdict env hints rr accumulated =
     buildVerdictFromLLMHints (ge_values env) hints (gate_intents rr accumulated) (gate_vocab env) (gate_resolved rr)"

definition runReachabilityJudge ::
  "gate_env \<Rightarrow> string option \<Rightarrow> RecallResult \<Rightarrow> MetricIntent list \<Rightarrow> bool \<Rightarrow> shadow \<Rightarrow> (string \<times> string list) \<times> shadow" where
  "runReachabilityJudge env reply rr accumulated isFollowUp s =
     (if \<not> ge_enabled env then (([], []), s)
      else case decomposeQuestion (ge_decoder env) reply of
             None \<Rightarrow> (([], []), s)
           | Some res \<Rightarrow>
               if dr_Requirements res = [] then (([], []), s)
               else
                 let reqDims = requiredDimsFromRecall (ge_shuffle env) (dr_Requirements res) rr;
                     verdict = gate_verdict env (dr_Requirements res) rr accumulated;
                     s1 = recordReachability (ge_now env) (ge_save_ok env) verdict s;
                     s2 = (if rv_Feasible verdict \<and> 2 \<le> length (dr_SubQuestions res)
                           then seedTasksFromSubQuestions (ge_now env) (ge_save_ok env) (dr_SubQuestions res) s1 else s1)
                 in ((reachabilityAnswer verdict isFollowUp, reqDims), s2))"

section \<open>The end of a turn\<close>

text \<open>\<open>decode\<close> is \<open>json.Unmarshal\<close> into a map from ids to booleans; \<open>reply\<close> is as above.\<close>

definition reconcileMissionTasks ::
  "bool \<Rightarrow> (string \<Rightarrow> (string \<times> bool) list option) \<Rightarrow> string \<Rightarrow> bool \<Rightarrow> string option \<Rightarrow> string \<Rightarrow> shadow \<Rightarrow> shadow" where
  "reconcileMissionTasks enabled decode now ok reply finalAnswer s =
     (case fst s of
        None \<Rightarrow> s
      | Some m \<Rightarrow>
          if \<not> enabled \<or> m_Tasks m = [] \<or> trim_space finalAnswer = [] then s
          else case reply of
                 None \<Rightarrow> s
               | Some content \<Rightarrow>
                   (let extracted = ExtractJSON (StripThinkTags content);
                        cleaned = (if extracted = [] then trim_space content else extracted)
                    in case decode cleaned of None \<Rightarrow> s | Some results \<Rightarrow> applyTaskReconciliation now ok results s))"

end
