(* ===== verification/Reach_Gate_Props.thy ===== *)
theory Reach_Gate_Props
  imports Reach_Gate
begin

text \<open>
  What the reachability gate refuses: the conditions under which a turn is answered without the agent loop,
  the independence of the verdict from invented intents, and the failures that leave the gate open.
\<close>

section \<open>One requirement\<close>

definition value_stops :: "value_domain \<Rightarrow> llmRequirementHint \<Rightarrow> bool" where
  "value_stops vd h \<longleftrightarrow>
     lh_Kind h = ''filter'' \<and> trim_space (lh_Value h) \<noteq> [] \<and> \<not> looksNumericOrDate (lh_Value h)
     \<and> (\<not> fst (resolveFilterValue vd (lh_Value h)) \<or> 2 \<le> length (snd (resolveFilterValue vd (lh_Value h))))"

definition hint_stops :: "value_domain \<Rightarrow> MetricIntent list \<Rightarrow> shapeCap list \<Rightarrow> string list \<Rightarrow> llmRequirementHint \<Rightarrow> bool" where
  "hint_stops vd intents vocab resolved h \<longleftrightarrow>
     gating (lh_Kind h) \<and> \<not> recallResolves h resolved \<and> (wrong_shape intents vocab h \<or> value_stops vd h)"

lemma value_gate_stops: "snd (value_gate vd h rc) = ([], []) \<longleftrightarrow> \<not> value_stops vd h"
  by (auto simp: value_gate_def value_stops_def split: prod.splits)

lemma judge_hint_stops:
  "snd (judge_hint vd intents vocab resolved h) = ([], []) \<longleftrightarrow> \<not> hint_stops vd intents vocab resolved h"
  by (simp add: judge_hint_def hint_stops_def value_gate_stops Let_def)

lemma verdict_feasible:
  "rv_Feasible (buildVerdictFromLLMHints vd hints intents vocab resolved) \<longleftrightarrow>
     intents \<noteq> [] \<and> (\<forall>h \<in> set hints. \<not> hint_stops vd intents vocab resolved h)"
  by (auto simp: buildVerdictFromLLMHints_def judge_hint_stops [symmetric] prod_eq_iff Let_def)

lemma answer_empty: "reachabilityAnswer v isFollowUp = [] \<longleftrightarrow> rv_Feasible v \<or> isFollowUp"
proof -
  have "clarifyTokenPrefix \<noteq> []" by (simp add: clarifyTokenPrefix_def utf8_def)
  moreover have "buildInfeasibilityAnswer v \<noteq> []" by (simp add: buildInfeasibilityAnswer_def utf8_def)
  ultimately show ?thesis by (simp add: reachabilityAnswer_def)
qed

section \<open>The gate\<close>

text \<open>The reply of the model, as far as it holds requirements.\<close>

definition judged_hints :: "gate_env \<Rightarrow> string option \<Rightarrow> llmRequirementHint list" where
  "judged_hints env reply =
     (if ge_enabled env
      then case decomposeQuestion (ge_decoder env) reply of Some res \<Rightarrow> dr_Requirements res | None \<Rightarrow> []
      else [])"

lemma judge_answer:
  "fst (fst (runReachabilityJudge env reply rr accumulated isFollowUp s)) =
     (if judged_hints env reply = [] then []
      else reachabilityAnswer (gate_verdict env (judged_hints env reply) rr accumulated) isFollowUp)"
  by (simp add: runReachabilityJudge_def judged_hints_def Let_def split: option.split)

text \<open>C11: A turn is answered by the gate exactly when it is the first of its thread, the model gave requirements, and
  there is no intent to measure, or some dimension or filter that recall has not resolved is claimed to be
  covered by an intent without a parameter of its shape, or filters by a value that is in no field, or in
  several.\<close>

lemma turn_is_refused_exactly_when:
  "fst (fst (runReachabilityJudge env reply rr accumulated isFollowUp s)) \<noteq> [] \<longleftrightarrow>
     \<not> isFollowUp \<and> judged_hints env reply \<noteq> []
     \<and> (gate_intents rr accumulated = []
        \<or> (\<exists>h \<in> set (judged_hints env reply).
             gating (lh_Kind h) \<and> \<not> recallResolves h (gate_resolved rr)
             \<and> (wrong_shape (gate_intents rr accumulated) (gate_vocab env) h \<or> value_stops (ge_values env) h)))"
  by (auto simp: judge_answer answer_empty gate_verdict_def verdict_feasible hint_stops_def)

section \<open>Invented intents\<close>

lemma real_cited_idem [simp]: "real_cited intents (h\<lparr>lh_CoveredBy := real_cited intents h\<rparr>) = real_cited intents h"
  by (simp add: real_cited_def)

lemma citations_ignored:
  "value_gate vd (h\<lparr>lh_CoveredBy := cs\<rparr>) = value_gate vd h"
  "hint_coverage (h\<lparr>lh_CoveredBy := cs\<rparr>) = hint_coverage h"
  "recallResolves (h\<lparr>lh_CoveredBy := cs\<rparr>) = recallResolves h"
  by (auto simp: value_gate_def hint_coverage_def recallResolves_def fun_eq_iff split: prod.split)

lemma judge_real_cited:
  "judge_hint vd intents vocab resolved (h\<lparr>lh_CoveredBy := real_cited intents h\<rparr>) = judge_hint vd intents vocab resolved h"
  by (simp add: judge_hint_def wrong_shape_def citations_ignored Let_def)

text \<open>C18: Names of intents the model invents have no influence on the verdict: citations are first reduced to the
  intents that exist.\<close>

lemma invented_intents_change_nothing:
  "gate_verdict env (map (\<lambda>h. h\<lparr>lh_CoveredBy := filter (\<lambda>n. n \<in> set (map mi_Name (gate_intents rr accumulated))) (lh_CoveredBy h)\<rparr>) hints)
     rr accumulated = gate_verdict env hints rr accumulated"
  using judge_real_cited [unfolded real_cited_def]
  by (simp add: gate_verdict_def buildVerdictFromLLMHints_def Let_def comp_def)

section \<open>Failures\<close>

lemma resolve_fails_open:
  "\<not> vd_db vd \<or> (vd_low vd = (\<lambda>v. []) \<and> vd_count vd = (\<lambda>v. None)) \<Longrightarrow> resolveFilterValue vd v = (True, [])"
  by (auto simp: resolveFilterValue_def Let_def)

lemma empty_vocab: "\<not> wrong_shape intents [] h"
  by (simp add: wrong_shape_def)

text \<open>C19: Without a database, or when each of its queries fails, the gate refuses a question only for the lack of any
  intent. When the model is not reached or its reply cannot be read, it refuses nothing.\<close>

lemma gate_fails_open:
  assumes "\<not> vd_db (ge_values env)
      \<or> (ge_vocab env = None \<and> vd_low (ge_values env) = (\<lambda>v. []) \<and> vd_count (ge_values env) = (\<lambda>v. None))"
  shows "fst (fst (runReachabilityJudge env reply rr accumulated isFollowUp s)) \<noteq> [] \<longleftrightarrow>
    \<not> isFollowUp \<and> gate_intents rr accumulated = [] \<and> judged_hints env reply \<noteq> []"
proof -
  have "gate_vocab env = []" using assms by (auto simp: gate_vocab_def loadShapeVocab_def)
  moreover have "\<not> value_stops (ge_values env) h" for h
    using resolve_fails_open [of "ge_values env" "lh_Value h"] assms by (auto simp: value_stops_def)
  ultimately show ?thesis
    by (auto simp: judge_answer answer_empty gate_verdict_def verdict_feasible hint_stops_def empty_vocab)
qed

lemma unreadable_reply: "judged_hints env None = []"
  by (simp add: judged_hints_def decomposeQuestion_def)

section \<open>Recorded verdicts\<close>

lemma infeasible_recorded:
  assumes "\<not> rv_Feasible (gate_verdict env (judged_hints env reply) rr accumulated)" "judged_hints env reply \<noteq> []"
  shows "snd (runReachabilityJudge env reply rr accumulated isFollowUp s) =
    recordReachability (ge_now env) (ge_save_ok env) (gate_verdict env (judged_hints env reply) rr accumulated) s"
proof -
  from assms(2) obtain res where "ge_enabled env" "decomposeQuestion (ge_decoder env) reply = Some res"
    "judged_hints env reply = dr_Requirements res" by (auto simp: judged_hints_def split: if_splits option.splits)
  with assms show ?thesis by (simp add: runReachabilityJudge_def Let_def)
qed

text \<open>A refused question is recorded: the mission has the verdict, no new tasks, and ends unanswerable.\<close>

lemma refused_turn_is_recorded:
  assumes "fst (fst (runReachabilityJudge env reply rr accumulated isFollowUp (Some start, rows))) \<noteq> []"
  shows "\<exists>m rows'. finish now ok (fst (fst (runReachabilityJudge env reply rr accumulated isFollowUp (Some start, rows))))
      (snd (runReachabilityJudge env reply rr accumulated isFollowUp (Some start, rows))) = (Some m, rows')
    \<and> m_Reachability m = Some (gate_verdict env (judged_hints env reply) rr accumulated)
    \<and> m_Status m = MissionUnanswerable \<and> m_Tasks m = m_Tasks start \<and> (ok \<longrightarrow> rows' (m_MissionID m) = Some m)"
proof -
  let ?v = "gate_verdict env (judged_hints env reply) rr accumulated"
  from assms have v: "\<not> rv_Feasible ?v" "judged_hints env reply \<noteq> []" by (auto simp: judge_answer answer_empty split: if_splits)
  then show ?thesis
    by (auto simp: infeasible_recorded recordReachability_def touch_save_def finish_def finish_status_def set_output_def
        SaveMission_def Let_def)
qed

section \<open>Examples\<close>

definition demo_item :: reqItemJSON where
  "demo_item = \<lparr>ri_Kind = ''dimension'', ri_Name = ''region'', ri_Value = [], ri_Shape = [], ri_Why = [],
     ri_Covered = None, ri_CoveredBy = [], ri_UncoveredReason = []\<rparr>"

definition demo_hint :: llmRequirementHint where
  "demo_hint = \<lparr>lh_Kind = ''dimension'', lh_Name = ''region'', lh_Value = [], lh_Shape = [], lh_Why = [],
     lh_Covered = None, lh_CoveredBy = [], lh_UncoveredReason = []\<rparr>"

definition demo_gate :: gate_env where
  "demo_gate = \<lparr>ge_enabled = True, ge_now = ''now'', ge_save_ok = True, ge_vocab = None,
     ge_values = \<lparr>vd_db = False, vd_project = ''p'', vd_low = (\<lambda>v. []), vd_count = (\<lambda>v. None)\<rparr>,
     ge_shuffle = (\<lambda>xs. xs), ge_decoder = \<lparr>rd_object = (\<lambda>raw. Some ([], [demo_item])), rd_array = (\<lambda>raw. None)\<rparr>\<rparr>"

definition demo_recall :: RecallResult where
  "demo_recall = \<lparr>rr_OdBlocks = [], rr_OkEntries = [], rr_OlEntries = [], rr_DirectOds = [], rr_MetricIntents = [],
     rr_HasMatches = False, rr_TokenDetails = [], rr_ContextMD = [], rr_Ambiguities = []\<rparr>"

lemma demo_judged: "judged_hints demo_gate (Some c) = [demo_hint]"
proof -
  have "normalizeReqItems [demo_item] = [demo_hint]" by code_simp
  then show ?thesis
    by (simp add: judged_hints_def demo_gate_def decomposeQuestion_def parseDecompJSON_def Let_def)
qed

lemma demo_intents: "gate_intents demo_recall [] = []"
  by (simp add: gate_intents_def demo_recall_def unionMetricIntents_def)

lemma gate_fails_open_witness:
  "fst (fst (runReachabilityJudge demo_gate (Some ''{}'') demo_recall [] False (None, Map.empty))) \<noteq> []"
proof -
  have "\<not> vd_db (ge_values demo_gate)" by (simp add: demo_gate_def)
  from gate_fails_open [OF disjI1 [OF this]] show ?thesis by (simp add: demo_judged demo_intents)
qed

lemma demo_infeasible: "gate_intents rr [] = [] \<Longrightarrow> \<not> rv_Feasible (gate_verdict demo_gate hints rr [])"
  by (simp add: gate_verdict_def verdict_feasible)

lemma demo_refused:
  "gate_intents rr [] = [] \<Longrightarrow> fst (fst (runReachabilityJudge demo_gate (Some c) rr [] False s)) \<noteq> []"
  by (simp add: judge_answer answer_empty demo_infeasible demo_judged)

section \<open>What the gate does not guarantee\<close>

text \<open>A dimension that contains, or is contained in, several recalled columns is resolved to the first of them in
  the order of the map: the required dimension depends on it.\<close>

lemma required_dimension_depends_on_map_order:
  "required_dim (\<lambda>xs. xs) [(''salesregion'', ''Sales.region''), (''storeregion'', ''Store.region'')] demo_hint = Some ''Sales.region''
   \<and> required_dim rev [(''salesregion'', ''Sales.region''), (''storeregion'', ''Store.region'')] demo_hint = Some ''Store.region''"
  by code_simp

text \<open>The gate of the gap tool runs only for the kind \<open>no_param\<close> (or none). A kind the code does not know skips
  it and is then recorded as \<open>no_param\<close>.\<close>

definition demo_param :: MetricIntentParameter where
  "demo_param = \<lparr>mp_Name = ''region'', mp_Type = [], mp_Property = ''region'', mp_Op = ''='', mp_Default = None, mp_Optional = True,
     mp_Description = [], mp_FuzzyMatch = False, mp_AllowedValues = [], mp_ShapeCapability = []\<rparr>"

definition demo_intent :: MetricIntent where
  "demo_intent = \<lparr>mi_IntentID = ''i'', mi_Name = ''sales'', mi_DisplayName = [], mi_ObjectID = [], mi_ObjectName = [],
     mi_CanonicalMetric = [], mi_CanonicalFilters = [], mi_AutoGroupBy = [], mi_Parameters = [demo_param], mi_PivotOn = [],
     mi_PivotValues = [], mi_PivotTotalLabel = [], mi_PivotPercentAxis = [], mi_PivotPercentScope = [], mi_PivotPercentSuffix = [],
     mi_ResponseTemplate = [], mi_Description = [], mi_Priority = 0, mi_Tier = [], mi_MatchedTokens = []\<rparr>"

definition gap_args :: "string \<Rightarrow> (string \<times> json) list" where
  "gap_args k = [(''missing_dimension'', JStr ''region''), (''gap_kind'', JStr k)]"

lemma unknown_gap_kind_skips_the_gate:
  "(\<exists>e. runDeclareCapabilityGap ''now'' False True True [demo_intent] (gap_args ''no_param'') ((None, Map.empty), [])
      = (GapRejected e, (None, Map.empty), []))
   \<and> (\<exists>a. runDeclareCapabilityGap ''now'' False True True [demo_intent] (gap_args ''noparam'') ((None, Map.empty), [])
      = (GapAccepted a, (None, Map.empty), []))
   \<and> br_Kind (gap_reason (gap_args ''noparam'') ''noparam'') = GapNoParam"
proof (intro conjI)
  have "VerifyNoParamGap ''region'' (buildIntentSpecs [demo_intent]) \<noteq> None" by code_simp
  then show "\<exists>e. runDeclareCapabilityGap ''now'' False True True [demo_intent] (gap_args ''no_param'') ((None, Map.empty), [])
      = (GapRejected e, (None, Map.empty), [])"
    by (auto simp: runDeclareCapabilityGap_def gap_args_def str_or_empty_def as_str_def)
qed (simp_all add: runDeclareCapabilityGap_def gap_args_def str_or_empty_def as_str_def gap_reason_def gap_kind_def Let_def)

end
