(* ===== verification/Plan_Mode_Props.thy ===== *)
theory Plan_Mode_Props
  imports Mission_Shadow Mission_Inv
begin

text \<open>
  What the plan mode guarantees: the features of a plan are worked on in order, one at a time, with at most
  three verdicts each; the final answer shows nothing of features that did not pass; and the shadow mission
  mirrors the ledger as long as every verdict was accepted.
\<close>

section \<open>The shape of a ledger\<close>

definition untouched :: "FeatureRuntime \<Rightarrow> bool" where
  "untouched r \<longleftrightarrow> fr_State r = StateNotStarted \<and> fr_RetryCount r = 0"

definition in_order :: "FeatureRuntime list \<Rightarrow> bool" where
  "in_order rows \<longleftrightarrow>
     list_all settled_row rows
     \<or> (\<exists>ds a ts. rows = ds @ a # ts \<and> list_all settled_row ds \<and> fr_State a = StateActive \<and> list_all untouched ts)"

definition plan_inv :: "FeatureLedger \<Rightarrow> bool" where
  "plan_inv l \<longleftrightarrow> distinct (map fr_ID (fl_rows l)) \<and> (\<forall>r \<in> set (fl_rows l). fr_ID r \<noteq> [])
     \<and> (\<forall>r \<in> set (fl_rows l). fr_RetryCount r \<le> PlanRetryBudget) \<and> in_order (fl_rows l)"

lemma settled_not:
  "settled_row r \<Longrightarrow> fr_State r \<noteq> StateNotStarted" "settled_row r \<Longrightarrow> fr_State r \<noteq> StateActive"
  by (auto simp: settled_row_def)

lemma untouched_not: "untouched r \<Longrightarrow> fr_State r \<noteq> StateActive" "untouched r \<Longrightarrow> fr_State r = StateNotStarted"
  by (auto simp: untouched_def)

lemma by_id_Some:
  assumes "by_id l i = Some k"
  shows "k < length (fl_rows l) \<and> fr_ID (fl_rows l ! k) = i"
proof -
  from assms obtain m where m: "find_index (\<lambda>r. fr_ID r = i) (rev (fl_rows l)) = Some m" "k = length (fl_rows l) - 1 - m"
    by (auto simp: by_id_def split: option.splits)
  from find_index_Some [OF m(1)] have "m < length (fl_rows l)" "fr_ID (rev (fl_rows l) ! m) = i" by auto
  with m(2) show ?thesis by (simp add: rev_nth)
qed

lemma by_id_at:
  assumes "distinct (map fr_ID rows)" "rows = xs @ r # ys" "fl_rows l = rows" "fr_ID r = i"
  shows "by_id l i = Some (length xs)"
proof (cases "by_id l i")
  case None
  then have "find_index (\<lambda>r. fr_ID r = i) (rev (fl_rows l)) = None" by (simp add: by_id_def split: option.splits)
  with assms show ?thesis by (auto simp: find_index_None)
next
  case (Some k)
  from by_id_Some [OF Some] assms(3) have k: "k < length rows" "map fr_ID rows ! k = i" by auto
  moreover have "length xs < length rows" "map fr_ID rows ! length xs = i" using assms(2,4) by (auto simp: nth_append)
  ultimately have "k = length xs" using assms(1) by (metis length_map nth_eq_iff_index_eq)
  with Some show ?thesis by simp
qed

lemma set_row_at: "fl_rows l = xs @ r # ys \<Longrightarrow> fl_rows (set_row l (length xs) r') = xs @ r' # ys"
  by (simp add: set_row_def list_update_append)

lemma set_row_pattern [simp]: "fl_pattern (set_row l k r) = fl_pattern l"
  by (simp add: set_row_def)

lemma find_none: "list_all (\<lambda>r. \<not> P r) xs \<Longrightarrow> find P xs = None"
  by (induction xs) auto

lemma find_skip: "list_all (\<lambda>r. \<not> P r) xs \<Longrightarrow> find P (xs @ ys) = find P ys"
  by (induction xs) auto

lemma settled_skip:
  assumes "list_all settled_row ds"
  shows "find (\<lambda>r. fr_State r = StateNotStarted) (ds @ ys) = find (\<lambda>r. fr_State r = StateNotStarted) ys"
    and "find (\<lambda>r. fr_State r = StateActive) (ds @ ys) = find (\<lambda>r. fr_State r = StateActive) ys"
  using assms by (auto intro!: find_skip simp: list_all_iff settled_not)

lemma untouched_none: "list_all untouched ts \<Longrightarrow> find (\<lambda>r. fr_State r = StateActive) ts = None"
  by (auto intro!: find_none simp: list_all_iff untouched_not)

section \<open>One verdict\<close>

text \<open>The rows after activating the next feature, when the rows before \<open>rest\<close> are settled.\<close>

lemma activate_next:
  assumes "fl_rows l = ds @ rest" "distinct (map fr_ID (fl_rows l))" "list_all settled_row ds"
    "list_all (\<lambda>r. fr_State r = StateNotStarted) rest" "activeFeatureBlock l = (b, l')"
  shows "fl_pattern l' = fl_pattern l
    \<and> (case rest of
         [] \<Rightarrow> b = PlanSettled \<and> l' = l
       | t # ts \<Rightarrow> b = NowActive (descriptor StateActive t) \<and> fl_rows l' = ds @ t\<lparr>fr_State := StateActive\<rparr> # ts)"
proof (cases rest)
  case Nil
  with assms(1,3,5) settled_skip [OF assms(3), of "[]"] show ?thesis
    by (auto simp: activeFeatureBlock_def PickNext_def Snapshot_def)
next
  case (Cons t ts)
  with assms(4) have t: "fr_State t = StateNotStarted" "list_all (\<lambda>r. fr_State r = StateNotStarted) ts" by auto
  have pick: "PickNext l = Some t"
    using assms(1,3) t(1) Cons by (simp add: PickNext_def settled_skip)
  have "find (\<lambda>r. fr_State r = StateActive) (t # ts) = None"
    using t by (intro find_none) (auto simp: list_all_iff)
  then have free: "find (\<lambda>r. fr_State r = StateActive) (fl_rows l) = None"
    using assms(1,3) Cons by (simp add: settled_skip)
  have at: "by_id l (fr_ID t) = Some (length ds)"
    using by_id_at [OF assms(2), of ds t ts l "fr_ID t"] assms(1) Cons by simp
  have row: "fl_rows l ! length ds = t" using assms(1) Cons by simp
  have "Activate l (fr_ID t) = (set_row l (length ds) (t\<lparr>fr_State := StateActive\<rparr>), None)"
    by (simp add: Activate_def at row t(1) free Let_def)
  with assms(5) pick have "b = NowActive (descriptor StateActive t)" "l' = set_row l (length ds) (t\<lparr>fr_State := StateActive\<rparr>)"
    by (auto simp: activeFeatureBlock_def)
  with assms(1) Cons show ?thesis by (simp add: set_row_at)
qed

lemma requireActive_iff:
  assumes "fl_rows l = ds @ a # ts" "distinct (map fr_ID (fl_rows l))" "list_all settled_row ds"
    "fr_State a = StateActive" "list_all untouched ts"
  shows "requireActive l i = Inr k \<longleftrightarrow> i = fr_ID a \<and> k = length ds"
proof
  assume "requireActive l i = Inr k"
  then have "by_id l i = Some k" and active: "fr_State (fl_rows l ! k) = StateActive"
    by (auto simp: requireActive_def split: option.splits if_splits)
  from by_id_Some [OF this(1)] have k: "k < length (fl_rows l)" "fr_ID (fl_rows l ! k) = i" by auto
  have "k = length ds"
  proof (rule ccontr)
    assume "k \<noteq> length ds"
    with k(1) assms(1) have "fl_rows l ! k \<in> set ds \<or> fl_rows l ! k \<in> set ts"
      by (auto simp: nth_append nth_Cons')
    with assms(3,5) active show False by (auto simp: list_all_iff settled_not untouched_not)
  qed
  with k assms(1) show "i = fr_ID a \<and> k = length ds" by simp
next
  assume "i = fr_ID a \<and> k = length ds"
  then show "requireActive l i = Inr k"
    using by_id_at [OF assms(2), of ds a ts l i] assms(1,4) by (simp add: requireActive_def)
qed

lemma requireActive_settled:
  assumes "list_all settled_row (fl_rows l)"
  shows "requireActive l i \<noteq> Inr k"
proof
  assume "requireActive l i = Inr k"
  then have "by_id l i = Some k" "fr_State (fl_rows l ! k) = StateActive"
    by (auto simp: requireActive_def split: option.splits if_splits)
  with by_id_Some [OF this(1)] assms show False by (auto simp: list_all_length settled_not)
qed

text \<open>What an accepted verdict does to the row of the active feature.\<close>

definition verdict_row :: "string \<Rightarrow> FeatureRuntime \<Rightarrow> FeatureRuntime \<Rightarrow> bool" where
  "verdict_row result a a' \<longleftrightarrow> fr_ID a' = fr_ID a \<and> fr_Behavior a' = fr_Behavior a
     \<and> ((result = ''passing'' \<and> fr_State a' = StatePassing \<and> fr_RetryCount a' = fr_RetryCount a)
        \<or> (result = ''blocked'' \<and> fr_State a' = StateBlocked \<and> fr_RetryCount a' = fr_RetryCount a)
        \<or> (result = ''retry'' \<and> fr_State a' = StateNotStarted \<and> fr_RetryCount a < PlanRetryBudget
            \<and> fr_RetryCount a' = fr_RetryCount a + 1))"

lemma retry_error: "RetryFeature l i ev = (l', Some e) \<Longrightarrow> l' = l"
  by (auto simp: RetryFeature_def Let_def split: sum.splits if_splits)

lemma verdict_refused:
  assumes "requireActive l i = Inl e"
  shows "apply_verdict l args i v \<noteq> Some ((l1, None), result)"
proof -
  have ops: "PassFeature l i ev = (l, Some e)" "RetryFeature l i ev = (l, Some e)" "BlockFeature l i ev = (l, Some e)" for ev
    using assms by (simp_all add: PassFeature_def RetryFeature_def BlockFeature_def)
  show ?thesis by (cases e) (simp_all add: apply_verdict_def Let_def ops)
qed

text \<open>The verdicts on the active feature, one by one.\<close>

lemma verdict_pass:
  "requireActive l i = Inr k \<Longrightarrow> apply_verdict l args i ''pass'' =
     Some ((set_row l k ((fl_rows l ! k)\<lparr>fr_State := StatePassing, fr_Evidence := Some (verify_evidence args)\<rparr>), None), ''passing'')"
  by (simp add: apply_verdict_def PassFeature_def Let_def)

lemma verdict_block:
  "requireActive l i = Inr k \<Longrightarrow> apply_verdict l args i ''blocked'' =
     Some ((set_row l k ((fl_rows l ! k)\<lparr>fr_State := StateBlocked,
       fr_Evidence := Some (with_error (strArg args ''reasoning'') (verify_evidence args))\<rparr>), None), ''blocked'')"
  by (simp add: apply_verdict_def BlockFeature_def Let_def)

lemma verdict_fail:
  "requireActive l i = Inr k \<Longrightarrow> apply_verdict l args i ''fail'' =
     (if PlanRetryBudget \<le> fr_RetryCount (fl_rows l ! k)
      then Some ((set_row l k ((fl_rows l ! k)\<lparr>fr_State := StateBlocked,
             fr_Evidence := Some (with_error retries_exhausted (verify_evidence args))\<rparr>), None), ''blocked'')
      else Some ((set_row l k ((fl_rows l ! k)\<lparr>fr_RetryCount := fr_RetryCount (fl_rows l ! k) + 1,
             fr_State := StateNotStarted, fr_Evidence := Some (verify_evidence args)\<rparr>), None), ''retry''))"
  by (simp add: apply_verdict_def BlockFeature_def RetryFeature_def Let_def)

lemma verdict_unknown:
  "v \<notin> {''pass'', ''fail'', ''blocked''} \<Longrightarrow> apply_verdict l args i v = None"
  by (simp add: apply_verdict_def)

lemma verdict_appliedI:
  assumes "requireActive l i = Inr k" "verdict_row res (fl_rows l ! k) r'"
    and "Some ((set_row l k r', None), res) = Some ((l1, None), result)"
  shows "\<exists>k r'. requireActive l i = Inr k \<and> l1 = set_row l k r' \<and> verdict_row result (fl_rows l ! k) r'"
  using assms by auto

lemma verdict_applied:
  assumes "apply_verdict l args i v = Some ((l1, None), result)"
  shows "\<exists>k r'. requireActive l i = Inr k \<and> l1 = set_row l k r' \<and> verdict_row result (fl_rows l ! k) r'"
proof (cases "requireActive l i")
  case (Inl e)
  with assms verdict_refused show ?thesis by blast
next
  case (Inr k)
  consider "v = ''pass''" | "v = ''fail''" | "v = ''blocked''"
    using assms verdict_unknown by force
  then show ?thesis
  proof cases
    case 1
    show ?thesis
      by (rule verdict_appliedI [OF Inr _ assms [unfolded 1 verdict_pass [OF Inr]]]) (simp add: verdict_row_def)
  next
    case 2
    show ?thesis
    proof (cases "PlanRetryBudget \<le> fr_RetryCount (fl_rows l ! k)")
      case True
      show ?thesis
        by (rule verdict_appliedI [OF Inr _ assms [unfolded 2 verdict_fail [OF Inr] if_P [OF True]]]) (simp add: verdict_row_def)
    next
      case False
      then show ?thesis
        by (intro verdict_appliedI [OF Inr _ assms [unfolded 2 verdict_fail [OF Inr] if_not_P [OF False]]])
          (simp add: verdict_row_def)
    qed
  next
    case 3
    show ?thesis
      by (rule verdict_appliedI [OF Inr _ assms [unfolded 3 verdict_block [OF Inr]]]) (simp add: verdict_row_def)
  qed
qed

lemma verdict_accepted:
  assumes "requireActive l i = Inr k" "v \<in> {''pass'', ''fail'', ''blocked''}"
  shows "\<exists>l1 result. apply_verdict l args i v = Some ((l1, None), result)"
proof -
  consider "v = ''pass''" | "v = ''fail''" | "v = ''blocked''" using assms(2) by blast
  then show ?thesis
  proof cases
    case 1
    show ?thesis unfolding 1 verdict_pass [OF assms(1)] by blast
  next
    case 2
    show ?thesis unfolding 2 verdict_fail [OF assms(1)] by (cases "PlanRetryBudget \<le> fr_RetryCount (fl_rows l ! k)") simp_all
  next
    case 3
    show ?thesis unfolding 3 verdict_block [OF assms(1)] by blast
  qed
qed

lemma verdict_row_cases:
  "verdict_row result a a' \<Longrightarrow> settled_row a' \<or> fr_State a' = StateNotStarted"
  by (auto simp: verdict_row_def settled_row_def)

lemma verify_Inr:
  assumes "runVerifyFeature (Some ps) args = (Inr r, st')"
  obtains l1 l2 b where
    "apply_verdict (ps_ledger ps) args (strArg args ''featureId'') (strArg args ''verdict'') = Some ((l1, None), vr_outcome r)"
    "activeFeatureBlock l1 = (b, l2)" "st' = Some (ps\<lparr>ps_ledger := l2\<rparr>)" "vr_next r = b" "vr_progress r = CountByState l1"
proof (cases "apply_verdict (ps_ledger ps) args (strArg args ''featureId'') (strArg args ''verdict'')")
  case None
  with assms show thesis by (simp add: runVerifyFeature_def Let_def split: if_splits)
next
  case (Some x)
  obtain l1 e result where x: "x = ((l1, e), result)" by (cases x) auto
  obtain b l2 where blk: "activeFeatureBlock l1 = (b, l2)" by fastforce
  show thesis
  proof (cases e)
    case None
    with assms Some x blk that [of l1 b l2] show thesis
      by (auto simp: runVerifyFeature_def Let_def split: if_splits)
  next
    case (Some e')
    with assms \<open>apply_verdict _ _ _ _ = Some x\<close> x show thesis
      by (simp add: runVerifyFeature_def Let_def split: if_splits)
  qed
qed

text \<open>An accepted verdict: the rows before and after.\<close>

lemma verify_accepted:
  assumes "runVerifyFeature (Some ps) args = (Inr r, st')" "plan_inv (ps_ledger ps)"
  obtains ps' ds a ts a' where "st' = Some ps'" "fl_pattern (ps_ledger ps') = fl_pattern (ps_ledger ps)"
    "fl_rows (ps_ledger ps) = ds @ a # ts" "list_all settled_row ds" "fr_State a = StateActive" "list_all untouched ts"
    "fr_ID a = strArg args ''featureId''" "verdict_row (vr_outcome r) a a'"
    "fl_rows (ps_ledger ps') =
       ds @ (if settled_row a' then a' # (case ts of [] \<Rightarrow> [] | t # ts' \<Rightarrow> t\<lparr>fr_State := StateActive\<rparr> # ts')
             else a'\<lparr>fr_State := StateActive\<rparr> # ts)"
proof -
  let ?l = "ps_ledger ps" and ?i = "strArg args ''featureId''"
  from assms(1) obtain l1 l2 b where app: "apply_verdict ?l args ?i (strArg args ''verdict'') = Some ((l1, None), vr_outcome r)"
    and blk: "activeFeatureBlock l1 = (b, l2)" and st': "st' = Some (ps\<lparr>ps_ledger := l2\<rparr>)" by (rule verify_Inr)
  from verdict_applied [OF app] obtain k a' where act: "requireActive ?l ?i = Inr k" and l1: "l1 = set_row ?l k a'"
    and row: "verdict_row (vr_outcome r) (fl_rows ?l ! k) a'" by blast
  from assms(2) have dist: "distinct (map fr_ID (fl_rows ?l))" and order: "in_order (fl_rows ?l)" by (auto simp: plan_inv_def)
  from order act requireActive_settled obtain ds a ts where rows: "fl_rows ?l = ds @ a # ts" "list_all settled_row ds"
    "fr_State a = StateActive" "list_all untouched ts" by (auto simp: in_order_def)
  with act requireActive_iff [OF rows(1) dist rows(2-4)] have k: "?i = fr_ID a" "k = length ds" by auto
  from row k rows(1) have row: "verdict_row (vr_outcome r) a a'" by simp
  have l1_rows: "fl_rows l1 = ds @ a' # ts" using l1 k(2) rows(1) set_row_at by simp
  then have dist1: "distinct (map fr_ID (fl_rows l1))" using dist rows(1) row by (simp add: verdict_row_def)
  have ts: "list_all (\<lambda>r. fr_State r = StateNotStarted) ts" using rows(4) by (auto simp: list_all_iff untouched_not)
  have "fl_pattern l2 = fl_pattern l1 \<and> fl_rows l2 =
      ds @ (if settled_row a' then a' # (case ts of [] \<Rightarrow> [] | t # ts' \<Rightarrow> t\<lparr>fr_State := StateActive\<rparr> # ts')
            else a'\<lparr>fr_State := StateActive\<rparr> # ts)"
  proof (cases "settled_row a'")
    case True
    with rows(2) have "list_all settled_row (ds @ [a'])" by simp
    from activate_next [of l1 "ds @ [a']" ts, OF _ dist1 this ts blk] l1_rows True show ?thesis
      by (cases ts) auto
  next
    case False
    with verdict_row_cases [OF row] ts have "list_all (\<lambda>r. fr_State r = StateNotStarted) (a' # ts)" by simp
    from activate_next [of l1 ds "a' # ts", OF l1_rows dist1 rows(2) this blk] False show ?thesis by simp
  qed
  with that [of "ps\<lparr>ps_ledger := l2\<rparr>" ds a ts a'] st' rows k(1) row l1 show thesis by auto
qed

section \<open>Order and end of a plan\<close>

lemma in_orderI:
  "list_all settled_row ds \<Longrightarrow> fr_State a = StateActive \<Longrightarrow> list_all untouched ts \<Longrightarrow> in_order (ds @ a # ts)"
  unfolding in_order_def by blast

lemma same_images:
  assumes "map f xs = map g ys" "\<forall>y \<in> set ys. P (g y)"
  shows "\<forall>x \<in> set xs. P (f x)"
proof -
  have "f ` set xs = g ` set ys" using arg_cong [OF assms(1), of set] by simp
  then show ?thesis using assms(2) by (metis imageE imageI)
qed

lemma verify_inv:
  assumes "runVerifyFeature (Some ps) args = (Inr r, st')" "plan_inv (ps_ledger ps)"
  obtains ps' where "st' = Some ps'" "plan_inv (ps_ledger ps')" "fl_pattern (ps_ledger ps') = fl_pattern (ps_ledger ps)"
proof -
  from verify_accepted [OF assms] obtain ps' ds a ts a' where st: "st' = Some ps'" "fl_pattern (ps_ledger ps') = fl_pattern (ps_ledger ps)"
    and rows: "fl_rows (ps_ledger ps) = ds @ a # ts" "list_all settled_row ds" "fr_State a = StateActive" "list_all untouched ts"
    and row: "verdict_row (vr_outcome r) a a'"
    and rows': "fl_rows (ps_ledger ps') =
       ds @ (if settled_row a' then a' # (case ts of [] \<Rightarrow> [] | t # ts' \<Rightarrow> t\<lparr>fr_State := StateActive\<rparr> # ts')
             else a'\<lparr>fr_State := StateActive\<rparr> # ts)" by metis
  have same: "map fr_ID (fl_rows (ps_ledger ps')) = map fr_ID (fl_rows (ps_ledger ps))"
    using rows' rows(1) row by (cases ts) (auto simp: verdict_row_def)
  have "fr_RetryCount x \<le> PlanRetryBudget" if "x \<in> set (fl_rows (ps_ledger ps'))" for x
    using that rows' rows(1) row assms(2) by (cases ts) (auto simp: plan_inv_def verdict_row_def split: if_splits)
  moreover have "in_order (fl_rows (ps_ledger ps'))"
  proof (cases "settled_row a'")
    case False
    with rows' show ?thesis by (simp add: in_orderI rows(2,4))
  next
    case True
    show ?thesis
    proof (cases ts)
      case Nil
      with True rows' rows(2) show ?thesis by (simp add: in_order_def)
    next
      case (Cons t ts')
      with True rows' rows(2,4) in_orderI [of "ds @ [a']" "t\<lparr>fr_State := StateActive\<rparr>" ts'] show ?thesis by simp
    qed
  qed
  moreover have "\<forall>x \<in> set (fl_rows (ps_ledger ps')). fr_ID x \<noteq> []"
    using assms(2) same_images [OF same, of "\<lambda>i. i \<noteq> []"] by (simp add: plan_inv_def)
  ultimately have "plan_inv (ps_ledger ps')"
    using assms(2) same by (simp add: plan_inv_def)
  with st that show thesis by blast
qed

text \<open>The verdicts a ledger can still accept.\<close>

definition row_work :: "FeatureRuntime \<Rightarrow> nat" where
  "row_work r = (if settled_row r then 0 else PlanRetryBudget + 1 - fr_RetryCount r)"

definition plan_work :: "FeatureLedger \<Rightarrow> nat" where
  "plan_work l = sum_list (map row_work (fl_rows l))"

lemma verify_work:
  assumes "runVerifyFeature (Some ps) args = (Inr r, Some ps')" "plan_inv (ps_ledger ps)"
  shows "plan_work (ps_ledger ps') < plan_work (ps_ledger ps)"
proof -
  from verify_accepted [OF assms] obtain ds a ts a' where
    rows: "fl_rows (ps_ledger ps) = ds @ a # ts" "fr_State a = StateActive" "list_all untouched ts"
    and row: "verdict_row (vr_outcome r) a a'"
    and rows': "fl_rows (ps_ledger ps') =
       ds @ (if settled_row a' then a' # (case ts of [] \<Rightarrow> [] | t # ts' \<Rightarrow> t\<lparr>fr_State := StateActive\<rparr> # ts')
             else a'\<lparr>fr_State := StateActive\<rparr> # ts)" by (metis option.inject)
  have a: "row_work a = PlanRetryBudget + 1 - fr_RetryCount a" "fr_RetryCount a \<le> PlanRetryBudget"
    using rows(1,2) assms(2) by (auto simp: row_work_def settled_row_def plan_inv_def)
  show ?thesis
  proof (cases "settled_row a'")
    case True
    have "sum_list (map row_work (case ts of [] \<Rightarrow> [] | t # ts' \<Rightarrow> t\<lparr>fr_State := StateActive\<rparr> # ts')) = sum_list (map row_work ts)"
      using rows(3) by (cases ts) (auto simp: row_work_def settled_row_def untouched_def)
    with True rows' rows(1) a show ?thesis by (simp add: plan_work_def row_work_def)
  next
    case False
    with row have "fr_RetryCount a < PlanRetryBudget" "fr_RetryCount a' = fr_RetryCount a + 1"
      by (auto simp: verdict_row_def settled_row_def)
    moreover have "row_work (a'\<lparr>fr_State := StateActive\<rparr>) = PlanRetryBudget + 1 - fr_RetryCount a'"
      by (simp add: row_work_def settled_row_def)
    ultimately show ?thesis using False rows' rows(1) a by (simp add: plan_work_def)
  qed
qed

lemma verdict_error:
  assumes "apply_verdict l args i v = Some ((l1, Some e), result)"
  shows "l1 = l"
proof (cases "requireActive l i")
  case (Inl e')
  then have ops: "PassFeature l i ev = (l, Some e')" "RetryFeature l i ev = (l, Some e')" "BlockFeature l i ev = (l, Some e')" for ev
    by (simp_all add: PassFeature_def RetryFeature_def BlockFeature_def)
  from assms show ?thesis by (cases e') (auto simp: apply_verdict_def Let_def ops split: if_splits)
next
  case (Inr k)
  have "v \<in> {''pass'', ''fail'', ''blocked''}" using assms verdict_unknown by force
  from verdict_accepted [OF Inr this, of args] assms show ?thesis by auto
qed

text \<open>A refused verdict leaves the plan as it was.\<close>

lemma verify_refused:
  assumes "runVerifyFeature (Some ps) args = (Inl e, st')"
  shows "st' = Some ps"
proof (cases "apply_verdict (ps_ledger ps) args (strArg args ''featureId'') (strArg args ''verdict'')")
  case None
  with assms show ?thesis by (auto simp: runVerifyFeature_def Let_def split: if_splits)
next
  case (Some x)
  obtain l1 d result where x: "x = ((l1, d), result)" by (cases x) auto
  obtain b l2 where blk: "activeFeatureBlock l1 = (b, l2)" by fastforce
  show ?thesis
  proof (cases d)
    case None
    with assms Some x blk show ?thesis by (auto simp: runVerifyFeature_def Let_def split: if_splits)
  next
    case (Some d')
    with \<open>apply_verdict _ _ _ _ = Some x\<close> x verdict_error have "l1 = ps_ledger ps" by blast
    with assms \<open>apply_verdict _ _ _ _ = Some x\<close> x Some show ?thesis
      by (auto simp: runVerifyFeature_def Let_def split: if_splits)
  qed
qed

lemma plan_work_zero: "plan_inv l \<Longrightarrow> plan_work l = 0 \<Longrightarrow> AllSettled l"
proof -
  assume l: "plan_inv l" "plan_work l = 0"
  have "settled_row r" if "r \<in> set (fl_rows l)" for r
  proof (rule ccontr)
    assume "\<not> settled_row r"
    with that l(1) have "0 < row_work r" by (auto simp: row_work_def plan_inv_def)
    moreover have "row_work r \<le> plan_work l" using that by (simp add: plan_work_def member_le_sum_list)
    ultimately show False using l(2) by simp
  qed
  then show ?thesis by (simp add: AllSettled_def list_all_iff)
qed

lemma start_Inr:
  assumes "runStartAnalysisPlan decode okEntries args = Inr (ps, fs, b)"
  obtains entry :: OkEntry and p where "ParseAnalysisPattern decode (ok_SkillConfig entry) = Inr p"
    "activeFeatureBlock (NewFeatureLedger p) = (b, ps_ledger ps)"
proof -
  from assms obtain entry where e: "find (\<lambda>e. ok_ID e = str_or_empty (map_of args ''patternId'')) okEntries = Some entry"
    "IsAnalysisPattern entry" "str_or_empty (map_of args ''patternId'') \<noteq> []"
    by (auto simp: runStartAnalysisPlan_def Let_def split: if_splits option.splits)
  show thesis
  proof (cases "ParseAnalysisPattern decode (ok_SkillConfig entry)")
    case (Inl x)
    with assms e show thesis by (simp add: runStartAnalysisPlan_def Let_def)
  next
    case (Inr p)
    obtain b' l' where blk: "activeFeatureBlock (NewFeatureLedger p) = (b', l')" by fastforce
    with assms e Inr have "b = b'" "ps_ledger ps = l'" by (auto simp: runStartAnalysisPlan_def Let_def)
    with blk that [OF Inr] show thesis by simp
  qed
qed

lemma new_plan:
  assumes "runStartAnalysisPlan decode okEntries args = Inr (ps, fs, b)"
  shows "plan_inv (ps_ledger ps) \<and> plan_work (ps_ledger ps) = 3 * length (fl_rows (ps_ledger ps))
    \<and> fl_rows (ps_ledger ps) \<noteq> [] \<and> list_all (\<lambda>r. fr_RetryCount r = 0 \<and> \<not> settled_row r) (fl_rows (ps_ledger ps))"
proof -
  from assms obtain entry :: OkEntry and p where p: "ParseAnalysisPattern decode (ok_SkillConfig entry) = Inr p"
    and blk: "activeFeatureBlock (NewFeatureLedger p) = (b, ps_ledger ps)" by (rule start_Inr)
  let ?l = "NewFeatureLedger p"
  obtain f fs' where f: "ap_Features p = f # fs'" using parsed_pattern [OF p] by (cases "ap_Features p") auto
  have rows: "fl_rows ?l = new_row f # map new_row fs'" by (simp add: NewFeatureLedger_def f)
  have ids: "map fr_ID (fl_rows ?l) = map af_ID (ap_Features p)" by (simp add: NewFeatureLedger_def new_row_def comp_def)
  have dist: "distinct (map fr_ID (fl_rows ?l))" using ids parsed_pattern [OF p] by simp
  have fresh: "list_all (\<lambda>r. fr_State r = StateNotStarted) (fl_rows ?l)" by (simp add: NewFeatureLedger_def list_all_iff new_row_def)
  from activate_next [of ?l "[]" "fl_rows ?l", OF _ dist _ fresh blk] rows
  have rows': "fl_rows (ps_ledger ps) = (new_row f)\<lparr>fr_State := StateActive\<rparr> # map new_row fs'" by simp
  have "map fr_ID (fl_rows (ps_ledger ps)) = map af_ID (ap_Features p)" using rows' f by (simp add: new_row_def comp_def)
  then have "distinct (map fr_ID (fl_rows (ps_ledger ps)))" "\<forall>r \<in> set (fl_rows (ps_ledger ps)). fr_ID r \<noteq> []"
    using parsed_pattern [OF p] same_images [of fr_ID _ af_ID "ap_Features p" "\<lambda>i. i \<noteq> []"] by auto
  moreover have "in_order (fl_rows (ps_ledger ps))"
    using in_orderI [of "[]" "(new_row f)\<lparr>fr_State := StateActive\<rparr>" "map new_row fs'"]
    by (simp add: rows' list_all_iff untouched_def new_row_def)
  moreover have "sum_list (map row_work (map new_row fs')) = 3 * length fs'"
    by (induction fs') (auto simp: row_work_def new_row_def settled_row_def PlanRetryBudget_def)
  ultimately show ?thesis using rows'
    by (auto simp: plan_inv_def plan_work_def row_work_def new_row_def settled_row_def PlanRetryBudget_def list_all_iff)
qed

text \<open>A sequence of verdicts: how many were accepted, and the plan after them.\<close>

primrec run_verdicts ::
  "analysisPlanState option \<Rightarrow> (string \<times> json) list list \<Rightarrow> nat \<times> analysisPlanState option" where
  "run_verdicts st [] = (0, st)"
| "run_verdicts st (args # rest) =
     (case runVerifyFeature st args of
        (Inl _, st') \<Rightarrow> run_verdicts st' rest
      | (Inr _, st') \<Rightarrow> (case run_verdicts st' rest of (n, st'') \<Rightarrow> (Suc n, st'')))"

lemma run_verdicts_inv:
  assumes "run_verdicts (Some ps) calls = (n, st')" "plan_inv (ps_ledger ps)"
  shows "\<exists>ps'. st' = Some ps' \<and> plan_inv (ps_ledger ps') \<and> n + plan_work (ps_ledger ps') \<le> plan_work (ps_ledger ps)"
  using assms
proof (induction calls arbitrary: ps n st')
  case (Cons args rest)
  obtain res st1 where v: "runVerifyFeature (Some ps) args = (res, st1)" by fastforce
  show ?case
  proof (cases res)
    case (Inl e)
    with v verify_refused have "st1 = Some ps" by blast
    with Inl v Cons show ?thesis by simp
  next
    case (Inr r)
    with v Cons.prems(2) verify_inv obtain ps1 where ps1: "st1 = Some ps1" "plan_inv (ps_ledger ps1)" by metis
    obtain m st2 where rest: "run_verdicts (Some ps1) rest = (m, st2)" by fastforce
    from Cons.IH [OF rest ps1(2)] obtain ps' where "st2 = Some ps'" "plan_inv (ps_ledger ps')"
      "m + plan_work (ps_ledger ps') \<le> plan_work (ps_ledger ps1)" by blast
    moreover have "plan_work (ps_ledger ps1) < plan_work (ps_ledger ps)"
      using verify_work v Inr ps1(1) Cons.prems(2) by blast
    moreover have "n = Suc m" "st' = st2" using Cons.prems(1) v Inr ps1(1) rest by auto
    ultimately show ?thesis by auto
  qed
qed auto

text \<open>C13: A plan accepts at most three verdicts per feature, and until all features are settled exactly one is
  active, all before it are settled, all after it untouched, and every verdict on it is accepted.\<close>

lemma plans_end_in_order:
  assumes "runStartAnalysisPlan decode okEntries args = Inr (ps, fs, b)"
    and "run_verdicts (Some ps) calls = (n, st)"
  shows "\<exists>ps'. st = Some ps' \<and> n \<le> 3 * length (fl_rows (ps_ledger ps))
    \<and> (AllSettled (ps_ledger ps')
      \<or> (\<exists>ds a ts. fl_rows (ps_ledger ps') = ds @ a # ts \<and> list_all settled_row ds \<and> fr_State a = StateActive
          \<and> list_all untouched ts
          \<and> (\<forall>v. strArg v ''featureId'' = fr_ID a \<and> strArg v ''verdict'' \<in> {''pass'', ''fail'', ''blocked''}
               \<longrightarrow> (\<exists>r. fst (runVerifyFeature (Some ps') v) = Inr r))))"
proof -
  from new_plan [OF assms(1)] have "plan_inv (ps_ledger ps)" "plan_work (ps_ledger ps) = 3 * length (fl_rows (ps_ledger ps))" by auto
  with run_verdicts_inv [OF assms(2)] obtain ps' where ps': "st = Some ps'" "plan_inv (ps_ledger ps')"
    "n + plan_work (ps_ledger ps') \<le> 3 * length (fl_rows (ps_ledger ps))" by auto
  show ?thesis
  proof (cases "AllSettled (ps_ledger ps')")
    case True
    with ps' show ?thesis by auto
  next
    case False
    let ?l = "ps_ledger ps'"
    from ps'(2) have dist: "distinct (map fr_ID (fl_rows ?l))" and ids: "\<forall>r \<in> set (fl_rows ?l). fr_ID r \<noteq> []"
      by (auto simp: plan_inv_def)
    from False ps'(2) obtain ds a ts where rows: "fl_rows ?l = ds @ a # ts" "list_all settled_row ds"
      "fr_State a = StateActive" "list_all untouched ts" by (auto simp: plan_inv_def in_order_def AllSettled_def)
    have "\<exists>r. fst (runVerifyFeature (Some ps') v) = Inr r"
      if v: "strArg v ''featureId'' = fr_ID a" "strArg v ''verdict'' \<in> {''pass'', ''fail'', ''blocked''}" for v
    proof -
      have "requireActive ?l (fr_ID a) = Inr (length ds)" using requireActive_iff [OF rows(1) dist rows(2-4)] by simp
      from verdict_accepted [OF this v(2)] obtain l1 result where
        "apply_verdict ?l v (fr_ID a) (strArg v ''verdict'') = Some ((l1, None), result)" by blast
      moreover have "fr_ID a \<noteq> []" using ids rows(1) by simp
      ultimately show ?thesis using v(1) by (simp add: runVerifyFeature_def Let_def split: prod.splits)
    qed
    with rows ps' show ?thesis by (intro exI [of _ ps'] conjI disjI2 exI [of _ ds] exI [of _ a] exI [of _ ts]) auto
  qed
qed

section \<open>The final answer\<close>

text \<open>What the answer may depend on: of a feature that did not pass only its description and its error.\<close>

definition same_public :: "FeatureRuntime \<Rightarrow> FeatureRuntime \<Rightarrow> bool" where
  "same_public r r' \<longleftrightarrow> fr_ID r = fr_ID r' \<and> fr_Behavior r = fr_Behavior r' \<and> fr_State r = fr_State r'
     \<and> map_option fe_Error (fr_Evidence r) = map_option fe_Error (fr_Evidence r')
     \<and> (fr_State r = StatePassing \<longrightarrow> fr_Evidence r = fr_Evidence r')"

lemma same_public_view: "same_public r r' \<Longrightarrow> fr_ID r = fr_ID r' \<and> view_of r = view_of r'"
  by (cases "fr_Evidence r"; cases "fr_Evidence r'") (auto simp: same_public_def view_of_def)

lemma same_public_line: "same_public r r' \<Longrightarrow> blocked_line r = blocked_line r'"
  by (cases "fr_Evidence r"; cases "fr_Evidence r'") (auto simp: same_public_def blocked_line_def)

lemma same_public_block: "list_all2 same_public rows rows' \<Longrightarrow> blocked_block rows = blocked_block rows'"
proof -
  assume same: "list_all2 same_public rows rows'"
  then have "map blocked_line (filter (\<lambda>r. fr_State r = StateBlocked) rows)
      = map blocked_line (filter (\<lambda>r. fr_State r = StateBlocked) rows')"
    by (induction rule: list_all2_induct) (auto simp: same_public_line, auto simp: same_public_def)
  moreover from this have "filter (\<lambda>r. fr_State r = StateBlocked) rows = [] \<longleftrightarrow> filter (\<lambda>r. fr_State r = StateBlocked) rows' = []"
    by (metis map_is_Nil_conv)
  ultimately show ?thesis unfolding blocked_block_def Let_def by presburger
qed

text \<open>C17: The rendered answer depends on a feature that did not pass only through its id, its behaviour
  and its error: what the model attached as summary, value or row count never appears.\<close>

lemma unpassed_evidence_never_leaks:
  assumes "list_all2 same_public (fl_rows l) (fl_rows l')" "fl_pattern l = fl_pattern l'"
  shows "RenderSynthesis engine (Some l) = RenderSynthesis engine (Some l')"
proof -
  have "map (\<lambda>r. (fr_ID r, view_of r)) (fl_rows l) = map (\<lambda>r. (fr_ID r, view_of r)) (fl_rows l')"
    using assms(1) by (induction rule: list_all2_induct) (simp_all add: same_public_view)
  with same_public_block [OF assms(1)] assms(2) show ?thesis
    by (simp add: RenderSynthesis_def Snapshot_def Let_def split: sum.split)
qed

section \<open>Witnesses\<close>

definition demo_feature :: AnalysisFeature where
  "demo_feature = \<lparr>af_ID = ''f'', af_Behavior = ''b'', af_Verification = ''v'', af_ToolHints = []\<rparr>"

definition demo_pattern :: AnalysisPattern where
  "demo_pattern = \<lparr>ap_TriggerKeywords = [], ap_StructuralHints = [], ap_Features = [demo_feature],
     ap_Template = ''t'', ap_Caveats = [''c'']\<rparr>"

definition demo_card :: OkEntry where
  "demo_card = \<lparr>ok_ID = ''p'', ok_Title = ''title'', ok_Summary = [], ok_Tokens = [], ok_EntryType = ''analysis'',
     ok_AnchorType = ''analysis_pattern'', ok_SkillConfig = ''{}''\<rparr>"

definition demo_ledger :: FeatureLedger where
  "demo_ledger = \<lparr>fl_pattern = demo_pattern, fl_rows = [(new_row demo_feature)\<lparr>fr_State := StateActive\<rparr>]\<rparr>"

definition demo_plan :: analysisPlanState where
  "demo_plan = \<lparr>ps_ledger = demo_ledger, ps_patternID = ''p'', ps_patternName = ''title''\<rparr>"

lemma demo_start:
  "\<exists>fs b. runStartAnalysisPlan (\<lambda>_. Some demo_pattern) [demo_card] [(''patternId'', JStr ''p'')] = Inr (demo_plan, fs, b)"
  by (simp add: runStartAnalysisPlan_def str_or_empty_def as_str_def demo_card_def IsAnalysisPattern_def
      ParseAnalysisPattern_def demo_pattern_def demo_feature_def NewFeatureLedger_def new_row_def
      activeFeatureBlock_def PickNext_def Activate_def by_id_def set_row_def demo_plan_def demo_ledger_def)

definition demo_verdict :: "string \<Rightarrow> (string \<times> json) list" where
  "demo_verdict v = [(''featureId'', JStr ''f''), (''verdict'', JStr v)]"

lemma plans_end_in_order_witness:
  "\<exists>n ps'. run_verdicts (Some demo_plan) [demo_verdict ''fail'', demo_verdict ''maybe'', demo_verdict ''pass'']
       = (n, Some ps') \<and> n \<le> 3"
proof -
  obtain n st where run: "run_verdicts (Some demo_plan) [demo_verdict ''fail'', demo_verdict ''maybe'', demo_verdict ''pass''] = (n, st)"
    by fastforce
  from demo_start obtain fs b where
    "runStartAnalysisPlan (\<lambda>_. Some demo_pattern) [demo_card] [(''patternId'', JStr ''p'')] = Inr (demo_plan, fs, b)" by blast
  from plans_end_in_order [OF this run] run show ?thesis by (auto simp: demo_plan_def demo_ledger_def)
qed

definition demo_blocked :: "string \<Rightarrow> FeatureLedger" where
  "demo_blocked summary =
     \<lparr>fl_pattern = demo_pattern,
      fl_rows = [(new_row demo_feature)\<lparr>fr_State := StateBlocked, fr_Evidence := Some
        \<lparr>fe_Tool = [], fe_Args = [], fe_Summary = summary, fe_Reasoning = [], fe_RowCount = 0, fe_Value = [],
         fe_Error = ''none''\<rparr>\<rparr>]\<rparr>"

lemma unpassed_evidence_never_leaks_witness:
  "RenderSynthesis (\<lambda>t f. Inr t) (Some (demo_blocked ''7 rows'')) = RenderSynthesis (\<lambda>t f. Inr t) (Some (demo_blocked []))"
  using unpassed_evidence_never_leaks [of "demo_blocked ''7 rows''" "demo_blocked []" "\<lambda>t f. Inr t"]
  by (simp add: demo_blocked_def same_public_def new_row_def demo_feature_def)

end
