(* ===== verification/Plan_Mirror.thy ===== *)
theory Plan_Mirror
  imports Plan_Mode_Props
begin

text \<open>
  The shadow mission as a mirror of the plan: with every accepted verdict the task of a feature follows the
  state of the feature. A rejected verdict, which the tool dispatch passes on to the shadow without its
  error, breaks the mirror.
\<close>

section \<open>The mirror\<close>

definition mirror_status :: "FeatureRuntime \<Rightarrow> TaskStatus" where
  "mirror_status r =
     (case fr_State r of
        StatePassing \<Rightarrow> TaskPassing
      | StateBlocked \<Rightarrow> TaskBlocked
      | _ \<Rightarrow> if fr_RetryCount r = 0 then TaskPending else TaskPendingRetry)"

definition mirrors_row :: "FeatureRuntime \<Rightarrow> Task \<Rightarrow> bool" where
  "mirrors_row r t \<longleftrightarrow> t_ID t = fr_ID r \<and> t_Status t = mirror_status r
     \<and> t_RetryBudget t = int PlanRetryBudget - int (fr_RetryCount r)"

definition mirrors :: "FeatureLedger \<Rightarrow> Mission \<Rightarrow> bool" where
  "mirrors l m \<longleftrightarrow> list_all2 mirrors_row (fl_rows l) (m_Tasks m)"

lemma mirror_status_not_active [simp]: "mirror_status r \<noteq> TaskActive"
  by (auto simp: mirror_status_def split: FeatureState.split)

lemma mirrors_row_active: "mirrors_row (r\<lparr>fr_State := StateActive\<rparr>) t \<longleftrightarrow> mirrors_row (r\<lparr>fr_State := StateNotStarted\<rparr>) t"
  by (simp add: mirrors_row_def mirror_status_def)

lemma mirrors_activated:
  "fr_State r = StateNotStarted \<Longrightarrow> mirrors_row (r\<lparr>fr_State := StateActive\<rparr>) t \<longleftrightarrow> mirrors_row r t"
  using mirrors_row_active [of r t] by (metis FeatureRuntime.surjective FeatureRuntime.update_convs(5))

section \<open>Seeding\<close>

lemma seed_mirrors_row: "\<not> settled_row r \<Longrightarrow> fr_RetryCount r = 0 \<Longrightarrow> mirrors_row r (feature_task r)"
  by (auto simp: mirrors_row_def mirror_status_def feature_task_def settled_row_def PlanRetryBudget_def
      split: FeatureState.split)

lemma start_mirrors:
  assumes "start_plan_call decode okEntries now ok args (p0, Some m, rows) = (Some ps, s)"
    and "runStartAnalysisPlan decode okEntries args = Inr (ps0, fs, b)"
  shows "\<exists>m'. fst s = Some m' \<and> plan_inv (ps_ledger ps) \<and> mirrors (ps_ledger ps) m' \<and> m_BlockedRoot m' = m_BlockedRoot m"
proof -
  from new_plan [OF assms(2)] have inv: "plan_inv (ps_ledger ps0)" "fl_rows (ps_ledger ps0) \<noteq> []"
    and fresh: "list_all (\<lambda>r. fr_RetryCount r = 0 \<and> \<not> settled_row r) (fl_rows (ps_ledger ps0))" by auto
  from assms inv(2) have ps: "ps = ps0"
    and s: "s = touch_save now ok (m\<lparr>m_Tasks := map feature_task (fl_rows (ps_ledger ps0))\<rparr>) rows"
    by (auto simp: start_plan_call_def seedTasksFromFeatures_def Snapshot_def)
  have "list_all2 mirrors_row rs (map feature_task rs)"
    if "list_all (\<lambda>r. fr_RetryCount r = 0 \<and> \<not> settled_row r) rs" for rs
    using that by (induction rs) (auto simp: seed_mirrors_row)
  with fresh s ps inv show ?thesis by (auto simp: touch_save_def mirrors_def Let_def)
qed

section \<open>One verdict in the shadow\<close>

lemma findTask_at:
  assumes "m_Tasks m = xs @ t # ys" "distinct (map t_ID (m_Tasks m))" "t_ID t = i"
  shows "findTask m i = Some (length xs)"
  using find_index_distinct [OF assms(2), of "length xs"] assms(1,3) by (simp add: findTask_def)

definition verdict_status :: "string \<Rightarrow> TaskStatus" where
  "verdict_status result =
     (if result = ''passing'' then TaskPassing else if result = ''retry'' then TaskPendingRetry else TaskBlocked)"

lemma outcome_accepted:
  assumes "m_Tasks m = xs @ t # ys" "distinct (map t_ID (m_Tasks m))" "t_ID t = i" "t_Status t = TaskActive"
    and "result = ''retry'' \<longrightarrow> 0 < t_RetryBudget t"
  shows "\<exists>m' t'. Mutate m (outcome_mutation i result ev) = (m', None) \<and> m_Tasks m' = xs @ t' # ys \<and> t_ID t' = i
    \<and> t_Status t' = verdict_status result
    \<and> t_RetryBudget t' = (if result = ''retry'' then t_RetryBudget t - 1 else t_RetryBudget t)
    \<and> m_Status m' = DeriveStatus (m_Tasks m') (m_BlockedRoot m') \<and> m_BlockedRoot m' = m_BlockedRoot m"
proof -
  have at: "findTask m i = Some (length xs)" using findTask_at [OF assms(1-3)] .
  have nth: "m_Tasks m ! length xs = t" and upd: "(m_Tasks m)[length xs := x] = xs @ x # ys" for x
    using assms(1) by simp_all
  consider "result = ''passing''" | "result = ''retry''" | "result \<noteq> ''passing''" "result \<noteq> ''retry''" by blast
  then show ?thesis
  proof cases
    case 1
    let ?t = "t\<lparr>t_Status := TaskPassing, t_Evidence := Some ev\<rparr>"
    have "Mutate m (outcome_mutation i result ev) = (recomputeStatus (clear_cursor (set_task m (length xs) ?t) i), None)"
      using assms(3,4) by (simp add: 1 outcome_mutation_def task_mutation_def Mutate_def applyComplete_def at nth
          Transition_def CanTransition_simps register_step_def)
    with 1 assms(3) show ?thesis
      by (intro exI [of _ "recomputeStatus (clear_cursor (set_task m (length xs) ?t) i)"] exI [of _ ?t])
        (simp add: upd verdict_status_def)
  next
    case 2
    let ?t = "t\<lparr>t_Status := TaskPendingRetry, t_RetryBudget := t_RetryBudget t - 1\<rparr>"
    have "Mutate m (outcome_mutation i result ev) = (recomputeStatus (clear_cursor (set_task m (length xs) ?t) i), None)"
      using assms(3,4,5) by (simp add: 2 outcome_mutation_def task_mutation_def Mutate_def applyRetry_def at nth
          Transition_def CanTransition_simps)
    with 2 assms(3) show ?thesis
      by (intro exI [of _ "recomputeStatus (clear_cursor (set_task m (length xs) ?t) i)"] exI [of _ ?t])
        (simp add: upd verdict_status_def)
  next
    case 3
    let ?t = "t\<lparr>t_Status := TaskBlocked, t_BlockedReason := Some (verify_blocked i (ev_Reasoning ev))\<rparr>"
    have "Mutate m (outcome_mutation i result ev) = (recomputeStatus (clear_cursor (set_task m (length xs) ?t) i), None)"
      using assms(3,4) by (simp add: 3 outcome_mutation_def task_mutation_def Mutate_def applyBlock_def at nth
          Transition_def CanTransition_simps)
    with 3 assms(3) show ?thesis
      by (intro exI [of _ "recomputeStatus (clear_cursor (set_task m (length xs) ?t) i)"] exI [of _ ?t])
        (simp add: upd verdict_status_def)
  qed
qed

lemma start_accepted:
  assumes "m_Tasks m = xs @ t # ys" "distinct (map t_ID (m_Tasks m))" "t_ID t = i"
    and "\<forall>x \<in> set (m_Tasks m). t_Status x \<noteq> TaskActive" "CanTransition (t_Status t) TaskActive"
  shows "\<exists>m'. Mutate m (task_mutation MutateStartTask i) = (m', None)
    \<and> m_Tasks m' = xs @ t\<lparr>t_Status := TaskActive\<rparr> # ys \<and> m_BlockedRoot m' = m_BlockedRoot m"
proof -
  have at: "findTask m i = Some (length xs)" using findTask_at [OF assms(1-3)] .
  have "find (\<lambda>x. t_Status x = TaskActive \<and> t_ID x \<noteq> i) (m_Tasks m) = None"
    using assms(4) by (auto simp: find_None_iff)
  moreover have "m_Tasks m ! length xs = t" and "(m_Tasks m)[length xs := x] = xs @ x # ys" for x
    using assms(1) by simp_all
  ultimately show ?thesis
    using assms(5) by (simp add: Mutate_def task_mutation_def applyStart_def at Transition_def)
qed

lemma record_accepted:
  assumes "m_Tasks m = xs @ t # ys" "distinct (map t_ID (m_Tasks m))" "t_ID t = i" "i \<noteq> []"
    and "\<forall>x \<in> set (m_Tasks m). t_Status x \<noteq> TaskActive" "CanTransition (t_Status t) TaskActive"
    and "result = ''retry'' \<longrightarrow> 0 < t_RetryBudget t"
  shows "\<exists>m' t'. recordVerifyFeature now ok i result ev (Some m, rows) = touch_save now ok m' rows
    \<and> m_Tasks m' = xs @ t' # ys \<and> t_ID t' = i \<and> t_Status t' = verdict_status result
    \<and> t_RetryBudget t' = (if result = ''retry'' then t_RetryBudget t - 1 else t_RetryBudget t)
    \<and> m_Status m' = DeriveStatus (m_Tasks m') (m_BlockedRoot m') \<and> m_BlockedRoot m' = m_BlockedRoot m"
proof -
  let ?t = "t\<lparr>t_Status := TaskActive\<rparr>"
  from start_accepted [OF assms(1-3,5,6)] obtain m1 where m1: "Mutate m (task_mutation MutateStartTask i) = (m1, None)"
    "m_Tasks m1 = xs @ ?t # ys" "m_BlockedRoot m1 = m_BlockedRoot m" by blast
  have "distinct (map t_ID (m_Tasks m1))" using assms(1,2) m1(2) by simp
  from outcome_accepted [OF m1(2) this, of i result ev] assms(3,7) m1(3)
  obtain m2 t2 where m2: "Mutate m1 (outcome_mutation i result ev) = (m2, None)" "m_Tasks m2 = xs @ t2 # ys" "t_ID t2 = i"
    "t_Status t2 = verdict_status result"
    "t_RetryBudget t2 = (if result = ''retry'' then t_RetryBudget t - 1 else t_RetryBudget t)"
    "m_Status m2 = DeriveStatus (m_Tasks m2) (m_BlockedRoot m2)" "m_BlockedRoot m2 = m_BlockedRoot m" by auto
  have "\<not> list_ex (\<lambda>x. t_ID x = i \<and> t_Status x = TaskActive) (m_Tasks m)"
    using assms(5) by (auto simp: list_ex_iff)
  with m1(1) m2(1) assms(4) have "recordVerifyFeature now ok i result ev (Some m, rows) = touch_save now ok m2 rows"
    by (simp add: recordVerifyFeature_def)
  with m2 show ?thesis by blast
qed

section \<open>The mirror follows\<close>

lemma mirrors_ids: "mirrors l m \<Longrightarrow> map t_ID (m_Tasks m) = map fr_ID (fl_rows l)"
  unfolding mirrors_def by (induction rule: list_all2_induct) (auto simp: mirrors_row_def)

lemma mirrors_no_active: "mirrors l m \<Longrightarrow> \<forall>x \<in> set (m_Tasks m). t_Status x \<noteq> TaskActive"
  unfolding mirrors_def by (induction rule: list_all2_induct) (auto simp: mirrors_row_def)

lemma mirrors_next:
  assumes "list_all2 mirrors_row ts ys" "list_all untouched ts"
  shows "list_all2 mirrors_row (case ts of [] \<Rightarrow> [] | t # ts' \<Rightarrow> t\<lparr>fr_State := StateActive\<rparr> # ts') ys"
proof (cases ts)
  case (Cons t ts')
  with assms show ?thesis by (cases ys) (auto simp: mirrors_activated untouched_def)
qed (use assms in simp)

lemma verdict_row_mirror:
  assumes "verdict_row result a a'" "mirrors_row a t" "t_ID t' = t_ID t" "t_Status t' = verdict_status result"
    and "t_RetryBudget t' = (if result = ''retry'' then t_RetryBudget t - 1 else t_RetryBudget t)"
  shows "mirrors_row a' t'"
  using assms(1) unfolding verdict_row_def
proof (elim conjE disjE)
qed (use assms(2-) in \<open>simp_all add: mirrors_row_def mirror_status_def verdict_status_def\<close>)

lemma verdict_mirrored:
  assumes "verify_call now ok args (Some ps, Some m, rows) = (Inr r, st')"
    and "plan_inv (ps_ledger ps)" "mirrors (ps_ledger ps) m"
  shows "\<exists>ps' m' rows'. st' = (Some ps', Some m', rows') \<and> plan_inv (ps_ledger ps') \<and> mirrors (ps_ledger ps') m'
    \<and> m_BlockedRoot m' = m_BlockedRoot m \<and> m_Status m' = DeriveStatus (m_Tasks m') (m_BlockedRoot m')
    \<and> (ok \<longrightarrow> rows' (m_MissionID m') = Some m')"
proof -
  let ?i = "strArg args ''featureId''"
  let ?ev = "\<lparr>ev_Tool = strArg args ''tool'', ev_ResultSummary = strArg args ''summary'',
              ev_Reasoning = strArg args ''reasoning''\<rparr>"
  obtain st1 where v: "runVerifyFeature (Some ps) args = (Inr r, st1)"
    using assms(1) by (auto simp: verify_call_def split: prod.splits)
  from verify_inv [OF v assms(2)] obtain ps1 where ps1: "st1 = Some ps1" "plan_inv (ps_ledger ps1)" by blast
  from verify_accepted [OF v assms(2)] obtain ds a ts a' where
    rows0: "fl_rows (ps_ledger ps) = ds @ a # ts" "fr_State a = StateActive" "list_all untouched ts" "fr_ID a = ?i"
    and row: "verdict_row (vr_outcome r) a a'"
    and rows1: "fl_rows (ps_ledger ps1) =
       ds @ (if settled_row a' then a' # (case ts of [] \<Rightarrow> [] | t # ts' \<Rightarrow> t\<lparr>fr_State := StateActive\<rparr> # ts')
             else a'\<lparr>fr_State := StateActive\<rparr> # ts)" using ps1(1) by (metis option.inject)
  from assms(3) rows0(1) obtain xs t ys where tasks: "m_Tasks m = xs @ t # ys" "list_all2 mirrors_row ds xs"
    "mirrors_row a t" "list_all2 mirrors_row ts ys"
    by (auto simp: mirrors_def list_all2_append1 list_all2_Cons1)
  have "distinct (map t_ID (m_Tasks m))" using mirrors_ids [OF assms(3)] assms(2) by (simp add: plan_inv_def)
  moreover have "t_ID t = ?i" "?i \<noteq> []" "CanTransition (t_Status t) TaskActive"
    using tasks(3) rows0 assms(2) by (auto simp: mirrors_row_def mirror_status_def CanTransition_simps plan_inv_def)
  moreover have "vr_outcome r = ''retry'' \<longrightarrow> 0 < t_RetryBudget t"
    using row tasks(3) by (auto simp: verdict_row_def mirrors_row_def)
  ultimately obtain m2 t2 where rec: "recordVerifyFeature now ok ?i (vr_outcome r) ?ev (Some m, rows) = touch_save now ok m2 rows"
    and m2: "m_Tasks m2 = xs @ t2 # ys" "t_ID t2 = ?i" "t_Status t2 = verdict_status (vr_outcome r)"
    "t_RetryBudget t2 = (if vr_outcome r = ''retry'' then t_RetryBudget t - 1 else t_RetryBudget t)"
    "m_Status m2 = DeriveStatus (m_Tasks m2) (m_BlockedRoot m2)" "m_BlockedRoot m2 = m_BlockedRoot m"
    using record_accepted [OF tasks(1), of ?i "vr_outcome r" now ok ?ev rows] mirrors_no_active [OF assms(3)] by metis
  have "mirrors_row a' t2"
    using verdict_row_mirror [OF row tasks(3)] m2(2-4) tasks(3) rows0(4) by (simp add: mirrors_row_def)
  then have "list_all2 mirrors_row (fl_rows (ps_ledger ps1)) (m_Tasks m2)"
    using mirrors_next [OF tasks(4) rows0(3)] tasks(2,4) verdict_row_cases [OF row]
    by (auto simp: rows1 m2(1) mirrors_activated intro!: list_all2_appendI)
  moreover have "st' = (Some ps1, touch_save now ok m2 rows)"
    using assms(1) v rec ps1(1) by (simp add: verify_call_def reply_outcome_def)
  ultimately show ?thesis using ps1(2) m2(5,6)
    by (auto simp: touch_save_def Let_def mirrors_def SaveMission_def)
qed

section \<open>A whole plan\<close>

text \<open>The states of a turn in which a plan was started and every verdict since was accepted.\<close>

inductive plan_turn :: "(string \<Rightarrow> AnalysisPattern option) \<Rightarrow> OkEntry list \<Rightarrow> analysisPlanState option \<times> shadow \<Rightarrow> bool"
  for decode :: "string \<Rightarrow> AnalysisPattern option" and okEntries :: "OkEntry list" where
  started: "runStartAnalysisPlan decode okEntries args = Inr (ps, fs, b) \<Longrightarrow> m_BlockedRoot m = None
    \<Longrightarrow> plan_turn decode okEntries (start_plan_call decode okEntries now ok args (p0, Some m, rows))"
| verified: "plan_turn decode okEntries st \<Longrightarrow> verify_call now ok args st = (Inr r, st')
    \<Longrightarrow> plan_turn decode okEntries st'"

lemma plan_turn_inv:
  "plan_turn decode okEntries st \<Longrightarrow> \<exists>ps m rows. st = (Some ps, Some m, rows)
     \<and> plan_inv (ps_ledger ps) \<and> mirrors (ps_ledger ps) m \<and> m_BlockedRoot m = None"
proof (induction rule: plan_turn.induct)
  case (started args ps fs b m now ok p0 rows)
  then obtain s where s: "start_plan_call decode okEntries now ok args (p0, Some m, rows) = (Some ps, s)"
    by (auto simp: start_plan_call_def)
  from start_mirrors [OF s started.hyps(1)] started.hyps(2) s show ?case by (cases s) auto
next
  case (verified st now ok args r st')
  then obtain ps m rows where st: "st = (Some ps, Some m, rows)" "plan_inv (ps_ledger ps)" "mirrors (ps_ledger ps) m"
    "m_BlockedRoot m = None" by blast
  from verdict_mirrored [OF verified.hyps(2) [unfolded st(1)] st(2,3)] st(4) show ?case by auto
qed

lemma mirrors_settled:
  assumes "mirrors l m" "AllSettled l" "fl_rows l \<noteq> []"
  shows "DeriveStatus (m_Tasks m) None =
    (if \<exists>r \<in> set (fl_rows l). fr_State r = StateBlocked then MissionPartial else MissionComplete)"
proof -
  have "m_Tasks m \<noteq> []" using assms(1,3) by (auto simp: mirrors_def)
  moreover have "list_all (\<lambda>t. IsTerminal (t_Status t)) ts \<and>
      (list_ex (\<lambda>t. t_Status t = TaskBlocked) ts \<longleftrightarrow> (\<exists>r \<in> set rs. fr_State r = StateBlocked))"
    if "list_all2 mirrors_row rs ts" "list_all settled_row rs" for rs ts
    using that
    by (induction rule: list_all2_induct)
      (auto simp: mirrors_row_def mirror_status_def IsTerminal_def settled_row_def split: FeatureState.splits)
  ultimately show ?thesis using assms(1,2) by (simp add: DeriveStatus_def mirrors_def AllSettled_def)
qed

text \<open>C12: As long as every verdict is accepted, the task of each feature follows the feature: same id, passing or
  blocked exactly when the feature is, and as many retries left. When all features are settled the status
  the tasks derive is complete if all passed and partial otherwise.\<close>

lemma shadow_mirrors_the_plan:
  assumes "plan_turn decode okEntries st"
  shows "\<exists>ps m rows. st = (Some ps, Some m, rows)
    \<and> list_all2 mirrors_row (fl_rows (ps_ledger ps)) (m_Tasks m)
    \<and> (AllSettled (ps_ledger ps) \<longrightarrow> fl_rows (ps_ledger ps) \<noteq> [] \<longrightarrow> DeriveStatus (m_Tasks m) (m_BlockedRoot m) =
        (if \<exists>r \<in> set (fl_rows (ps_ledger ps)). fr_State r = StateBlocked then MissionPartial else MissionComplete))"
proof -
  from plan_turn_inv [OF assms] obtain ps m rows where st: "st = (Some ps, Some m, rows)" "mirrors (ps_ledger ps) m"
    "m_BlockedRoot m = None" by blast
  with mirrors_settled [OF st(2)] show ?thesis by (auto simp: mirrors_def)
qed

definition demo_mission :: Mission where
  "demo_mission = fresh_mission ''m'' ''t'' ''p'' ''q'' ''now''"

lemma shadow_mirrors_the_plan_witness:
  "list_all2 mirrors_row (fl_rows demo_ledger) [feature_task ((new_row demo_feature)\<lparr>fr_State := StateActive\<rparr>)]"
proof -
  from demo_start obtain fs b where
    s: "runStartAnalysisPlan (\<lambda>_. Some demo_pattern) [demo_card] [(''patternId'', JStr ''p'')] = Inr (demo_plan, fs, b)" by blast
  have "m_BlockedRoot demo_mission = None" by (simp add: demo_mission_def fresh_mission_def)
  from shadow_mirrors_the_plan [OF started [OF s this, of "''now''" True None Map.empty]] s show ?thesis
    by (auto simp: start_plan_call_def seedTasksFromFeatures_def touch_save_def Snapshot_def demo_plan_def demo_ledger_def Let_def)
qed

section \<open>Rejected verdicts\<close>

text \<open>A verdict the tool rejects (here a word it does not know) changes no feature, but the shadow blocks the
  task of the feature: the outcome it is given is empty, and everything but passing and retry is blocked.
  The later, accepted verdict no longer reaches the blocked task.\<close>

definition seeded_mission :: Mission where
  "seeded_mission = demo_mission\<lparr>m_Tasks := [feature_task (new_row demo_feature)]\<rparr>"

lemma blocked_stays:
  assumes "m_Tasks m = [t]" "t_ID t = i" "t_Status t = TaskBlocked"
  shows "\<exists>m'. recordVerifyFeature now ok i result ev (Some m, rows) = (Some m', rows) \<and> m_Tasks m' = [t]"
proof (cases "i = []")
  case False
  have "Mutate m (task_mutation MutateStartTask i) = (set_task m 0 t, Some (ErrInvalidTransition TaskBlocked TaskActive))"
    using assms by (simp add: Mutate_def task_mutation_def applyStart_def findTask_def Transition_def CanTransition_simps)
  with False assms show ?thesis by (simp add: recordVerifyFeature_def set_task_def)
qed (use assms in \<open>simp add: recordVerifyFeature_def\<close>)

lemma rejected_verdict_blocks_the_shadow:
  "\<exists>m rows. verify_call ''now'' True (demo_verdict ''passed'') (Some demo_plan, Some seeded_mission, Map.empty)
      = (Inl (UnknownVerdict ''passed''), Some demo_plan, Some m, rows) \<and> map t_Status (m_Tasks m) = [TaskBlocked]
    \<and> (\<exists>r ps m'. verify_call ''now'' True (demo_verdict ''pass'') (Some demo_plan, Some m, rows)
        = (Inr r, Some ps, Some m', rows) \<and> map fr_State (fl_rows (ps_ledger ps)) = [StatePassing]
        \<and> map t_Status (m_Tasks m') = [TaskBlocked])"
proof -
  let ?ev = "\<lparr>ev_Tool = [], ev_ResultSummary = [], ev_Reasoning = []\<rparr>"
  let ?t = "feature_task (new_row demo_feature)"
  have "t_ID ?t = ''f''" "t_Status ?t = TaskPending" "m_Tasks seeded_mission = [] @ ?t # []"
    by (simp_all add: feature_task_def new_row_def demo_feature_def seeded_mission_def)
  then obtain m0 t where m0: "recordVerifyFeature ''now'' True ''f'' [] ?ev (Some seeded_mission, Map.empty)
      = touch_save ''now'' True m0 Map.empty" "m_Tasks m0 = [t]" "t_ID t = ''f''" "t_Status t = TaskBlocked"
    using record_accepted [of seeded_mission "[]" ?t "[]" "''f''" "[]" "''now''" True ?ev Map.empty]
    by (auto simp: CanTransition_simps verdict_status_def)
  then obtain m rows where m: "recordVerifyFeature ''now'' True ''f'' [] ?ev (Some seeded_mission, Map.empty) = (Some m, rows)"
    "m_Tasks m = [t]" by (auto simp: touch_save_def Let_def)
  have "verify_call ''now'' True (demo_verdict ''passed'') (Some demo_plan, Some seeded_mission, Map.empty)
      = (Inl (UnknownVerdict ''passed''), Some demo_plan, Some m, rows)"
    using m(1) by (simp add: verify_call_def runVerifyFeature_def apply_verdict_def demo_verdict_def strArg_def as_str_def
        reply_outcome_def)
  moreover obtain r ps where v: "runVerifyFeature (Some demo_plan) (demo_verdict ''pass'') = (Inr r, Some ps)"
    "map fr_State (fl_rows (ps_ledger ps)) = [StatePassing]"
    by (auto simp: runVerifyFeature_def apply_verdict_def demo_verdict_def strArg_def as_str_def demo_plan_def
        demo_ledger_def new_row_def demo_feature_def PassFeature_def requireActive_def by_id_def set_row_def activeFeatureBlock_def PickNext_def Snapshot_def
        Let_def)
  moreover obtain m' where "recordVerifyFeature ''now'' True ''f'' (vr_outcome r) ?ev (Some m, rows) = (Some m', rows)"
    "m_Tasks m' = [t]" using blocked_stays [OF m(2) m0(3,4)] by blast
  ultimately show ?thesis using m(2) m0(4)
    by (intro exI [of _ m] exI [of _ rows])
      (simp add: verify_call_def demo_verdict_def strArg_def as_str_def reply_outcome_def)
qed

end
