(* ===== verification/Mission_Turn.thy ===== *)
theory Mission_Turn
  imports Reach_Gate_Props Plan_Mirror
begin

text \<open>
  A turn of the agent and its shadow mission (\<open>handleAgentStreamLakehouse\<close>): the gate, the tool calls of the
  loop in any order, and the hooks that end the turn. A capability gap the agent declared is final.
\<close>

section \<open>The loop\<close>

record turn_state =
  ts_plan :: "analysisPlanState option"
  ts_shadow :: shadow
  ts_gaps :: "capGapLog list"
  ts_answer :: string

text \<open>What of a round touches this state: the content of the model, the result of a query tool, the plan
  tools and the declaration of a gap.\<close>

datatype turn_event =
    RoundContent string
  | QueryResult "(string \<times> json) list option"
  | PlanStart "(string \<times> json) list"
  | FeatureVerdict "(string \<times> json) list"
  | PlanComplete
  | GapDeclared "(string \<times> json) list"

record turn_env =
  te_gate :: gate_env
  te_decodeRows :: "string \<Rightarrow> (string \<times> json) list list option"
  te_decodePattern :: "string \<Rightarrow> AnalysisPattern option"
  te_engine :: "string \<Rightarrow> (string \<rightharpoonup> feature_view) \<Rightarrow> string + string"
  te_recall :: RecallResult
  te_decodeTasks :: "string \<Rightarrow> (string \<times> bool) list option"

text \<open>An event with the time and the outcome of its save (and of the gap log).\<close>

type_synonym timed_event = "turn_event \<times> string \<times> bool \<times> bool"

definition turn_step :: "turn_env \<Rightarrow> turn_state \<Rightarrow> timed_event \<Rightarrow> turn_state" where
  "turn_step env st te =
     (case te of (e, now, ok, log_ok) \<Rightarrow>
        (case e of
           RoundContent c \<Rightarrow> (if c = [] then st else st\<lparr>ts_answer := c\<rparr>)
         | QueryResult r \<Rightarrow>
             st\<lparr>ts_shadow := (recordStep (te_decodeRows env) r (fst (ts_shadow st)), snd (ts_shadow st))\<rparr>
         | PlanStart args \<Rightarrow>
             (case start_plan_call (te_decodePattern env) (rr_OkEntries (te_recall env)) now ok args (ts_plan st, ts_shadow st) of
                (p, s) \<Rightarrow> st\<lparr>ts_plan := p, ts_shadow := s\<rparr>)
         | FeatureVerdict args \<Rightarrow>
             (case verify_call now ok args (ts_plan st, ts_shadow st) of
                (_, p, s) \<Rightarrow> st\<lparr>ts_plan := p, ts_shadow := s\<rparr>)
         | PlanComplete \<Rightarrow>
             (case complete_call (te_engine env) now ok (ts_plan st, ts_shadow st) of
                (_, p, s) \<Rightarrow> st\<lparr>ts_plan := p, ts_shadow := s\<rparr>)
         | GapDeclared args \<Rightarrow>
             (case runDeclareCapabilityGap now (vd_db (ge_values (te_gate env))) ok log_ok
                     (rr_MetricIntents (te_recall env)) args (ts_shadow st, ts_gaps st) of
                (_, s, gaps) \<Rightarrow> st\<lparr>ts_shadow := s, ts_gaps := gaps\<rparr>)))"

definition turn_loop :: "turn_env \<Rightarrow> timed_event list \<Rightarrow> turn_state \<Rightarrow> turn_state" where
  "turn_loop env es st = foldl (turn_step env) st es"

section \<open>The turn\<close>

text \<open>\<open>accumulated\<close> are the intents of the ledger; \<open>end\<close> has the reply to the reconciliation, the time and the
  outcomes of the two last saves.\<close>

definition end_turn :: "turn_env \<Rightarrow> string option \<Rightarrow> string \<Rightarrow> bool \<Rightarrow> bool \<Rightarrow> turn_state \<Rightarrow> shadow" where
  "end_turn env reply now ok1 ok2 st =
     finish now ok2 (ts_answer st)
       (reconcileMissionTasks (ge_enabled (te_gate env)) (te_decodeTasks env) now ok1 reply (ts_answer st) (ts_shadow st))"

definition after_gate :: "shadow \<Rightarrow> turn_state" where
  "after_gate s = \<lparr>ts_plan = None, ts_shadow = s, ts_gaps = [], ts_answer = []\<rparr>"

definition mission_turn ::
  "turn_env \<Rightarrow> string option \<Rightarrow> MetricIntent list \<Rightarrow> bool \<Rightarrow> timed_event list \<Rightarrow> string option \<Rightarrow> string \<Rightarrow> bool \<Rightarrow> bool
    \<Rightarrow> shadow \<Rightarrow> shadow" where
  "mission_turn env judged accumulated isFollowUp es reply now ok1 ok2 s0 =
     (case runReachabilityJudge (te_gate env) judged (te_recall env) accumulated isFollowUp s0 of
        ((answer, _), s) \<Rightarrow>
          if answer \<noteq> [] then finish now ok2 answer s
          else end_turn env reply now ok1 ok2 (turn_loop env es (after_gate s)))"

section \<open>What the hooks keep\<close>

text \<open>A condition on the blocked root and the status of a mission, with its id.\<close>

definition kept :: "(BlockedReason option \<Rightarrow> bool) \<Rightarrow> (MissionStatus \<Rightarrow> bool) \<Rightarrow> string \<Rightarrow> Mission \<Rightarrow> bool" where
  "kept R S i m \<longleftrightarrow> m_MissionID m = i \<and> R (m_BlockedRoot m) \<and> S (m_Status m)"

definition kept_shadow :: "(BlockedReason option \<Rightarrow> bool) \<Rightarrow> (MissionStatus \<Rightarrow> bool) \<Rightarrow> string \<Rightarrow> shadow \<Rightarrow> bool" where
  "kept_shadow R S i s \<longleftrightarrow> (case fst s of None \<Rightarrow> False | Some m \<Rightarrow> kept R S i m)"

lemma kept_shadow_simps [simp]:
  "kept_shadow R S i (Some m, rows) \<longleftrightarrow> kept R S i m"
  "\<not> kept_shadow R S i (None, rows)"
  by (simp_all add: kept_shadow_def)

lemma touch_save_kept [simp]: "kept_shadow R S i (touch_save now ok m rows) \<longleftrightarrow> kept R S i m"
  by (simp add: touch_save_def Let_def kept_def)

lemma kept_shadowD: "kept_shadow R S i s \<Longrightarrow> \<exists>m rows. s = (Some m, rows) \<and> kept R S i m"
  by (cases s) (auto simp: kept_shadow_def split: option.splits)

lemma kept_updates [simp]:
  "kept R S i (m\<lparr>m_Tasks := ts\<rparr>) \<longleftrightarrow> kept R S i m"
  "kept R S i (m\<lparr>m_Cursor := c\<rparr>) \<longleftrightarrow> kept R S i m"
  "kept R S i (m\<lparr>m_StepResults := rs\<rparr>) \<longleftrightarrow> kept R S i m"
  "kept R S i (m\<lparr>m_Synthesis := y\<rparr>) \<longleftrightarrow> kept R S i m"
  "kept R S i (m\<lparr>m_Reachability := v\<rparr>) \<longleftrightarrow> kept R S i m"
  "kept R S i (set_output a m) \<longleftrightarrow> kept R S i m"
  "kept R S i (clear_cursor m t) \<longleftrightarrow> kept R S i m"
  "kept R S i (set_task m k x) \<longleftrightarrow> kept R S i m"
  by (simp_all add: kept_def set_output_def clear_cursor_def set_task_def)

lemma kept_register: "register_step mut (m, t) = (m', t') \<Longrightarrow> kept R S i m \<Longrightarrow> kept R S i m'"
  by (auto simp: register_step_def split: option.splits if_splits)

text \<open>Conditions the derivation of the status respects. Every hook but the two that close a mission keeps them.\<close>

locale kept_condition =
  fixes R :: "BlockedReason option \<Rightarrow> bool" and S :: "MissionStatus \<Rightarrow> bool"
  assumes derived: "R b \<Longrightarrow> S (DeriveStatus ts b)"
    and completed: "S st \<Longrightarrow> st \<noteq> MissionUnanswerable \<Longrightarrow> S MissionComplete"
begin

lemma recompute [intro!]: "kept R S i m \<Longrightarrow> kept R S i (recomputeStatus m)"
  by (simp add: kept_def recomputeStatus_def derived)

lemma start: "kept R S i m \<Longrightarrow> kept R S i (fst (applyStart m tid))"
  by (auto simp: applyStart_def split: option.splits prod.splits)

lemma complete: "kept R S i m \<Longrightarrow> kept R S i (fst (applyComplete m mut))"
  by (auto simp: applyComplete_def elim: kept_register split: option.splits prod.splits)

lemma block: "kept R S i m \<Longrightarrow> kept R S i (fst (applyBlock m mut))"
  by (auto simp: applyBlock_def split: option.splits prod.splits)

lemma retry: "kept R S i m \<Longrightarrow> kept R S i (fst (applyRetry m tid))"
  by (auto simp: applyRetry_def split: option.splits prod.splits)

lemma mutate: "Mutate m mut = (m', e) \<Longrightarrow> kept R S i m \<Longrightarrow> kept R S i m'"
  using start [of i m "mut_TaskID mut"] complete [of i m mut] block [of i m mut] retry [of i m "mut_TaskID mut"]
  by (cases "mut_Kind mut") (auto simp: Mutate_def)

lemma record_step: "kept_shadow R S i s \<Longrightarrow> kept_shadow R S i (recordStep decode r (fst s), snd s)"
  by (drule kept_shadowD) (auto simp: recordStep_def Let_def split: option.splits)

lemma seed_features: "kept_shadow R S i s \<Longrightarrow> kept_shadow R S i (seedTasksFromFeatures now ok fs s)"
  by (drule kept_shadowD) (auto simp: seedTasksFromFeatures_def)

lemma seed_questions: "kept_shadow R S i s \<Longrightarrow> kept_shadow R S i (seedTasksFromSubQuestions now ok qs s)"
  by (drule kept_shadowD) (auto simp: seedTasksFromSubQuestions_def)

lemma record_verdict: "kept_shadow R S i s \<Longrightarrow> kept_shadow R S i (recordVerifyFeature now ok f r ev s)"
  by (drule kept_shadowD) (auto simp: recordVerifyFeature_def Let_def dest: mutate split: option.splits prod.splits if_splits)

lemma record_complete: "kept_shadow R S i s \<Longrightarrow> kept_shadow R S i (recordCompleteAnalysis now ok a s)"
  by (drule kept_shadowD) (auto simp: recordCompleteAnalysis_def)

lemma reconciliation: "kept_shadow R S i s \<Longrightarrow> kept_shadow R S i (applyTaskReconciliation now ok results s)"
  by (drule kept_shadowD) (auto simp: applyTaskReconciliation_def Let_def)

lemma reconcile: "kept_shadow R S i s \<Longrightarrow> kept_shadow R S i (reconcileMissionTasks en decode now ok reply a s)"
  by (auto simp: reconcileMissionTasks_def reconciliation Let_def split: option.splits)

lemma feasible_recorded:
  "kept_shadow R S i s \<Longrightarrow> rv_Feasible v \<Longrightarrow> kept_shadow R S i (recordReachability now ok v s)"
  by (drule kept_shadowD) (auto simp: recordReachability_def kept_def)

lemma start_plan: "kept_shadow R S i s \<Longrightarrow> start_plan_call d oks now ok args (p, s) = (p', s') \<Longrightarrow> kept_shadow R S i s'"
  by (auto simp: start_plan_call_def seed_features split: sum.splits prod.splits)

lemma verify: "kept_shadow R S i s \<Longrightarrow> verify_call now ok args (p, s) = (r, p', s') \<Longrightarrow> kept_shadow R S i s'"
  by (auto simp: verify_call_def record_verdict split: prod.splits)

lemma complete_analysis: "kept_shadow R S i s \<Longrightarrow> complete_call en now ok (p, s) = (r, p', s') \<Longrightarrow> kept_shadow R S i s'"
  by (auto simp: complete_call_def record_complete split: prod.splits if_splits)

lemma event:
  assumes "kept_shadow R S i (ts_shadow st)"
    and "\<And>args now ok log_ok. te = (GapDeclared args, now, ok, log_ok) \<Longrightarrow> kept_shadow R S i (ts_shadow (turn_step env st te))"
  shows "kept_shadow R S i (ts_shadow (turn_step env st te))"
proof -
  obtain e now ok log_ok where te: "te = (e, now, ok, log_ok)" by (cases te) auto
  show ?thesis
  proof (cases e)
    case (RoundContent c)
    with te assms(1) show ?thesis by (simp add: turn_step_def)
  next
    case (QueryResult r)
    with te record_step [OF assms(1)] show ?thesis by (simp add: turn_step_def)
  next
    case (PlanStart args)
    with te show ?thesis using start_plan [OF assms(1)] by (simp add: turn_step_def split: prod.split)
  next
    case (FeatureVerdict args)
    with te show ?thesis using verify [OF assms(1)] by (simp add: turn_step_def split: prod.split)
  next
    case PlanComplete
    with te show ?thesis using complete_analysis [OF assms(1)] by (simp add: turn_step_def split: prod.split)
  next
    case (GapDeclared args)
    with te assms(2) show ?thesis by blast
  qed
qed

lemma finished:
  assumes "kept_shadow R S i s"
  shows "\<exists>m. finish now ok a s = (Some m, SaveMission ok m (snd s)) \<and> kept R S i m \<and> sy_Output (m_Synthesis m) = a"
  using assms
  by (cases s) (auto simp: kept_shadow_def kept_def finish_def finish_status_def touch_save_def set_output_def
      Let_def derived completed split: option.splits)

lemma turn_ended:
  assumes "kept_shadow R S i (ts_shadow st)"
  shows "\<exists>m rows. end_turn env reply now ok1 ok2 st = (Some m, rows) \<and> kept R S i m
    \<and> sy_Output (m_Synthesis m) = ts_answer st \<and> (ok2 \<longrightarrow> rows i = Some m)"
  using finished [OF reconcile [OF assms], of now ok2 "ts_answer st"]
  by (fastforce simp: end_turn_def SaveMission_def kept_def)

end

definition rooted :: "BlockedReason option \<Rightarrow> bool" where
  "rooted b \<longleftrightarrow> b \<noteq> None"

definition refused_status :: "MissionStatus \<Rightarrow> bool" where
  "refused_status st \<longleftrightarrow> st = MissionUnanswerable"

interpretation closed_by_gap: kept_condition rooted refused_status
  by unfold_locales (auto simp: DeriveStatus_def rooted_def refused_status_def)

interpretation still_open: kept_condition "\<lambda>b. \<not> rooted b" "\<lambda>st. \<not> refused_status st"
  by unfold_locales (auto simp: DeriveStatus_def rooted_def refused_status_def Let_def)

abbreviation gap_closed :: "string \<Rightarrow> shadow \<Rightarrow> bool" where
  "gap_closed \<equiv> kept_shadow rooted refused_status"

abbreviation gap_open :: "string \<Rightarrow> shadow \<Rightarrow> bool" where
  "gap_open \<equiv> kept_shadow (\<lambda>b. \<not> rooted b) (\<lambda>st. \<not> refused_status st)"

section \<open>A gap is final\<close>

lemma blockRoot_closes: "gap_closed i (blockRoot now ok reason (Some m, rows)) \<longleftrightarrow> m_MissionID m = i"
  by (simp add: blockRoot_def kept_def rooted_def refused_status_def)

lemma declare_gap_closes:
  assumes "runDeclareCapabilityGap now has_db ok log_ok intents args ((Some m, rows), gaps) = (GapAccepted a, s, gaps')"
  shows "gap_closed (m_MissionID m) s"
  using assms by (auto simp: runDeclareCapabilityGap_def Let_def blockRoot_closes split: if_splits option.splits)

lemma declare_gap_keeps:
  assumes "runDeclareCapabilityGap now has_db ok log_ok intents args (s, gaps) = (r, s', gaps')" "gap_closed i s"
  shows "gap_closed i s'"
  using assms(1) kept_shadowD [OF assms(2)]
  by (auto simp: runDeclareCapabilityGap_def Let_def blockRoot_closes kept_def split: if_splits option.splits)

lemma declare_gap_refused:
  assumes "runDeclareCapabilityGap now has_db ok log_ok intents args (s, gaps) = (r, s', gaps')" "\<forall>a. r \<noteq> GapAccepted a"
  shows "s' = s"
  using assms by (auto simp: runDeclareCapabilityGap_def Let_def split: if_splits option.splits)

lemma loop_keeps_closed: "gap_closed i (ts_shadow st) \<Longrightarrow> gap_closed i (ts_shadow (turn_loop env es st))"
  unfolding turn_loop_def
proof (induction es arbitrary: st)
  case (Cons te es)
  have "gap_closed i (ts_shadow (turn_step env st te))"
  proof (rule closed_by_gap.event [OF Cons.prems])
    show "gap_closed i (ts_shadow (turn_step env st te))" if "te = (GapDeclared args, now, ok, log_ok)" for args now ok log_ok
      using that declare_gap_keeps [OF _ Cons.prems] by (simp add: turn_step_def split: prod.split)
  qed
  then show ?case using Cons.IH by simp
qed simp

text \<open>The gap the event declares is accepted.\<close>

definition accepts_gap :: "turn_env \<Rightarrow> turn_state \<Rightarrow> timed_event \<Rightarrow> bool" where
  "accepts_gap env st te \<longleftrightarrow>
     (case te of (GapDeclared args, now, ok, log_ok) \<Rightarrow>
        (case fst (runDeclareCapabilityGap now (vd_db (ge_values (te_gate env))) ok log_ok
                     (rr_MetricIntents (te_recall env)) args (ts_shadow st, ts_gaps st)) of
           GapAccepted a \<Rightarrow> True | _ \<Rightarrow> False)
      | _ \<Rightarrow> False)"

lemma accepted_event_closes:
  assumes "accepts_gap env st te" "ts_shadow st = (Some m, rows)"
  shows "gap_closed (m_MissionID m) (ts_shadow (turn_step env st te))"
proof -
  obtain e now ok log_ok where te: "te = (e, now, ok, log_ok)" by (cases te) auto
  from assms(1) obtain args where e: "e = GapDeclared args" by (cases e) (auto simp: accepts_gap_def te)
  obtain r s gaps where r: "runDeclareCapabilityGap now (vd_db (ge_values (te_gate env))) ok log_ok
      (rr_MetricIntents (te_recall env)) args ((Some m, rows), ts_gaps st) = (r, s, gaps)" by (metis surj_pair)
  with assms obtain a where a: "r = GapAccepted a" by (cases r) (auto simp: accepts_gap_def te e)
  from declare_gap_closes [OF r [unfolded a]] r assms(2) show ?thesis by (simp add: turn_step_def te e)
qed

text \<open>C9: A gap the agent declared and the gate of the tool accepted closes the mission for the turn: whatever tools
  are called afterwards, plans started, verdicts given or answers written, and whatever the reconciliation
  says, the mission ends unanswerable with its blocked root, and is stored so.\<close>

lemma declared_gap_is_final:
  assumes "ts_shadow st = (Some m, rows)" "accepts_gap env st te"
    and "st' = turn_loop env (te # es) st"
  shows "\<exists>m' rows'. end_turn env reply now ok1 ok2 st' = (Some m', rows') \<and> m_MissionID m' = m_MissionID m
    \<and> m_Status m' = MissionUnanswerable \<and> m_BlockedRoot m' \<noteq> None
    \<and> sy_Output (m_Synthesis m') = ts_answer st' \<and> (ok2 \<longrightarrow> rows' (m_MissionID m) = Some m')"
proof -
  have "gap_closed (m_MissionID m) (ts_shadow st')"
    using loop_keeps_closed [OF accepted_event_closes [OF assms(2,1)]] assms(3) by (simp add: turn_loop_def)
  from closed_by_gap.turn_ended [OF this, of env reply now ok1 ok2] show ?thesis by (auto simp: kept_def rooted_def refused_status_def)
qed

section \<open>Why a mission ends unanswerable\<close>

lemma refused_event_keeps_open:
  assumes "gap_open i (ts_shadow st)" "\<not> accepts_gap env st te"
  shows "gap_open i (ts_shadow (turn_step env st te))"
proof (rule still_open.event [OF assms(1)])
  fix args now ok log_ok
  assume te: "te = (GapDeclared args, now, ok, log_ok)"
  obtain r s gaps where r: "runDeclareCapabilityGap now (vd_db (ge_values (te_gate env))) ok log_ok
      (rr_MetricIntents (te_recall env)) args (ts_shadow st, ts_gaps st) = (r, s, gaps)" by (metis surj_pair)
  with assms(2) have "\<forall>a. r \<noteq> GapAccepted a" by (auto simp: accepts_gap_def te)
  from declare_gap_refused [OF r this] r assms(1) show "gap_open i (ts_shadow (turn_step env st te))"
    by (simp add: turn_step_def te)
qed

lemma loop_keeps_open:
  assumes "gap_open i (ts_shadow st)" "\<not> gap_open i (ts_shadow (turn_loop env es st))"
  shows "\<exists>es1 te es2. es = es1 @ te # es2 \<and> accepts_gap env (turn_loop env es1 st) te"
  using assms
proof (induction es arbitrary: st)
  case Nil
  then show ?case by (simp add: turn_loop_def)
next
  case (Cons te es)
  show ?case
  proof (cases "accepts_gap env st te")
    case True
    then have "te # es = [] @ te # es \<and> accepts_gap env (turn_loop env [] st) te" by (simp add: turn_loop_def)
    then show ?thesis by blast
  next
    case False
    from Cons.IH [OF refused_event_keeps_open [OF Cons.prems(1) False]] Cons.prems(2)
    obtain es1 te' es2 where "es = es1 @ te' # es2" "accepts_gap env (turn_loop env es1 (turn_step env st te)) te'"
      by (auto simp: turn_loop_def)
    then have "te # es = (te # es1) @ te' # es2 \<and> accepts_gap env (turn_loop env (te # es1) st) te'"
      by (simp add: turn_loop_def)
    then show ?thesis by blast
  qed
qed

text \<open>The verdict of the gate, when it gives one.\<close>

definition judged_verdict :: "gate_env \<Rightarrow> string option \<Rightarrow> RecallResult \<Rightarrow> MetricIntent list \<Rightarrow> ReachabilityVerdict option" where
  "judged_verdict env reply rr accumulated =
     (if \<not> ge_enabled env then None
      else case decomposeQuestion (ge_decoder env) reply of
             None \<Rightarrow> None
           | Some res \<Rightarrow> if dr_Requirements res = [] then None else Some (gate_verdict env (dr_Requirements res) rr accumulated))"

lemma judge_keeps_open:
  assumes "gap_open i s" "\<forall>v. judged_verdict env reply rr accumulated = Some v \<longrightarrow> rv_Feasible v"
  shows "gap_open i (snd (runReachabilityJudge env reply rr accumulated isFollowUp s))"
    and "fst (fst (runReachabilityJudge env reply rr accumulated isFollowUp s)) = []"
  using assms
  by (auto simp: runReachabilityJudge_def judged_verdict_def reachabilityAnswer_def Let_def
      intro!: still_open.seed_questions still_open.feasible_recorded split: option.splits)

text \<open>C10: A mission that was open before the turn ends unanswerable only if the gate found the question infeasible
  or the agent declared a gap that was accepted: no other tool and no reconciliation does this.\<close>

lemma unanswerable_has_a_cause:
  assumes "m_BlockedRoot m0 = None" "m_Status m0 \<noteq> MissionUnanswerable"
    and "mission_turn env judged accumulated isFollowUp es reply now ok1 ok2 (Some m0, rows0) = (Some m, rows)"
    and "m_Status m = MissionUnanswerable"
  shows "(\<exists>v. judged_verdict (te_gate env) judged (te_recall env) accumulated = Some v \<and> \<not> rv_Feasible v)
    \<or> (\<exists>es1 te es2. es = es1 @ te # es2
        \<and> accepts_gap env (turn_loop env es1 (after_gate (snd (runReachabilityJudge (te_gate env) judged (te_recall env)
             accumulated isFollowUp (Some m0, rows0))))) te)"
proof (rule ccontr)
  let ?g = "runReachabilityJudge (te_gate env) judged (te_recall env) accumulated isFollowUp (Some m0, rows0)"
  let ?st = "turn_loop env es (after_gate (snd ?g))"
  assume no: "\<not> ?thesis"
  have "gap_open (m_MissionID m0) (Some m0, rows0)"
    using assms(1,2) by (simp add: kept_def rooted_def refused_status_def)
  with no have "gap_open (m_MissionID m0) (snd ?g)" and pass: "fst (fst ?g) = []"
    using judge_keeps_open by blast+
  then have "gap_open (m_MissionID m0) (ts_shadow (after_gate (snd ?g)))" by (simp add: after_gate_def)
  with no have "gap_open (m_MissionID m0) (ts_shadow ?st)" using loop_keeps_open by blast
  from still_open.turn_ended [OF this, of env reply now ok1 ok2] assms(3,4) pass show False
    by (auto simp: mission_turn_def kept_def refused_status_def split: prod.splits)
qed

section \<open>Examples\<close>

definition demo_env :: turn_env where
  "demo_env = \<lparr>te_gate = demo_gate, te_decodeRows = (\<lambda>raw. None), te_decodePattern = (\<lambda>raw. Some demo_pattern),
     te_engine = (\<lambda>t f. Inr t), te_recall = demo_recall\<lparr>rr_OkEntries := [demo_card]\<rparr>, te_decodeTasks = (\<lambda>raw. None)\<rparr>"

definition demo_turn :: turn_state where
  "demo_turn = after_gate (Some demo_mission, Map.empty)"

definition demo_gap :: timed_event where
  "demo_gap = (GapDeclared (gap_args ''no_data''), ''now'', True, True)"

lemma demo_gap_accepted: "accepts_gap demo_env demo_turn demo_gap"
  by (simp add: accepts_gap_def demo_gap_def runDeclareCapabilityGap_def gap_args_def str_or_empty_def as_str_def Let_def
      demo_turn_def after_gate_def)

lemma declared_gap_is_final_witness:
  "\<exists>m rows. end_turn demo_env (Some ''{}'') ''end'' True True
      (turn_loop demo_env [demo_gap, (PlanStart [(''patternId'', JStr ''p'')], ''now'', True, True),
          (FeatureVerdict (demo_verdict ''pass''), ''now'', True, True), (PlanComplete, ''now'', True, True)] demo_turn)
      = (Some m, rows) \<and> m_Status m = MissionUnanswerable \<and> rows ''m'' = Some m"
proof -
  have "ts_shadow demo_turn = (Some demo_mission, Map.empty)" by (simp add: demo_turn_def after_gate_def)
  moreover have "m_MissionID demo_mission = ''m''" by (simp add: demo_mission_def fresh_mission_def)
  ultimately show ?thesis
    using declared_gap_is_final [OF _ demo_gap_accepted refl, of demo_mission Map.empty, where
      es = "[(PlanStart [(''patternId'', JStr ''p'')], ''now'', True, True), (FeatureVerdict (demo_verdict ''pass''), ''now'', True, True),
        (PlanComplete, ''now'', True, True)]" and reply = "Some ''{}''" and now = "''end''" and ?ok1.0 = True and ?ok2.0 = True] by auto
qed

lemma demo_gate_fields: "ge_now demo_gate = ''now''" "ge_save_ok demo_gate = True"
  by (simp_all add: demo_gate_def)

lemma demo_env_gate: "te_gate demo_env = demo_gate" "gate_intents (te_recall demo_env) [] = []"
  by (simp_all add: demo_env_def gate_intents_def demo_recall_def unionMetricIntents_def)

lemma unanswerable_has_a_cause_witness:
  "\<exists>v. judged_verdict demo_gate (Some ''{}'') (te_recall demo_env) [] = Some v \<and> \<not> rv_Feasible v"
proof -
  let ?g = "runReachabilityJudge demo_gate (Some ''{}'') (te_recall demo_env) [] False (Some demo_mission, Map.empty)"
  have refused: "fst (fst ?g) \<noteq> []" using demo_refused [OF demo_env_gate(2)] .
  from refused_turn_is_recorded [OF this, of "''end''" True] obtain m rows where
    m: "finish ''end'' True (fst (fst ?g)) (snd ?g) = (Some m, rows)" "m_Status m = MissionUnanswerable" by blast
  obtain a d s where "?g = ((a, d), s)" by (metis surj_pair)
  with refused m(1) have "mission_turn demo_env (Some ''{}'') [] False [] None ''end'' True True (Some demo_mission, Map.empty) = (Some m, rows)"
    by (simp add: mission_turn_def demo_env_gate)
  from unanswerable_has_a_cause [OF _ _ this m(2)] show ?thesis
    by (simp add: demo_mission_def fresh_mission_def demo_env_gate)
qed

section \<open>An infeasible follow-up\<close>

text \<open>On a follow-up the gate records an infeasible question as unanswerable but lets the loop answer it. The
  status survives the end of the turn although the question was answered, unless a plan tool derived it again.\<close>

lemma answered_follow_up_stays_unanswerable:
  "\<exists>m rows. mission_turn demo_env (Some ''{}'') [] True [(RoundContent ''42'', ''now'', True, True)] None ''end'' True True
      (Some demo_mission, Map.empty) = (Some m, rows)
     \<and> m_Status m = MissionUnanswerable \<and> sy_Output (m_Synthesis m) = ''42''"
proof -
  let ?g = "runReachabilityJudge demo_gate (Some ''{}'') (te_recall demo_env) [] True (Some demo_mission, Map.empty)"
  obtain dims where g: "?g = (([], dims), recordReachability ''now'' True
      (gate_verdict demo_gate [demo_hint] (te_recall demo_env) []) (Some demo_mission, Map.empty))"
  proof
    show "?g = (([], snd (fst ?g)), recordReachability ''now'' True
      (gate_verdict demo_gate [demo_hint] (te_recall demo_env) []) (Some demo_mission, Map.empty))"
      using infeasible_recorded [of demo_gate "Some ''{}''" "te_recall demo_env" "[]" True "(Some demo_mission, Map.empty)"]
      by (simp add: prod_eq_iff judge_answer answer_empty demo_judged demo_infeasible [OF demo_env_gate(2)] demo_gate_fields)
  qed
  then show ?thesis
    by (simp add: mission_turn_def demo_env_gate g turn_loop_def turn_step_def after_gate_def end_turn_def
        reconcileMissionTasks_def recordReachability_def demo_infeasible demo_env_gate touch_save_def finish_def finish_status_def
        set_output_def Let_def split: option.split)
qed

lemma plan_tool_relabels_the_mission:
  assumes "m_BlockedRoot m = None"
  shows "\<exists>m'. fst (recordCompleteAnalysis now ok a (Some (m\<lparr>m_Status := MissionUnanswerable\<rparr>), rows)) = Some m'
    \<and> m_Status m' \<noteq> MissionUnanswerable"
  using assms by (simp add: recordCompleteAnalysis_def touch_save_def recomputeStatus_def DeriveStatus_def set_output_def Let_def)

end
