(* ===== verification/Import_Names.thy ===== *)
theory Import_Names
  imports Prelude
begin

text \<open>
  Names of imported tables (\<open>ingest/pbit/collision.go\<close>, \<open>pgschema.go\<close>): all data sources of a project share
  one schema, so a table whose name another source has taken gets a suffix made of the label of its source.
  Texts are UTF-8; \<open>hash\<close> is the hexadecimal digest \<open>shortHash\<close> takes from SHA-1.
\<close>

section \<open>Runes\<close>

definition rune_tail :: "char \<Rightarrow> bool" where
  "rune_tail c \<longleftrightarrow> 128 \<le> (of_char c :: nat) \<and> (of_char c :: nat) < 192"

function runes :: "string \<Rightarrow> string list" where
  "runes [] = []"
| "runes (c # cs) = (c # takeWhile rune_tail cs) # runes (dropWhile rune_tail cs)"
  by pat_completeness auto
termination by (relation "measure length") (auto simp: le_imp_less_Suc length_dropWhile_le)

lemma concat_runes [simp]: "concat (runes s) = s"
  by (induction s rule: runes.induct) simp_all

fun take_runes :: "nat \<Rightarrow> string list \<Rightarrow> string" where
  "take_runes n [] = []"
| "take_runes n (r # rs) = (if n < length r then [] else r @ take_runes (n - length r) rs)"

section \<open>Identifiers\<close>

definition maxIdentBytes :: nat where
  "maxIdentBytes = 63"

definition maxDecollideAttempts :: nat where
  "maxDecollideAttempts = 1000"

definition truncToBytes :: "string \<Rightarrow> nat \<Rightarrow> string" where
  "truncToBytes s n =
     (if n = 0 then []
      else if length s \<le> n then s
      else trim_right (\<lambda>c. c = CHR '' '') (take_runes n (runes s)))"

definition fitIdent :: "string \<Rightarrow> string" where
  "fitIdent s = truncToBytes s maxIdentBytes"

fun str_fields :: "string \<Rightarrow> string \<Rightarrow> string list" where
  "str_fields acc [] = (if acc = [] then [] else [rev acc])"
| "str_fields acc (c # cs) =
     (if is_space_char c then (if acc = [] then [] else [rev acc]) @ str_fields [] cs else str_fields (c # acc) cs)"

definition label_extensions :: "string list" where
  "label_extensions = [''.pbix'', ''.pbit'', ''.csv'', ''.xlsx'', ''.xls'', ''.sqlite'', ''.db'']"

definition drop_extension :: "string \<Rightarrow> string" where
  "drop_extension l =
     (case find (has_suffix (to_lower l)) label_extensions of
        Some ext \<Rightarrow> take (length l - length ext) l | None \<Rightarrow> l)"

definition sanitizeLabel :: "string \<Rightarrow> string" where
  "sanitizeLabel label =
     (let l1 = map (\<lambda>c. if (of_char c :: nat) < 32 \<or> c = CHR 0x22 then CHR '' '' else c) (drop_extension label);
          l2 = join_str '' '' (str_fields [] l1);
          l3 = (if 24 < length (runes l2) then trim_space (concat (take 24 (runes l2))) else l2)
      in if l3 = [] then ''src'' else l3)"

definition name_suffix :: "string \<Rightarrow> nat \<Rightarrow> string" where
  "name_suffix label attempt =
     (if attempt = 1 then '' ('' @ label @ '')''
      else '' ('' @ label @ '' '' @ show_nat attempt @ '')'')"

definition candidateName :: "string \<Rightarrow> string \<Rightarrow> nat \<Rightarrow> string" where
  "candidateName raw label attempt =
     (if attempt = 0 then fitIdent raw
      else let suffix = name_suffix label attempt
           in if maxIdentBytes \<le> length suffix then fitIdent (raw @ suffix)
              else truncToBytes raw (maxIdentBytes - length suffix) @ suffix)"

text \<open>The name of last resort.\<close>

definition hash_name :: "string \<Rightarrow> string \<Rightarrow> string" where
  "hash_name hash raw = fitIdent (truncToBytes raw (maxIdentBytes - 12) @ '' ('' @ hash @ '')'')"

section \<open>Probes\<close>

text \<open>What the two queries answer: the error, or the row of the object with its data source (\<open>None\<close> is NULL);
  the error, or whether the schema has the table.\<close>

record name_probes =
  np_object :: "string \<Rightarrow> string + string option option"
  np_table :: "string \<Rightarrow> string + bool"

definition objectOwner :: "name_probes \<Rightarrow> string \<Rightarrow> string + string \<times> bool" where
  "objectOwner pr n =
     (case np_object pr n of
        Inl e \<Rightarrow> Inl e
      | Inr None \<Rightarrow> Inr ([], False)
      | Inr (Some None) \<Rightarrow> Inr ([], True)
      | Inr (Some (Some ds)) \<Rightarrow> Inr (ds, True))"

definition nameFree :: "name_probes \<Rightarrow> string \<Rightarrow> string + bool" where
  "nameFree pr n =
     (case objectOwner pr n of
        Inl e \<Rightarrow> Inl e
      | Inr (_, True) \<Rightarrow> Inr False
      | Inr (_, False) \<Rightarrow>
          (case np_table pr n of Inl e \<Rightarrow> Inl e | Inr ex \<Rightarrow> Inr (\<not> ex)))"

fun first_free :: "name_probes \<Rightarrow> string list \<Rightarrow> string list \<Rightarrow> string + string option" where
  "first_free pr taken [] = Inr None"
| "first_free pr taken (c # cs) =
     (if c \<in> set taken then first_free pr taken cs
      else case nameFree pr c of
             Inl e \<Rightarrow> Inl e
           | Inr True \<Rightarrow> Inr (Some c)
           | Inr False \<Rightarrow> first_free pr taken cs)"

definition candidates :: "string \<Rightarrow> string \<Rightarrow> string list" where
  "candidates raw label = map (candidateName raw label) [0..<maxDecollideAttempts]"

definition final_name :: "string \<Rightarrow> string \<Rightarrow> string option \<Rightarrow> string" where
  "final_name hash raw found =
     (case found of Some c \<Rightarrow> if c = [] then hash_name hash raw else c | None \<Rightarrow> hash_name hash raw)"

fun resolve_names ::
  "name_probes \<Rightarrow> string \<Rightarrow> string \<Rightarrow> string \<Rightarrow> string list \<Rightarrow> (string \<rightharpoonup> string) \<times> string list
    \<Rightarrow> string + (string \<rightharpoonup> string)" where
  "resolve_names pr dsID hash label [] acc = Inr (fst acc)"
| "resolve_names pr dsID hash label (raw # raws) acc =
     (case objectOwner pr raw of
        Inl e \<Rightarrow> Inl e
      | Inr (owner, exists) \<Rightarrow>
          if exists \<and> owner = dsID
          then resolve_names pr dsID hash label raws ((fst acc)(raw \<mapsto> raw), raw # snd acc)
          else case first_free pr (snd acc) (candidates raw label) of
                 Inl e \<Rightarrow> Inl e
               | Inr found \<Rightarrow>
                   (let final = final_name hash raw found
                    in resolve_names pr dsID hash label raws ((fst acc)(raw \<mapsto> final), final # snd acc)))"

definition ResolveCollisionFreeNames ::
  "name_probes \<Rightarrow> string \<Rightarrow> string \<Rightarrow> string \<Rightarrow> string list \<Rightarrow> string + (string \<rightharpoonup> string)" where
  "ResolveCollisionFreeNames pr dsID hash label raws =
     resolve_names pr dsID hash (sanitizeLabel label) raws (Map.empty, [])"

section \<open>Schemas\<close>

definition SanitizeSchemaName :: "string \<Rightarrow> string" where
  "SanitizeSchemaName projectID = ''proj_'' @ to_lower (filter (\<lambda>c. c \<noteq> CHR ''-'') projectID)"

definition StagingName :: "string \<Rightarrow> string" where
  "StagingName finalSchema = finalSchema @ ''_staging''"

section \<open>Lengths\<close>

lemma take_runes_length: "length (take_runes n rs) \<le> n"
  by (induction n rs rule: take_runes.induct) (auto simp: not_less)

lemma trim_right_length: "length (trim_right P s) \<le> length s"
  by (simp add: trim_right_def length_dropWhile_le le_trans [OF length_dropWhile_le])

lemma truncToBytes_length: "length (truncToBytes s n) \<le> n"
  by (auto simp: truncToBytes_def intro: le_trans [OF trim_right_length take_runes_length])

lemma fitIdent_length: "length (fitIdent s) \<le> maxIdentBytes"
  by (simp add: fitIdent_def truncToBytes_length)

lemma candidateName_length: "length (candidateName raw label attempt) \<le> maxIdentBytes"
  using truncToBytes_length [of raw "maxIdentBytes - length (name_suffix label attempt)"]
  by (auto simp: candidateName_def fitIdent_length Let_def)

lemma hash_name_length: "length (hash_name hash raw) \<le> maxIdentBytes"
  by (simp add: hash_name_def fitIdent_length)

lemma fitIdent_short: "length s \<le> maxIdentBytes \<Longrightarrow> fitIdent s = s"
  by (simp add: fitIdent_def truncToBytes_def maxIdentBytes_def)

section \<open>The search\<close>

lemma first_free_Some:
  "first_free pr taken cs = Inr (Some c) \<Longrightarrow> c \<in> set cs \<and> c \<notin> set taken \<and> nameFree pr c = Inr True"
  by (induction cs) (auto split: if_splits sum.splits bool.splits)

lemma nameFree_True:
  "nameFree pr c = Inr True \<longleftrightarrow> np_object pr c = Inr None \<and> np_table pr c = Inr False"
  by (auto simp: nameFree_def objectOwner_def split: sum.splits option.splits bool.splits)

text \<open>What a final name may be.\<close>

definition good_name :: "name_probes \<Rightarrow> string \<Rightarrow> string \<Rightarrow> string \<Rightarrow> string \<Rightarrow> bool" where
  "good_name pr dsID hash raw n \<longleftrightarrow>
     (n = raw \<and> objectOwner pr raw = Inr (dsID, True))
     \<or> (n \<noteq> [] \<and> length n \<le> maxIdentBytes \<and> nameFree pr n = Inr True)
     \<or> n = hash_name hash raw"

lemma resolve_names_step:
  assumes "resolve_names pr dsID hash label (raw # raws) (out, taken) = Inr m"
  shows "\<exists>n. good_name pr dsID hash raw n \<and> resolve_names pr dsID hash label raws (out(raw \<mapsto> n), n # taken) = Inr m
    \<and> (n \<notin> set taken \<or> n = raw \<and> objectOwner pr raw = Inr (dsID, True) \<or> n = hash_name hash raw)"
proof -
  from assms obtain owner ex where o: "objectOwner pr raw = Inr (owner, ex)" by (auto split: sum.splits)
  show ?thesis
  proof (cases "ex \<and> owner = dsID")
    case True
    with assms o have "resolve_names pr dsID hash label raws (out(raw \<mapsto> raw), raw # taken) = Inr m" by simp
    with True o show ?thesis by (intro exI [of _ raw]) (simp add: good_name_def)
  next
    case False
    with assms o obtain found where f: "first_free pr taken (candidates raw label) = Inr found"
      and r: "resolve_names pr dsID hash label raws (out(raw \<mapsto> final_name hash raw found), final_name hash raw found # taken) = Inr m"
      by (auto simp: Let_def split: sum.splits if_splits)
    have "good_name pr dsID hash raw (final_name hash raw found)
        \<and> (final_name hash raw found \<notin> set taken \<or> final_name hash raw found = hash_name hash raw)"
      using f first_free_Some [of pr taken "candidates raw label"]
      by (auto simp: good_name_def final_name_def candidates_def candidateName_length split: option.splits)
    with r show ?thesis by blast
  qed
qed

lemma resolve_names_good:
  assumes "resolve_names pr dsID hash label raws (out, taken) = Inr m"
    and "\<forall>raw n. out raw = Some n \<longrightarrow> good_name pr dsID hash raw n"
  shows "\<forall>raw n. m raw = Some n \<longrightarrow> good_name pr dsID hash raw n"
  using assms
proof (induction raws arbitrary: out taken)
  case (Cons raw raws)
  from resolve_names_step [OF Cons.prems(1)] obtain n where n: "good_name pr dsID hash raw n"
    "resolve_names pr dsID hash label raws (out(raw \<mapsto> n), n # taken) = Inr m" by blast
  show ?case
    by (rule Cons.IH [OF n(2)]) (use Cons.prems(2) n(1) in \<open>auto split: if_splits\<close>)
qed simp

lemma resolve_names_keeps:
  "resolve_names pr dsID hash label raws (out, taken) = Inr m \<Longrightarrow> x \<notin> set raws \<Longrightarrow> m x = out x"
proof (induction raws arbitrary: out taken)
  case (Cons raw raws)
  from resolve_names_step [OF Cons.prems(1)] obtain n where
    "resolve_names pr dsID hash label raws (out(raw \<mapsto> n), n # taken) = Inr m" by blast
  from Cons.IH [OF this] Cons.prems(2) show ?case by simp
qed simp

lemma resolve_names_dom:
  "resolve_names pr dsID hash label raws (out, taken) = Inr m \<Longrightarrow> dom m = dom out \<union> set raws"
proof (induction raws arbitrary: out taken)
  case (Cons raw raws)
  from resolve_names_step [OF Cons.prems] obtain n where
    "resolve_names pr dsID hash label raws (out(raw \<mapsto> n), n # taken) = Inr m" by blast
  from Cons.IH [OF this] show ?case by (auto split: if_splits)
qed simp

text \<open>Names that are not of last resort differ: no two tables of the source get the same.\<close>

lemma resolve_names_inj:
  assumes "resolve_names pr dsID hash label raws (out, taken) = Inr m" "distinct raws" "dom out \<inter> set raws = {}"
    and "ran out \<subseteq> set taken" "inj_on out (dom out)"
    and "\<forall>raw n. out raw = Some n \<longrightarrow> good_name pr dsID hash raw n"
    and "\<forall>raw n. m raw = Some n \<longrightarrow> n \<noteq> hash_name hash raw"
  shows "inj_on m (dom m)"
  using assms
proof (induction raws arbitrary: out taken)
  case (Cons raw raws)
  from resolve_names_step [OF Cons.prems(1)] obtain n where n: "good_name pr dsID hash raw n"
    "resolve_names pr dsID hash label raws (out(raw \<mapsto> n), n # taken) = Inr m"
    "n \<notin> set taken \<or> n = raw \<and> objectOwner pr raw = Inr (dsID, True) \<or> n = hash_name hash raw" by blast
  have raw: "m raw = Some n" using resolve_names_keeps [OF n(2), of raw] Cons.prems(2) by simp
  have new: "out r \<noteq> Some n" for r
  proof
    assume r: "out r = Some n"
    then have "r \<notin> set (raw # raws)" "n \<in> set taken" using Cons.prems(3,4) by (auto simp: ran_def)
    with resolve_names_keeps [OF n(2), of r] r have "m r = Some n" "r \<noteq> raw" by auto
    with Cons.prems(6,7) r have "n = r \<or> nameFree pr n = Inr True" by (auto simp: good_name_def)
    moreover from n(3) raw Cons.prems(7) \<open>n \<in> set taken\<close> have "n = raw" "objectOwner pr raw = Inr (dsID, True)" by auto
    ultimately show False using \<open>r \<noteq> raw\<close> by (auto simp: nameFree_def)
  qed
  show ?case
  proof (rule Cons.IH [OF n(2)])
    show "dom (out(raw \<mapsto> n)) \<inter> set raws = {}" using Cons.prems(2,3) by auto
    show "ran (out(raw \<mapsto> n)) \<subseteq> set (n # taken)" using Cons.prems(4) by (auto simp: ran_def)
    show "inj_on (out(raw \<mapsto> n)) (dom (out(raw \<mapsto> n)))"
      using Cons.prems(5) new by (auto simp: inj_on_def dom_def)
    show "\<forall>r x. (out(raw \<mapsto> n)) r = Some x \<longrightarrow> good_name pr dsID hash r x" using Cons.prems(6) n(1) by simp
  qed (use Cons.prems(2,7) in simp_all)
qed simp

lemma resolved_good:
  "ResolveCollisionFreeNames pr dsID hash label raws = Inr m \<Longrightarrow> m raw = Some n \<Longrightarrow> good_name pr dsID hash raw n"
  using resolve_names_good [of pr dsID hash "sanitizeLabel label" raws Map.empty "[]" m]
  by (simp add: ResolveCollisionFreeNames_def)

lemma resolved_dom: "ResolveCollisionFreeNames pr dsID hash label raws = Inr m \<Longrightarrow> dom m = set raws"
  using resolve_names_dom [of pr dsID hash "sanitizeLabel label" raws Map.empty "[]" m]
  by (simp add: ResolveCollisionFreeNames_def)

lemma resolved_inj:
  "ResolveCollisionFreeNames pr dsID hash label raws = Inr m \<Longrightarrow> distinct raws
    \<Longrightarrow> \<forall>raw n. m raw = Some n \<longrightarrow> n \<noteq> hash_name hash raw \<Longrightarrow> inj_on m (set raws)"
  using resolve_names_inj [of pr dsID hash "sanitizeLabel label" raws Map.empty "[]" m] resolved_dom [of pr dsID hash label raws m]
  by (simp add: ResolveCollisionFreeNames_def)

lemma hash_name_short: "length hash = 8 \<Longrightarrow> hash_name hash raw = truncToBytes raw 51 @ '' ('' @ hash @ '')''"
  using truncToBytes_length [of raw 51] by (simp add: hash_name_def fitIdent_short maxIdentBytes_def)

section \<open>The contract\<close>

text \<open>C16: When every probe is answered, each table of the source gets a name of at most 63 bytes (its own name, if the
  source owns the object of that name): the object of the source, a name that no object and no table of
  the project has, or the name of last resort. Where none is of last resort, they all differ.\<close>

lemma imported_names_are_free:
  assumes "ResolveCollisionFreeNames pr dsID hash label raws = Inr m" "distinct raws"
  shows "dom m = set raws
    \<and> (\<forall>raw n. m raw = Some n \<longrightarrow> n = raw \<and> objectOwner pr raw = Inr (dsID, True)
         \<or> length n \<le> 63 \<and> (np_object pr n = Inr None \<and> np_table pr n = Inr False \<or> n = hash_name hash raw))
    \<and> ((\<forall>raw n. m raw = Some n \<longrightarrow> n \<noteq> hash_name hash raw) \<longrightarrow> inj_on m (set raws))"
  using resolved_good [OF assms(1)] resolved_dom [OF assms(1)] resolved_inj [OF assms] hash_name_length [of hash]
  by (auto simp: good_name_def nameFree_True maxIdentBytes_def)

section \<open>Limits of the contract\<close>

lemma candidates_Cons:
  "candidates raw label = candidateName raw label 0 # candidateName raw label 1 # candidateName raw label 2
     # map (candidateName raw label) [3..<maxDecollideAttempts]"
proof -
  have "(2::nat) < maxDecollideAttempts" by (simp add: maxDecollideAttempts_def)
  then have "[0..<maxDecollideAttempts] = 0 # 1 # 2 # [3..<maxDecollideAttempts]"
    by (simp add: upt_conv_Cons numeral_2_eq_2 numeral_3_eq_3)
  then show ?thesis by (simp add: candidates_def)
qed

text \<open>A second import of the same source does not find the table it had given a suffix: its own object makes the
  name look taken, and the table is imported once more under the next suffix.\<close>

definition suffixed_probes :: name_probes where
  "suffixed_probes = \<lparr>np_object = (\<lambda>n. Inr (if n = ''Sales'' then Some (Some ''ds1'') else if n = ''Sales (b)'' then Some (Some ''ds2'') else None)),
     np_table = (\<lambda>n. Inr (n = ''Sales'' \<or> n = ''Sales (b)''))\<rparr>"

lemma demo_candidates:
  "candidateName ''Sales'' ''b'' 0 = ''Sales''" "candidateName ''Sales'' ''b'' (Suc 0) = ''Sales (b)''"
  "candidateName ''Sales'' ''b'' 2 = ''Sales (b 2)''" "sanitizeLabel ''b.csv'' = ''b''"
  by code_simp+

lemma suffixed_table_is_imported_again:
  "ResolveCollisionFreeNames suffixed_probes ''ds2'' hash ''b.csv'' [''Sales''] = Inr [''Sales'' \<mapsto> ''Sales (b 2)'']"
  by (simp add: ResolveCollisionFreeNames_def demo_candidates objectOwner_def candidates_Cons nameFree_def final_name_def
      suffixed_probes_def)

text \<open>A label of 24 runes of three bytes fills the identifier: the number of the attempt is cut off, and all
  further candidates are the same.\<close>

definition long_label :: string where
  "long_label = concat (replicate 24 (utf8 [229, 140, 151]))"

lemma long_labels_lose_the_number:
  "sanitizeLabel long_label = long_label"
  "candidateName ''Sales'' long_label 2 = candidateName ''Sales'' long_label 1"
  "candidateName ''Sales'' long_label 3 = candidateName ''Sales'' long_label 1"
  by code_simp+

lemma imported_names_are_free_witness:
  "length ''Sales (b 2)'' \<le> 63 \<and> (np_object suffixed_probes ''Sales (b 2)'' = Inr None \<or> ''Sales (b 2)'' = hash_name ''00'' ''Sales'')"
  using imported_names_are_free [OF suffixed_table_is_imported_again [of "''00''"]] by (auto dest: spec [of _ "''Sales''"])

end
