(* ===== verification/Import_Wizard.thy ===== *)
theory Import_Wizard
  imports Import_Names "HOL-Library.AList"
begin

text \<open>
  The wizard that lands the tables of a data source in the schema of its project (\<open>ingest/wizard\<close>,
  \<open>pbit/cleanup.go\<close>, \<open>postgres/fdw.go\<close>). A schema of the database is the list of its relations by name;
  \<open>fails\<close> says which statements fail for reasons of their own (connection, permission, resources), and a
  statement also fails where PostgreSQL refuses it: a relation cannot be moved or renamed to a name that the
  schema has, and \<open>DROP TABLE\<close> and \<open>DROP FOREIGN TABLE\<close> refuse a relation of the other kind.
\<close>

section \<open>Relations\<close>

datatype relation = BaseTable string | ForeignTable string string

fun is_base :: "relation \<Rightarrow> bool" where
  "is_base (BaseTable c) \<longleftrightarrow> True"
| "is_base (ForeignTable s c) \<longleftrightarrow> False"

fun on_server :: "string \<Rightarrow> relation \<Rightarrow> bool" where
  "on_server srv (BaseTable c) \<longleftrightarrow> False"
| "on_server srv (ForeignTable s c) \<longleftrightarrow> s = srv"

type_synonym relations = "(string \<times> relation) list"

datatype statement =
    LoadSource | LockProject | ListTables | ProbeObject string | ProbeTable string | BeginTx
  | CreateSchema | DropOld string | SetSchema string | RenameTo string | DropStaging
  | UpdateProject | UpdateSource | CommitTx
  | CreateExtension | DropServer | CreateServer | CreateMapping | DropImport | CreateImport | ImportForeign string

section \<open>Landing one relation\<close>

text \<open>The three statements for one relation: drop what has the final name, move, rename. What was done before an
  error stays done (a surrounding transaction undoes it).\<close>

definition land ::
  "(statement \<Rightarrow> bool) \<Rightarrow> (relation \<Rightarrow> bool) \<Rightarrow> string \<Rightarrow> string \<Rightarrow> relation \<Rightarrow> relations \<Rightarrow> relations \<times> string option" where
  "land fails kind orig final r rels =
     (if fails (DropOld final) \<or> (case map_of rels final of Some x \<Rightarrow> \<not> kind x | None \<Rightarrow> False)
      then (rels, Some ''drop'')
      else let rels1 = AList.delete final rels
      in if fails (SetSchema orig) \<or> map_of rels1 orig \<noteq> None then (rels1, Some ''move'')
         else if final = orig then ((orig, r) # rels1, None)
         else if fails (RenameTo final) then ((orig, r) # rels1, Some ''rename'')
         else ((final, r) # rels1, None))"

definition mapped_name :: "(string \<rightharpoonup> string) \<Rightarrow> string \<Rightarrow> string" where
  "mapped_name m t = (case m t of Some v \<Rightarrow> if v = [] then t else v | None \<Rightarrow> t)"

fun land_all ::
  "(statement \<Rightarrow> bool) \<Rightarrow> (relation \<Rightarrow> bool) \<Rightarrow> (string \<rightharpoonup> string) \<Rightarrow> relations \<Rightarrow> relations \<Rightarrow> relations \<times> string option" where
  "land_all fails kind m [] rels = (rels, None)"
| "land_all fails kind m ((t, r) # ts) rels =
     (case land fails kind t (mapped_name m t) r rels of
        (rels', Some e) \<Rightarrow> (rels', Some e)
      | (rels', None) \<Rightarrow> land_all fails kind m ts rels')"

text \<open>\<open>ORDER BY tablename\<close>: the base tables of a schema, or its foreign ones.\<close>

definition listed :: "(relation \<Rightarrow> bool) \<Rightarrow> relations \<Rightarrow> relations" where
  "listed kind rels = sort_key fst (filter (\<lambda>(n, r). kind r) rels)"

section \<open>Merging a staging schema\<close>

definition MergeStagingIntoFinalWithNames ::
  "(statement \<Rightarrow> bool) \<Rightarrow> relations option \<Rightarrow> (string \<rightharpoonup> string) \<Rightarrow> relations \<Rightarrow> string + relations" where
  "MergeStagingIntoFinalWithNames fails staging m rels =
     (if fails CreateSchema then Inl ''schema''
      else if fails ListTables then Inl ''list''
      else case land_all fails is_base m (listed is_base (case staging of Some st \<Rightarrow> st | None \<Rightarrow> [])) rels of
             (rels', Some e) \<Rightarrow> Inl e
           | (rels', None) \<Rightarrow> if fails DropStaging \<or> staging = None then Inl ''drop staging'' else Inr rels')"

text \<open>The merge without new names.\<close>

definition MergeStagingIntoFinal :: "(statement \<Rightarrow> bool) \<Rightarrow> relations option \<Rightarrow> relations \<Rightarrow> string + relations" where
  "MergeStagingIntoFinal fails staging rels = MergeStagingIntoFinalWithNames fails staging Map.empty rels"

section \<open>Sources\<close>

record WizardStateUpdate =
  wz_TableRoles :: "(string \<times> string) list"
  wz_ColumnRoles :: "(string \<times> (string \<times> string) list) list"
  wz_LinkDecisions :: "string list"

definition empty_wizard :: WizardStateUpdate where
  "empty_wizard = \<lparr>wz_TableRoles = [], wz_ColumnRoles = [], wz_LinkDecisions = []\<rparr>"

record data_source =
  ds_type :: string
  ds_project :: string
  ds_status :: string
  ds_label :: string
  ds_staging :: "string option"
  ds_wizard :: "WizardStateUpdate option"
  ds_updated :: nat

record collector_db =
  cd_sources :: "string \<rightharpoonup> data_source"
  cd_objects :: "string \<Rightarrow> string \<rightharpoonup> string option"
  cd_schemas :: "string \<rightharpoonup> relations"
  cd_lakehouse :: "string \<rightharpoonup> string"

definition schema_rels :: "collector_db \<Rightarrow> string \<Rightarrow> relations" where
  "schema_rels db s = (case cd_schemas db s of Some rels \<Rightarrow> rels | None \<Rightarrow> [])"

definition probes_of :: "(statement \<Rightarrow> bool) \<Rightarrow> collector_db \<Rightarrow> string \<Rightarrow> name_probes" where
  "probes_of fails db project =
     \<lparr>np_object = (\<lambda>n. if fails (ProbeObject n) then Inl ''object'' else Inr (cd_objects db project n)),
      np_table = (\<lambda>n. if fails (ProbeTable n) then Inl ''table''
                      else Inr (map_of (schema_rels db (SanitizeSchemaName project)) n \<noteq> None))\<rparr>"

definition complete_source :: "string \<Rightarrow> nat \<Rightarrow> string \<Rightarrow> collector_db \<Rightarrow> collector_db" where
  "complete_source dsID now project db =
     db\<lparr>cd_lakehouse := (cd_lakehouse db)(project \<mapsto> SanitizeSchemaName project),
        cd_sources := (case cd_sources db dsID of
                         Some ds \<Rightarrow> (cd_sources db)(dsID \<mapsto> ds\<lparr>ds_status := ''completed'', ds_updated := now\<rparr>)
                       | None \<Rightarrow> cd_sources db)\<rparr>"

definition finish_updates :: "(statement \<Rightarrow> bool) \<Rightarrow> string option" where
  "finish_updates fails =
     (if fails UpdateProject then Some ''update project'' else if fails UpdateSource then Some ''update status''
      else if fails CommitTx then Some ''commit'' else None)"

section \<open>External PostgreSQL\<close>

definition selectedPostgresTables :: "WizardStateUpdate \<Rightarrow> string list \<Rightarrow> string list" where
  "selectedPostgresTables ws catalog =
     (let out = map fst (filter (\<lambda>(t, role). role \<noteq> ''skip'' \<and> role \<noteq> []) (wz_TableRoles ws))
      in if out \<noteq> [] then out else catalog)"

definition last_dot_part :: "string \<Rightarrow> string" where
  "last_dot_part t = rev (takeWhile (\<lambda>c. c \<noteq> CHR ''.'') (rev t))"

definition serverName :: "string \<Rightarrow> string" where
  "serverName dsID = ''fdw_'' @ replace_char CHR ''-'' ''_'' dsID"

text \<open>The remote schema and name of a selected table.\<close>

definition remote_name :: "string \<Rightarrow> string \<times> string" where
  "remote_name t =
     (case split_first CHR ''.'' t of
        Some (s, n) \<Rightarrow> if s = [] then (''public'', t) else (s, n)
      | None \<Rightarrow> (''public'', t))"

text \<open>\<open>IMPORT FOREIGN SCHEMA\<close> per remote schema, in the order of the map (\<open>order\<close>): names the remote schema does
  not have are ignored, names the import schema has already are refused.\<close>

fun import_foreign ::
  "(statement \<Rightarrow> bool) \<Rightarrow> string \<Rightarrow> (string \<times> string) set \<Rightarrow> (string \<times> string) list \<Rightarrow> string list \<Rightarrow> relations
    \<Rightarrow> string + relations" where
  "import_foreign fails srv remote tables [] acc = Inr acc"
| "import_foreign fails srv remote tables (s # ss) acc =
     (let names = remdups (map snd (filter (\<lambda>(s', n). s' = s \<and> (s', n) \<in> remote) tables))
      in if fails (ImportForeign s) \<or> list_ex (\<lambda>n. map_of acc n \<noteq> None) names then Inl ''import''
         else import_foreign fails srv remote tables ss
                (acc @ map (\<lambda>n. (n, ForeignTable srv (s @ ''.'' @ n))) names))"

text \<open>None of these statements runs in a transaction. The result is the final schema and the error, if any.\<close>

definition SetupForeignSchema ::
  "(statement \<Rightarrow> bool) \<Rightarrow> (string list \<Rightarrow> string list) \<Rightarrow> (string \<times> string) set \<Rightarrow> string \<Rightarrow> string list \<Rightarrow> (string \<rightharpoonup> string)
    \<Rightarrow> relations \<Rightarrow> relations \<times> string option" where
  "SetupForeignSchema fails order remote dsID tables m rels =
     (let srv = serverName dsID;
          pairs = map remote_name tables;
          rels1 = filter (\<lambda>(n, r). \<not> on_server srv r) rels
      in if tables = [] then (rels, Some ''no tables'')
         else if fails CreateExtension then (rels, Some ''extension'')
         else if fails DropServer then (rels, Some ''drop server'')
         else if fails CreateServer then (rels1, Some ''server'')
         else if fails CreateMapping then (rels1, Some ''mapping'')
         else if fails CreateSchema then (rels1, Some ''schema'')
         else if fails DropImport then (rels1, Some ''drop import'')
         else if fails CreateImport then (rels1, Some ''create import'')
         else case import_foreign fails srv remote pairs (order (remdups (map fst pairs))) [] of
                Inl e \<Rightarrow> (rels1, Some e)
              | Inr imported \<Rightarrow>
                  if fails ListTables then (rels1, Some ''list'')
                  else land_all fails (\<lambda>r. \<not> is_base r) m (listed (\<lambda>r. \<not> is_base r) imported) rels1)"

section \<open>Confirming\<close>

datatype confirm_error = AlreadyCompleted | ConfirmFailed string

text \<open>Everything outside: failing statements, the digest of the source id, the time, the order of a map, whether the
  stored wizard state parses, the error of reopening an uploaded SQLite file, and the tables of the remote
  database (\<open>Inl\<close> when it cannot be reached).\<close>

record confirm_env =
  ce_fails :: "statement \<Rightarrow> bool"
  ce_hash :: string
  ce_now :: nat
  ce_order :: "string list \<Rightarrow> string list"
  ce_parses :: bool
  ce_sqlite :: "string option"
  ce_remote :: "string + (string \<times> string) list"

definition confirmPostgresFDW ::
  "confirm_env \<Rightarrow> string \<Rightarrow> data_source \<Rightarrow> WizardStateUpdate \<Rightarrow> collector_db \<Rightarrow> collector_db \<times> confirm_error option" where
  "confirmPostgresFDW env dsID ds ws db =
     (case ce_remote env of
        Inl e \<Rightarrow> (db, Some (ConfirmFailed e))
      | Inr catalog \<Rightarrow>
          (let tables = selectedPostgresTables ws (map (\<lambda>(s, n). s @ ''.'' @ n) catalog);
               schema = SanitizeSchemaName (ds_project ds)
           in if tables = [] then (db, Some (ConfirmFailed ''no tables selected''))
              else if ce_fails env LockProject then (db, Some (ConfirmFailed ''lock''))
              else case ResolveCollisionFreeNames (probes_of (ce_fails env) db (ds_project ds)) dsID (ce_hash env) (ds_label ds)
                          (map last_dot_part tables) of
                     Inl e \<Rightarrow> (db, Some (ConfirmFailed e))
                   | Inr m \<Rightarrow>
                       (case SetupForeignSchema (ce_fails env) (ce_order env) (set catalog) dsID tables m (schema_rels db schema) of
                          (rels, err) \<Rightarrow>
                            (let db1 = db\<lparr>cd_schemas := (cd_schemas db)(schema \<mapsto> rels)\<rparr>
                             in case err of
                                  Some e \<Rightarrow> (db1, Some (ConfirmFailed e))
                                | None \<Rightarrow>
                                    if ce_fails env BeginTx then (db1, Some (ConfirmFailed ''begin''))
                                    else case finish_updates (ce_fails env) of
                                           Some e \<Rightarrow> (db1, Some (ConfirmFailed e))
                                         | None \<Rightarrow> (complete_source dsID (ce_now env) (ds_project ds) db1, None)))))"

definition confirmStaged ::
  "confirm_env \<Rightarrow> string \<Rightarrow> data_source \<Rightarrow> string \<Rightarrow> collector_db \<Rightarrow> collector_db \<times> confirm_error option" where
  "confirmStaged env dsID ds staging db =
     (let schema = SanitizeSchemaName (ds_project ds)
      in if ce_fails env LockProject then (db, Some (ConfirmFailed ''lock''))
         else if ce_fails env ListTables then (db, Some (ConfirmFailed ''list''))
         else case ResolveCollisionFreeNames (probes_of (ce_fails env) db (ds_project ds)) dsID (ce_hash env) (ds_label ds)
                     (map fst (listed is_base (schema_rels db staging))) of
                Inl e \<Rightarrow> (db, Some (ConfirmFailed e))
              | Inr m \<Rightarrow>
                  if ce_fails env BeginTx then (db, Some (ConfirmFailed ''begin''))
                  else case MergeStagingIntoFinalWithNames (ce_fails env) (cd_schemas db staging) m (schema_rels db schema) of
                         Inl e \<Rightarrow> (db, Some (ConfirmFailed e))
                       | Inr rels \<Rightarrow>
                           (case finish_updates (ce_fails env) of
                              Some e \<Rightarrow> (db, Some (ConfirmFailed e))
                            | None \<Rightarrow>
                                (complete_source dsID (ce_now env) (ds_project ds)
                                   (db\<lparr>cd_schemas := ((cd_schemas db)(schema \<mapsto> rels))(staging := None)\<rparr>), None)))"

definition Confirm :: "confirm_env \<Rightarrow> string \<Rightarrow> collector_db \<Rightarrow> collector_db \<times> confirm_error option" where
  "Confirm env dsID db =
     (case (if ce_fails env LoadSource then None else cd_sources db dsID) of
        None \<Rightarrow> (db, Some (ConfirmFailed ''load''))
      | Some ds \<Rightarrow>
          if ds_status ds = ''completed'' then (db, Some AlreadyCompleted)
          else if \<not> ce_parses env then (db, Some (ConfirmFailed ''parse''))
          else if ds_type ds = ''postgres''
          then confirmPostgresFDW env dsID ds (case ds_wizard ds of Some ws \<Rightarrow> ws | None \<Rightarrow> empty_wizard) db
          else if ds_type ds = ''sqlite'' \<and> ce_sqlite env \<noteq> None then (db, Some (ConfirmFailed (the (ce_sqlite env))))
          else if ds_type ds \<notin> {''file'', ''pbi'', ''sqlite''} then (db, Some (ConfirmFailed ''unknown type''))
          else case ds_staging ds of
                 None \<Rightarrow> (db, Some (ConfirmFailed ''no staging''))
               | Some st \<Rightarrow> if st = [] then (db, Some (ConfirmFailed ''no staging'')) else confirmStaged env dsID ds st db)"

section \<open>The wizard\<close>

definition GetWizard :: "string \<Rightarrow> collector_db \<Rightarrow> WizardStateUpdate option" where
  "GetWizard dsID db =
     map_option (\<lambda>ds. case ds_wizard ds of Some ws \<Rightarrow> ws | None \<Rightarrow> empty_wizard) (cd_sources db dsID)"

definition UpdateWizard :: "nat \<Rightarrow> string \<Rightarrow> WizardStateUpdate \<Rightarrow> collector_db \<Rightarrow> collector_db" where
  "UpdateWizard now dsID ws db =
     db\<lparr>cd_sources := (case cd_sources db dsID of
          Some ds \<Rightarrow> (cd_sources db)(dsID \<mapsto> ds\<lparr>ds_wizard := Some ws, ds_updated := now, ds_status := ''wizard_in_progress''\<rparr>)
        | None \<Rightarrow> cd_sources db)\<rparr>"

definition SweepStaleOnBoot :: "nat \<Rightarrow> collector_db \<Rightarrow> collector_db" where
  "SweepStaleOnBoot now db =
     db\<lparr>cd_sources := (\<lambda>i. map_option (\<lambda>ds.
          if ds_status ds = ''wizard_in_progress'' \<and> ds_updated ds + 300 < now
          then ds\<lparr>ds_status := ''failed_resumable'', ds_updated := now\<rparr> else ds) (cd_sources db i))\<rparr>"

definition empty_update :: "WizardStateUpdate \<Rightarrow> bool" where
  "empty_update ws \<longleftrightarrow> wz_TableRoles ws = [] \<and> wz_ColumnRoles ws = [] \<and> wz_LinkDecisions ws = []"

text \<open>The confirm request: the decoded body, if any (\<open>saves\<close> says whether storing it succeeds), and the status of
  the reply.\<close>

definition handleConfirm :: "confirm_env \<Rightarrow> bool \<Rightarrow> WizardStateUpdate option \<Rightarrow> string \<Rightarrow> collector_db \<Rightarrow> collector_db \<times> nat" where
  "handleConfirm env saves body dsID db =
     (let stored = (case body of Some ws \<Rightarrow> \<not> empty_update ws | None \<Rightarrow> False);
          db1 = (if stored \<and> saves then UpdateWizard (ce_now env) dsID (the body) db else db)
      in if stored \<and> \<not> saves then (db, 500)
         else case Confirm env dsID db1 of
                (db2, None) \<Rightarrow> (db2, 200)
              | (db2, Some AlreadyCompleted) \<Rightarrow> (db2, 409)
              | (db2, Some (ConfirmFailed e)) \<Rightarrow> (db2, 500))"

end
