(* ===== verification/Import_Props.thy ===== *)
theory Import_Props
  imports Import_Wizard
begin

text \<open>
  What an import promises: the tables of other sources stay, a staged import is all or nothing. And what it
  does not: the name that avoids a collision is set after the move that collides.
\<close>

section \<open>Landing\<close>

lemma land_keeps:
  assumes "land fails kind orig f r rels = (rels', e)" "map_of rels n = Some x" "n \<noteq> f"
  shows "map_of rels' n = Some x"
  using assms by (auto simp: land_def Let_def delete_conv restrict_map_def split: if_splits option.splits)

lemma land_ok:
  "land fails kind orig f r rels = (rels', None) \<Longrightarrow> map_of rels' = (map_of rels)(f \<mapsto> r)"
  by (auto simp: land_def Let_def delete_conv restrict_map_def fun_eq_iff split: if_splits option.splits)

lemma land_all_keeps:
  "land_all fails kind m ts rels = (rels', e) \<Longrightarrow> map_of rels n = Some x \<Longrightarrow> n \<notin> mapped_name m ` fst ` set ts
    \<Longrightarrow> map_of rels' n = Some x"
proof (induction fails kind m ts rels rule: land_all.induct)
  case (2 fails kind m t r ts rels)
  then show ?case by (auto split: prod.splits option.splits dest: land_keeps)
qed simp

lemma land_all_ok:
  assumes "land_all fails kind m ts rels = (rels', None)" "distinct (map (mapped_name m \<circ> fst) ts)"
  shows "\<forall>(t, r) \<in> set ts. map_of rels' (mapped_name m t) = Some r"
  using assms
proof (induction fails kind m ts rels rule: land_all.induct)
  case (2 fails kind m t r ts rels)
  from 2(2) obtain rels1 where l: "land fails kind t (mapped_name m t) r rels = (rels1, None)"
    "land_all fails kind m ts rels1 = (rels', None)" by (auto split: prod.splits option.splits)
  have "map_of rels1 (mapped_name m t) = Some r" using land_ok [OF l(1)] by simp
  moreover have "mapped_name m t \<notin> mapped_name m ` fst ` set ts" using 2(3) by auto
  ultimately have "map_of rels' (mapped_name m t) = Some r" using land_all_keeps [OF l(2)] by blast
  moreover from 2(1) [OF l(1) [symmetric] refl l(2)] 2(3) have "\<forall>(t, r) \<in> set ts. map_of rels' (mapped_name m t) = Some r" by simp
  ultimately show ?case by simp
qed simp

lemma listed_set: "set (listed kind rels) = {x \<in> set rels. kind (snd x)}"
  by (auto simp: listed_def)

section \<open>Other tables stay\<close>

text \<open>The name a resolved table lands under, if the schema has it already.\<close>

lemma resolved_target:
  assumes "ResolveCollisionFreeNames (probes_of fails db p) dsID hash label raws = Inr m" "t \<in> set raws"
    and "map_of (schema_rels db (SanitizeSchemaName p)) (mapped_name m t) = Some r" "dsID \<noteq> []" "length hash = 8"
  shows "cd_objects db p (mapped_name m t) = Some (Some dsID) \<or> (\<exists>raw. mapped_name m t = hash_name hash raw)"
proof -
  from assms(2) resolved_dom [OF assms(1)] obtain n where n: "m t = Some n" by auto
  from resolved_good [OF assms(1) n] consider "n = t" "objectOwner (probes_of fails db p) t = Inr (dsID, True)"
    | "n \<noteq> []" "nameFree (probes_of fails db p) n = Inr True" | "n = hash_name hash t" by (auto simp: good_name_def)
  then show ?thesis
  proof cases
    case 1
    then have "mapped_name m t = t" using n by (simp add: mapped_name_def)
    moreover have "cd_objects db p t = Some (Some dsID)"
      using 1(2) assms(4) by (auto simp: objectOwner_def probes_of_def split: if_splits option.splits)
    ultimately show ?thesis by simp
  next
    case 2
    then have "mapped_name m t = n" using n by (simp add: mapped_name_def)
    with 2(2) assms(3) show ?thesis by (auto simp: nameFree_True probes_of_def split: if_splits)
  next
    case 3
    then have "n \<noteq> []" using hash_name_short [OF assms(5), of t] by simp
    with 3 n show ?thesis by (auto simp: mapped_name_def)
  qed
qed

lemma import_foreign_names:
  "import_foreign fails srv remote tables ss acc = Inr imported \<Longrightarrow> (n, r) \<in> set imported
    \<Longrightarrow> (n, r) \<in> set acc \<or> (\<exists>s. (s, n) \<in> set tables)"
  by (induction fails srv remote tables ss acc rule: import_foreign.induct)
    (fastforce simp: Let_def split: if_splits)+

text \<open>The base name of a selected table is its remote name, unless that has a dot.\<close>

lemma first_dot_Some: "split_first c t = Some (s, n) \<Longrightarrow> t = s @ c # n \<and> c \<notin> set s"
  by (induction c t arbitrary: s rule: split_first.induct) (auto split: if_splits option.splits)

lemma first_dot_None: "split_first c t = None \<Longrightarrow> c \<notin> set t"
  by (induction c t rule: split_first.induct) (auto split: if_splits option.splits)

lemma last_dot_part_whole: "CHR ''.'' \<notin> set t \<Longrightarrow> last_dot_part t = t"
proof -
  assume "CHR ''.'' \<notin> set t"
  then have "takeWhile (\<lambda>c. c \<noteq> CHR ''.'') (rev t) = rev t" unfolding takeWhile_eq_all_conv by auto
  then show ?thesis unfolding last_dot_part_def by (simp only: rev_rev_ident)
qed

lemma last_dot_part_tail: "CHR ''.'' \<notin> set n \<Longrightarrow> last_dot_part (s @ CHR ''.'' # n) = n"
proof -
  assume "CHR ''.'' \<notin> set n"
  then have "takeWhile (\<lambda>c. c \<noteq> CHR ''.'') (rev n @ CHR ''.'' # rev s) = rev n"
    by (subst takeWhile_append2) auto
  then show ?thesis by (simp add: last_dot_part_def)
qed

lemma remote_base:
  assumes "remote_name t = (s, n)" "CHR ''.'' \<notin> set n"
  shows "last_dot_part t = n"
proof (cases "split_first CHR ''.'' t")
  case None
  with assms(1) show ?thesis using last_dot_part_whole [OF first_dot_None] by (simp add: remote_name_def)
next
  case (Some p)
  obtain s0 n0 where p: "p = (s0, n0)" by (cases p)
  from first_dot_Some [of "CHR ''.''" t s0 n0] Some p have t: "t = s0 @ CHR ''.'' # n0" by simp
  with assms Some p have "n = n0" by (auto simp: remote_name_def split: if_splits)
  with t assms(2) show ?thesis by (simp add: last_dot_part_tail)
qed

lemma setup_keeps:
  assumes "SetupForeignSchema fails order remote dsID tables m rels = (rels', e)" "map_of rels n = Some r"
    and "\<not> on_server (serverName dsID) r" "n \<notin> mapped_name m ` snd ` remote_name ` set tables"
  shows "map_of rels' n = Some r"
proof -
  let ?srv = "serverName dsID"
  let ?rels1 = "filter (\<lambda>(n, r). \<not> on_server ?srv r) rels"
  have keep: "map_of ?rels1 n = Some r"
    using assms(2,3) by (induction rels) (auto split: if_splits)
  have "map_of rels' n = Some r"
    if imp: "import_foreign fails ?srv remote (map remote_name tables) (order (remdups (map fst (map remote_name tables)))) [] = Inr imported"
      and l: "land_all fails (\<lambda>r. \<not> is_base r) m (listed (\<lambda>r. \<not> is_base r) imported) ?rels1 = (rels', e)" for imported
  proof (rule land_all_keeps [OF l keep])
    have "fst ` set (listed (\<lambda>r. \<not> is_base r) imported) \<subseteq> snd ` remote_name ` set tables"
    proof
      fix x assume "x \<in> fst ` set (listed (\<lambda>r. \<not> is_base r) imported)"
      then obtain rx where "(x, rx) \<in> set imported" by (auto simp: listed_set)
      from import_foreign_names [OF imp this] obtain s where "(s, x) \<in> remote_name ` set tables" by auto
      then show "x \<in> snd ` remote_name ` set tables" by (metis imageI snd_conv)
    qed
    with assms(4) show "n \<notin> mapped_name m ` fst ` set (listed (\<lambda>r. \<not> is_base r) imported)" by blast
  qed
  with assms(1,2) keep show ?thesis
    by (auto simp: SetupForeignSchema_def Let_def split: if_splits sum.splits)
qed

lemma fdw_keeps:
  assumes "confirmPostgresFDW env dsID ds ws db = (db', err)" "dsID \<noteq> []" "length (ce_hash env) = 8"
    and "map_of (schema_rels db (SanitizeSchemaName (ds_project ds))) n = Some r"
    and "\<not> on_server (serverName dsID) r" "cd_objects db (ds_project ds) n \<noteq> Some (Some dsID)"
    and "\<forall>raw. n \<noteq> hash_name (ce_hash env) raw" "CHR ''.'' \<notin> set n"
  shows "map_of (schema_rels db' (SanitizeSchemaName (ds_project ds))) n = Some r"
proof -
  let ?schema = "SanitizeSchemaName (ds_project ds)"
  have "map_of rels n = Some r"
    if res: "ResolveCollisionFreeNames (probes_of (ce_fails env) db (ds_project ds)) dsID (ce_hash env) (ds_label ds)
              (map last_dot_part tables) = Inr m"
      and su: "SetupForeignSchema (ce_fails env) (ce_order env) remote dsID tables m (schema_rels db ?schema) = (rels, e)"
    for tables m remote rels e
  proof (rule setup_keeps [OF su assms(4,5)])
    show "n \<notin> mapped_name m ` snd ` remote_name ` set tables"
    proof
      assume "n \<in> mapped_name m ` snd ` remote_name ` set tables"
      then obtain t s x where t: "t \<in> set tables" "remote_name t = (s, x)" "n = mapped_name m x"
        by (auto simp: prod_eq_iff)
      show False
      proof (cases "x \<in> set (map last_dot_part tables)")
        case True
        from resolved_target [OF res True] assms(2-4,6,7) t(3) show False by auto
      next
        case False
        then have "m x = None" using resolved_dom [OF res] by (metis domIff)
        then have "n = x" using t(3) by (simp add: mapped_name_def)
        with remote_base [OF t(2)] assms(8) t(1) False show False by auto
      qed
    qed
  qed
  then show ?thesis using assms(1,4)
    by (auto simp: confirmPostgresFDW_def Let_def schema_rels_def complete_source_def
        split: sum.splits if_splits option.splits prod.splits)
qed

definition staged_tables :: "collector_db \<Rightarrow> string \<Rightarrow> relations" where
  "staged_tables db st = listed is_base (schema_rels db st)"

text \<open>What a confirmation of a staged source does, in one step.\<close>

lemma merge_staged:
  "MergeStagingIntoFinalWithNames fails (cd_schemas db st) m rels =
     (if fails CreateSchema then Inl ''schema''
      else if fails ListTables then Inl ''list''
      else case land_all fails is_base m (staged_tables db st) rels of
             (rels', Some e) \<Rightarrow> Inl e
           | (rels', None) \<Rightarrow> if fails DropStaging \<or> cd_schemas db st = None then Inl ''drop staging'' else Inr rels')"
  by (simp add: MergeStagingIntoFinalWithNames_def staged_tables_def schema_rels_def)

lemma staged_cases:
  assumes "confirmStaged env dsID ds st db = (db', err)"
  obtains e where "err = Some e" "db' = db"
  | m rels where "err = None"
      "ResolveCollisionFreeNames (probes_of (ce_fails env) db (ds_project ds)) dsID (ce_hash env) (ds_label ds)
         (map fst (staged_tables db st)) = Inr m"
      "land_all (ce_fails env) is_base m (staged_tables db st) (schema_rels db (SanitizeSchemaName (ds_project ds))) = (rels, None)"
      "db' = complete_source dsID (ce_now env) (ds_project ds)
         (db\<lparr>cd_schemas := ((cd_schemas db)(SanitizeSchemaName (ds_project ds) \<mapsto> rels))(st := None)\<rparr>)"
proof (cases "err = None")
  case False
  then obtain e where "err = Some e" by auto
  moreover from this have "db' = db"
    using assms by (simp add: confirmStaged_def Let_def split: sum.splits if_splits option.splits)
  ultimately show ?thesis by (rule that(1))
next
  case True
  then obtain m rels where "ResolveCollisionFreeNames (probes_of (ce_fails env) db (ds_project ds)) dsID (ce_hash env) (ds_label ds)
         (map fst (staged_tables db st)) = Inr m"
    and mg: "MergeStagingIntoFinalWithNames (ce_fails env) (cd_schemas db st) m (schema_rels db (SanitizeSchemaName (ds_project ds))) = Inr rels"
    and "db' = complete_source dsID (ce_now env) (ds_project ds)
         (db\<lparr>cd_schemas := ((cd_schemas db)(SanitizeSchemaName (ds_project ds) \<mapsto> rels))(st := None)\<rparr>)"
    using assms by (simp add: confirmStaged_def Let_def staged_tables_def [symmetric] split: sum.splits if_splits option.splits)
  moreover from mg have "land_all (ce_fails env) is_base m (staged_tables db st) (schema_rels db (SanitizeSchemaName (ds_project ds))) = (rels, None)"
    by (simp add: merge_staged split: if_splits option.splits prod.splits)
  ultimately show ?thesis using True that(2) by blast
qed

lemma complete_source_schemas [simp]: "cd_schemas (complete_source dsID now p db) = cd_schemas db"
  by (simp add: complete_source_def)

lemma staged_keeps:
  assumes "confirmStaged env dsID ds st db = (db', err)" "dsID \<noteq> []" "length (ce_hash env) = 8"
    and "st \<noteq> SanitizeSchemaName (ds_project ds)"
    and "map_of (schema_rels db (SanitizeSchemaName (ds_project ds))) n = Some r"
    and "cd_objects db (ds_project ds) n \<noteq> Some (Some dsID)" "\<forall>raw. n \<noteq> hash_name (ce_hash env) raw"
  shows "map_of (schema_rels db' (SanitizeSchemaName (ds_project ds))) n = Some r"
  using assms(1)
proof (cases rule: staged_cases)
  case (2 m rels)
  have "map_of rels n = Some r"
  proof (rule land_all_keeps [OF 2(3) assms(5)])
    show "n \<notin> mapped_name m ` fst ` set (staged_tables db st)"
      using resolved_target [OF 2(2)] assms(2,3,5-7) by fastforce
  qed
  with 2(4) assms(4) show ?thesis by (simp add: schema_rels_def)
qed (use assms(5) in simp)

lemma Confirm_cases:
  assumes "Confirm env dsID db = (db', err)" "cd_sources db dsID = Some ds"
  obtains e where "err = Some e" "db' = db"
  | ws where "ds_type ds = ''postgres''" "confirmPostgresFDW env dsID ds ws db = (db', err)"
  | st where "ds_type ds \<noteq> ''postgres''" "ds_staging ds = Some st" "confirmStaged env dsID ds st db = (db', err)"
  using assms by (auto simp: Confirm_def split: if_splits option.splits)

text \<open>C15: Whatever fails, an import leaves every table of the project as it is, unless it carries the name of an
  object the source owns, belongs to the foreign server of the source, has the name of last resort, or has a
  dot in its name.\<close>

lemma imports_keep_other_tables:
  assumes "Confirm env dsID db = (db', err)" "cd_sources db dsID = Some ds" "dsID \<noteq> []" "length (ce_hash env) = 8"
    and "ds_staging ds \<noteq> Some (SanitizeSchemaName (ds_project ds))"
    and "map_of (schema_rels db (SanitizeSchemaName (ds_project ds))) n = Some r"
  shows "map_of (schema_rels db' (SanitizeSchemaName (ds_project ds))) n = Some r
    \<or> cd_objects db (ds_project ds) n = Some (Some dsID) \<or> on_server (serverName dsID) r
    \<or> (\<exists>raw. n = hash_name (ce_hash env) raw) \<or> CHR ''.'' \<in> set n"
  using assms(1,2)
proof (cases rule: Confirm_cases)
  case (2 ws)
  from fdw_keeps [OF 2(2) assms(3,4,6)] show ?thesis by blast
next
  case (3 st)
  with assms(5) have "st \<noteq> SanitizeSchemaName (ds_project ds)" by simp
  from staged_keeps [OF 3(3) assms(3,4) this assms(6)] show ?thesis by blast
qed (use assms(6) in simp)

section \<open>All or nothing\<close>


section \<open>Examples\<close>

definition demo_cenv :: confirm_env where
  "demo_cenv = \<lparr>ce_fails = (\<lambda>s. False), ce_hash = ''00000000'', ce_now = 7, ce_order = (\<lambda>ss. ss), ce_parses = True,
     ce_sqlite = None, ce_remote = Inr []\<rparr>"

definition demo_source :: data_source where
  "demo_source = \<lparr>ds_type = ''file'', ds_project = ''p'', ds_status = ''wizard_in_progress'', ds_label = ''b.csv'',
     ds_staging = Some ''st'', ds_wizard = None, ds_updated = 0\<rparr>"

definition demo_cdb :: collector_db where
  "demo_cdb = \<lparr>cd_sources = [''ds2'' \<mapsto> demo_source], cd_objects = (\<lambda>p. Map.empty),
     cd_schemas = [''st'' \<mapsto> [(''Sales'', BaseTable ''new'')], ''proj_p'' \<mapsto> [(''Orders'', BaseTable ''old'')]],
     cd_lakehouse = Map.empty\<rparr>"

lemma demo_schema: "SanitizeSchemaName ''p'' = ''proj_p''"
  by code_simp

lemma hash_name_last: "length hash = 8 \<Longrightarrow> last (hash_name hash raw) = CHR '')''"
  by (simp add: hash_name_short)

lemma imports_keep_other_tables_witness:
  "map_of (schema_rels (fst (Confirm demo_cenv ''ds2'' demo_cdb)) ''proj_p'') ''Orders'' = Some (BaseTable ''old'')"
proof -
  have "''Orders'' \<noteq> hash_name ''00000000'' raw" for raw
  proof
    assume "''Orders'' = hash_name ''00000000'' raw"
    with hash_name_last [of "''00000000''" raw] have "last ''Orders'' = CHR '')''" by simp
    then show False by simp
  qed
  then show ?thesis
    using imports_keep_other_tables [of demo_cenv "''ds2''" demo_cdb _ _ demo_source "''Orders''" "BaseTable ''old''",
        OF prod.collapse [symmetric]]
    by (simp add: demo_cdb_def demo_source_def demo_cenv_def demo_schema schema_rels_def)
qed


section \<open>What an import does not do\<close>

text \<open>A table is moved under its staging name and renamed only then. So a table whose name the schema has cannot
  land under another name: the import fails in the very case the names are resolved for.\<close>

lemma land_collides: "map_of rels orig \<noteq> None \<Longrightarrow> f \<noteq> orig \<Longrightarrow> snd (land fails kind orig f r rels) \<noteq> None"
  by (auto simp: land_def Let_def delete_conv restrict_map_def)

lemma land_all_collides:
  "land_all fails kind m ts rels = (rels', None) \<Longrightarrow> (t, r) \<in> set ts \<Longrightarrow> map_of rels t \<noteq> None \<Longrightarrow> mapped_name m t = t"
proof (induction fails kind m ts rels rule: land_all.induct)
  case (2 fails kind m t' r' ts rels)
  from 2(2) obtain rels1 where l: "land fails kind t' (mapped_name m t') r' rels = (rels1, None)"
    "land_all fails kind m ts rels1 = (rels', None)" by (auto split: prod.splits option.splits)
  have "map_of rels1 t \<noteq> None" using land_ok [OF l(1)] 2(4) by simp
  with 2(1) [OF l(1) [symmetric] refl l(2)] 2(3,4) land_collides [of rels t' "mapped_name m t'" fails kind r'] l(1)
  show ?case by auto
qed simp

lemma suffixed_import_always_fails:
  assumes "confirmStaged env dsID ds st db = (db', err)" "(t, r) \<in> set (staged_tables db st)"
    and "map_of (schema_rels db (SanitizeSchemaName (ds_project ds))) t \<noteq> None"
    and "ResolveCollisionFreeNames (probes_of (ce_fails env) db (ds_project ds)) dsID (ce_hash env) (ds_label ds)
         (map fst (staged_tables db st)) = Inr m" "mapped_name m t \<noteq> t"
  shows "err \<noteq> None"
  using assms(1)
proof (cases rule: staged_cases)
  case (2 m' rels)
  with assms(4) have "m' = m" by simp
  with land_all_collides [OF 2(3) assms(2,3)] assms(5) show ?thesis by simp
qed simp

text \<open>The guard against a second confirmation looks at the status, which a body of the request resets first: the
  second request fails deep in the merge, and the completed source is left in progress.\<close>

lemma body_bypasses_the_guard:
  assumes "cd_sources db i = Some ds" "ds_status ds = ''completed''" "ds_type ds = ''file''" "ds_staging ds = Some st" "st \<noteq> []"
    and "cd_schemas db st = None" "ce_fails env = (\<lambda>s. False)" "ce_parses env" "\<not> empty_update ws"
  shows "handleConfirm env True None i db = (db, 409)"
    "snd (handleConfirm env True (Some ws) i db) = 500"
    "map_option ds_status (cd_sources (fst (handleConfirm env True (Some ws) i db)) i) = Some ''wizard_in_progress''"
proof -
  let ?db = "UpdateWizard (ce_now env) i ws db"
  let ?ds = "ds\<lparr>ds_wizard := Some ws, ds_updated := ce_now env, ds_status := ''wizard_in_progress''\<rparr>"
  show "handleConfirm env True None i db = (db, 409)"
    using assms by (simp add: handleConfirm_def Confirm_def)
  have s: "cd_sources ?db i = Some ?ds" "cd_schemas ?db st = None" using assms(1,6) by (simp_all add: UpdateWizard_def)
  have "ResolveCollisionFreeNames pr i h l [] = Inr Map.empty" for pr h l by (simp add: ResolveCollisionFreeNames_def)
  then have "confirmStaged env i ?ds st ?db = (?db, Some (ConfirmFailed ''drop staging''))"
    using s(2) assms(7) by (simp add: confirmStaged_def schema_rels_def listed_def MergeStagingIntoFinalWithNames_def Let_def)
  then have "Confirm env i ?db = (?db, Some (ConfirmFailed ''drop staging''))"
    using s(1) assms by (simp add: Confirm_def)
  then show "snd (handleConfirm env True (Some ws) i db) = 500"
    "map_option ds_status (cd_sources (fst (handleConfirm env True (Some ws) i db)) i) = Some ''wizard_in_progress''"
    using assms(9) s(1) by (simp_all add: handleConfirm_def)
qed

text \<open>Two remote schemas with a table of the same name cannot be imported together, and a remote name with a dot
  is looked up under another name than the one it was resolved by.\<close>

lemma same_name_in_two_schemas_fails:
  "import_foreign (\<lambda>s. False) ''fdw'' {(''a'', ''t''), (''b'', ''t'')} [(''a'', ''t''), (''b'', ''t'')] [''a'', ''b''] [] = Inl ''import''"
  by simp

lemma dotted_name_is_not_resolved: "remote_name ''a.x.y'' = (''a'', ''x.y'')" "last_dot_part ''a.x.y'' = ''y''"
  by code_simp+

end
