(* ===== verification/Spec2Isabelle.thy ===== *)
theory Spec2Isabelle
  imports Mission_Props Mission_Coverage Mission_Pointer Sql_Rewrite_Props Parse_Metric
    Query_Params_Props Query_Normalize Sql_Dense_Props Join_Resolver_Props Plan_Executor_Props
    Engine_Props Job_Queue_Props Job_Requests Client_Retry Service_Guards Mission_Turn Import_Props
begin

text \<open>
  Verification development of text2ontology, a system that answers questions in natural language
  over an ontology of business objects: an agent turns a question into a mission and into query
  specifications, and the query server turns a specification into SQL over the canonical queries of
  the objects. The development models the Go code of the shared packages (\<open>pkg/\<close>) and of the query
  server (\<open>services/lakehouse-sql-server/\<close>), in the order of the data flow.

  Parts of the program and how they interact:

  \<^item> A mission (\<open>pkg/mission\<close>) is a list of tasks with dependencies. The agent instantiates a template,
    applies mutations, asks \<open>PickActive\<close> for the next task, and gates the arguments of every dispatch.
  \<^item> SQL texts written by people or models (\<open>pkg/sqlrewrite\<close>) are screened (\<open>RejectDDL\<close>), capped
    (\<open>MaybeInjectLimit\<close>) and parametrised before they reach the database.
  \<^item> A structured query (\<open>smartquery\<close>) is normalised from decoded JSON, receives the hint and the
    parameters of an intent, and passes a pipeline of gates.
  \<^item> The lakehouse engine (\<open>lakehouse\<close>) resolves names against the catalog, aligns the canonical
    queries, finds the joins, builds the SQL text and runs it; the plan executor runs several queries
    as a graph of steps, with the engine as its runner.

  Theories and code:

  \<^item> \<open>Prelude\<close>: the Go functions on strings, JSON values, and the locales \<open>keyed_add\<close> (a list extended
    through a key) and \<open>status_machine\<close>. \<open>Regex\<close>: Go regular expressions, executable and as a matching
    relation. \<open>Go_Format\<close>: \<open>strconv\<close> and the verbs of \<open>fmt\<close>.
  \<^item> \<open>Mission_State\<close> (\<open>mission.go\<close>, \<open>statemachine.go\<close>, \<open>mutator.go\<close>, \<open>pick.go\<close>), \<open>Mission_Template\<close>
    (\<open>template.go\<close>, \<open>trivial.go\<close>), \<open>Mission_Coverage\<close> (\<open>coverage.go\<close>, \<open>reachability.go\<close>),
    \<open>Mission_Pointer\<close> (\<open>pointer.go\<close>); \<open>Mission_Inv\<close>, \<open>Mission_Live\<close> and \<open>Mission_Props\<close> hold the invariant,
    the progress argument and the properties.
  \<^item> \<open>Sql_Rewrite\<close>, \<open>Sql_Rewrite_Props\<close> (\<open>sqlrewrite.go\<close>) and \<open>Parse_Metric\<close> (\<open>parse_metric.go\<close>).
  \<^item> \<open>Query_Types\<close> (\<open>contracts/querySpec.go\<close>, property tokens of \<open>resolve.go\<close>), \<open>Query_Normalize\<close>
    (\<open>NormalizeQuerySpec\<close>), \<open>Query_Passes\<close> (\<open>intent_hint.go\<close>, \<open>pipeline.go\<close>), \<open>Query_Params\<close>
    (\<open>intent_params.go\<close>, \<open>intent_validate.go\<close>), each with a theory of properties.
  \<^item> \<open>Sql_Types\<close> and \<open>Sql_Filters\<close> (\<open>sql_builder.go\<close>), \<open>Sql_Dense\<close> (\<open>dense_sql.go\<close>),
    \<open>Join_Resolver\<close> (\<open>join_resolver.go\<close>), \<open>Column_Align\<close> (\<open>column_probe.go\<close>), \<open>Plan_Graph\<close> and
    \<open>Plan_Executor\<close> (\<open>plan_executor.go\<close>), with their theories of properties.

  How the state and the operations correspond: a struct is a record with a prefix per type, an error a
  constructor of an error type (the text of a message is not modelled, the values it is made from
  are), an early return a branch of a sum. A Go map that is only looked up is a function or an
  association list; where the code iterates over a map the order is a parameter and the theorems hold
  for every order. A database query, a language model and the JSON codec are parameters.

  Bounds and fuel: the star of a regular expression has the length of the text as fuel, every round
  consumes a byte; \<open>frac_digits\<close> has the denominator, which bounds the digits of a finite decimal;
  \<open>clean_loop\<close> is a partial function whose termination is a theorem; \<open>span_loop\<close> has one round per
  remaining object, and that this is enough is part of its theorem. All other loops are recursive
  functions with a measure.

  Not modelled: the HTTP handlers of the services, the web frontend, the import of files and
  databases, the recall and embedding services, logging and tracing. They are input and output around
  the modelled core, or calls of a language model or a database.
\<close>

end
